(* ===== verification/Prelude.thy ===== *)
theory Prelude
  imports Main "HOL-Library.AList" "HOL-Library.Sublist"
begin

text \<open>
  What the components share.

  \<^item> Go maps are association lists with one entry per key (\<open>'v gomap\<close>, keys are strings);
    \<open>map_of\<close> reads them, \<open>AList.update\<close> stores, \<open>AList.delete\<close> deletes.  Go leaves the
    order in which \<open>range\<close> visits a map unspecified: an operation that ranges over a map takes
    the visiting order as an argument (a list of keys), and the theorems hold for every order.
  \<^item> Results (\<open>'a result\<close>): an error or a panic with its message, or a value.
  \<^item> Go slices (\<open>slice\<close>): the visible elements and the rest of the backing array behind them,
    so that a loop over a slice that is shrunk in place while it runs can be modelled.
  \<^item> The functions of the Go package \<open>strings\<close> that the sources call, on \<open>string\<close> (lists of
    bytes; the case conversions are those of ASCII text).
  \<^item> Generic lemmas on these.
\<close>

named_theorems gomap_simps \<open>lookups in updated Go maps\<close>
named_theorems gostr_simps \<open>evaluation rules of the strings functions\<close>

section \<open>Go maps\<close>

type_synonym 'v gomap = "(string \<times> 'v) list"

abbreviation keys :: "'v gomap \<Rightarrow> string list" where
  "keys m \<equiv> map fst m"

definition wf_map :: "'v gomap \<Rightarrow> bool" where
  "wf_map m \<longleftrightarrow> distinct (keys m)"

text \<open>\<open>for k, v := range src { dst[k] = v }\<close>: the entries of \<open>src\<close> override those of \<open>dst\<close>.\<close>

fun copy_into :: "'v gomap \<Rightarrow> 'v gomap \<Rightarrow> 'v gomap" where
  "copy_into dst [] = dst"
| "copy_into dst ((k, v) # src) = copy_into (AList.update k v dst) src"

section \<open>Results\<close>

text \<open>A Go function that returns an error or panics gives \<open>Inl\<close>, with the message.\<close>

datatype gerr = Err string | Panic string

type_synonym 'a result = "gerr + 'a"

text \<open>\<open>errors.Wrap\<close>; a panic is not an error value and passes through.\<close>

fun wrap :: "string \<Rightarrow> gerr \<Rightarrow> gerr" where
  "wrap msg (Err m) = Err (msg @ '': '' @ m)"
| "wrap msg (Panic m) = Panic m"

section \<open>Go slices\<close>

record 'a slice =
  elems :: "'a list"
  spare :: "'a list"

definition empty_slice :: "'a slice" where
  "empty_slice = \<lparr>elems = [], spare = []\<rparr>"

text \<open>\<open>append(s, x)\<close>: writes behind the visible elements, in place when there is room.\<close>

definition slice_append :: "'a slice \<Rightarrow> 'a \<Rightarrow> 'a slice" where
  "slice_append s x = \<lparr>elems = elems s @ [x], spare = tl (spare s)\<rparr>"

text \<open>\<open>append(s[:i], s[i+1:]...)\<close>: shifts the tail left by one in place, so the backing array
  keeps a second copy of the last element behind the visible ones.\<close>

definition slice_remove :: "nat \<Rightarrow> 'a slice \<Rightarrow> 'a slice" where
  "slice_remove i s =
     \<lparr>elems = take i (elems s) @ drop (Suc i) (elems s),
      spare = (if elems s = [] then spare s else last (elems s) # spare s)\<rparr>"

text \<open>What a running \<open>range\<close> loop reads at index \<open>i\<close>: the backing array, whatever the visible
  length is by now.\<close>

definition slice_read :: "'a slice \<Rightarrow> nat \<Rightarrow> 'a option" where
  "slice_read s i =
     (if i < length (elems s @ spare s) then Some ((elems s @ spare s) ! i) else None)"

fun last_index :: "'a \<Rightarrow> 'a list \<Rightarrow> nat option" where
  "last_index x [] = None"
| "last_index x (y # ys) =
     (case last_index x ys of
        Some i \<Rightarrow> Some (Suc i)
      | None \<Rightarrow> if x = y then Some 0 else None)"

section \<open>The package strings\<close>

definition HasPrefix :: "string \<Rightarrow> string \<Rightarrow> bool" where
  "HasPrefix s p \<longleftrightarrow> take (length p) s = p"

definition HasSuffix :: "string \<Rightarrow> string \<Rightarrow> bool" where
  "HasSuffix s p \<longleftrightarrow> length p \<le> length s \<and> drop (length s - length p) s = p"

definition TrimPrefix :: "string \<Rightarrow> string \<Rightarrow> string" where
  "TrimPrefix s p = (if HasPrefix s p then drop (length p) s else s)"

definition TrimSuffix :: "string \<Rightarrow> string \<Rightarrow> string" where
  "TrimSuffix s p = (if HasSuffix s p then take (length s - length p) s else s)"

text \<open>\<open>strings.Split(s, sep)\<close> for a one-byte separator: never empty.\<close>

fun Split :: "char \<Rightarrow> string \<Rightarrow> string list" where
  "Split c [] = [[]]"
| "Split c (x # xs) =
     (if x = c then [] # Split c xs
      else (case Split c xs of [] \<Rightarrow> [[x]] | w # ws \<Rightarrow> (x # w) # ws))"

fun Join :: "string list \<Rightarrow> string \<Rightarrow> string" where
  "Join [] sep = []"
| "Join [w] sep = w"
| "Join (w # ws) sep = w @ sep @ Join ws sep"

definition is_space :: "char \<Rightarrow> bool" where
  "is_space c \<longleftrightarrow> c \<in> {CHR '' '', CHR 0x09, CHR 0x0A, CHR 0x0B, CHR 0x0C, CHR 0x0D}"

definition trim_with :: "(char \<Rightarrow> bool) \<Rightarrow> string \<Rightarrow> string" where
  "trim_with p s = rev (dropWhile p (rev (dropWhile p s)))"

definition TrimSpace :: "string \<Rightarrow> string" where
  "TrimSpace s = trim_with is_space s"

definition Trim :: "string \<Rightarrow> string \<Rightarrow> string" where
  "Trim s cutset = trim_with (\<lambda>c. c \<in> set cutset) s"

definition to_upper_char :: "char \<Rightarrow> char" where
  "to_upper_char c =
     (let n = of_char c :: nat in if 97 \<le> n \<and> n \<le> 122 then char_of (n - 32) else c)"

definition to_lower_char :: "char \<Rightarrow> char" where
  "to_lower_char c =
     (let n = of_char c :: nat in if 65 \<le> n \<and> n \<le> 90 then char_of (n + 32) else c)"

definition ToUpper :: "string \<Rightarrow> string" where
  "ToUpper s = map to_upper_char s"

definition ToLower :: "string \<Rightarrow> string" where
  "ToLower s = map to_lower_char s"

fun Contains :: "string \<Rightarrow> string \<Rightarrow> bool" where
  "Contains [] p \<longleftrightarrow> p = []"
| "Contains (x # xs) p \<longleftrightarrow> HasPrefix (x # xs) p \<or> Contains xs p"

text \<open>\<open>strings.ReplaceAll(s, old, new)\<close> for a one-byte \<open>old\<close>.\<close>

definition ReplaceAllChar :: "char \<Rightarrow> string \<Rightarrow> string \<Rightarrow> string" where
  "ReplaceAllChar c new s = concat (map (\<lambda>x. if x = c then new else [x]) s)"

section \<open>Lemmas on maps\<close>

lemma map_of_copy_into [gomap_simps]:
  "wf_map src \<Longrightarrow> map_of (copy_into dst src) = map_of dst ++ map_of src"
proof (induction dst src rule: copy_into.induct)
  case (1 dst)
  then show ?case by simp
next
  case (2 dst k v src)
  then have "wf_map src" and k: "k \<notin> set (keys src)"
    by (auto simp: wf_map_def)
  then have "map_of (copy_into dst ((k, v) # src)) = (map_of dst)(k \<mapsto> v) ++ map_of src"
    using 2 by (simp add: update_conv' fun_upd_def)
  also have "\<dots> = map_of dst ++ map_of ((k, v) # src)"
    using k by (auto simp: fun_eq_iff map_add_def dest: map_of_SomeD split: option.splits)
       (metis fst_conv image_eqI map_of_SomeD)+
  finally show ?case .
qed

lemma wf_map_update [simp, intro]: "wf_map m \<Longrightarrow> wf_map (AList.update k v m)"
  by (simp add: wf_map_def distinct_update)

lemma wf_map_delete [simp, intro]: "wf_map m \<Longrightarrow> wf_map (AList.delete k m)"
  by (simp add: wf_map_def distinct_delete)

lemma wf_map_map_entry [simp, intro]: "wf_map m \<Longrightarrow> wf_map (AList.map_entry k f m)"
  by (simp add: wf_map_def distinct_map_entry)

lemma wf_map_copy_into [simp, intro]: "wf_map dst \<Longrightarrow> wf_map (copy_into dst src)"
  by (induction dst src rule: copy_into.induct) auto

lemma wf_map_Nil [simp]: "wf_map []"
  by (simp add: wf_map_def)

lemma map_of_delete [gomap_simps]: "map_of (AList.delete k m) = (map_of m)(k := None)"
  by (rule delete_conv')

lemmas map_of_upd [gomap_simps] = update_conv'

lemma in_keys_iff: "k \<in> set (keys m) \<longleftrightarrow> map_of m k \<noteq> None"
  by (simp add: map_of_eq_None_iff)

section \<open>Lemmas on slices\<close>

lemma elems_slice_append [simp]: "elems (slice_append s x) = elems s @ [x]"
  by (simp add: slice_append_def)

lemma elems_slice_remove [simp]:
  "elems (slice_remove i s) = take i (elems s) @ drop (Suc i) (elems s)"
  by (simp add: slice_remove_def)

lemma elems_empty_slice [simp]: "elems empty_slice = []"
  by (simp add: empty_slice_def)

text \<open>Removing an element in place keeps the size of the backing array.\<close>

lemma length_backing_slice_remove:
  "i < length (elems s) \<Longrightarrow>
   length (elems (slice_remove i s) @ spare (slice_remove i s)) = length (elems s @ spare s)"
  by (auto simp: slice_remove_def)

lemma last_index_None [simp]: "last_index x xs = None \<longleftrightarrow> x \<notin> set xs"
  by (induction xs) (auto split: option.splits)

lemma last_index_SomeD: "last_index x xs = Some i \<Longrightarrow> i < length xs \<and> xs ! i = x"
  by (induction xs arbitrary: i) (auto split: option.splits if_splits)

lemma take_drop_remove1:
  assumes "distinct xs" and "i < length xs"
  shows "take i xs @ drop (Suc i) xs = remove1 (xs ! i) xs"
  using assms
proof (induction xs arbitrary: i)
  case Nil
  then show ?case by simp
next
  case (Cons x xs)
  then show ?case
    by (cases i) (auto simp: in_set_conv_nth)
qed

lemma slice_remove_last_index:
  "distinct (elems s) \<Longrightarrow> last_index x (elems s) = Some i \<Longrightarrow>
   elems (slice_remove i s) = remove1 x (elems s)"
  using take_drop_remove1 [of "elems s" i] last_index_SomeD [of x "elems s" i] by simp

text \<open>Splitting and joining.\<close>

lemma Split_no: "c \<notin> set s \<Longrightarrow> Split c s = [s]"
  by (induction c s rule: Split.induct) auto

lemma Split_not_Nil [simp]: "Split c s \<noteq> []"
  by (induction c s rule: Split.induct) (auto split: list.splits)

lemma Split_append: "c \<notin> set a \<Longrightarrow> Split c (a @ c # s) = a # Split c s"
  by (induction a) auto

lemma Split_Join:
  "xs \<noteq> [] \<Longrightarrow> (\<And>x. x \<in> set xs \<Longrightarrow> c \<notin> set x) \<Longrightarrow> Split c (Join xs [c]) = xs"
proof (induction xs "[c]" rule: Join.induct)
  case (3 x y xs)
  then show ?case by (simp add: Split_append)
qed (auto simp: Split_no)

lemma Split_elems: "x \<in> set (Split c s) \<Longrightarrow> c \<notin> set x"
  by (induction c s arbitrary: x rule: Split.induct) (auto split: list.splits if_splits)

lemma Join_Split: "Join (Split c s) [c] = s"
proof (induction c s rule: Split.induct)
  case (2 c x xs)
  obtain y ys where y: "Split c xs = y # ys" by (cases "Split c xs") auto
  show ?case using 2 y by (cases ys) auto
qed simp

lemma Join_eq_Nil [simp]: "Join xs [c] = [] \<longleftrightarrow> xs = [] \<or> xs = [[]]"
  by (cases "(xs, [c])" rule: Join.cases) auto

lemma Split_append': "Split c (a @ c # s) = Split c a @ Split c s"
  by (induction a) (auto split: list.splits)

end
