(* ===== verification/Leaf_Order.thy ===== *)
theory Leaf_Order
  imports Prelude
begin

text \<open>
  The interface between a dependency graph and the two loops that empty it leaf by leaf
  (\<open>NextFromTop\<close> of the graph itself and \<open>computeAutomaticFeatureOrder\<close> of the features): a graph
  offers a leaf below its root and takes a leaf away.  Under these laws the loop ends and visits
  every node below the root once, successors first.
\<close>

definition successors_first :: "('k \<times> 'k) set \<Rightarrow> 'k list \<Rightarrow> bool" where
  "successors_first E xs \<longleftrightarrow>
     (\<forall>pre a post b. xs = pre @ a # post \<longrightarrow> (a, b) \<in> E \<longrightarrow> b \<in> set pre)"

lemma successors_first_Nil [simp]: "successors_first E []"
  by (simp add: successors_first_def)

lemma successors_first_Cons:
  assumes "successors_first E' xs" and "\<And>b. (l, b) \<notin> E"
    and "\<And>a b. (a, b) \<in> E \<Longrightarrow> b \<noteq> l \<Longrightarrow> (a, b) \<in> E'"
  shows "successors_first E (l # xs)"
  unfolding successors_first_def
proof (intro allI impI)
  fix pre a post b
  assume split: "l # xs = pre @ a # post" and e: "(a, b) \<in> E"
  show "b \<in> set pre"
  proof (cases pre)
    case Nil
    with split e assms(2) show ?thesis by simp
  next
    case (Cons x pre')
    with split have "xs = pre' @ a # post" "x = l" by auto
    with assms(1,3) e Cons show ?thesis
      unfolding successors_first_def by (metis list.set_intros)
  qed
qed

text \<open>In the reversed list every node comes after its predecessors.\<close>

lemma successors_first_rev:
  assumes "successors_first E xs" and "rev xs = pre @ b # post"
    and "(a, b) \<in> E" and "a \<in> set xs" and "a \<noteq> b" and "distinct xs"
  shows "a \<in> set pre"
proof (rule ccontr)
  assume "a \<notin> set pre"
  have xs: "xs = rev post @ b # rev pre"
    using assms(2) by (metis append.assoc append_Cons append_Nil rev.simps(2) rev_append rev_rev_ident)
  with \<open>a \<notin> set pre\<close> assms(4,5) have "a \<in> set post" by auto
  then obtain p1 p2 where "rev post = p1 @ a # p2"
    by (metis set_rev split_list)
  with xs have "xs = p1 @ a # (p2 @ b # rev pre)" by simp
  with assms(1,3) have "b \<in> set p1" unfolding successors_first_def by blast
  with xs \<open>rev post = p1 @ a # p2\<close> assms(6) show False by auto
qed

text \<open>Cutting a set of nodes that is closed under successors leaves the other paths intact.\<close>

lemma trancl_without:
  assumes "(r, v) \<in> R\<^sup>+" and "v \<notin> D" and closed: "\<And>a b. a \<in> D \<Longrightarrow> (a, b) \<in> R \<Longrightarrow> b \<in> D"
  shows "(r, v) \<in> {(a, b) \<in> R. b \<notin> D}\<^sup>+"
  using assms(1,2)
proof (induction rule: trancl_induct)
  case (base y)
  then show ?case by (auto intro: r_into_trancl)
next
  case (step y z)
  then have "y \<notin> D" using closed by blast
  with step have "(r, y) \<in> {(a, b) \<in> R. b \<notin> D}\<^sup>+" by simp
  moreover have "(y, z) \<in> {(a, b) \<in> R. b \<notin> D}" using step by simp
  ultimately show ?case by (rule trancl_into_trancl)
qed

locale leaf_source =
  fixes inv :: "'g \<Rightarrow> bool"
    and root :: "'g \<Rightarrow> 'k"
    and E :: "'g \<Rightarrow> ('k \<times> 'k) set"
    and nodes :: "'g \<Rightarrow> 'k set"
    and next_leaf :: "'g \<Rightarrow> 'k option"
    and remove :: "'k \<Rightarrow> 'g \<Rightarrow> 'e + 'g"
  assumes finite_nodes: "inv g \<Longrightarrow> finite (nodes g)"
    and next_leaf: "inv g \<Longrightarrow>
      \<exists>l. next_leaf g = Some l \<and> l \<in> nodes g \<and> (root g, l) \<in> (E g)\<^sup>* \<and> (\<forall>b. (l, b) \<notin> E g)"
    and remove: "inv g \<Longrightarrow> l \<in> nodes g \<Longrightarrow> l \<noteq> root g \<Longrightarrow> (\<And>b. (l, b) \<notin> E g) \<Longrightarrow>
      \<exists>g'. remove l g = Inr g' \<and> inv g' \<and> root g' = root g \<and> nodes g' = nodes g - {l} \<and>
        E g' = {(a, b) \<in> E g. b \<noteq> l}"
begin

inductive empties :: "'g \<Rightarrow> 'k list \<Rightarrow> bool" where
  stop: "next_leaf g = Some (root g) \<Longrightarrow> empties g []"
| take: "next_leaf g = Some l \<Longrightarrow> l \<noteq> root g \<Longrightarrow> remove l g = Inr g' \<Longrightarrow> empties g' ls \<Longrightarrow>
    empties g (l # ls)"

lemma empties_exists:
  assumes "inv g"
  shows "\<exists>ls. empties g ls \<and> length ls \<le> card (nodes g)"
  using assms
proof (induction "card (nodes g)" arbitrary: g rule: less_induct)
  case less
  obtain l where l: "next_leaf g = Some l" "l \<in> nodes g" "\<And>b. (l, b) \<notin> E g"
    using next_leaf [OF less.prems] by blast
  show ?case
  proof (cases "l = root g")
    case True
    with l(1) have "empties g []" by (auto intro: stop)
    then show ?thesis by (intro exI [of _ "[]"]) simp
  next
    case False
    then obtain g' where g': "remove l g = Inr g'" "inv g'" "nodes g' = nodes g - {l}"
      using remove [OF less.prems l(2) False l(3)] by blast
    then have card: "card (nodes g') < card (nodes g)"
      using l(2) finite_nodes [OF less.prems] by (metis card_Diff1_less)
    then obtain ls where "empties g' ls" "length ls \<le> card (nodes g')"
      using less.hyps g'(2) by blast
    with card have "empties g (l # ls) \<and> length (l # ls) \<le> card (nodes g)"
      using take [OF l(1) False g'(1)] by auto
    then show ?thesis by blast
  qed
qed

lemma empties_order:
  assumes "empties g ls" and "inv g"
  shows "distinct ls \<and> set ls = {v. (root g, v) \<in> (E g)\<^sup>+} \<and> set ls \<subseteq> nodes g \<and>
    successors_first (E g) ls"
  using assms
proof (induction rule: empties.induct)
  case (stop g)
  then have none: "(root g, b) \<notin> E g" for b using next_leaf [OF stop(2)] by auto
  have "(root g, v) \<notin> (E g)\<^sup>+" for v
    using none by (metis tranclD)
  then show ?case by simp
next
  case (take g l g' ls)
  obtain leaf: "l \<in> nodes g" "\<And>b. (l, b) \<notin> E g" "(root g, l) \<in> (E g)\<^sup>*"
    using next_leaf [OF take.prems] take.hyps(1) by auto
  then have g': "inv g'" "root g' = root g" "nodes g' = nodes g - {l}"
      "E g' = {(a, b) \<in> E g. b \<noteq> l}"
    using remove [OF take.prems leaf(1) take.hyps(2) leaf(2)] take.hyps(3) by auto
  note IH = take.IH [OF g'(1)]
  have "(root g, v) \<in> (E g)\<^sup>+ \<longleftrightarrow> v = l \<or> (root g, v) \<in> (E g')\<^sup>+" for v
  proof -
    have "(root g, l) \<in> (E g)\<^sup>+" using leaf(3) take.hyps(2) by (metis rtranclD)
    moreover have "(E g')\<^sup>+ \<subseteq> (E g)\<^sup>+" by (intro trancl_mono_subset) (auto simp: g')
    ultimately show ?thesis
      using trancl_without [of "root g" v "E g" "{l}"] leaf(2) by (auto simp: g'(4))
  qed
  moreover have "successors_first (E g) (l # ls)"
    using IH leaf(2) by (intro successors_first_Cons [of "E g'"]) (auto simp: g')
  ultimately show ?case
    using IH leaf(1) by (auto simp: g')
qed

end

end
