(* ===== verification/Dep_Graph.thy ===== *)
theory Dep_Graph
  imports Leaf_Order
begin

text \<open>
  The dependency graph of \<^verbatim>\<open>pkg/devcontainer/graph/graph.go\<close>, used by the option resolver and by
  the feature installation order.

  A \<open>*Node\<close> pointer is represented by the node's ID: every pointer a graph holds (in \<open>Childs\<close>,
  \<open>Parents\<close>, \<open>Root\<close>) points to the node stored in \<open>Nodes\<close> under its ID, which is part of
  \<open>graph_wf\<close> and kept by every operation.  \<open>Childs\<close> is a slice with its backing array, because
  \<open>RemoveSubGraph\<close> ranges over a slice that the loop body shrinks in place.  Operations that
  return an error give \<open>Inl\<close>.  The recursions that only end on acyclic graphs (\<open>GetNextLeaf\<close>,
  \<open>RemoveSubGraph\<close>, the loop of \<open>NextFromTop\<close>) take fuel and give \<open>None\<close> when it runs out;
  the lemmas show that the number of nodes is always enough on a well-formed graph.
\<close>

section \<open>State and operations\<close>

record 'a node =
  node_ID :: string
  Data :: 'a
  Parents :: "string list"
  Childs :: "string slice"
  Done :: bool

record 'a graph =
  Nodes :: "(string \<times> 'a node) list"
  Root :: string
  item :: string

datatype graph_error =
    ParentMissing string
  | FromMissing string
  | ToMissing string
  | HasChildren string
  | NotInParent string
  | CyclicError string "string list"

definition NewNode :: "string \<Rightarrow> 'a \<Rightarrow> 'a node" where
  "NewNode i d = \<lparr>node_ID = i, Data = d, Parents = [], Childs = empty_slice, Done = False\<rparr>"

definition NewGraph :: "'a node \<Rightarrow> 'a graph" where
  "NewGraph root = \<lparr>Nodes = [(node_ID root, root)], Root = node_ID root, item = []\<rparr>"

definition NewGraphOf :: "'a node \<Rightarrow> string \<Rightarrow> 'a graph" where
  "NewGraphOf root it = \<lparr>Nodes = [(node_ID root, root)], Root = node_ID root, item = it\<rparr>"

definition node_at :: "'a graph \<Rightarrow> string \<Rightarrow> 'a node option" where
  "node_at g i = map_of (Nodes g) i"

definition childs :: "'a graph \<Rightarrow> string \<Rightarrow> string list" where
  "childs g i = (case node_at g i of None \<Rightarrow> [] | Some n \<Rightarrow> elems (Childs n))"

definition parents :: "'a graph \<Rightarrow> string \<Rightarrow> string list" where
  "parents g i = (case node_at g i of None \<Rightarrow> [] | Some n \<Rightarrow> Parents n)"

definition upd_node :: "string \<Rightarrow> ('a node \<Rightarrow> 'a node) \<Rightarrow> 'a graph \<Rightarrow> 'a graph" where
  "upd_node i f g = g\<lparr>Nodes := AList.map_entry i f (Nodes g)\<rparr>"

text \<open>The copy has the same nodes and edges, and no node of it is done.\<close>

definition clone_node :: "'a node \<Rightarrow> 'a node" where
  "clone_node n =
     (NewNode (node_ID n) (Data n))
       \<lparr>Childs := \<lparr>elems = elems (Childs n), spare = []\<rparr>, Parents := Parents n\<rparr>"

definition Clone :: "'a graph \<Rightarrow> 'a graph" where
  "Clone g = g\<lparr>Nodes := map (\<lambda>(k, n). (k, clone_node n)) (Nodes g)\<rparr>"

text \<open>The search for a path: \<open>isVisited\<close> holds the nodes of the current path, \<open>localPathList\<close> the
  path itself.  The second function is the loop over the children of \<open>u\<close>.\<close>

definition drop_last_occ :: "string \<Rightarrow> string list \<Rightarrow> string list" where
  "drop_last_occ c p =
     (case last_index c p of None \<Rightarrow> p | Some i \<Rightarrow> take i p @ drop (Suc i) p)"

fun findFirstPathRecursive ::
    "nat \<Rightarrow> 'a graph \<Rightarrow> string \<Rightarrow> string \<Rightarrow> string set \<Rightarrow> string list \<Rightarrow>
     (bool \<times> string set \<times> string list) option"
  and findFirstPathChilds ::
    "nat \<Rightarrow> 'a graph \<Rightarrow> string list \<Rightarrow> string \<Rightarrow> string \<Rightarrow> string set \<Rightarrow> string list \<Rightarrow>
     (bool \<times> string set \<times> string list) option" where
  "findFirstPathRecursive 0 g u d vis path = None"
| "findFirstPathRecursive (Suc f) g u d vis path =
     (if u = d then Some (True, insert u vis, path)
      else findFirstPathChilds f g (childs g u) u d (insert u vis) path)"
| "findFirstPathChilds f g [] u d vis path = Some (False, vis - {u}, path)"
| "findFirstPathChilds f g (c # cs) u d vis path =
     (if c \<in> vis then findFirstPathChilds f g cs u d vis path
      else (case findFirstPathRecursive f g c d vis (path @ [c]) of
              None \<Rightarrow> None
            | Some (True, vis', path') \<Rightarrow> Some (True, vis', path')
            | Some (False, vis', path') \<Rightarrow>
                findFirstPathChilds f g cs u d vis' (drop_last_occ c path')))"

definition search_fuel :: "'a graph \<Rightarrow> nat" where
  "search_fuel g = Suc (Suc (length (Nodes g)))"

definition findFirstPath :: "'a graph \<Rightarrow> string \<Rightarrow> string \<Rightarrow> string list option" where
  "findFirstPath g from to =
     (case findFirstPathRecursive (search_fuel g) g from to {} [from] of
        Some (True, _, path) \<Rightarrow> Some path
      | _ \<Rightarrow> None)"

text \<open>The two appends that store an edge.\<close>

definition link :: "string \<Rightarrow> string \<Rightarrow> 'a graph \<Rightarrow> 'a graph" where
  "link fromID toID g =
     upd_node toID (\<lambda>n. n\<lparr>Parents := Parents n @ [fromID]\<rparr>)
       (upd_node fromID (\<lambda>n. n\<lparr>Childs := slice_append (Childs n) toID\<rparr>) g)"

definition AddEdge :: "string \<Rightarrow> string \<Rightarrow> 'a graph \<Rightarrow> graph_error + 'a graph" where
  "AddEdge fromID toID g =
     (case node_at g fromID of
        None \<Rightarrow> Inl (FromMissing fromID)
      | Some from \<Rightarrow>
          (case node_at g toID of
             None \<Rightarrow> Inl (ToMissing toID)
           | Some to \<Rightarrow>
               if node_ID to \<in> set (elems (Childs from)) then Inr g
               else (case findFirstPath g toID fromID of
                       Some path \<Rightarrow> Inl (CyclicError (item g) path)
                     | None \<Rightarrow> Inr (link fromID toID g))))"

definition AddChild :: "string \<Rightarrow> string \<Rightarrow> 'a graph \<Rightarrow> graph_error + 'a graph" where
  "AddChild parentID childID g = AddEdge parentID childID g"

text \<open>\<open>CyclicError.Error\<close>; \<open>None\<close> is the panic on an empty path.\<close>

definition cyclic_error_message :: "string \<Rightarrow> string list \<Rightarrow> string option" where
  "cyclic_error_message what path =
     (if path = [] then None
      else Some (''cyclic '' @ (if what \<noteq> [] then what else ''dependency'') @ '' found: '' @
                 [CHR 0x0A] @ Join (last path # path) [CHR 0x0A]))"

text \<open>Storing a new node without edges.\<close>

definition add_node :: "string \<Rightarrow> 'a \<Rightarrow> 'a graph \<Rightarrow> 'a graph" where
  "add_node i d g = g\<lparr>Nodes := AList.update i (NewNode i d) (Nodes g)\<rparr>"

definition InsertNodeAt ::
    "string \<Rightarrow> string \<Rightarrow> 'a \<Rightarrow> 'a graph \<Rightarrow> graph_error + ('a graph \<times> string)" where
  "InsertNodeAt parentID i d g =
     (case node_at g parentID of
        None \<Rightarrow> Inl (ParentMissing parentID)
      | Some parent \<Rightarrow>
          (case node_at g i of
             Some existing \<Rightarrow>
               (case AddEdge (node_ID parent) (node_ID existing) g of
                  Inl e \<Rightarrow> Inl e
                | Inr g' \<Rightarrow> Inr (g', node_ID existing))
           | None \<Rightarrow>
               Inr (link parentID i (add_node i d g), i)))"

text \<open>The loop of \<open>RemoveNode\<close> over the node's parents.\<close>

fun removeFromParents :: "string \<Rightarrow> string list \<Rightarrow> 'a graph \<Rightarrow> graph_error + 'a graph" where
  "removeFromParents i [] g = Inr g"
| "removeFromParents i (p # ps) g =
     (case last_index i (childs g p) of
        None \<Rightarrow> Inl (NotInParent i)
      | Some k \<Rightarrow>
          removeFromParents i ps (upd_node p (\<lambda>n. n\<lparr>Childs := slice_remove k (Childs n)\<rparr>) g))"

definition RemoveNode :: "string \<Rightarrow> 'a graph \<Rightarrow> graph_error + 'a graph" where
  "RemoveNode i g =
     (case node_at g i of
        None \<Rightarrow> Inr g
      | Some n \<Rightarrow>
          if elems (Childs n) \<noteq> [] then Inl (HasChildren (node_ID n))
          else (case removeFromParents i (Parents n) g of
                  Inl e \<Rightarrow> Inl e
                | Inr g' \<Rightarrow> Inr (g'\<lparr>Nodes := AList.delete i (Nodes g')\<rparr>)))"

text \<open>\<open>RemoveSubGraph\<close>: the \<open>range\<close> loop fixes the slice header (and so the number \<open>n\<close> of
  iterations) when it starts and reads the backing array at every iteration.\<close>

fun RemoveSubGraph :: "nat \<Rightarrow> string \<Rightarrow> 'a graph \<Rightarrow> (graph_error + 'a graph) option"
  and RemoveChilds :: "nat \<Rightarrow> string \<Rightarrow> nat \<Rightarrow> nat \<Rightarrow> 'a graph \<Rightarrow> (graph_error + 'a graph) option"
where
  "RemoveSubGraph 0 i g = None"
| "RemoveSubGraph (Suc f) i g =
     (case node_at g i of
        None \<Rightarrow> Some (Inr g)
      | Some n \<Rightarrow>
          (case RemoveChilds f i (length (elems (Childs n))) 0 g of
             None \<Rightarrow> None
           | Some (Inl e) \<Rightarrow> Some (Inl e)
           | Some (Inr g') \<Rightarrow> Some (RemoveNode i g')))"
| "RemoveChilds f i 0 k g = Some (Inr g)"
| "RemoveChilds f i (Suc m) k g =
     (case Option.bind (node_at g i) (\<lambda>n. slice_read (Childs n) k) of
        None \<Rightarrow> Some (Inr g)
      | Some c \<Rightarrow>
          (case RemoveSubGraph f c g of
             None \<Rightarrow> None
           | Some (Inl e) \<Rightarrow> Some (Inl e)
           | Some (Inr g') \<Rightarrow> RemoveChilds f i m (Suc k) g'))"

fun GetNextLeaf :: "nat \<Rightarrow> 'a graph \<Rightarrow> string \<Rightarrow> string option" where
  "GetNextLeaf 0 g start = None"
| "GetNextLeaf (Suc f) g start =
     (case childs g start of [] \<Rightarrow> Some start | c # _ \<Rightarrow> GetNextLeaf f g c)"

definition leaf_fuel :: "'a graph \<Rightarrow> nat" where
  "leaf_fuel g = Suc (length (Nodes g))"

text \<open>The loop of \<open>NextFromTop\<close> that empties the copy leaf by leaf.\<close>

fun takeLeaves :: "nat \<Rightarrow> 'a graph \<Rightarrow> string list \<Rightarrow> (graph_error + string list) option" where
  "takeLeaves 0 g acc = None"
| "takeLeaves (Suc f) g acc =
     (case GetNextLeaf (leaf_fuel g) g (Root g) of
        None \<Rightarrow> None
      | Some leaf \<Rightarrow>
          if leaf = Root g then Some (Inr acc)
          else (case RemoveNode leaf g of
                  Inl e \<Rightarrow> Some (Inl e)
                | Inr g' \<Rightarrow> takeLeaves f g' (acc @ [leaf])))"

fun firstNotDone :: "'a graph \<Rightarrow> string list \<Rightarrow> string option" where
  "firstNotDone g [] = None"
| "firstNotDone g (i # is) =
     (case node_at g i of
        None \<Rightarrow> firstNotDone g is
      | Some n \<Rightarrow> if Done n then firstNotDone g is else Some i)"

text \<open>\<open>NextFromTop\<close>: the outer option is divergence, the inner one the nil pointer.\<close>

definition NextFromTop :: "'a graph \<Rightarrow> ('a graph \<times> string option) option" where
  "NextFromTop g =
     (case takeLeaves (leaf_fuel g) (Clone g) [] of
        None \<Rightarrow> None
      | Some (Inl e) \<Rightarrow> Some (g, None)
      | Some (Inr orderedOptions) \<Rightarrow>
          (case firstNotDone g (rev orderedOptions) of
             None \<Rightarrow> Some (g, None)
           | Some i \<Rightarrow> Some (upd_node i (\<lambda>n. n\<lparr>Done := True\<rparr>) g, Some i)))"

section \<open>Well-formed graphs\<close>

definition edges :: "'a graph \<Rightarrow> (string \<times> string) set" where
  "edges g = {(a, b). b \<in> set (childs g a)}"

definition graph_nodes :: "'a graph \<Rightarrow> string set" where
  "graph_nodes g = set (keys (Nodes g))"

definition graph_wf :: "'a graph \<Rightarrow> bool" where
  "graph_wf g \<longleftrightarrow>
     wf_map (Nodes g) \<and>
     (\<forall>k n. node_at g k = Some n \<longrightarrow> node_ID n = k) \<and>
     Root g \<in> graph_nodes g \<and>
     (\<forall>a. distinct (childs g a) \<and> distinct (parents g a)) \<and>
     (\<forall>a b. b \<in> set (childs g a) \<longleftrightarrow> a \<in> set (parents g b)) \<and>
     (\<forall>a. set (childs g a) \<subseteq> graph_nodes g) \<and>
     acyclic (edges g)"

text \<open>Every node can be reached from the root.\<close>

definition rooted :: "'a graph \<Rightarrow> bool" where
  "rooted g \<longleftrightarrow> (\<forall>k \<in> graph_nodes g. (Root g, k) \<in> (edges g)\<^sup>*)"

subsection \<open>Reading an updated graph\<close>

lemma graph_nodes_iff: "k \<in> graph_nodes g \<longleftrightarrow> node_at g k \<noteq> None"
  by (simp add: graph_nodes_def node_at_def in_keys_iff del: not_None_eq set_map)

lemma finite_graph_nodes [simp]: "finite (graph_nodes g)"
  by (simp add: graph_nodes_def)

lemma card_graph_nodes: "card (graph_nodes g) \<le> length (Nodes g)"
  unfolding graph_nodes_def by (metis card_length length_map)

lemma node_at_upd_node [simp]:
  "node_at (upd_node i f g) j = (if i = j then map_option f (node_at g j) else node_at g j)"
  by (auto simp: node_at_def upd_node_def AList.map_of_map_entry split: option.splits)

lemma graph_nodes_upd_node [simp]: "graph_nodes (upd_node i f g) = graph_nodes g"
  by (auto simp: graph_nodes_iff split: if_splits)

lemma upd_node_sel [simp]:
  "Root (upd_node i f g) = Root g" "item (upd_node i f g) = item g"
  by (simp_all add: upd_node_def)

lemma keys_upd_node: "keys (Nodes (upd_node i f g)) = keys (Nodes g)"
proof -
  have "keys (AList.map_entry i f m) = keys m" for m :: "(string \<times> 'a node) list"
    by (induction m) auto
  then show ?thesis by (simp add: upd_node_def)
qed

lemma wf_map_upd_node [simp]: "wf_map (Nodes (upd_node i f g)) = wf_map (Nodes g)"
  unfolding wf_map_def keys_upd_node ..

lemma edges_iff [simp]: "(a, b) \<in> edges g \<longleftrightarrow> b \<in> set (childs g a)"
  by (simp add: edges_def)

lemma childs_None [simp]: "node_at g a = None \<Longrightarrow> childs g a = []"
  by (simp add: childs_def)

lemma childs_Some [simp]: "node_at g a = Some n \<Longrightarrow> childs g a = elems (Childs n)"
  by (simp add: childs_def)

lemma parents_None [simp]: "node_at g a = None \<Longrightarrow> parents g a = []"
  by (simp add: parents_def)

lemma parents_Some [simp]: "node_at g a = Some n \<Longrightarrow> parents g a = Parents n"
  by (simp add: parents_def)

lemma graph_wfD:
  assumes "graph_wf g"
  shows "wf_map (Nodes g)"
    and "node_at g k = Some n \<Longrightarrow> node_ID n = k"
    and "Root g \<in> graph_nodes g"
    and "distinct (childs g a)" and "distinct (parents g a)"
    and "b \<in> set (childs g a) \<longleftrightarrow> a \<in> set (parents g b)"
    and "b \<in> set (childs g a) \<Longrightarrow> b \<in> graph_nodes g"
    and "acyclic (edges g)"
  using assms unfolding graph_wf_def by blast+

lemma childs_in_nodes: "b \<in> set (childs g a) \<Longrightarrow> a \<in> graph_nodes g"
  by (cases "node_at g a") (auto simp: graph_nodes_iff)

lemma parents_in_nodes: "b \<in> set (parents g a) \<Longrightarrow> a \<in> graph_nodes g"
  by (cases "node_at g a") (auto simp: graph_nodes_iff)

lemma graph_wf_irrefl: "graph_wf g \<Longrightarrow> a \<notin> set (childs g a)"
  using graph_wfD(8) [of g] unfolding acyclic_def by (meson edges_iff r_into_trancl')

lemma edges_subset: "graph_wf g \<Longrightarrow> edges g \<subseteq> graph_nodes g \<times> graph_nodes g"
  using graph_wfD(7) [of g] childs_in_nodes [of _ g] by (auto simp: edges_def)

lemma finite_edges: "graph_wf g \<Longrightarrow> finite (edges g)"
  using finite_subset [OF edges_subset] by simp

subsection \<open>The path search\<close>

text \<open>A walk: every element of the list is a child of the one before.\<close>

fun is_walk :: "'a graph \<Rightarrow> string \<Rightarrow> string list \<Rightarrow> string \<Rightarrow> bool" where
  "is_walk g u [] d \<longleftrightarrow> u = d"
| "is_walk g u (c # p) d \<longleftrightarrow> c \<in> set (childs g u) \<and> is_walk g c p d"

lemma is_walk_rtrancl: "is_walk g u p d \<Longrightarrow> (u, d) \<in> (edges g)\<^sup>*"
  by (induction p arbitrary: u) (auto intro: converse_rtrancl_into_rtrancl)

lemma is_walk_append: "is_walk g u (p @ q) d \<longleftrightarrow> (\<exists>v. is_walk g u p v \<and> is_walk g v q d)"
  by (induction p arbitrary: u) auto

text \<open>The edges that lead outside a set of visited nodes.\<close>

definition avoiding :: "'a graph \<Rightarrow> string set \<Rightarrow> (string \<times> string) set" where
  "avoiding g V = {(a, b) \<in> edges g. b \<notin> V}"

lemma avoiding_restart:
  assumes "(c, d) \<in> (avoiding g V)\<^sup>*"
  shows "(c, d) \<in> (avoiding g (insert c V))\<^sup>*"
  using assms
proof (induction rule: rtrancl_induct)
  case base
  then show ?case by simp
next
  case (step y z)
  show ?case
  proof (cases "z = c")
    case True
    then show ?thesis by simp
  next
    case False
    with step.hyps(2) have "(y, z) \<in> avoiding g (insert c V)"
      by (auto simp: avoiding_def)
    with step.IH show ?thesis by (rule rtrancl_into_rtrancl)
  qed
qed

lemma avoiding_split:
  assumes "(u, d) \<in> (avoiding g (insert u V))\<^sup>*" and "u \<noteq> d"
  shows "\<exists>c \<in> set (childs g u). c \<notin> insert u V \<and> (c, d) \<in> (avoiding g (insert c (insert u V)))\<^sup>*"
proof -
  from assms obtain c where "(u, c) \<in> avoiding g (insert u V)"
    and "(c, d) \<in> (avoiding g (insert u V))\<^sup>*"
    by (meson converse_rtranclE)
  moreover have "(c, d) \<in> (avoiding g (insert c (insert u V)))\<^sup>*"
    using calculation(2) by (rule avoiding_restart)
  ultimately show ?thesis by (auto simp: avoiding_def)
qed

lemma drop_last_occ_snoc [simp]: "drop_last_occ c (p @ [c]) = p"
proof -
  have "last_index c (p @ [c]) = Some (length p)"
    by (induction p) auto
  then show ?thesis by (simp add: drop_last_occ_def)
qed

lemma card_minus_visited:
  "u \<in> graph_nodes g \<Longrightarrow> u \<notin> V \<Longrightarrow>
   card (graph_nodes g - insert u V) < card (graph_nodes g - V)"
  by (rule psubset_card_mono) auto

text \<open>What one call of the search does, and what its loop does, given enough fuel: it restores
  the visited set and the path when it fails, and then no path avoids the visited nodes; it
  extends the path by a walk to the destination when it succeeds.\<close>

fun call_ok :: "'a graph \<Rightarrow> string \<Rightarrow> string \<Rightarrow> string set \<Rightarrow> string list \<Rightarrow>
    (bool \<times> string set \<times> string list) option \<Rightarrow> bool" where
  "call_ok g u d vis path None \<longleftrightarrow> False"
| "call_ok g u d vis path (Some (True, vis', path')) \<longleftrightarrow> (\<exists>p. path' = path @ p \<and> is_walk g u p d)"
| "call_ok g u d vis path (Some (False, vis', path')) \<longleftrightarrow>
     vis' = vis \<and> path' = path \<and> (u, d) \<notin> (avoiding g (insert u vis))\<^sup>*"

fun loop_ok :: "'a graph \<Rightarrow> string list \<Rightarrow> string \<Rightarrow> string \<Rightarrow> string set \<Rightarrow> string list \<Rightarrow>
    (bool \<times> string set \<times> string list) option \<Rightarrow> bool" where
  "loop_ok g cs u d vis path None \<longleftrightarrow> False"
| "loop_ok g cs u d vis path (Some (True, vis', path')) \<longleftrightarrow>
     (\<exists>c \<in> set cs. \<exists>p. path' = path @ c # p \<and> is_walk g c p d)"
| "loop_ok g cs u d vis path (Some (False, vis', path')) \<longleftrightarrow>
     vis' = vis - {u} \<and> path' = path \<and>
     (\<forall>c \<in> set cs. c \<notin> vis \<longrightarrow> (c, d) \<notin> (avoiding g (insert c vis))\<^sup>*)"

lemma search_result_cases:
  fixes r :: "(bool \<times> string set \<times> string list) option"
  obtains "r = None" | vis path where "r = Some (True, vis, path)"
    | vis path where "r = Some (False, vis, path)"
  by (metis option.exhaust prod_cases3)

lemma call_ok_of_loop:
  assumes "loop_ok g (childs g u) u d (insert u vis) path r" and "u \<noteq> d" and "u \<notin> vis"
  shows "call_ok g u d vis path r"
proof (cases r)
  case None
  with assms show ?thesis by simp
next
  case (Some t)
  obtain b vis' path' where t: "t = (b, vis', path')" by (cases t)
  show ?thesis
  proof (cases b)
    case True
    with assms Some t obtain c p
      where "c \<in> set (childs g u)" "path' = path @ c # p" "is_walk g c p d" by auto
    then have "path' = path @ (c # p) \<and> is_walk g u (c # p) d" by simp
    then have "\<exists>p. path' = path @ p \<and> is_walk g u p d" by (rule exI)
    with True Some t show ?thesis by simp
  next
    case False
    with assms Some t have "(u, d) \<notin> (avoiding g (insert u vis))\<^sup>*"
      using avoiding_split [of u d g vis] by auto
    with False assms Some t show ?thesis by auto
  qed
qed

lemma findFirstPath_spec:
  shows "u \<notin> vis \<Longrightarrow> card (graph_nodes g - vis) < f \<Longrightarrow>
     call_ok g u d vis path (findFirstPathRecursive f g u d vis path)"
    and "u \<in> vis \<Longrightarrow> (cs \<noteq> [] \<longrightarrow> card (graph_nodes g - vis) < f) \<Longrightarrow>
     loop_ok g cs u d vis path (findFirstPathChilds f g cs u d vis path)"
proof (induction f g u d vis path and f g cs u d vis path
       rule: findFirstPathRecursive_findFirstPathChilds.induct)
  case (1 g u d vis path)
  then show ?case by simp
next
  case (2 f g u d vis path)
  show ?case
  proof (cases "u = d")
    case True
    then show ?thesis by simp
  next
    case False
    have "childs g u \<noteq> [] \<longrightarrow> card (graph_nodes g - insert u vis) < f"
    proof
      assume "childs g u \<noteq> []"
      then have "u \<in> graph_nodes g"
        using childs_in_nodes [of "hd (childs g u)" g u] by simp
      with "2.prems" show "card (graph_nodes g - insert u vis) < f"
        using card_minus_visited [of u g vis] by simp
    qed
    with False "2.IH" "2.prems" show ?thesis
      by (simp add: call_ok_of_loop)
  qed
next
  case (3 f g u d vis path)
  show ?case by simp
next
  case (4 f g c cs u d vis path)
  show ?case
  proof (cases "c \<in> vis")
    case True
    then have "loop_ok g cs u d vis path (findFirstPathChilds f g cs u d vis path)"
      using "4.IH"(1) "4.prems" by blast
    with True show ?thesis
      by (cases "findFirstPathChilds f g cs u d vis path" rule: search_result_cases) auto
  next
    case False
    let ?r = "findFirstPathRecursive f g c d vis (path @ [c])"
    from False "4.prems" have "call_ok g c d vis (path @ [c]) ?r"
      using "4.IH"(2) by blast
    then consider vis' path' p where "?r = Some (True, vis', path')"
        "path' = path @ c # p" "is_walk g c p d"
      | "?r = Some (False, vis, path @ [c])" "(c, d) \<notin> (avoiding g (insert c vis))\<^sup>*"
      by (cases ?r rule: search_result_cases) auto
    then show ?thesis
    proof cases
      case 1
      with False show ?thesis by auto
    next
      case 2
      then have "loop_ok g cs u d vis path (findFirstPathChilds f g cs u d vis path)"
        using "4.IH"(3) [OF False 2(1), of False "(vis, path @ [c])" vis "path @ [c]"] "4.prems"
        by simp
      with 2 False show ?thesis
        by (cases "findFirstPathChilds f g cs u d vis path" rule: search_result_cases) auto
    qed
  qed
qed

lemma findFirstPathRecursive_start:
  "call_ok g a b {} [a] (findFirstPathRecursive (search_fuel g) g a b {} [a])"
  using findFirstPath_spec(1) [of a "{}" g "search_fuel g" b "[a]"] card_graph_nodes [of g]
  by (simp add: search_fuel_def)

lemma avoiding_empty: "avoiding g {} = edges g"
  by (auto simp: avoiding_def edges_def)

lemma avoiding_rtrancl: "(a, b) \<in> (avoiding g V)\<^sup>* \<Longrightarrow> (a, b) \<in> (edges g)\<^sup>*"
  by (rule rtrancl_mono [THEN subsetD]) (auto simp: avoiding_def)

lemma findFirstPath_Some:
  assumes "findFirstPath g a b = Some path"
  obtains p where "path = a # p" and "is_walk g a p b"
proof (cases "findFirstPathRecursive (search_fuel g) g a b {} [a]" rule: search_result_cases)
  case (2 vis path')
  with assms that findFirstPathRecursive_start [of g a b] show ?thesis
    by (auto simp: findFirstPath_def)
qed (use assms in \<open>auto simp: findFirstPath_def\<close>)

lemma findFirstPath_None:
  "findFirstPath g a b = None \<longleftrightarrow> (a, b) \<notin> (edges g)\<^sup>*"
proof
  assume none: "findFirstPath g a b = None"
  show "(a, b) \<notin> (edges g)\<^sup>*"
  proof (cases "findFirstPathRecursive (search_fuel g) g a b {} [a]" rule: search_result_cases)
    case (3 vis path)
    then have "(a, b) \<notin> (avoiding g {a})\<^sup>*"
      using findFirstPathRecursive_start [of g a b] by simp
    then show ?thesis using avoiding_restart [of a b g "{}"] by (auto simp: avoiding_empty)
  qed (use none findFirstPathRecursive_start [of g a b] in \<open>auto simp: findFirstPath_def\<close>)
next
  assume "(a, b) \<notin> (edges g)\<^sup>*"
  then show "findFirstPath g a b = None"
    by (metis findFirstPath_Some is_walk_rtrancl option.exhaust)
qed

subsection \<open>Adding nodes and edges\<close>

lemma node_at_link:
  "node_at (link a b g) x =
     map_option (\<lambda>n. n\<lparr>Childs := (if x = a then slice_append (Childs n) b else Childs n),
                       Parents := (if x = b then Parents n @ [a] else Parents n)\<rparr>) (node_at g x)"
  by (cases "node_at g x") (auto simp: link_def)

lemma link_sel [simp]:
  "Root (link a b g) = Root g" "item (link a b g) = item g"
  "graph_nodes (link a b g) = graph_nodes g" "wf_map (Nodes (link a b g)) = wf_map (Nodes g)"
  by (simp_all add: link_def)

lemma childs_link:
  "a \<in> graph_nodes g \<Longrightarrow> childs (link a b g) x = (if x = a then childs g a @ [b] else childs g x)"
  by (cases "node_at g x") (auto simp: childs_def node_at_link graph_nodes_iff)

lemma parents_link:
  "b \<in> graph_nodes g \<Longrightarrow> parents (link a b g) x = (if x = b then parents g b @ [a] else parents g x)"
  by (cases "node_at g x") (auto simp: parents_def node_at_link graph_nodes_iff)

lemma edges_link: "a \<in> graph_nodes g \<Longrightarrow> edges (link a b g) = insert (a, b) (edges g)"
  by (auto simp: edges_def childs_link split: if_splits)

lemma graph_wf_link:
  assumes wf: "graph_wf g" and a: "a \<in> graph_nodes g" and b: "b \<in> graph_nodes g"
    and new: "b \<notin> set (childs g a)" and nopath: "(b, a) \<notin> (edges g)\<^sup>*"
  shows "graph_wf (link a b g)"
proof -
  note d = graph_wfD [OF wf]
  have new': "a \<notin> set (parents g b)" using new d(6) by simp
  have "acyclic (edges (link a b g))"
    using d(8) nopath by (simp add: edges_link [OF a])
  moreover have "node_ID n = k" if "node_at (link a b g) k = Some n" for k n
    using that d(2) by (auto simp: node_at_link)
  moreover have "distinct (childs (link a b g) x)" "distinct (parents (link a b g) x)"
      "set (childs (link a b g) x) \<subseteq> graph_nodes g" for x
    using d(4,5,7) new new' b by (auto simp: childs_link [OF a] parents_link [OF b])
  moreover have "y \<in> set (childs (link a b g) x) \<longleftrightarrow> x \<in> set (parents (link a b g) y)" for x y
    using d(6) by (auto simp: childs_link [OF a] parents_link [OF b])
  ultimately show ?thesis
    using d(1,3) unfolding graph_wf_def by simp
qed

lemma node_at_add_node: "node_at (add_node i d g) x = (if x = i then Some (NewNode i d) else node_at g x)"
  by (simp add: add_node_def node_at_def gomap_simps)

lemma add_node_sel [simp]:
  "Root (add_node i d g) = Root g" "item (add_node i d g) = item g"
  "graph_nodes (add_node i d g) = insert i (graph_nodes g)"
  by (auto simp: graph_nodes_iff node_at_add_node split: if_splits) (simp_all add: add_node_def)

lemma wf_map_add_node [simp]: "wf_map (Nodes g) \<Longrightarrow> wf_map (Nodes (add_node i d g))"
  by (simp add: add_node_def)

lemma childs_add_node: "i \<notin> graph_nodes g \<Longrightarrow> childs (add_node i d g) x = childs g x"
  by (auto simp: childs_def node_at_add_node NewNode_def graph_nodes_iff)

lemma parents_add_node: "i \<notin> graph_nodes g \<Longrightarrow> parents (add_node i d g) x = parents g x"
  by (auto simp: parents_def node_at_add_node NewNode_def graph_nodes_iff)

lemma edges_add_node: "i \<notin> graph_nodes g \<Longrightarrow> edges (add_node i d g) = edges g"
  by (simp add: edges_def childs_add_node)

lemma graph_wf_add_node: "graph_wf g \<Longrightarrow> i \<notin> graph_nodes g \<Longrightarrow> graph_wf (add_node i d g)"
  unfolding graph_wf_def
  by (simp add: childs_add_node parents_add_node edges_add_node)
    (auto simp: node_at_add_node NewNode_def)

text \<open>What an operation leaves alone in the nodes: everything but the children.\<close>

definition meta :: "'a node \<Rightarrow> string \<times> 'a \<times> string list \<times> bool" where
  "meta n = (node_ID n, Data n, Parents n, Done n)"

definition contents :: "'a graph \<Rightarrow> string \<Rightarrow> ('a \<times> bool) option" where
  "contents g x = map_option (\<lambda>n. (Data n, Done n)) (node_at g x)"

lemma contents_link [simp]: "contents (link a b g) = contents g"
  by (simp add: contents_def node_at_link fun_eq_iff option.map_comp o_def)

lemma AddEdge_Inr:
  assumes wf: "graph_wf g" and eq: "AddEdge a b g = Inr g'"
  shows "graph_wf g'" and "edges g' = insert (a, b) (edges g)" and "graph_nodes g' = graph_nodes g"
    and "a \<in> graph_nodes g" and "b \<in> graph_nodes g" and "Root g' = Root g" and "item g' = item g"
    and "contents g' = contents g"
proof -
  from eq obtain na nb where na: "node_at g a = Some na" and nb: "node_at g b = Some nb"
    by (auto simp: AddEdge_def split: option.splits)
  then show a: "a \<in> graph_nodes g" and b: "b \<in> graph_nodes g"
    by (simp_all add: graph_nodes_iff)
  have ID: "node_ID nb = b" using wf nb by (rule graph_wfD(2))
  consider "b \<in> set (childs g a)" "g' = g"
    | "b \<notin> set (childs g a)" "(b, a) \<notin> (edges g)\<^sup>*" "g' = link a b g"
    using eq na nb ID by (auto simp: AddEdge_def findFirstPath_None split: if_splits option.splits)
  then have "graph_wf g' \<and> edges g' = insert (a, b) (edges g) \<and> graph_nodes g' = graph_nodes g \<and>
      Root g' = Root g \<and> item g' = item g \<and> contents g' = contents g"
  proof cases
    case 1
    with wf show ?thesis by (simp add: insert_absorb)
  next
    case 2
    with wf a b show ?thesis by (simp add: graph_wf_link edges_link)
  qed
  then show "graph_wf g'" "edges g' = insert (a, b) (edges g)" "graph_nodes g' = graph_nodes g"
      "Root g' = Root g" "item g' = item g" "contents g' = contents g"
    by blast+
qed

lemma AddEdge_Inl:
  assumes wf: "graph_wf g" and eq: "AddEdge a b g = Inl e"
  shows "a \<notin> graph_nodes g \<or> b \<notin> graph_nodes g \<or> (b, a) \<in> (edges g)\<^sup>*"
proof (rule ccontr)
  assume neg: "\<not> ?thesis"
  then have "findFirstPath g b a = None" by (simp add: findFirstPath_None)
  with neg eq show False
    by (auto simp: AddEdge_def graph_nodes_iff split: if_splits)
qed

lemma InsertNodeAt_Inr:
  assumes wf: "graph_wf g" and eq: "InsertNodeAt p i d g = Inr (g', j)"
  shows "graph_wf g'" and "edges g' = insert (p, i) (edges g)"
    and "graph_nodes g' = insert i (graph_nodes g)" and "p \<in> graph_nodes g"
    and "Root g' = Root g" and "item g' = item g" and "j = i"
    and "contents g' = (if i \<in> graph_nodes g then contents g else (contents g)(i \<mapsto> (d, False)))"
proof -
  from eq obtain np where np: "node_at g p = Some np"
    by (auto simp: InsertNodeAt_def split: option.splits)
  then show p: "p \<in> graph_nodes g" by (simp add: graph_nodes_iff)
  have IDp: "node_ID np = p" using wf np by (rule graph_wfD(2))
  consider ni where "node_at g i = Some ni" "AddEdge p i g = Inr g'" "j = i"
    | "node_at g i = None" "g' = link p i (add_node i d g)" "j = i"
  proof (cases "node_at g i")
    case None
    with eq np have "g' = link p i (add_node i d g)" "j = i" by (auto simp: InsertNodeAt_def)
    with None show ?thesis by (rule that(2))
  next
    case (Some ni)
    moreover have "node_ID ni = i" using wf Some by (rule graph_wfD(2))
    ultimately have "AddEdge p i g = Inr g'" "j = i"
      using eq np IDp by (auto simp: InsertNodeAt_def split: sum.splits)
    with Some show ?thesis by (rule that(1))
  qed
  then have "graph_wf g' \<and> edges g' = insert (p, i) (edges g) \<and>
    graph_nodes g' = insert i (graph_nodes g) \<and> Root g' = Root g \<and> item g' = item g \<and> j = i \<and>
    contents g' = (if i \<in> graph_nodes g then contents g else (contents g)(i \<mapsto> (d, False)))"
  proof cases
    case 1
    then show ?thesis using AddEdge_Inr [OF wf 1(2)]
      by (simp add: insert_absorb)
  next
    case 2
    then have i: "i \<notin> graph_nodes g" by (simp add: graph_nodes_iff)
    have "(i, p) \<notin> (edges g)\<^sup>*"
    proof
      assume "(i, p) \<in> (edges g)\<^sup>*"
      then show False
        using i p childs_in_nodes [of _ g i] by (metis converse_rtranclE edges_iff)
    qed
    moreover have "i \<notin> set (childs g p)" using graph_wfD(7) [OF wf] i by blast
    ultimately have "graph_wf g'"
      using 2 i p wf by (simp add: graph_wf_link graph_wf_add_node childs_add_node edges_add_node)
    moreover have "contents g' = (contents g)(i \<mapsto> (d, False))"
      using 2 by (auto simp: contents_def node_at_add_node NewNode_def)
    ultimately show ?thesis
      using 2 i p by (simp add: edges_link edges_add_node)
  qed
  then show "graph_wf g'" "edges g' = insert (p, i) (edges g)"
    "graph_nodes g' = insert i (graph_nodes g)" "Root g' = Root g" "item g' = item g" "j = i"
    "contents g' = (if i \<in> graph_nodes g then contents g else (contents g)(i \<mapsto> (d, False)))"
    by blast+
qed

subsection \<open>Removing nodes\<close>

lemma removeFromParents_spec:
  assumes "distinct ps" and "\<And>p. p \<in> set ps \<Longrightarrow> i \<in> set (childs g p) \<and> distinct (childs g p)"
  shows "\<exists>g'. removeFromParents i ps g = Inr g' \<and> Root g' = Root g \<and> item g' = item g \<and>
    keys (Nodes g') = keys (Nodes g) \<and>
    (\<forall>x. map_option meta (node_at g' x) = map_option meta (node_at g x)) \<and>
    (\<forall>x. childs g' x = (if x \<in> set ps then remove1 i (childs g x) else childs g x))"
  using assms
proof (induction ps arbitrary: g)
  case Nil
  then show ?case by simp
next
  case (Cons p ps)
  then obtain n where n: "node_at g p = Some n" and i: "i \<in> set (childs g p)"
    by (metis childs_None empty_iff empty_set list.set_intros(1) option.exhaust)
  then obtain k where k: "last_index i (childs g p) = Some k"
    by (metis last_index_None option.exhaust)
  define g1 where "g1 = upd_node p (\<lambda>n. n\<lparr>Childs := slice_remove k (Childs n)\<rparr>) g"
  have ch: "childs g1 x = (if x = p then remove1 i (childs g x) else childs g x)" for x
    using n k Cons.prems(2) [of p] slice_remove_last_index [of "Childs n" i k]
    by (auto simp: g1_def childs_def split: option.splits)
  have me: "map_option meta (node_at g1 x) = map_option meta (node_at g x)" for x
    by (cases "node_at g x") (auto simp: g1_def meta_def)
  have sel: "Root g1 = Root g" "item g1 = item g" "keys (Nodes g1) = keys (Nodes g)"
    by (simp_all add: g1_def keys_upd_node)
  have ps: "p \<notin> set ps" "distinct ps" using Cons.prems(1) by auto
  have "i \<in> set (childs g1 q) \<and> distinct (childs g1 q)" if "q \<in> set ps" for q
    using that ps Cons.prems(2) [of q] by (auto simp: ch)
  then obtain g' where g': "removeFromParents i ps g1 = Inr g'" "Root g' = Root g1"
      "item g' = item g1" "keys (Nodes g') = keys (Nodes g1)"
      "\<And>x. map_option meta (node_at g' x) = map_option meta (node_at g1 x)"
      "\<And>x. childs g' x = (if x \<in> set ps then remove1 i (childs g1 x) else childs g1 x)"
    using Cons.IH [OF ps(2), of g1] by blast
  have "removeFromParents i (p # ps) g = Inr g'"
    using k g'(1) by (simp add: g1_def)
  moreover have "childs g' x = (if x \<in> set (p # ps) then remove1 i (childs g x) else childs g x)" for x
    using ps(1) by (simp add: g'(6) ch)
  ultimately show ?case
    using g' sel me by (intro exI [of _ g']) simp
qed

lemma RemoveNode_leaf:
  assumes wf: "graph_wf g" and i: "i \<in> graph_nodes g" and leaf: "childs g i = []"
  shows "\<exists>g'. RemoveNode i g = Inr g' \<and> Root g' = Root g \<and> item g' = item g \<and>
    graph_nodes g' = graph_nodes g - {i} \<and> wf_map (Nodes g') \<and>
    (\<forall>x. map_option meta (node_at g' x) = (if x = i then None else map_option meta (node_at g x))) \<and>
    (\<forall>x. childs g' x = (if x = i then [] else remove1 i (childs g x)))"
proof -
  from i obtain n where n: "node_at g i = Some n" by (auto simp: graph_nodes_iff)
  have "distinct (parents g i)" using wf by (rule graph_wfD(5))
  moreover have "i \<in> set (childs g p) \<and> distinct (childs g p)" if "p \<in> set (parents g i)" for p
    using that graph_wfD(4,6) [OF wf] by blast
  ultimately obtain g1 where g1: "removeFromParents i (Parents n) g = Inr g1" "Root g1 = Root g"
      "item g1 = item g" "keys (Nodes g1) = keys (Nodes g)"
      "\<And>x. map_option meta (node_at g1 x) = map_option meta (node_at g x)"
      "\<And>x. childs g1 x = (if x \<in> set (Parents n) then remove1 i (childs g x) else childs g x)"
    using removeFromParents_spec [of "Parents n" i g] n by auto
  let ?g = "g1\<lparr>Nodes := AList.delete i (Nodes g1)\<rparr>"
  have node: "node_at ?g x = (if x = i then None else node_at g1 x)" for x
    by (simp add: node_at_def gomap_simps)
  have "RemoveNode i g = Inr ?g"
    using n leaf g1(1) by (simp add: RemoveNode_def)
  moreover have "graph_nodes ?g = graph_nodes g - {i}"
  proof -
    have "keys (AList.delete i (Nodes g1)) = filter (\<lambda>k. k \<noteq> i) (keys (Nodes g))"
      using g1(4) [symmetric]
      by (simp add: AList.delete_eq filter_map o_def case_prod_unfold eq_commute)
    then show ?thesis by (auto simp: graph_nodes_def simp del: set_map)
  qed
  moreover have "wf_map (Nodes ?g)"
    using graph_wfD(1) [OF wf] g1(4) by (simp add: wf_map_def distinct_delete)
  moreover have "childs ?g x = (if x = i then [] else remove1 i (childs g x))" for x
  proof (cases "x = i")
    case True
    then show ?thesis by (simp add: childs_def node)
  next
    case False
    then have "childs ?g x = childs g1 x" by (simp add: childs_def node)
    moreover have "remove1 i (childs g x) = childs g x" if "x \<notin> set (Parents n)"
      using that graph_wfD(6) [OF wf, of i x] n by (simp add: remove1_idem)
    ultimately show ?thesis using False g1(6) by simp
  qed
  moreover have "map_option meta (node_at ?g x) =
      (if x = i then None else map_option meta (node_at g x))" for x
    using g1(5) [of x] by (simp add: node)
  ultimately show ?thesis using g1(2,3) by (intro exI [of _ ?g]) simp
qed

lemma RemoveNode_HasChildren:
  "graph_wf g \<Longrightarrow> childs g i \<noteq> [] \<Longrightarrow> RemoveNode i g = Inl (HasChildren i)"
  using graph_wfD(2) [of g i] by (auto simp: RemoveNode_def childs_def split: option.splits)

lemma parents_of_meta:
  "map_option meta (node_at g x) = map_option meta (node_at h x) \<Longrightarrow> parents g x = parents h x"
  by (auto simp: parents_def meta_def split: option.splits)

lemma contents_of_meta:
  "map_option meta (node_at g x) = map_option meta (node_at h x) \<Longrightarrow> contents g x = contents h x"
  by (cases "node_at g x"; cases "node_at h x") (auto simp: contents_def meta_def)

text \<open>Removing a leaf other than the root keeps the graph well-formed and takes away exactly the
  node and the edges that lead to it.\<close>

lemma RemoveNode_Inr:
  assumes wf: "graph_wf g" and i: "i \<in> graph_nodes g" and leaf: "childs g i = []"
    and root: "i \<noteq> Root g" and eq: "RemoveNode i g = Inr g'"
  shows "graph_wf g'" and "edges g' = {(a, b) \<in> edges g. b \<noteq> i}"
    and "graph_nodes g' = graph_nodes g - {i}" and "Root g' = Root g" and "item g' = item g"
    and "contents g' = (contents g)(i := None)"
proof -
  from RemoveNode_leaf [OF wf i leaf] eq have r: "Root g' = Root g" "item g' = item g"
    "graph_nodes g' = graph_nodes g - {i}" "wf_map (Nodes g')"
    and m: "\<And>x. map_option meta (node_at g' x) = (if x = i then None else map_option meta (node_at g x))"
    and c: "\<And>x. childs g' x = (if x = i then [] else remove1 i (childs g x))"
    by auto
  show "graph_nodes g' = graph_nodes g - {i}" "Root g' = Root g" "item g' = item g"
    using r by auto
  have d: "distinct (childs g x)" for x using wf by (rule graph_wfD(4))
  have i_nc: "set (childs g' x) = set (childs g x) - {i}" for x
    using c [of x] d [of x] leaf by (cases "x = i") (simp_all add: set_remove1_eq)
  have p: "parents g' x = (if x = i then [] else parents g x)" for x
    using m [of x] parents_of_meta [of g' x g] by (auto simp: parents_def)
  show e: "edges g' = {(a, b) \<in> edges g. b \<noteq> i}"
    by (auto simp: edges_def i_nc)
  show "contents g' = (contents g)(i := None)"
  proof
    fix x
    show "contents g' x = ((contents g)(i := None)) x"
      using m [of x] contents_of_meta [of g' x g] by (auto simp: contents_def)
  qed
  have "node_ID n = k" if "node_at g' k = Some n" for k n
  proof -
    from that m [of k] have "map_option meta (node_at g k) = Some (meta n)"
      by (simp split: if_splits)
    then obtain n' where "node_at g k = Some n'" "meta n = meta n'" by auto
    then show ?thesis using graph_wfD(2) [OF wf, of k n'] by (simp add: meta_def)
  qed
  moreover have "acyclic (edges g')"
    using graph_wfD(8) [OF wf] by (rule acyclic_subset) (auto simp: e)
  moreover have "b \<in> set (childs g' a) \<longleftrightarrow> a \<in> set (parents g' b)" for a b
    using graph_wfD(6) [OF wf, of b a] by (auto simp: i_nc p)
  moreover have "set (childs g' a) \<subseteq> graph_nodes g'" for a
    using graph_wfD(7) [OF wf, of _ a] by (auto simp: i_nc r)
  moreover have "distinct (childs g' a)" "distinct (parents g' a)" for a
    using d graph_wfD(5) [OF wf] by (simp_all add: c p)
  moreover have "Root g' \<in> graph_nodes g'"
    using graph_wfD(3) [OF wf] root by (simp add: r)
  ultimately show "graph_wf g'"
    using r(4) unfolding graph_wf_def by simp
qed

subsection \<open>Leaves\<close>

definition below :: "'a graph \<Rightarrow> string \<Rightarrow> string set" where
  "below g x = {y. (x, y) \<in> (edges g)\<^sup>+}"

lemma below_subset: "graph_wf g \<Longrightarrow> below g x \<subseteq> graph_nodes g"
  using edges_subset [of g] by (auto simp: below_def dest!: tranclD2)

lemma finite_below: "graph_wf g \<Longrightarrow> finite (below g x)"
  using below_subset finite_graph_nodes by (rule finite_subset)

lemma card_below: "graph_wf g \<Longrightarrow> card (below g x) \<le> length (Nodes g)"
  by (meson below_subset card_graph_nodes card_mono finite_graph_nodes order_trans)

text \<open>Acyclicity makes the number of nodes below a node a measure for every descent.\<close>

lemma card_below_child:
  assumes wf: "graph_wf g" and c: "c \<in> set (childs g x)"
  shows "card (below g c) < card (below g x)"
proof (rule psubset_card_mono)
  show "finite (below g x)" using wf by (rule finite_below)
  have "(x, c) \<in> edges g" using c by simp
  then have "below g c \<subseteq> below g x" "c \<in> below g x"
    by (auto simp del: edges_iff simp: below_def intro: trancl_into_trancl2)
  moreover have "c \<notin> below g c"
    using graph_wfD(8) [OF wf] by (simp add: below_def acyclic_def)
  ultimately show "below g c \<subset> below g x" by blast
qed

lemma GetNextLeaf_spec:
  assumes "graph_wf g" and "card (below g x) < f"
  shows "\<exists>l. GetNextLeaf f g x = Some l \<and> (x, l) \<in> (edges g)\<^sup>* \<and> childs g l = []"
  using assms(2)
proof (induction f arbitrary: x)
  case 0
  then show ?case by simp
next
  case (Suc f)
  show ?case
  proof (cases "childs g x")
    case Nil
    then show ?thesis by simp
  next
    case (Cons c cs)
    then have c: "c \<in> set (childs g x)" by simp
    with card_below_child [OF assms(1)] Suc.prems have "card (below g c) < f"
      by (meson less_le_trans less_Suc_eq_le)
    with Suc.IH obtain l where l: "GetNextLeaf f g c = Some l" "(c, l) \<in> (edges g)\<^sup>*" "childs g l = []"
      by blast
    have "(x, c) \<in> edges g" using c by simp
    then have "(x, l) \<in> (edges g)\<^sup>*" using l(2) by (rule converse_rtrancl_into_rtrancl)
    with l Cons show ?thesis by simp
  qed
qed

lemma reachable_in_nodes:
  assumes "graph_wf g" and "(x, y) \<in> (edges g)\<^sup>*" and "x \<in> graph_nodes g"
  shows "y \<in> graph_nodes g"
  using assms(2,3,1) by (induction rule: rtrancl_induct) (auto dest: graph_wfD(7))

definition next_leaf_of :: "'a graph \<Rightarrow> string option" where
  "next_leaf_of g = GetNextLeaf (leaf_fuel g) g (Root g)"

lemma next_leaf_of_spec:
  assumes "graph_wf g"
  shows "\<exists>l. next_leaf_of g = Some l \<and> l \<in> graph_nodes g \<and> (Root g, l) \<in> (edges g)\<^sup>* \<and>
    (\<forall>b. (l, b) \<notin> edges g)"
proof -
  have "card (below g (Root g)) < leaf_fuel g"
    using card_below [OF assms] by (simp add: leaf_fuel_def less_Suc_eq_le)
  with GetNextLeaf_spec [OF assms] obtain l where
    "next_leaf_of g = Some l" "(Root g, l) \<in> (edges g)\<^sup>*" "childs g l = []"
    unfolding next_leaf_of_def by blast
  with reachable_in_nodes [OF assms] graph_wfD(3) [OF assms] show ?thesis by auto
qed

lemma RemoveNode_leaf_ok:
  assumes "graph_wf g" and "l \<in> graph_nodes g" and "l \<noteq> Root g" and "\<And>b. (l, b) \<notin> edges g"
  shows "\<exists>g'. RemoveNode l g = Inr g' \<and> graph_wf g' \<and> Root g' = Root g \<and>
    graph_nodes g' = graph_nodes g - {l} \<and> edges g' = {(a, b) \<in> edges g. b \<noteq> l}"
proof -
  have leaf: "childs g l = []" using assms(4) by (metis edges_iff last_in_set)
  with RemoveNode_leaf [OF assms(1,2)] obtain g' where "RemoveNode l g = Inr g'" by blast
  with RemoveNode_Inr [OF assms(1,2) leaf assms(3)] show ?thesis by blast
qed

interpretation graph_leaves:
  leaf_source graph_wf Root edges graph_nodes next_leaf_of RemoveNode
  by unfold_locales
    (use next_leaf_of_spec RemoveNode_leaf_ok finite_graph_nodes in blast)+

subsection \<open>The next node from the top\<close>

lemma node_at_Clone: "node_at (Clone g) k = map_option clone_node (node_at g k)"
  by (simp add: node_at_def Clone_def map_of_map)

lemma Clone_sel [simp]:
  "Root (Clone g) = Root g" "item (Clone g) = item g" "keys (Nodes (Clone g)) = keys (Nodes g)"
  "length (Nodes (Clone g)) = length (Nodes g)"
  by (simp_all add: Clone_def case_prod_unfold comp_def)

lemma childs_Clone [simp]: "childs (Clone g) = childs g"
  by (rule ext) (simp add: childs_def node_at_Clone clone_node_def split: option.splits)

lemma parents_Clone [simp]: "parents (Clone g) = parents g"
  by (rule ext) (simp add: parents_def node_at_Clone clone_node_def split: option.splits)

lemma edges_Clone [simp]: "edges (Clone g) = edges g"
  by (simp add: edges_def)

lemma graph_nodes_Clone [simp]: "graph_nodes (Clone g) = graph_nodes g"
  unfolding graph_nodes_def Clone_sel ..

lemma graph_wf_Clone: "graph_wf g \<Longrightarrow> graph_wf (Clone g)"
  by (auto simp: graph_wf_def wf_map_def node_at_Clone clone_node_def NewNode_def simp del: set_map)

lemma takeLeaves_empties:
  "graph_leaves.empties g ls \<Longrightarrow> length ls < f \<Longrightarrow> takeLeaves f g acc = Some (Inr (acc @ ls))"
proof (induction arbitrary: f acc rule: graph_leaves.empties.induct)
  case (stop g)
  then show ?case by (cases f) (simp_all add: next_leaf_of_def)
next
  case (take g l g' ls)
  then show ?case by (cases f) (simp_all add: next_leaf_of_def)
qed

lemma takeLeaves_order:
  assumes wf: "graph_wf g" and f: "length (Nodes g) < f"
  shows "\<exists>ls. takeLeaves f g [] = Some (Inr ls) \<and> distinct ls \<and> set ls = below g (Root g) \<and>
    successors_first (edges g) ls"
proof -
  obtain ls where ls: "graph_leaves.empties g ls" "length ls \<le> card (graph_nodes g)"
    using graph_leaves.empties_exists [OF wf] by blast
  then have "length ls < f" using f card_graph_nodes [of g] by linarith
  with ls(1) have "takeLeaves f g [] = Some (Inr ls)"
    using takeLeaves_empties by fastforce
  with graph_leaves.empties_order [OF ls(1) wf] show ?thesis by (auto simp: below_def)
qed

definition is_done :: "'a graph \<Rightarrow> string \<Rightarrow> bool" where
  "is_done g i \<longleftrightarrow> (case node_at g i of None \<Rightarrow> True | Some n \<Rightarrow> Done n)"

lemma firstNotDone_None: "firstNotDone g is = None \<longleftrightarrow> (\<forall>i \<in> set is. is_done g i)"
  by (induction "is") (auto simp: is_done_def split: option.splits)

lemma firstNotDone_Some:
  "firstNotDone g is = Some i \<Longrightarrow>
    \<exists>pre post. is = pre @ i # post \<and> \<not> is_done g i \<and> (\<forall>j \<in> set pre. is_done g j)"
proof (induction "is")
  case Nil
  then show ?case by simp
next
  case (Cons j js)
  show ?case
  proof (cases "is_done g j")
    case True
    with Cons.prems have "firstNotDone g js = Some i"
      by (auto simp: is_done_def split: option.splits)
    with Cons.IH obtain pre post where "js = pre @ i # post" "\<not> is_done g i" "\<forall>j \<in> set pre. is_done g j"
      by blast
    with True show ?thesis by (intro exI [of _ "j # pre"] exI [of _ post]) simp
  next
    case False
    with Cons.prems have "i = j" by (auto simp: is_done_def split: option.splits)
    with False show ?thesis by (intro exI [of _ "[]"] exI [of _ js]) simp
  qed
qed

definition mark_done :: "string \<Rightarrow> 'a graph \<Rightarrow> 'a graph" where
  "mark_done i = upd_node i (\<lambda>n. n\<lparr>Done := True\<rparr>)"

lemma NextFromTop_total:
  assumes wf: "graph_wf g"
  shows "\<exists>ls. NextFromTop g =
      Some (case firstNotDone g (rev ls) of None \<Rightarrow> (g, None) | Some i \<Rightarrow> (mark_done i g, Some i)) \<and>
    distinct ls \<and> set ls = below g (Root g) \<and> successors_first (edges g) ls"
proof -
  have "length (Nodes (Clone g)) < leaf_fuel g" by (simp add: leaf_fuel_def)
  from takeLeaves_order [OF graph_wf_Clone [OF wf] this] obtain ls where
    "takeLeaves (leaf_fuel g) (Clone g) [] = Some (Inr ls)" "distinct ls"
    "set ls = below g (Root g)" "successors_first (edges g) ls"
    by (auto simp: below_def)
  then show ?thesis
    by (intro exI [of _ ls]) (simp add: NextFromTop_def mark_done_def split: option.splits)
qed

lemma NextFromTop_cases:
  assumes wf: "graph_wf g"
  obtains (all_done) "NextFromTop g = Some (g, None)" "\<And>i. i \<in> below g (Root g) \<Longrightarrow> is_done g i"
  | (next_node) i where "NextFromTop g = Some (mark_done i g, Some i)" "i \<in> below g (Root g)"
      "\<not> is_done g i" "\<And>p. (p, i) \<in> edges g \<Longrightarrow> p \<in> below g (Root g) \<Longrightarrow> is_done g p"
proof -
  obtain ls where ls: "NextFromTop g =
      Some (case firstNotDone g (rev ls) of None \<Rightarrow> (g, None) | Some i \<Rightarrow> (mark_done i g, Some i))"
    "distinct ls" "set ls = below g (Root g)" "successors_first (edges g) ls"
    using NextFromTop_total [OF wf] by blast
  show thesis
  proof (cases "firstNotDone g (rev ls)")
    case None
    then have "\<forall>i \<in> below g (Root g). is_done g i"
      using ls(3) firstNotDone_None [of g "rev ls"] by simp
    with None ls(1) show thesis by (intro that(1)) auto
  next
    case (Some i)
    then obtain pre post where sp: "rev ls = pre @ i # post" "\<not> is_done g i" "\<forall>j \<in> set pre. is_done g j"
      using firstNotDone_Some [OF Some] by blast
    have "i \<in> set ls" using sp(1) by (metis in_set_conv_decomp set_rev)
    moreover have "is_done g p" if "(p, i) \<in> edges g" "p \<in> below g (Root g)" for p
    proof -
      have "p \<noteq> i" using that(1) graph_wf_irrefl [OF wf] by auto
      then show ?thesis
        using successors_first_rev [OF ls(4) sp(1) that(1)] that(2) ls(2,3) sp(3) by auto
    qed
    ultimately show thesis
      using Some ls(1,3) sp(2) by (intro that(2) [of i]) auto
  qed
qed

subsection \<open>Removing a subgraph\<close>

text \<open>What \<open>RemoveNode\<close> does to the slices themselves: in every parent the element is shifted out in
  place.\<close>

definition shift_out :: "string \<Rightarrow> string slice \<Rightarrow> string slice" where
  "shift_out x s = (case last_index x (elems s) of None \<Rightarrow> s | Some k \<Rightarrow> slice_remove k s)"

lemma shift_out_idle: "x \<notin> set (elems s) \<Longrightarrow> shift_out x s = s"
  using last_index_None [of x "elems s"] by (simp add: shift_out_def del: last_index_None)

definition childs_slice :: "'a graph \<Rightarrow> string \<Rightarrow> string slice option" where
  "childs_slice g p = map_option Childs (node_at g p)"

lemma childs_slice_childs: "childs_slice g p = Some s \<Longrightarrow> childs g p = elems s"
  by (auto simp: childs_slice_def)

lemma removeFromParents_slices:
  "removeFromParents x ps g = Inr g' \<Longrightarrow> distinct ps \<Longrightarrow>
   childs_slice g' p = (if p \<in> set ps then map_option (shift_out x) (childs_slice g p) else childs_slice g p)"
proof (induction ps arbitrary: g)
  case Nil
  then show ?case by simp
next
  case (Cons q qs)
  then obtain k where k: "last_index x (childs g q) = Some k"
      "removeFromParents x qs (upd_node q (\<lambda>n. n\<lparr>Childs := slice_remove k (Childs n)\<rparr>) g) = Inr g'"
    by (auto split: option.splits)
  have "childs_slice (upd_node q (\<lambda>n. n\<lparr>Childs := slice_remove k (Childs n)\<rparr>) g) p =
      (if p = q then map_option (shift_out x) (childs_slice g p) else childs_slice g p)"
    using k(1) by (cases "node_at g p") (auto simp: childs_slice_def shift_out_def)
  with Cons.IH [OF k(2)] Cons.prems(2) show ?case by auto
qed

lemma RemoveNode_slices:
  assumes wf: "graph_wf g" and eq: "RemoveNode x g = Inr g'" and p: "p \<noteq> x"
  shows "childs_slice g' p = map_option (shift_out x) (childs_slice g p)"
proof (cases "node_at g x")
  case None
  then have "x \<notin> set (childs g p)" using graph_wfD(7) [OF wf, of x p] by (auto simp: graph_nodes_iff)
  then show ?thesis
    using None eq by (cases "node_at g p") (auto simp: RemoveNode_def childs_slice_def shift_out_idle)
next
  case (Some n)
  with eq obtain g1 where g1: "removeFromParents x (Parents n) g = Inr g1"
      "g' = g1\<lparr>Nodes := AList.delete x (Nodes g1)\<rparr>"
    by (auto simp: RemoveNode_def split: if_splits sum.splits)
  have "distinct (Parents n)" using graph_wfD(5) [OF wf, of x] Some by simp
  note removeFromParents_slices [OF g1(1) this, of p]
  moreover have "childs_slice g' p = childs_slice g1 p"
    using p by (simp add: g1(2) childs_slice_def node_at_def gomap_simps)
  moreover have "shift_out x s = s" if "p \<notin> set (Parents n)" "childs_slice g p = Some s" for s
    using that graph_wfD(6) [OF wf, of x p] Some
    by (intro shift_out_idle) (auto simp: childs_slice_def)
  ultimately show ?thesis by (cases "childs_slice g p") auto
qed

lemma slice_read_Some: "slice_read s i = Some x \<longleftrightarrow> i < length (elems s @ spare s) \<and> (elems s @ spare s) ! i = x"
  by (auto simp: slice_read_def)

text \<open>The entry at index 1 survives every removal from a slice of at most two elements.\<close>

lemma slice_read_1_shift_out:
  assumes "length (elems s) \<le> 2"
  shows "slice_read (shift_out x s) 1 = slice_read s 1"
proof -
  from assms consider "elems s = []" | a where "elems s = [a]" | a b where "elems s = [a, b]"
    by (cases "elems s"; cases "tl (elems s)"; cases "tl (tl (elems s))") auto
  then show ?thesis
    by cases (auto simp: shift_out_def slice_remove_def slice_read_def)
qed

text \<open>Removals in a longer slice never touch what is in front of them, and every later entry of the
  backing array moves in from behind.\<close>

lemma backing_slice_remove:
  assumes "m < length (elems s)" and "0 < m" and "N \<le> length (elems s @ spare s)"
    and "length (elems s) \<le> N"
  shows "set (drop 1 (take N (elems (slice_remove m s) @ spare (slice_remove m s))))
    \<subseteq> set (drop 1 (take N (elems s @ spare s)))"
    and "hd (elems (slice_remove m s)) = hd (elems s)" and "elems (slice_remove m s) \<noteq> []"
proof -
  obtain c xs where e: "elems s = c # xs" using assms(1) by (cases "elems s") auto
  obtain m' where m: "m = Suc m'" using assms(2) by (cases m) auto
  have m': "m' < length xs" using assms(1) e m by simp
  then have "xs \<noteq> []" by auto
  obtain ys where ys: "elems (slice_remove m s) @ spare (slice_remove m s) = c # ys @ spare s"
      "length ys = length xs" "set ys \<subseteq> set xs"
  proof
    show "elems (slice_remove m s) @ spare (slice_remove m s) =
        c # (take m' xs @ drop (Suc m') xs @ [last xs]) @ spare s"
      using e m \<open>xs \<noteq> []\<close> by (simp add: slice_remove_def)
    show "length (take m' xs @ drop (Suc m') xs @ [last xs]) = length xs" using m' by simp
    show "set (take m' xs @ drop (Suc m') xs @ [last xs]) \<subseteq> set xs"
      using \<open>xs \<noteq> []\<close> by (auto dest: in_set_takeD in_set_dropD)
  qed
  moreover obtain N' where "N = Suc N'" "length xs \<le> N'"
    using assms(4) e by (cases N) auto
  ultimately show "set (drop 1 (take N (elems (slice_remove m s) @ spare (slice_remove m s))))
    \<subseteq> set (drop 1 (take N (elems s @ spare s)))"
    unfolding ys(1) using e by auto
  show "hd (elems (slice_remove m s)) = hd (elems s)" "elems (slice_remove m s) \<noteq> []"
    using e m by (simp_all add: slice_remove_def)
qed

lemma RemoveSubGraph_missing:
  "x \<notin> graph_nodes g \<Longrightarrow> RemoveSubGraph (Suc f) x g = Some (Inr g)"
  by (simp add: graph_nodes_iff)

lemma RemoveSubGraph_leaf:
  "x \<in> graph_nodes g \<Longrightarrow> childs g x = [] \<Longrightarrow> RemoveSubGraph (Suc f) x g = Some (RemoveNode x g)"
  by (auto simp: graph_nodes_iff)

text \<open>The state of the loop of \<open>RemoveSubGraph\<close> over at least three leaf children, from its second
  iteration on: the child \<open>c\<close> in front is never read again.\<close>

definition skipping :: "string \<Rightarrow> string \<Rightarrow> nat \<Rightarrow> 'a graph \<Rightarrow> string slice \<Rightarrow> bool" where
  "skipping i c N g s \<longleftrightarrow>
     graph_wf g \<and> childs_slice g i = Some s \<and> elems s \<noteq> [] \<and> hd (elems s) = c \<and>
     length (elems s) \<le> N \<and> N \<le> length (elems s @ spare s) \<and>
     c \<notin> set (drop 1 (take N (elems s @ spare s))) \<and>
     (\<forall>x \<in> set (drop 1 (take N (elems s @ spare s))). x \<in> set (childs g i) \<or> x \<notin> graph_nodes g) \<and>
     (\<forall>x \<in> set (childs g i). childs g x = []) \<and> Root g \<notin> set (childs g i)"

lemma childs_RemoveNode:
  assumes "graph_wf g" "x \<in> graph_nodes g" "childs g x = []" "x \<noteq> Root g" "RemoveNode x g = Inr g'"
  shows "set (childs g' a) = set (childs g a) - {x}"
  using RemoveNode_Inr(2) [OF assms] edges_iff [of a _ g'] edges_iff [of a _ g] by auto

lemma skipping_remove:
  assumes sk: "skipping i c N g s" and x: "x \<in> set (childs g i)" "x \<noteq> c"
  shows "\<exists>g' s'. RemoveNode x g = Inr g' \<and> skipping i c N g' s'"
proof -
  from sk have wf: "graph_wf g" and s: "childs_slice g i = Some s" "elems s \<noteq> []" "hd (elems s) = c"
    "length (elems s) \<le> N" "N \<le> length (elems s @ spare s)"
    and tl: "\<And>y. y \<in> set (drop 1 (take N (elems s @ spare s))) \<Longrightarrow>
      y \<noteq> c \<and> (y \<in> set (childs g i) \<or> y \<notin> graph_nodes g)"
    and leaves: "\<And>x. x \<in> set (childs g i) \<Longrightarrow> childs g x = []" "Root g \<notin> set (childs g i)"
    unfolding skipping_def by blast+
  note elems = childs_slice_childs [OF s(1)]
  have xn: "x \<in> graph_nodes g" "childs g x = []" "x \<noteq> Root g"
    using graph_wfD(7) [OF wf x(1)] leaves x(1) by auto
  obtain g' where g': "RemoveNode x g = Inr g'" using RemoveNode_leaf [OF wf xn(1,2)] by blast
  note rm = RemoveNode_Inr [OF wf xn g'] and ch = childs_RemoveNode [OF wf xn g']
  obtain m where m: "last_index x (elems s) = Some m"
    using x(1) elems by (metis last_index_None option.exhaust)
  then have mlen: "m < length (elems s)" "elems s ! m = x" using last_index_SomeD by fast+
  then have "m > 0" using s(2,3) x(2) by (cases m) (auto simp: hd_conv_nth)
  note br = backing_slice_remove [OF mlen(1) this s(5,4)]
  have "i \<noteq> x" using x(1) graph_wf_irrefl [OF wf] by auto
  then have s': "childs_slice g' i = Some (slice_remove m s)"
    using RemoveNode_slices [OF wf g'] s(1) m by (simp add: shift_out_def)
  have "skipping i c N g' (slice_remove m s)"
    unfolding skipping_def
  proof (intro conjI ballI)
    show "length (elems (slice_remove m s)) \<le> N"
      using s(4) mlen(1) by simp
    show "N \<le> length (elems (slice_remove m s) @ spare (slice_remove m s))"
      unfolding length_backing_slice_remove [OF mlen(1)] by (rule s(5))
    show "c \<notin> set (drop 1 (take N (elems (slice_remove m s) @ spare (slice_remove m s))))"
      using br(1) tl by blast
    fix y assume "y \<in> set (drop 1 (take N (elems (slice_remove m s) @ spare (slice_remove m s))))"
    then show "y \<in> set (childs g' i) \<or> y \<notin> graph_nodes g'"
      using br(1) tl [of y] rm(3) ch by blast
  next
    fix y assume "y \<in> set (childs g' i)"
    then show "childs g' y = []" using ch [of i] ch [of y] leaves(1) [of y] by auto
  next
    show "Root g' \<notin> set (childs g' i)" using rm(4) ch leaves(2) by auto
  qed (use rm(1) s' br s(3) in auto)
  with g' show ?thesis by blast
qed

lemma nth_in_window: "1 \<le> k \<Longrightarrow> k < N \<Longrightarrow> k < length B \<Longrightarrow> B ! k \<in> set (drop 1 (take N B))"
  by (cases k) (auto simp: in_set_conv_nth intro!: exI [of _ "k - 1"])

lemma RemoveChilds_skipping:
  assumes "skipping i c N g s" and "1 \<le> k" and "k + m \<le> N"
  shows "\<exists>g' s'. RemoveChilds (Suc f) i m k g = Some (Inr g') \<and> skipping i c N g' s'"
  using assms
proof (induction m arbitrary: k g s)
  case 0
  then show ?case by auto
next
  case (Suc m)
  let ?B = "elems s @ spare s"
  from Suc.prems(1) have s: "childs_slice g i = Some s" "N \<le> length ?B"
    "c \<notin> set (drop 1 (take N ?B))"
    "\<And>x. x \<in> set (drop 1 (take N ?B)) \<Longrightarrow> x \<in> set (childs g i) \<or> x \<notin> graph_nodes g"
    "\<And>x. x \<in> set (childs g i) \<Longrightarrow> childs g x = [] \<and> x \<in> graph_nodes g"
    unfolding skipping_def using graph_wfD(7) [of g _ i] by blast+
  have k: "k < length ?B" "k < N" using Suc.prems(3) s(2) by linarith+
  have mem: "?B ! k \<in> set (drop 1 (take N ?B))" using Suc.prems(2) k by (intro nth_in_window)
  have read: "Option.bind (node_at g i) (\<lambda>n. slice_read (Childs n) k) = Some (?B ! k)"
    using s(1) k(1) by (auto simp: childs_slice_def slice_read_def)
  show ?case
  proof (cases "?B ! k \<in> set (childs g i)")
    case True
    then obtain g' s' where g': "RemoveNode (?B ! k) g = Inr g'" "skipping i c N g' s'"
      using skipping_remove [OF Suc.prems(1) True] mem s(3) by metis
    have "RemoveSubGraph (Suc f) (?B ! k) g = Some (Inr g')"
      using RemoveSubGraph_leaf s(5) [OF True] g'(1) by metis
    then show ?thesis
      using Suc.IH [OF g'(2), of "Suc k"] Suc.prems(2,3) read by simp
  next
    case False
    then have "RemoveSubGraph (Suc f) (?B ! k) g = Some (Inr g)"
      using s(4) [OF mem] RemoveSubGraph_missing by blast
    then show ?thesis
      using Suc.IH [OF Suc.prems(1), of "Suc k"] Suc.prems(2,3) read by simp
  qed
qed

text \<open>After the first iteration the second child is in front, and stays there.\<close>

lemma skipping_start:
  assumes wf: "graph_wf g" and ch: "childs g i = c0 # c1 # c2 # cs"
    and leaves: "\<And>x. x \<in> set (childs g i) \<Longrightarrow> childs g x = []" and root: "Root g \<notin> set (childs g i)"
  shows "\<exists>g' s'. RemoveNode c0 g = Inr g' \<and> skipping i c1 (length (childs g i)) g' s'"
proof -
  have c0: "c0 \<in> set (childs g i)" using ch by simp
  then have c0n: "c0 \<in> graph_nodes g" "childs g c0 = []" "c0 \<noteq> Root g"
    using graph_wfD(7) [OF wf] leaves root by auto
  have "i \<in> graph_nodes g" using c0 by (rule childs_in_nodes)
  then obtain s where s: "childs_slice g i = Some s" by (auto simp: childs_slice_def graph_nodes_iff)
  have el: "elems s = c0 # c1 # c2 # cs" using childs_slice_childs [OF s] ch by simp
  have dist: "distinct (c0 # c1 # c2 # cs)" using graph_wfD(4) [OF wf, of i] ch by simp
  obtain g' where g': "RemoveNode c0 g = Inr g'" using RemoveNode_leaf [OF wf c0n(1,2)] by blast
  note rm = RemoveNode_Inr [OF wf c0n g'] and ch' = childs_RemoveNode [OF wf c0n g']
  have "i \<noteq> c0" using c0 graph_wf_irrefl [OF wf] by auto
  moreover have "last_index c0 (elems s) = Some 0"
    using dist by (auto simp: el split: option.splits dest!: last_index_SomeD)
  ultimately have s': "childs_slice g' i = Some (slice_remove 0 s)"
    using RemoveNode_slices [OF wf g'] s by (simp add: shift_out_def)
  have B: "elems (slice_remove 0 s) @ spare (slice_remove 0 s) =
      (c1 # c2 # cs @ [last (c2 # cs)]) @ spare s"
    by (simp add: slice_remove_def el)
  have window: "drop 1 (take (length (childs g i)) (elems (slice_remove 0 s) @ spare (slice_remove 0 s))) =
      c2 # cs @ [last (c2 # cs)]"
    unfolding B ch by simp
  have sub: "set (c2 # cs @ [last (c2 # cs)]) \<subseteq> set (c2 # cs)"
    using last_in_set [of "c2 # cs"] by (auto split: if_splits)
  have "skipping i c1 (length (childs g i)) g' (slice_remove 0 s)"
    unfolding skipping_def window
  proof (intro conjI ballI)
    show "c1 \<notin> set (c2 # cs @ [last (c2 # cs)])" using sub dist by auto
    fix y assume "y \<in> set (c2 # cs @ [last (c2 # cs)])"
    then have "y \<in> set (c2 # cs)" using sub by blast
    then show "y \<in> set (childs g' i) \<or> y \<notin> graph_nodes g'"
      using ch' [of i] dist by (auto simp: ch)
  next
    fix y assume "y \<in> set (childs g' i)"
    then show "childs g' y = []" using ch' [of i] ch' [of y] leaves [of y] by auto
  next
    show "Root g' \<notin> set (childs g' i)" using rm(4) ch' root by auto
  qed (use rm(1) s' ch in \<open>auto simp: el slice_remove_def\<close>)
  with g' show ?thesis by blast
qed

lemma RemoveSubGraph_three_leaves:
  assumes wf: "graph_wf g" and three: "3 \<le> length (childs g i)"
    and leaves: "\<And>x. x \<in> set (childs g i) \<Longrightarrow> childs g x = []" and root: "Root g \<notin> set (childs g i)"
  shows "RemoveSubGraph (Suc (Suc f)) i g = Some (Inl (HasChildren i))"
proof -
  obtain c0 c1 c2 cs where ch: "childs g i = c0 # c1 # c2 # cs"
    using three by (metis Suc_le_length_iff numeral_3_eq_3)
  then have c0: "c0 \<in> set (childs g i)" by simp
  then have c0': "c0 \<in> graph_nodes g" using graph_wfD(7) [OF wf] by blast
  obtain n where n: "node_at g i = Some n"
    using childs_in_nodes [OF c0] by (auto simp: graph_nodes_iff)
  obtain g1 s1 where g1: "RemoveNode c0 g = Inr g1" "skipping i c1 (length (childs g i)) g1 s1"
    using skipping_start [OF wf ch leaves root] by blast
  obtain g2 s2 where g2: "RemoveChilds (Suc f) i (length (c1 # c2 # cs)) 1 g1 = Some (Inr g2)"
      "skipping i c1 (length (childs g i)) g2 s2"
    using RemoveChilds_skipping [OF g1(2), of 1 "length (c1 # c2 # cs)" f] ch by auto
  have read: "slice_read (Childs n) 0 = Some c0" using n ch by (simp add: slice_read_def)
  have "RemoveChilds (Suc f) i (length (elems (Childs n))) 0 g = Some (Inr g2)"
    using n ch read g1(1) g2(1) RemoveSubGraph_leaf [OF c0' leaves [OF c0], of f]
    by (simp del: RemoveSubGraph.simps)
  moreover have "RemoveNode i g2 = Inl (HasChildren i)"
    using g2(2) childs_slice_childs [of g2 i s2]
    by (intro RemoveNode_HasChildren) (auto simp: skipping_def)
  ultimately show ?thesis using n by simp
qed

text \<open>Where every node has at most two children the loop reaches all of them: the subgraph is
  removed, and nothing else.\<close>

definition second :: "'a graph \<Rightarrow> string \<Rightarrow> string option" where
  "second g p = Option.bind (childs_slice g p) (\<lambda>s. slice_read s 1)"

definition without :: "'a graph \<Rightarrow> string set \<Rightarrow> 'a graph \<Rightarrow> bool" where
  "without g D g' \<longleftrightarrow>
     graph_wf g' \<and> graph_nodes g' = graph_nodes g - D \<and> edges g' = {(a, b) \<in> edges g. b \<notin> D} \<and>
     Root g' = Root g \<and> item g' = item g \<and> contents g' = contents g |` (- D) \<and>
     (\<forall>p. p \<notin> D \<longrightarrow> length (childs g p) \<le> 2 \<longrightarrow> second g' p = second g p)"

lemma without_childs: "without g D g' \<Longrightarrow> set (childs g' a) = set (childs g a) - D"
  using edges_iff [of a _ g'] edges_iff [of a _ g] by (auto simp: without_def simp del: edges_iff)

lemma without_length:
  assumes "graph_wf g" and "without g D g'"
  shows "length (childs g' a) \<le> length (childs g a)"
proof -
  have "distinct (childs g' a)" "distinct (childs g a)"
    using assms by (auto simp: without_def intro: graph_wfD(4))
  then show ?thesis
    using without_childs [OF assms(2), of a] by (metis Diff_subset List.finite_set card_mono distinct_card)
qed

lemma without_trans:
  assumes "graph_wf g" and 1: "without g D g'" and 2: "without g' D' g''"
  shows "without g (D \<union> D') g''"
proof -
  have "second g'' p = second g p" if "p \<notin> D \<union> D'" "length (childs g p) \<le> 2" for p
    using that 1 2 without_length [OF assms(1) 1, of p] by (auto simp: without_def)
  then show ?thesis
    using 1 2 by (auto simp: without_def Int_commute)
qed

lemma without_missing: "graph_wf g \<Longrightarrow> i \<notin> graph_nodes g \<Longrightarrow> without g {i} g"
proof -
  assume wf: "graph_wf g" and i: "i \<notin> graph_nodes g"
  then have "edges g = {(a, b) \<in> edges g. b \<notin> {i}}"
    using graph_wfD(7) [OF wf] by (auto simp: edges_def)
  moreover have "contents g = contents g |` (- {i})"
    using i by (auto simp: contents_def restrict_map_def graph_nodes_iff fun_eq_iff)
  ultimately show "without g {i} g" using wf i by (auto simp: without_def)
qed

lemma RemoveNode_without:
  assumes wf: "graph_wf g" and leaf: "childs g x = []" and "x \<noteq> Root g"
  shows "\<exists>g'. RemoveNode x g = Inr g' \<and> without g {x} g'"
proof (cases "x \<in> graph_nodes g")
  case False
  then have "RemoveNode x g = Inr g" by (simp add: RemoveNode_def graph_nodes_iff)
  with without_missing [OF wf False] show ?thesis by blast
next
  case True
  obtain g' where g': "RemoveNode x g = Inr g'" using RemoveNode_leaf [OF wf True leaf] by blast
  have "second g' p = second g p" if "p \<noteq> x" "length (childs g p) \<le> 2" for p
    using that RemoveNode_slices [OF wf g', of p] slice_read_1_shift_out [of _ x]
    by (cases "childs_slice g p") (auto simp: second_def dest: childs_slice_childs)
  moreover have "(contents g)(x := None) = contents g |` (- {x})"
    by (auto simp: restrict_map_def fun_eq_iff)
  ultimately show ?thesis
    using RemoveNode_Inr [OF wf True leaf assms(3) g'] g' by (auto simp: without_def)
qed

definition closed_below :: "'a graph \<Rightarrow> string set \<Rightarrow> bool" where
  "closed_below g D \<longleftrightarrow> (\<forall>(a, b) \<in> edges g. a \<in> D \<longrightarrow> b \<in> D)"

lemma below_closed: "closed_below g (insert i (below g i))"
  by (auto simp: closed_below_def below_def simp del: edges_iff intro: trancl_into_trancl)

lemma below_without:
  assumes w: "without g D g'" and closed: "closed_below g D"
  shows "below g' x = below g x - D"
proof -
  have e: "edges g' = {(a, b) \<in> edges g. b \<notin> D}" using w by (simp add: without_def)
  have "(x, y) \<in> (edges g)\<^sup>+ \<and> y \<notin> D" if "(x, y) \<in> (edges g')\<^sup>+" for y
    using that by (induction rule: trancl_induct) (auto simp: e simp del: edges_iff intro: trancl_into_trancl)
  moreover have "(x, y) \<in> (edges g')\<^sup>+" if "(x, y) \<in> (edges g)\<^sup>+" "y \<notin> D" for y
    unfolding e using that closed by (auto simp: closed_below_def simp del: edges_iff intro!: trancl_without)
  ultimately show ?thesis unfolding below_def by blast
qed

lemma below_eq: "below g i = (\<Union>c \<in> set (childs g i). insert c (below g c))"
proof -
  have "(i, y) \<in> (edges g)\<^sup>+ \<longleftrightarrow> (\<exists>c. (i, c) \<in> edges g \<and> (c = y \<or> (c, y) \<in> (edges g)\<^sup>+))" for y
    by (metis converse_tranclE r_into_trancl' trancl_into_trancl2)
  then show ?thesis by (auto simp: below_def)
qed

definition thin_at :: "'a graph \<Rightarrow> string \<Rightarrow> bool" where
  "thin_at g i \<longleftrightarrow> Root g \<notin> insert i (below g i) \<and>
     (\<forall>x \<in> insert i (below g i). length (childs g x) \<le> 2)"

lemma thin_at_child: "thin_at g i \<Longrightarrow> c \<in> set (childs g i) \<Longrightarrow> thin_at g c"
  using below_eq [of g i] by (auto simp: thin_at_def)

lemma thin_at_without:
  assumes "graph_wf g" and "thin_at g c" and w: "without g D g'"
    and closed: "closed_below g D"
  shows "thin_at g' c" and "card (below g' c) \<le> card (below g c)"
proof -
  have b: "below g' c \<subseteq> below g c" using below_without [OF w closed] by blast
  then show "card (below g' c) \<le> card (below g c)"
    using finite_below [OF assms(1)] by (intro card_mono)
  have "length (childs g' x) \<le> 2" if "x \<in> insert c (below g' c)" for x
    using that b assms(2) without_length [OF assms(1) w, of x] by (force simp: thin_at_def)
  moreover have "Root g' \<notin> insert c (below g' c)"
    using b assms(2) w by (auto simp: thin_at_def without_def)
  ultimately show "thin_at g' c" by (simp add: thin_at_def)
qed

text \<open>Once all children are gone, the node itself goes.\<close>

lemma RemoveSubGraph_finish:
  assumes wf: "graph_wf g" and n: "node_at g i = Some n" and root: "i \<noteq> Root g"
    and loop: "RemoveChilds f i (length (elems (Childs n))) 0 g = Some (Inr g1)"
    and w: "without g (below g i) g1"
  shows "\<exists>g'. RemoveSubGraph (Suc f) i g = Some (Inr g') \<and> without g (insert i (below g i)) g'"
proof -
  have wf1: "graph_wf g1" "Root g1 = Root g" using w by (simp_all add: without_def)
  have "set (childs g i) \<subseteq> below g i" using below_eq [of g i] by blast
  then have "set (childs g1 i) = {}" using without_childs [OF w, of i] by auto
  then have "childs g1 i = []" by simp
  with RemoveNode_without [OF wf1(1)] root wf1(2) obtain g' where
    g': "RemoveNode i g1 = Inr g'" "without g1 {i} g'" by metis
  with without_trans [OF wf w g'(2)] n loop show ?thesis by (intro exI [of _ g']) auto
qed

lemma RemoveSubGraph_thin:
  assumes "graph_wf g" and "thin_at g i" and "card (below g i) < f"
  shows "\<exists>g'. RemoveSubGraph f i g = Some (Inr g') \<and> without g (insert i (below g i)) g'"
  using assms
proof (induction f arbitrary: i g)
  case 0
  then show ?case by simp
next
  case (Suc f)
  note wf = Suc.prems(1) and thin = Suc.prems(2)
  show ?case
  proof (cases "node_at g i")
    case None
    then have "i \<notin> graph_nodes g" "below g i = {}" using below_eq [of g i] by (simp_all add: graph_nodes_iff)
    then show ?thesis using RemoveSubGraph_missing without_missing [OF wf] by metis
  next
    case (Some n)
    have i: "i \<noteq> Root g" "i \<notin> below g i"
      using thin graph_wfD(8) [OF wf] by (auto simp: thin_at_def below_def acyclic_def)
    have child: "\<exists>g'. RemoveSubGraph f c g = Some (Inr g') \<and> without g (insert c (below g c)) g'"
      "card (below g c) < f" if "c \<in> set (childs g i)" for c
      using Suc.IH [OF wf thin_at_child [OF thin that]] card_below_child [OF wf that] Suc.prems(3) by auto
    from thin consider "childs g i = []" | c where "childs g i = [c]" | c0 c1 where "childs g i = [c0, c1]"
      by (cases "childs g i"; cases "tl (childs g i)"; cases "tl (tl (childs g i))") (auto simp: thin_at_def)
    then show ?thesis
    proof cases
      case 1
      then have "without g (below g i) g"
        using wf below_eq [of g i] by (auto simp: without_def restrict_map_def)
      then show ?thesis using 1 Some by (intro RemoveSubGraph_finish [OF wf Some i(1)]) auto
    next
      case (2 c)
      then obtain g1 where g1: "RemoveSubGraph f c g = Some (Inr g1)" "without g (insert c (below g c)) g1"
        using child(1) [of c] by auto
      then have "without g (below g i) g1" using 2 below_eq [of g i] by simp
      then show ?thesis
        using 2 Some g1(1) by (intro RemoveSubGraph_finish [OF wf Some i(1)]) (auto simp: slice_read_def)
    next
      case (3 c0 c1)
      let ?D = "insert c0 (below g c0)"
      obtain g1 where g1: "RemoveSubGraph f c0 g = Some (Inr g1)" "without g ?D g1"
        using child(1) [of c0] 3 by auto
      have wf1: "graph_wf g1" using g1(2) by (simp add: without_def)
      have c1: "c1 \<in> set (childs g i)" using 3 by simp
      have t: "thin_at g1 c1" "card (below g1 c1) < f"
        using thin_at_without [OF wf thin_at_child [OF thin c1] g1(2) below_closed] child(2) [OF c1]
        by auto
      then obtain g2 where g2: "RemoveSubGraph f c1 g1 = Some (Inr g2)"
          "without g1 (insert c1 (below g1 c1)) g2"
        using Suc.IH [OF wf1] by blast
      have "?D \<union> insert c1 (below g1 c1) = below g i"
        using below_without [OF g1(2) below_closed, of c1] below_eq [of g i] 3 by auto
      then have w: "without g (below g i) g2" using without_trans [OF wf g1(2) g2(2)] by simp
      have "second g i = Some c1" using 3 Some by (simp add: second_def childs_slice_def slice_read_def)
      moreover have "i \<notin> ?D" using i(2) below_eq [of g i] 3 by auto
      ultimately have "second g1 i = Some c1" using g1(2) 3 by (simp add: without_def)
      then have "Option.bind (node_at g1 i) (\<lambda>n. slice_read (Childs n) 1) = Some c1"
        by (cases "node_at g1 i") (auto simp: second_def childs_slice_def)
      with 3 Some g1(1) g2(1) have "RemoveChilds f i (length (elems (Childs n))) 0 g = Some (Inr g2)"
        by (simp add: slice_read_def)
      then show ?thesis using w by (rule RemoveSubGraph_finish [OF wf Some i(1)])
    qed
  qed
qed

end
