(* ===== verification/Graph_Properties.thy ===== *)
theory Graph_Properties
  imports Dep_Graph
begin

text \<open>
  The properties of the dependency graph: adding edges keeps the graph acyclic and is refused with
  a cycle as evidence, the walk from the top visits parents first, and what removing a subgraph
  does.  The witnesses run the operations on small graphs.
\<close>

section \<open>Sample graphs\<close>

lemma graph_wf_NewGraph: "graph_wf (NewGraphOf (NewNode r d) it)"
proof -
  let ?g = "NewGraphOf (NewNode r d) it"
  have c: "childs ?g a = []" "parents ?g a = []" for a
    by (simp_all add: NewGraphOf_def NewNode_def node_at_def childs_def parents_def)
  then have "edges ?g = {}" by (simp add: edges_def)
  then show ?thesis
    unfolding graph_wf_def using c
    by (auto simp: NewGraphOf_def NewNode_def wf_map_def node_at_def graph_nodes_def acyclic_def split: if_splits)
qed

definition inserts :: "(string \<times> string) list \<Rightarrow> nat graph \<Rightarrow> graph_error + nat graph" where
  "inserts es g = foldl (\<lambda>r (p, i). case r of Inl e \<Rightarrow> Inl e
     | Inr g \<Rightarrow> (case InsertNodeAt p i 0 g of Inl e \<Rightarrow> Inl e | Inr (g', _) \<Rightarrow> Inr g')) (Inr g) es"

lemma graph_wf_inserts_Inr: "inserts es g = Inr g' \<Longrightarrow> graph_wf g \<Longrightarrow> graph_wf g'"
proof (induction es arbitrary: g' rule: rev_induct)
  case Nil
  then show ?case by (simp add: inserts_def)
next
  case (snoc e es)
  obtain p i where e: "e = (p, i)" by fastforce
  from snoc.prems(1) obtain g1 j where g1: "inserts es g = Inr g1" "InsertNodeAt p i 0 g1 = Inr (g', j)"
    by (auto simp: inserts_def e split: sum.splits prod.splits)
  from snoc.IH [OF g1(1) snoc.prems(2)] g1(2) show ?case by (rule InsertNodeAt_Inr(1))
qed

text \<open>The chain root, a, b with the extra edge from root to b; and a node with three leaves.\<close>

definition chain :: "nat graph" where
  "chain = projr (inserts [(''root'', ''b''), (''root'', ''a''), (''a'', ''b'')]
     (NewGraphOf (NewNode ''root'' 0) []))"

definition star :: "nat graph" where
  "star = projr (inserts [(''root'', ''p''), (''p'', ''a''), (''p'', ''b''), (''p'', ''c'')]
     (NewGraphOf (NewNode ''root'' 0) []))"

lemma graph_wf_inserts:
  "\<not> isl (inserts es (NewGraphOf (NewNode r d) it)) \<Longrightarrow>
    graph_wf (projr (inserts es (NewGraphOf (NewNode r d) it)))"
  by (rule graph_wf_inserts_Inr [OF _ graph_wf_NewGraph]) simp

lemma graph_wf_chain: "graph_wf chain"
  unfolding chain_def by (rule graph_wf_inserts) code_simp

lemma graph_wf_star: "graph_wf star"
  unfolding star_def by (rule graph_wf_inserts) code_simp

section \<open>Adding edges\<close>

text \<open>C1: \<open>AddEdge\<close> on a well-formed graph.  When both nodes exist and the edge would not close a
  cycle it succeeds, the graph stays well-formed (in particular acyclic), and exactly this edge is
  added; otherwise it returns an error.\<close>

theorem AddEdge_correct:
  assumes "graph_wf g"
  shows "case AddEdge a b g of
      Inr g' \<Rightarrow> a \<in> graph_nodes g \<and> b \<in> graph_nodes g \<and> (b, a) \<notin> (edges g)\<^sup>* \<and>
        graph_wf g' \<and> edges g' = insert (a, b) (edges g) \<and> graph_nodes g' = graph_nodes g \<and>
        Root g' = Root g \<and> contents g' = contents g
    | Inl e \<Rightarrow> a \<notin> graph_nodes g \<or> b \<notin> graph_nodes g \<or> (b, a) \<in> (edges g)\<^sup>*"
proof (cases "AddEdge a b g")
  case (Inl e)
  with AddEdge_Inl [OF assms] show ?thesis by simp
next
  case (Inr g')
  note ok = AddEdge_Inr [OF assms Inr]
  have "(b, a) \<notin> (edges g)\<^sup>*"
  proof
    assume "(b, a) \<in> (edges g)\<^sup>*"
    then have "(b, a) \<in> (edges g')\<^sup>*" unfolding ok(2) by (meson rtrancl_mono subset_insertI subsetD)
    moreover have "(a, b) \<in> edges g'" unfolding ok(2) by simp
    ultimately have "(a, a) \<in> (edges g')\<^sup>+" by (rule rtrancl_into_trancl2 [rotated])
    with graph_wfD(8) [OF ok(1)] show False by (simp add: acyclic_def)
  qed
  with Inr ok show ?thesis by simp
qed

text \<open>The back edge of the chain is refused, and a node is added below the top.\<close>

theorem AddEdge_correct_witness:
  "graph_wf chain \<and> AddEdge ''b'' ''a'' chain = Inl (CyclicError [] [''a'', ''b'']) \<and>
   (''a'', ''b'') \<in> (edges chain)\<^sup>*"
proof -
  have r: "AddEdge ''b'' ''a'' chain = Inl (CyclicError [] [''a'', ''b''])" by code_simp
  have n: "''a'' \<in> graph_nodes chain" "''b'' \<in> graph_nodes chain" by code_simp+
  from AddEdge_correct [OF graph_wf_chain, of "''b''" "''a''"] r n graph_wf_chain show ?thesis by simp
qed

text \<open>The search for a path is correct and complete on every graph, cyclic ones included: it
  returns a path exactly when the target can be reached, and the path it returns starts at the
  source and follows edges to the target.\<close>

theorem findFirstPath_correct:
  "(findFirstPath g a b = None \<longleftrightarrow> (a, b) \<notin> (edges g)\<^sup>*) \<and>
   (case findFirstPath g a b of None \<Rightarrow> True | Some path \<Rightarrow> hd path = a \<and> is_walk g a (tl path) b)"
proof (cases "findFirstPath g a b")
  case (Some path)
  then obtain p where "path = a # p" "is_walk g a p b" by (rule findFirstPath_Some)
  with Some findFirstPath_None [of g a b] show ?thesis by simp
qed (use findFirstPath_None [of g a b] in simp)

section \<open>The next node from the top\<close>

text \<open>C2: \<open>NextFromTop\<close> always returns on a well-formed graph.  It returns nil exactly when every
  node below the root is done; otherwise it marks and returns a node that was not done and all of
  whose parents below the root are done, and changes nothing else.\<close>

theorem NextFromTop_correct:
  assumes "graph_wf g"
  shows "(NextFromTop g = Some (g, None) \<and> (\<forall>i \<in> below g (Root g). is_done g i)) \<or>
    (\<exists>i. NextFromTop g = Some (mark_done i g, Some i) \<and> i \<in> below g (Root g) \<and> \<not> is_done g i \<and>
       (\<forall>p \<in> set (parents g i). p \<in> below g (Root g) \<longrightarrow> is_done g p))"
  using assms
proof (cases rule: NextFromTop_cases)
  case all_done
  then show ?thesis by blast
next
  case (next_node i)
  then show ?thesis using graph_wfD(6) [OF assms] by (intro disjI2 exI [of _ i]) auto
qed

theorem NextFromTop_correct_witness:
  "graph_wf chain \<and> NextFromTop chain = Some (mark_done ''a'' chain, Some ''a'') \<and>
   \<not> is_done chain ''a''"
proof -
  have r: "map_option snd (NextFromTop chain) = Some (Some ''a'')" by code_simp
  with NextFromTop_correct [OF graph_wf_chain] graph_wf_chain show ?thesis by auto
qed

section \<open>Removing a subgraph\<close>

text \<open>C3: \<open>RemoveSubGraph\<close> on a subgraph in which no node has more than two children and which does
  not contain the root ends, succeeds, and removes exactly the node and everything below it; the
  remaining nodes keep their edges, data and marks.\<close>

theorem RemoveSubGraph_removes:
  assumes "graph_wf g" and "Root g \<notin> insert i (below g i)"
    and "\<And>x. x \<in> insert i (below g i) \<Longrightarrow> length (childs g x) \<le> 2"
  shows "\<exists>g'. RemoveSubGraph (leaf_fuel g) i g = Some (Inr g') \<and> graph_wf g' \<and>
    graph_nodes g' = graph_nodes g - insert i (below g i) \<and>
    edges g' = {(a, b) \<in> edges g. b \<notin> insert i (below g i)} \<and>
    contents g' = contents g |` (- insert i (below g i)) \<and> Root g' = Root g"
proof -
  have "thin_at g i" using assms(2,3) by (simp add: thin_at_def)
  moreover have "card (below g i) < leaf_fuel g"
    using card_below [OF assms(1)] by (simp add: leaf_fuel_def less_Suc_eq_le)
  ultimately obtain g' where "RemoveSubGraph (leaf_fuel g) i g = Some (Inr g')"
      "without g (insert i (below g i)) g'"
    using RemoveSubGraph_thin [OF assms(1)] by blast
  then show ?thesis by (intro exI [of _ g']) (simp add: without_def)
qed

lemma below_chain_a: "below chain ''a'' = {''b''}"
proof -
  have "childs chain ''a'' = [''b'']" "childs chain ''b'' = []" by code_simp+
  then show ?thesis using below_eq [of chain "''a''"] below_eq [of chain "''b''"] by simp
qed

theorem RemoveSubGraph_removes_witness:
  "\<exists>g'. RemoveSubGraph (leaf_fuel chain) ''a'' chain = Some (Inr g') \<and> graph_nodes g' = {''root''}"
proof -
  have c: "Root chain = ''root''" "graph_nodes chain = {''root'', ''b'', ''a''}"
    "length (childs chain ''a'') = 1" "length (childs chain ''b'') = 0"
    by code_simp+
  have thin: "Root chain \<notin> insert ''a'' (below chain ''a'')" using c(1) by (simp add: below_chain_a)
  have two: "length (childs chain x) \<le> 2" if "x \<in> insert ''a'' (below chain ''a'')" for x
    using that c(3,4) by (auto simp: below_chain_a)
  obtain g' where "RemoveSubGraph (leaf_fuel chain) ''a'' chain = Some (Inr g')"
      "graph_nodes g' = graph_nodes chain - insert ''a'' (below chain ''a'')"
    using RemoveSubGraph_removes [OF graph_wf_chain thin two] by blast
  with c(2) show ?thesis by (auto simp: below_chain_a)
qed

text \<open>C4: \<open>RemoveSubGraph\<close> on a node with three or more children, all of them leaves, always fails:
  the loop ranges over the slice that \<open>RemoveNode\<close> shrinks in place, skips the second child, and the
  final \<open>RemoveNode\<close> refuses the node because it still has children.\<close>

theorem RemoveSubGraph_three_children:
  assumes "graph_wf g" and "3 \<le> length (childs g i)"
    and "\<And>x. x \<in> set (childs g i) \<Longrightarrow> childs g x = []" and "Root g \<notin> set (childs g i)"
  shows "RemoveSubGraph (leaf_fuel g) i g = Some (Inl (HasChildren i))"
proof -
  have "i \<in> graph_nodes g"
    using assms(2) by (cases "childs g i") (auto intro: childs_in_nodes)
  then have "length (Nodes g) \<noteq> 0" by (auto simp: graph_nodes_def)
  then obtain f where "leaf_fuel g = Suc (Suc f)"
    by (cases "length (Nodes g)") (simp_all add: leaf_fuel_def)
  with RemoveSubGraph_three_leaves [OF assms(1,2)] assms(3,4) show ?thesis by metis
qed

theorem RemoveSubGraph_three_children_witness:
  "childs star ''p'' = [''a'', ''b'', ''c''] \<and>
   RemoveSubGraph (leaf_fuel star) ''p'' star = Some (Inl (HasChildren ''p''))"
proof -
  have c: "childs star ''p'' = [''a'', ''b'', ''c'']" "childs star ''a'' = []" "childs star ''b'' = []"
    "childs star ''c'' = []" "Root star = ''root''"
    by code_simp+
  have "RemoveSubGraph (leaf_fuel star) ''p'' star = Some (Inl (HasChildren ''p''))"
    by (rule RemoveSubGraph_three_children [OF graph_wf_star]) (use c in auto)
  with c(1) show ?thesis by blast
qed

end
