(* ===== verification/Go_Regexp.thy ===== *)
theory Go_Regexp
  imports Prelude
begin

text \<open>
  The part of Go's package \<open>regexp\<close> that the sources use, on byte strings.  An expression is a value
  of \<open>re\<close>; \<open>mt\<close> finds the match that leftmost-first semantics prefers by backtracking: an
  expression is matched against the front of the input and a continuation decides whether what
  remains is acceptable.  A match state is the remaining input and the captured groups.  On top of
  it are the functions \<open>FindStringSubmatch\<close>, \<open>FindAllStringSubmatch\<close>, \<open>MatchString\<close>,
  \<open>ReplaceAllStringFunc\<close> and \<open>ReplaceAllString\<close> (without \<open>$\<close> in the replacement).  The loops of \<open>*\<close>
  only repeat on progress, so the length of the input bounds them.
\<close>

section \<open>Expressions and matching\<close>

type_synonym mstate = "string \<times> (nat \<times> string) list"

datatype re =
    Empty
  | Cls "char \<Rightarrow> bool"
  | Seq re re
  | Alt re re
  | Star re
  | Lazy re
  | Cap nat re
  | Eot

primrec starn :: "((mstate \<Rightarrow> mstate option) \<Rightarrow> mstate \<Rightarrow> mstate option) \<Rightarrow>
    (mstate \<Rightarrow> mstate option) \<Rightarrow> nat \<Rightarrow> mstate \<Rightarrow> mstate option" where
  "starn m k 0 s = k s"
| "starn m k (Suc n) s =
     (case m (\<lambda>s'. if length (fst s') < length (fst s) then starn m k n s' else None) s of
        Some t \<Rightarrow> Some t
      | None \<Rightarrow> k s)"

primrec lazyn :: "((mstate \<Rightarrow> mstate option) \<Rightarrow> mstate \<Rightarrow> mstate option) \<Rightarrow>
    (mstate \<Rightarrow> mstate option) \<Rightarrow> nat \<Rightarrow> mstate \<Rightarrow> mstate option" where
  "lazyn m k 0 s = k s"
| "lazyn m k (Suc n) s =
     (case k s of
        Some t \<Rightarrow> Some t
      | None \<Rightarrow> m (\<lambda>s'. if length (fst s') < length (fst s) then lazyn m k n s' else None) s)"

primrec mt :: "re \<Rightarrow> (mstate \<Rightarrow> mstate option) \<Rightarrow> mstate \<Rightarrow> mstate option" where
  "mt Empty k s = k s"
| "mt (Cls p) k s =
     (case fst s of [] \<Rightarrow> None | c # cs \<Rightarrow> if p c then k (cs, snd s) else None)"
| "mt (Seq a b) k s = mt a (mt b k) s"
| "mt (Alt a b) k s = (case mt a k s of Some t \<Rightarrow> Some t | None \<Rightarrow> mt b k s)"
| "mt (Star a) k s = starn (mt a) k (length (fst s)) s"
| "mt (Lazy a) k s = lazyn (mt a) k (length (fst s)) s"
| "mt (Cap n a) k s =
     mt a (\<lambda>s'. k (fst s', (n, take (length (fst s) - length (fst s')) (fst s)) # snd s')) s"
| "mt Eot k s = (if fst s = [] then k s else None)"

definition Ch :: "char \<Rightarrow> re" where
  "Ch c = Cls (\<lambda>x. x = c)"

definition Plus :: "re \<Rightarrow> re" where
  "Plus r = Seq r (Star r)"

definition Opt :: "re \<Rightarrow> re" where
  "Opt r = Alt r Empty"

fun Lit :: "string \<Rightarrow> re" where
  "Lit [] = Empty"
| "Lit (c # cs) = Seq (Ch c) (Lit cs)"

fun Seqs :: "re list \<Rightarrow> re" where
  "Seqs [] = Empty"
| "Seqs [r] = r"
| "Seqs (r # rs) = Seq r (Seqs rs)"

fun Alts :: "re list \<Rightarrow> re" where
  "Alts [] = Cls (\<lambda>_. False)"
| "Alts [r] = r"
| "Alts (r # rs) = Alt r (Alts rs)"

section \<open>Character classes\<close>

definition is_digit :: "char \<Rightarrow> bool" where
  "is_digit c \<longleftrightarrow> 48 \<le> (of_char c :: nat) \<and> (of_char c :: nat) \<le> 57"

definition is_upper :: "char \<Rightarrow> bool" where
  "is_upper c \<longleftrightarrow> 65 \<le> (of_char c :: nat) \<and> (of_char c :: nat) \<le> 90"

definition is_lower :: "char \<Rightarrow> bool" where
  "is_lower c \<longleftrightarrow> 97 \<le> (of_char c :: nat) \<and> (of_char c :: nat) \<le> 122"

definition is_alnum :: "char \<Rightarrow> bool" where
  "is_alnum c \<longleftrightarrow> is_digit c \<or> is_upper c \<or> is_lower c"

text \<open>\<open>\w\<close> and \<open>.\<close>\<close>

definition is_word :: "char \<Rightarrow> bool" where
  "is_word c \<longleftrightarrow> is_alnum c \<or> c = CHR ''_''"

definition not_newline :: "char \<Rightarrow> bool" where
  "not_newline c \<longleftrightarrow> c \<noteq> CHR 0x0A"

section \<open>Searching and replacing\<close>

definition match_at :: "re \<Rightarrow> string \<Rightarrow> mstate option" where
  "match_at r s = mt r Some (s, [])"

definition matched :: "string \<Rightarrow> string \<Rightarrow> string" where
  "matched s rest = take (length s - length rest) s"

definition group :: "(nat \<times> string) list \<Rightarrow> nat \<Rightarrow> string" where
  "group caps n = (case map_of caps n of None \<Rightarrow> [] | Some x \<Rightarrow> x)"

text \<open>The leftmost match: the text of the match and the captured groups.\<close>

fun FindStringSubmatch :: "re \<Rightarrow> string \<Rightarrow> (string \<times> (nat \<times> string) list) option" where
  "FindStringSubmatch r [] =
     (case match_at r [] of None \<Rightarrow> None | Some (rest, caps) \<Rightarrow> Some (matched [] rest, caps))"
| "FindStringSubmatch r (c # cs) =
     (case match_at r (c # cs) of
        None \<Rightarrow> FindStringSubmatch r cs
      | Some (rest, caps) \<Rightarrow> Some (matched (c # cs) rest, caps))"

definition MatchString :: "re \<Rightarrow> string \<Rightarrow> bool" where
  "MatchString r s \<longleftrightarrow> FindStringSubmatch r s \<noteq> None"

text \<open>An expression that starts with \<open>^\<close> only matches at the front.\<close>

definition FindPrefixSubmatch :: "re \<Rightarrow> string \<Rightarrow> (string \<times> (nat \<times> string) list) option" where
  "FindPrefixSubmatch r s =
     (case match_at r s of None \<Rightarrow> None | Some (rest, caps) \<Rightarrow> Some (matched s rest, caps))"

text \<open>All matches from left to right.  For the expressions of the sources every match is non-empty;
  the test on the length makes the recursion end for any expression.\<close>

function FindAllStringSubmatch :: "re \<Rightarrow> string \<Rightarrow> (string \<times> (nat \<times> string) list) list" where
  "FindAllStringSubmatch r [] = []"
| "FindAllStringSubmatch r (c # cs) =
     (case match_at r (c # cs) of
        None \<Rightarrow> FindAllStringSubmatch r cs
      | Some (rest, caps) \<Rightarrow>
          if length rest \<le> length cs
          then (matched (c # cs) rest, caps) # FindAllStringSubmatch r rest
          else FindAllStringSubmatch r cs)"
  by pat_completeness auto
termination by (relation "measure (\<lambda>(r, s). length s)") auto

function ReplaceAllStringFunc :: "re \<Rightarrow> (string \<Rightarrow> string) \<Rightarrow> string \<Rightarrow> string" where
  "ReplaceAllStringFunc r f [] = []"
| "ReplaceAllStringFunc r f (c # cs) =
     (case match_at r (c # cs) of
        None \<Rightarrow> c # ReplaceAllStringFunc r f cs
      | Some (rest, caps) \<Rightarrow>
          if length rest \<le> length cs
          then f (matched (c # cs) rest) @ ReplaceAllStringFunc r f rest
          else c # ReplaceAllStringFunc r f cs)"
  by pat_completeness auto
termination by (relation "measure (\<lambda>(r, f, s). length s)") auto

definition ReplaceAllString :: "re \<Rightarrow> string \<Rightarrow> string \<Rightarrow> string" where
  "ReplaceAllString r s new = ReplaceAllStringFunc r (\<lambda>_. new) s"

section \<open>Lemmas\<close>

subsection \<open>A match consumes a prefix\<close>

lemma starn_suffix:
  assumes "\<And>k s t. m k s = Some t \<Longrightarrow> \<exists>s' u. k s' = Some t \<and> fst s = u @ fst s'"
  shows "starn m k n s = Some t \<Longrightarrow> \<exists>s' u. k s' = Some t \<and> fst s = u @ fst s'"
proof (induction n arbitrary: s)
  case 0
  then show ?case by (intro exI [of _ s] exI [of _ "[]"]) simp
next
  case (Suc n)
  show ?case
  proof (cases "m (\<lambda>s'. if length (fst s') < length (fst s) then starn m k n s' else None) s")
    case None
    with Suc.prems show ?thesis by (intro exI [of _ s] exI [of _ "[]"]) simp
  next
    case (Some t')
    with Suc.prems have "t' = t" by simp
    from assms [OF Some] obtain s' u where "starn m k n s' = Some t" "fst s = u @ fst s'"
      by (auto simp: \<open>t' = t\<close> split: if_splits)
    with Suc.IH [of s'] show ?thesis by (metis append_assoc)
  qed
qed

lemma lazyn_suffix:
  assumes "\<And>k s t. m k s = Some t \<Longrightarrow> \<exists>s' u. k s' = Some t \<and> fst s = u @ fst s'"
  shows "lazyn m k n s = Some t \<Longrightarrow> \<exists>s' u. k s' = Some t \<and> fst s = u @ fst s'"
proof (induction n arbitrary: s)
  case 0
  then show ?case by (intro exI [of _ s] exI [of _ "[]"]) simp
next
  case (Suc n)
  show ?case
  proof (cases "k s")
    case None
    with Suc.prems have "m (\<lambda>s'. if length (fst s') < length (fst s) then lazyn m k n s' else None) s = Some t"
      by simp
    from assms [OF this] obtain s' u where "lazyn m k n s' = Some t" "fst s = u @ fst s'"
      by (auto split: if_splits)
    with Suc.IH [of s'] show ?thesis by (metis append_assoc)
  next
    case (Some t')
    with Suc.prems show ?thesis by (intro exI [of _ s] exI [of _ "[]"]) simp
  qed
qed

lemma mt_suffix: "mt r k s = Some t \<Longrightarrow> \<exists>s' u. k s' = Some t \<and> fst s = u @ fst s'"
proof (induction r arbitrary: k s t)
  case (Seq a b)
  then show ?case by (metis append_assoc mt.simps(3))
next
  case (Star r)
  then show ?case using starn_suffix [of "mt r"] by (metis mt.simps(5))
next
  case (Lazy r)
  then show ?case using lazyn_suffix [of "mt r"] by (metis mt.simps(6))
next
  case (Cap n r)
  then have "mt r (\<lambda>s'. k (fst s', (n, take (length (fst s) - length (fst s')) (fst s)) # snd s')) s = Some t"
    by simp
  from Cap.IH [OF this] show ?case by (metis fst_conv)
qed (fastforce split: list.splits option.splits if_splits)+

lemma match_at_suffix: "match_at r s = Some (rest, caps) \<Longrightarrow> s = matched s rest @ rest"
  using mt_suffix [of r Some "(s, [])"] by (auto simp: match_at_def matched_def)

subsection \<open>Expressions that do not match the empty string\<close>

primrec nullable :: "re \<Rightarrow> bool" where
  "nullable Empty = True"
| "nullable (Cls p) = False"
| "nullable (Seq a b) = (nullable a \<and> nullable b)"
| "nullable (Alt a b) = (nullable a \<or> nullable b)"
| "nullable (Star a) = True"
| "nullable (Lazy a) = True"
| "nullable (Cap n a) = nullable a"
| "nullable Eot = True"

lemma mt_progress:
  "mt r k s = Some t \<Longrightarrow> \<not> nullable r \<Longrightarrow> \<exists>s'. k s' = Some t \<and> length (fst s') < length (fst s)"
proof (induction r arbitrary: k s t)
  case (Seq a b)
  from Seq.prems(1) have ab: "mt a (mt b k) s = Some t" by simp
  show ?case
  proof (cases "nullable a")
    case True
    then have "\<not> nullable b" using Seq.prems(2) by simp
    obtain s' u where s': "mt b k s' = Some t" "fst s = u @ fst s'" using mt_suffix [OF ab] by blast
    from Seq.IH(2) [OF s'(1) \<open>\<not> nullable b\<close>] obtain s2 where
      "k s2 = Some t" "length (fst s2) < length (fst s')" by blast
    with s'(2) show ?thesis by (intro exI [of _ s2]) simp
  next
    case False
    from Seq.IH(1) [OF ab False] obtain s' where s': "mt b k s' = Some t" "length (fst s') < length (fst s)"
      by blast
    from mt_suffix [OF s'(1)] obtain s2 u where "k s2 = Some t" "fst s' = u @ fst s2" by blast
    with s'(2) show ?thesis by (intro exI [of _ s2]) simp
  qed
next
  case (Cap n r)
  then have "mt r (\<lambda>s'. k (fst s', (n, take (length (fst s) - length (fst s')) (fst s)) # snd s')) s = Some t"
    by simp
  from Cap.IH [OF this] Cap.prems(2) show ?case by (metis fst_conv nullable.simps(7))
qed (fastforce split: list.splits option.splits if_splits)+

lemma match_at_progress:
  "match_at r s = Some (rest, caps) \<Longrightarrow> \<not> nullable r \<Longrightarrow> length rest < length s"
  using mt_progress [of r Some "(s, [])"] by (auto simp: match_at_def)

subsection \<open>Greedy repetition of a class\<close>

text \<open>When the continuation accepts what is left after the longest run, that run is taken.\<close>

lemma starn_Cls:
  "k (dropWhile p s, c) = Some t \<Longrightarrow> length s \<le> n \<Longrightarrow> starn (mt (Cls p)) k n (s, c) = Some t"
proof (induction n arbitrary: s)
  case 0
  then show ?case by simp
next
  case (Suc n)
  then show ?case by (cases s) (auto split: if_splits)
qed

lemma mt_Star_Cls:
  "k (dropWhile p s, c) = Some t \<Longrightarrow> mt (Star (Cls p)) k (s, c) = Some t"
  by (simp add: starn_Cls)

lemma mt_Plus_Cls:
  assumes "k (dropWhile p s, c) \<noteq> None"
  shows "mt (Plus (Cls p)) k (s, c) =
    (case s of [] \<Rightarrow> None | x # _ \<Rightarrow> if p x then k (dropWhile p s, c) else None)"
  using assms by (cases s) (auto simp: Plus_def mt_Star_Cls simp del: mt.simps(5))

lemma mt_Lit:
  "mt (Lit w) k (s, c) = (if HasPrefix s w then k (drop (length w) s, c) else None)"
proof (induction w arbitrary: s)
  case Nil
  then show ?case by (simp add: HasPrefix_def)
next
  case (Cons x w)
  then show ?case by (cases s) (auto simp: HasPrefix_def Ch_def)
qed

subsection \<open>Replacing\<close>

text \<open>Text without a match stays; the replacement of the whole by itself is the identity.\<close>

lemma ReplaceAllStringFunc_id:
  "(\<And>x. f x = x) \<Longrightarrow> ReplaceAllStringFunc r f s = s"
proof (induction r f s rule: ReplaceAllStringFunc.induct)
  case (2 r f c cs)
  show ?case
  proof (cases "match_at r (c # cs)")
    case (Some x)
    then obtain rest caps where x: "match_at r (c # cs) = Some (rest, caps)" by (cases x) simp
    then show ?thesis using 2 match_at_suffix [OF x] by auto
  qed (use 2 in simp)
qed simp

lemma ReplaceAllStringFunc_cong:
  "(\<And>x. x \<in> fst ` set (FindAllStringSubmatch r s) \<Longrightarrow> f x = g x) \<Longrightarrow>
    ReplaceAllStringFunc r f s = ReplaceAllStringFunc r g s"
proof (induction r f s rule: ReplaceAllStringFunc.induct)
  case (2 r f c cs)
  show ?case
  proof (cases "match_at r (c # cs)")
    case (Some x)
    then obtain rest caps where "match_at r (c # cs) = Some (rest, caps)" by (cases x) simp
    then show ?thesis using 2 by auto
  qed (use 2 in simp)
qed simp

lemma ReplaceAllStringFunc_no_match:
  "FindAllStringSubmatch r s = [] \<Longrightarrow> ReplaceAllStringFunc r f s = s"
  using ReplaceAllStringFunc_cong [of r s f "\<lambda>x. x"] ReplaceAllStringFunc_id [of "\<lambda>x. x" r s] by simp

end
