(* ===== verification/Go_Strconv.thy ===== *)
theory Go_Strconv
  imports Go_Regexp
begin

text \<open>
  The parsers of Go's packages \<open>strconv\<close> and \<open>time\<close> that the sources call: \<open>ParseInt(s, 10, 64)\<close>,
  \<open>Atoi\<close>, \<open>ParseBool\<close> and \<open>ParseDuration\<close>.  A result is \<open>None\<close> where the Go function returns an
  error.  Values are integers with the range checks of the 64-bit implementations written out; a
  duration is a number of nanoseconds.  Fractions of a unit are computed exactly and rounded down
  (Go uses a float64 there, which agrees to the nanosecond).
\<close>

definition digit_val :: "char \<Rightarrow> nat" where
  "digit_val c = of_char c - 48"

fun digits_val :: "nat \<Rightarrow> string \<Rightarrow> nat" where
  "digits_val a [] = a"
| "digits_val a (c # cs) = digits_val (10 * a + digit_val c) cs"

definition split_sign :: "string \<Rightarrow> bool \<times> string" where
  "split_sign s =
     (case s of
        [] \<Rightarrow> (False, [])
      | c # cs \<Rightarrow> if c = CHR ''-'' then (True, cs) else if c = CHR ''+'' then (False, cs) else (False, s))"

definition ParseInt64 :: "string \<Rightarrow> int option" where
  "ParseInt64 s =
     (let (neg, ds) = split_sign s; v = int (digits_val 0 ds) in
      if ds = [] \<or> \<not> list_all is_digit ds then None
      else if neg then (if v > 2 ^ 63 then None else Some (- v))
      else (if v \<ge> 2 ^ 63 then None else Some v))"

definition Atoi :: "string \<Rightarrow> int option" where
  "Atoi s = ParseInt64 s"

definition ParseBool :: "string \<Rightarrow> bool option" where
  "ParseBool s =
     (if s \<in> {''1'', ''t'', ''T'', ''TRUE'', ''true'', ''True''} then Some True
      else if s \<in> {''0'', ''f'', ''F'', ''FALSE'', ''false'', ''False''} then Some False
      else None)"

section \<open>Durations\<close>

definition unit_ns :: "string \<Rightarrow> nat option" where
  "unit_ns u =
     map_of [(''ns'', 1), (''us'', 1000),
             ([CHR 0xC2, CHR 0xB5, CHR ''s''], 1000),
             ([CHR 0xCE, CHR 0xBC, CHR ''s''], 1000),
             (''ms'', 1000000), (''s'', 1000000000), (''m'', 60 * 1000000000),
             (''h'', 3600 * 1000000000)] u"

text \<open>One number with its unit, and what follows.  \<open>None\<close> is any of the errors.\<close>

definition duration_item :: "string \<Rightarrow> (nat \<times> string) option" where
  "duration_item s =
     (let ds = takeWhile is_digit s; s1 = dropWhile is_digit s;
          dot = (s1 \<noteq> [] \<and> hd s1 = CHR ''.'');
          fs = (if dot then takeWhile is_digit (tl s1) else []);
          s2 = (if dot then dropWhile is_digit (tl s1) else s1);
          u = takeWhile (\<lambda>c. c \<noteq> CHR ''.'' \<and> \<not> is_digit c) s2;
          s3 = dropWhile (\<lambda>c. c \<noteq> CHR ''.'' \<and> \<not> is_digit c) s2;
          v = digits_val 0 ds in
      if ds = [] \<and> fs = [] then None
      else if v > 2 ^ 63 then None
      else (case unit_ns u of
              None \<Rightarrow> None
            | Some n \<Rightarrow>
                if v > 2 ^ 63 div n then None
                else (let w = v * n + digits_val 0 fs * n div 10 ^ length fs in
                      if w > 2 ^ 63 then None else Some (w, s3))))"

lemma length_dropWhile_less: "s \<noteq> [] \<Longrightarrow> takeWhile P s \<noteq> [] \<Longrightarrow> length (dropWhile P s) < length s"
  by (cases s) (auto simp: le_imp_less_Suc length_dropWhile_le split: if_splits)

lemma unit_ns_Nil [simp]: "unit_ns [] = None"
  by (simp add: unit_ns_def)

lemma duration_item_shorter:
  assumes "duration_item s = Some (w, rest)"
  shows "length rest < length s"
proof -
  define s1 where "s1 = dropWhile is_digit s"
  define s2 where "s2 = (if s1 \<noteq> [] \<and> hd s1 = CHR ''.'' then dropWhile is_digit (tl s1) else s1)"
  have l1: "length s1 \<le> length s" unfolding s1_def by (rule length_dropWhile_le)
  have l2: "length s2 \<le> length s1"
    using length_dropWhile_le [of is_digit "tl s1"] by (auto simp: s2_def)
  let ?P = "\<lambda>c. c \<noteq> CHR ''.'' \<and> \<not> is_digit c"
  from assms have "unit_ns (takeWhile ?P s2) \<noteq> None" "rest = dropWhile ?P s2"
    unfolding duration_item_def Let_def s1_def s2_def by (auto split: if_splits option.splits)
  then have "takeWhile ?P s2 \<noteq> []" by (metis unit_ns_Nil)
  then have "s2 \<noteq> []" by auto
  with \<open>takeWhile ?P s2 \<noteq> []\<close> \<open>rest = dropWhile ?P s2\<close> have "length rest < length s2"
    by (simp add: length_dropWhile_less)
  with l1 l2 show ?thesis by simp
qed

function duration_items :: "nat \<Rightarrow> string \<Rightarrow> nat option" where
  "duration_items d s =
     (if s = [] then Some d
      else (case duration_item s of
              None \<Rightarrow> None
            | Some (w, rest) \<Rightarrow>
                if d + w > 2 ^ 63 then None else duration_items (d + w) rest))"
  by pat_completeness auto
termination
  by (relation "measure (\<lambda>(d, s). length s)") (auto dest: duration_item_shorter)

declare duration_items.simps [simp del]

definition ParseDuration :: "string \<Rightarrow> int option" where
  "ParseDuration s0 =
     (let (neg, s) = split_sign s0 in
      if s = ''0'' then Some 0
      else if s = [] then None
      else (case duration_items 0 s of
              None \<Rightarrow> None
            | Some d \<Rightarrow>
                if neg then Some (- int d)
                else if d > 2 ^ 63 - 1 then None
                else Some (int d)))"

section \<open>Ranges\<close>

lemma duration_items_bound: "duration_items d s = Some r \<Longrightarrow> d \<le> 2 ^ 63 \<Longrightarrow> r \<le> 2 ^ 63"
proof (induction d s rule: duration_items.induct)
  case (1 d s)
  show ?case
  proof (cases "s = []")
    case True
    with 1 show ?thesis by (simp add: duration_items.simps)
  next
    case False
    with 1 show ?thesis
      by (subst (asm) (2) duration_items.simps) (auto split: option.splits if_splits prod.splits)
  qed
qed

lemma ParseDuration_range: "ParseDuration s = Some d \<Longrightarrow> - (2 ^ 63) \<le> d \<and> d < 2 ^ 63"
  using duration_items_bound [of 0 "snd (split_sign s)"]
  by (auto simp: ParseDuration_def Let_def case_prod_unfold split: option.splits if_splits)

lemma ParseInt64_range: "ParseInt64 s = Some v \<Longrightarrow> - (2 ^ 63) \<le> v \<and> v < 2 ^ 63"
  by (auto simp: ParseInt64_def Let_def case_prod_unfold split: if_splits)

lemma ParseInt64_Nil [simp]: "ParseInt64 [] = None"
  by (simp add: ParseInt64_def split_sign_def)

end
