(* ===== verification/Go_Json.thy ===== *)
theory Go_Json
  imports Go_Strconv
begin

text \<open>
  JSON values as \<open>encoding/json\<close> decodes them into an \<open>interface{}\<close>, and the custom decoders of
  \<^verbatim>\<open>pkg/types/types.go\<close> on them.  A number is the decimal literal \<open>m * 10 ^ e\<close>.  \<open>Inl\<close> is an error
  (\<open>ErrUnsupportedType\<close>) or a panic (a failed type assertion).
\<close>

datatype json =
    JNull
  | JBool bool
  | JNum int int
  | JStr string
  | JArr "json list"
  | JObj "(string \<times> json) list"

text \<open>The conversion \<open>int(float64)\<close> cuts off towards zero.\<close>

definition trunc_num :: "int \<Rightarrow> int \<Rightarrow> int" where
  "trunc_num m e =
     (if 0 \<le> e then m * 10 ^ nat e
      else if 0 \<le> m then m div 10 ^ nat (- e) else - ((- m) div 10 ^ nat (- e)))"

fun nat_digits :: "nat \<Rightarrow> string" where
  "nat_digits n =
     (if n < 10 then [char_of (n + 48)] else nat_digits (n div 10) @ [char_of (n mod 10 + 48)])"

declare nat_digits.simps [simp del]

definition Itoa :: "int \<Rightarrow> string" where
  "Itoa i = (if i < 0 then CHR ''-'' # nat_digits (nat (- i)) else nat_digits (nat i))"

definition FormatBool :: "bool \<Rightarrow> string" where
  "FormatBool b = (if b then ''true'' else ''false'')"

definition ErrUnsupportedType :: gerr where
  "ErrUnsupportedType = Err ''unsupported type''"

section \<open>The decoders\<close>

definition str_int :: "json \<Rightarrow> string option" where
  "str_int j = (case j of JStr s \<Rightarrow> Some s | JNum m e \<Rightarrow> Some (Itoa (trunc_num m e)) | _ \<Rightarrow> None)"

fun all_some :: "'a option list \<Rightarrow> 'a list option" where
  "all_some [] = Some []"
| "all_some (None # xs) = None"
| "all_some (Some x # xs) = map_option ((#) x) (all_some xs)"

definition StrIntArray_Unmarshal :: "json \<Rightarrow> string list result" where
  "StrIntArray_Unmarshal j =
     (case j of
        JArr xs \<Rightarrow> (case all_some (map str_int xs) of Some s \<Rightarrow> Inr s | None \<Rightarrow> Inl ErrUnsupportedType)
      | _ \<Rightarrow> (case str_int j of Some s \<Rightarrow> Inr [s] | None \<Rightarrow> Inl ErrUnsupportedType))"

definition as_str :: "json \<Rightarrow> string option" where
  "as_str j = (case j of JStr s \<Rightarrow> Some s | _ \<Rightarrow> None)"

definition StrArray_Unmarshal :: "json \<Rightarrow> string list result" where
  "StrArray_Unmarshal j =
     (case j of
        JStr s \<Rightarrow> Inr [s]
      | JArr xs \<Rightarrow> (case all_some (map as_str xs) of Some s \<Rightarrow> Inr s | None \<Rightarrow> Inl ErrUnsupportedType)
      | _ \<Rightarrow> Inl ErrUnsupportedType)"

type_synonym lifecycle_hook = "string list gomap"

text \<open>The loop over the named commands.  A non-string element of a named array command fails the
  unchecked type assertion \<open>v.(string)\<close>, which panics.\<close>

fun hook_entries :: "lifecycle_hook \<Rightarrow> (string \<times> json) list \<Rightarrow> lifecycle_hook result" where
  "hook_entries l [] = Inr l"
| "hook_entries l ((k, v) # kvs) =
     (case v of
        JStr s \<Rightarrow> hook_entries (AList.update k [s] l) kvs
      | JArr xs \<Rightarrow>
          (case all_some (map as_str xs) of
             Some cmd \<Rightarrow> hook_entries (AList.update k cmd l) kvs
           | None \<Rightarrow> Inl (Panic ''interface conversion''))
      | _ \<Rightarrow> Inl ErrUnsupportedType)"

definition LifecycleHook_Unmarshal :: "json \<Rightarrow> lifecycle_hook result" where
  "LifecycleHook_Unmarshal j =
     (case j of
        JStr s \<Rightarrow> Inr [([], [s])]
      | JArr xs \<Rightarrow>
          (case all_some (map as_str xs) of Some cmd \<Rightarrow> Inr [([], cmd)] | None \<Rightarrow> Inl ErrUnsupportedType)
      | JObj kvs \<Rightarrow> hook_entries [] kvs
      | _ \<Rightarrow> Inl ErrUnsupportedType)"

definition StrBool_Unmarshal :: "json \<Rightarrow> string result" where
  "StrBool_Unmarshal j =
     (case j of JStr s \<Rightarrow> Inr s | JBool b \<Rightarrow> Inr (FormatBool b) | _ \<Rightarrow> Inl ErrUnsupportedType)"

text \<open>\<open>StrBool.Bool\<close>: \<open>None\<close> is the nil receiver.\<close>

definition StrBool_Bool :: "string option \<Rightarrow> bool option" where
  "StrBool_Bool s = (case s of None \<Rightarrow> Some False | Some x \<Rightarrow> ParseBool x)"

record option_enum =
  enum_Value :: string
  enum_DisplayName :: string

definition obj_str :: "(string \<times> json) list \<Rightarrow> string \<Rightarrow> string" where
  "obj_str m k = (case Option.bind (map_of m k) as_str of Some s \<Rightarrow> s | None \<Rightarrow> [])"

definition enum_of_obj :: "json \<Rightarrow> option_enum option" where
  "enum_of_obj j =
     (case j of
        JObj m \<Rightarrow> Some \<lparr>enum_Value = obj_str m ''value'', enum_DisplayName = obj_str m ''displayName''\<rparr>
      | _ \<Rightarrow> None)"

definition OptionEnumArray_Unmarshal :: "json \<Rightarrow> option_enum list result" where
  "OptionEnumArray_Unmarshal j =
     (case j of
        JArr [] \<Rightarrow> Inr []
      | JArr (x # xs) \<Rightarrow>
          (case x of
             JStr _ \<Rightarrow>
               Inr (map (\<lambda>s. \<lparr>enum_Value = s, enum_DisplayName = []\<rparr>) (List.map_filter as_str (x # xs)))
           | JObj _ \<Rightarrow>
               (case all_some (map enum_of_obj (x # xs)) of
                  Some es \<Rightarrow> Inr es
                | None \<Rightarrow> Inl ErrUnsupportedType)
           | _ \<Rightarrow> Inl ErrUnsupportedType)
      | _ \<Rightarrow> Inl ErrUnsupportedType)"

section \<open>Lemmas\<close>

lemma all_some_map_Some [simp]: "all_some (map Some xs) = Some xs"
  by (induction xs) auto

lemma all_some_map: "(\<And>x. f (g x) = Some x) \<Longrightarrow> all_some (map f (map g xs)) = Some xs"
  by (induction xs) auto

lemma all_some_None: "all_some xs = None \<longleftrightarrow> None \<in> set xs"
  by (induction xs rule: all_some.induct) auto

lemma is_digit_digit [simp]: "(n :: nat) < 10 \<Longrightarrow> is_digit (char_of (n + 48))"
  by (simp add: is_digit_def)

lemma digit_val_digit [simp]: "(n :: nat) < 10 \<Longrightarrow> digit_val (char_of (n + 48)) = n"
  by (simp add: digit_val_def)

lemma digits_val_append: "digits_val a (xs @ ys) = digits_val (digits_val a xs) ys"
  by (induction xs arbitrary: a) auto

lemma nat_digits_ok: "nat_digits n \<noteq> [] \<and> list_all is_digit (nat_digits n) \<and> digits_val 0 (nat_digits n) = n"
proof (induction n rule: nat_digits.induct)
  case (1 n)
  show ?case
  proof (cases "n < 10")
    case True
    then show ?thesis by (simp add: nat_digits.simps [of n])
  next
    case False
    with 1 have IH: "list_all is_digit (nat_digits (n div 10))" "digits_val 0 (nat_digits (n div 10)) = n div 10"
      by auto
    have "nat_digits n = nat_digits (n div 10) @ [char_of (n mod 10 + 48)]"
      using False by (simp add: nat_digits.simps [of n])
    then show ?thesis using IH by (simp add: digits_val_append)
  qed
qed

lemma hd_nat_digits: "is_digit (hd (nat_digits n))"
  using nat_digits_ok [of n] by (cases "nat_digits n") auto

lemma not_digit_sign: "\<not> is_digit CHR ''-''" "\<not> is_digit CHR ''+''"
  by (simp_all add: is_digit_def)

text \<open>Printing an integer of 64 bits and parsing it gives it back.\<close>

lemma Atoi_Itoa:
  assumes "- (2 ^ 63) \<le> i" and "i < 2 ^ 63"
  shows "Atoi (Itoa i) = Some i"
proof (cases "i < 0")
  case True
  then show ?thesis
    using assms nat_digits_ok [of "nat (- i)"]
    by (simp add: Atoi_def ParseInt64_def Itoa_def split_sign_def Let_def)
next
  case False
  then obtain c cs where c: "nat_digits (nat i) = c # cs" "is_digit c"
    using nat_digits_ok [of "nat i"] hd_nat_digits [of "nat i"] by (cases "nat_digits (nat i)") auto
  then have "split_sign (nat_digits (nat i)) = (False, nat_digits (nat i))"
    using not_digit_sign by (auto simp: split_sign_def)
  then show ?thesis
    using False assms nat_digits_ok [of "nat i"]
    by (simp add: Atoi_def ParseInt64_def Itoa_def Let_def)
qed

end
