(* ===== verification/Dev_Config.thy ===== *)
theory Dev_Config
  imports Go_Json
begin

text \<open>
  The DevPod configuration: option definitions (\<^verbatim>\<open>pkg/types/option.go\<close>), option values, contexts,
  loading and saving (\<^verbatim>\<open>pkg/config/config.go\<close>) and the context options (\<^verbatim>\<open>pkg/config/context.go\<close>).

  A time is a number of nanoseconds.  The maps whose nil value the code tests are options, \<open>None\<close>
  for nil; a nil pointer as a map value is an absent entry.  Reading the file and the YAML codec
  are arguments of the operations that use them.
\<close>

section \<open>Option definitions and values\<close>

record opt =
  DisplayName :: string
  Description :: string
  Required :: bool
  Password :: bool
  Type :: string
  ValidationPattern :: string
  ValidationMessage :: string
  Suggestions :: "string list"
  Enum :: "option_enum list"
  Hidden :: bool
  Local :: bool
  Global :: bool
  Default :: string
  Cache :: string
  Command :: string
  SubOptionsCommand :: string
  Mutable :: bool

record option_value =
  Value :: string
  UserProvided :: bool
  Filled :: "int option"
  Children :: "string list"

definition zero_value :: option_value where
  "zero_value = \<lparr>Value = [], UserProvided = False, Filled = None, Children = []\<rparr>"

definition zero_opt :: opt where
  "zero_opt = \<lparr>DisplayName = [], Description = [], Required = False, Password = False, Type = [],
     ValidationPattern = [], ValidationMessage = [], Suggestions = [], Enum = [], Hidden = False,
     Local = False, Global = False, Default = [], Cache = [], Command = [], SubOptionsCommand = [],
     Mutable = False\<rparr>"

type_synonym OptionDefinitions = "opt gomap"
type_synonym OptionValues = "option_value gomap"

section \<open>The configuration\<close>

record provider_config =
  Initialized :: bool
  SingleMachine :: bool
  prov_Options :: OptionValues
  DynamicOptions :: OptionDefinitions
  CreationTimestamp :: int

record ide_config =
  ide_Options :: OptionValues

record context_config =
  DefaultProvider :: string
  DefaultIDE :: string
  ctx_Options :: "OptionValues option"
  IDEs :: "ide_config gomap option"
  Providers :: "provider_config gomap option"
  OriginalProvider :: string

record config =
  DefaultContext :: string
  Contexts :: "context_config gomap option"
  Origin :: string
  OriginalContext :: string

definition empty_provider_config :: provider_config where
  "empty_provider_config =
     \<lparr>Initialized = False, SingleMachine = False, prov_Options = [], DynamicOptions = [],
      CreationTimestamp = 0\<rparr>"

definition empty_context_config :: context_config where
  "empty_context_config =
     \<lparr>DefaultProvider = [], DefaultIDE = [], ctx_Options = None, IDEs = None, Providers = None,
      OriginalProvider = []\<rparr>"

text \<open>Reading a map that may be nil.\<close>

definition nil_map :: "'v gomap option \<Rightarrow> 'v gomap" where
  "nil_map m = (case m of None \<Rightarrow> [] | Some m \<Rightarrow> m)"

definition Current :: "config \<Rightarrow> context_config option" where
  "Current c = map_of (nil_map (Contexts c)) (DefaultContext c)"

definition IsSingleMachine :: "context_config \<Rightarrow> string \<Rightarrow> bool" where
  "IsSingleMachine c provider =
     (case map_of (nil_map (Providers c)) provider of None \<Rightarrow> False | Some p \<Rightarrow> SingleMachine p)"

definition ctx_IDEOptions :: "context_config \<Rightarrow> string \<Rightarrow> OptionValues" where
  "ctx_IDEOptions c ide =
     (case map_of (nil_map (IDEs c)) ide of None \<Rightarrow> [] | Some i \<Rightarrow> copy_into [] (ide_Options i))"

definition ctx_ProviderOptions :: "context_config \<Rightarrow> string \<Rightarrow> OptionValues" where
  "ctx_ProviderOptions c provider =
     (case map_of (nil_map (Providers c)) provider of None \<Rightarrow> [] | Some p \<Rightarrow> copy_into [] (prov_Options p))"

definition ctx_DynamicProviderOptionDefinitions :: "context_config \<Rightarrow> string \<Rightarrow> OptionDefinitions" where
  "ctx_DynamicProviderOptionDefinitions c provider =
     (case map_of (nil_map (Providers c)) provider of None \<Rightarrow> [] | Some p \<Rightarrow> copy_into [] (DynamicOptions p))"

text \<open>The accessors on the configuration go through \<open>Current\<close>; \<open>None\<close> is the nil pointer panic of
  a configuration whose current context is missing.\<close>

definition ProviderOptions :: "config \<Rightarrow> string \<Rightarrow> OptionValues option" where
  "ProviderOptions c provider = map_option (\<lambda>x. ctx_ProviderOptions x provider) (Current c)"

definition DynamicProviderOptionDefinitions :: "config \<Rightarrow> string \<Rightarrow> OptionDefinitions option" where
  "DynamicProviderOptionDefinitions c provider =
     map_option (\<lambda>x. ctx_DynamicProviderOptionDefinitions x provider) (Current c)"

definition IDEOptions :: "config \<Rightarrow> string \<Rightarrow> OptionValues option" where
  "IDEOptions c ide = map_option (\<lambda>x. ctx_IDEOptions x ide) (Current c)"

section \<open>Context options\<close>

record context_option =
  co_Name :: string
  co_Default :: string
  co_Enum :: "string list"

definition bool_option :: "string \<Rightarrow> string \<Rightarrow> context_option" where
  "bool_option n d = \<lparr>co_Name = n, co_Default = d, co_Enum = [''true'', ''false'']\<rparr>"

definition plain_option :: "string \<Rightarrow> string \<Rightarrow> context_option" where
  "plain_option n d = \<lparr>co_Name = n, co_Default = d, co_Enum = []\<rparr>"

definition ContextOptions :: "context_option list" where
  "ContextOptions =
     [bool_option ''SSH_ADD_PRIVATE_KEYS'' ''true'',
      bool_option ''EXIT_AFTER_TIMEOUT'' ''true'',
      bool_option ''GPG_AGENT_FORWARDING'' ''false'',
      bool_option ''GIT_SSH_SIGNATURE_FORWARDING'' ''true'',
      bool_option ''SSH_INJECT_DOCKER_CREDENTIALS'' ''true'',
      bool_option ''SSH_INJECT_GIT_CREDENTIALS'' ''true'',
      bool_option ''SSH_AGENT_FORWARDING'' ''true'',
      bool_option ''TELEMETRY'' ''true'',
      plain_option ''AGENT_URL'' [],
      plain_option ''DOTFILES_URL'' [],
      plain_option ''DOTFILES_SCRIPT'' [],
      plain_option ''SSH_CONFIG_PATH'' [],
      plain_option ''AGENT_INJECT_TIMEOUT'' ''20'',
      plain_option ''REGISTRY_CACHE'' [],
      bool_option ''SSH_STRICT_HOST_KEY_CHECKING'' ''false'']"

text \<open>The first context option of that name decides the default.\<close>

fun option_default :: "string \<Rightarrow> context_option list \<Rightarrow> string" where
  "option_default n [] = []"
| "option_default n (c # cs) = (if co_Name c = n then co_Default c else option_default n cs)"

definition ContextOption :: "config \<Rightarrow> string \<Rightarrow> string" where
  "ContextOption c n =
     (case Option.bind (Current c) (\<lambda>ctx. map_of (nil_map (ctx_Options ctx)) n) of
        Some v \<Rightarrow> if Value v \<noteq> [] then Value v else option_default n ContextOptions
      | None \<Rightarrow> option_default n ContextOptions)"

text \<open>\<open>time.Duration(timeout) * time.Second\<close> multiplies in 64 bits.\<close>

definition wrap64 :: "int \<Rightarrow> int" where
  "wrap64 i = (i + 2 ^ 63) mod 2 ^ 64 - 2 ^ 63"

definition ParseTimeOption :: "config \<Rightarrow> string \<Rightarrow> int" where
  "ParseTimeOption c n =
     wrap64 ((case ParseInt64 (ContextOption c n) of None \<Rightarrow> 20 | Some t \<Rightarrow> t) * 1000000000)"

fun SplitN2 :: "char \<Rightarrow> string \<Rightarrow> (string \<times> string) option" where
  "SplitN2 c [] = None"
| "SplitN2 c (x # xs) =
     (if x = c then Some ([], xs) else map_option (\<lambda>(a, b). (x # a, b)) (SplitN2 c xs))"

definition env_vars :: "string list \<Rightarrow> string gomap" where
  "env_vars environ = fold (\<lambda>v m. case SplitN2 CHR ''='' v of None \<Rightarrow> m | Some (k, x) \<Rightarrow> AList.update k x m) environ []"

definition merge_context_option ::
    "int \<Rightarrow> string gomap \<Rightarrow> context_option \<Rightarrow> OptionValues \<Rightarrow> OptionValues" where
  "merge_context_option now env co opts =
     (case map_of env (co_Name co) of
        None \<Rightarrow> opts
      | Some v \<Rightarrow>
          (case map_of opts (co_Name co) of
             Some _ \<Rightarrow> opts
           | None \<Rightarrow>
               AList.update (co_Name co)
                 \<lparr>Value = v, UserProvided = True, Filled = Some now, Children = []\<rparr> opts))"

text \<open>The context's \<open>Options\<close> map, which \<open>LoadConfig\<close> has made non-nil.\<close>

definition MergeContextOptions :: "int \<Rightarrow> string list \<Rightarrow> OptionValues \<Rightarrow> OptionValues" where
  "MergeContextOptions now environ opts =
     fold (merge_context_option now (env_vars environ)) ContextOptions opts"

section \<open>Loading and saving\<close>

text \<open>Marshalling drops empty maps (\<open>omitempty\<close>) and the fields marked \<open>"-"\<close>, which are restored.\<close>

definition drop_empty :: "'v gomap option \<Rightarrow> 'v gomap option" where
  "drop_empty m = (if m = Some [] then None else m)"

definition clone_context :: "context_config \<Rightarrow> context_config" where
  "clone_context c =
     c\<lparr>ctx_Options := drop_empty (ctx_Options c),
       Providers := Some (nil_map (Providers c)),
       IDEs := Some (nil_map (IDEs c))\<rparr>"

definition CloneConfig :: "config \<Rightarrow> config" where
  "CloneConfig c =
     c\<lparr>Contexts := map_option (map (\<lambda>(k, x). (k, clone_context x))) (drop_empty (Contexts c))\<rparr>"

datatype file_read = NotExist | ReadError string | Bytes string

definition default_context :: string where
  "default_context = ''default''"

definition fresh_config :: "string \<Rightarrow> string \<Rightarrow> string \<Rightarrow> config" where
  "fresh_config path contextOverride providerOverride =
     (let context = (if contextOverride = [] then default_context else contextOverride) in
      \<lparr>DefaultContext = context,
       Contexts = Some [(context, empty_context_config
         \<lparr>DefaultProvider := providerOverride, Providers := Some [], IDEs := Some [], ctx_Options := Some []\<rparr>)],
       Origin = path, OriginalContext = []\<rparr>)"

definition fill_context :: "string \<Rightarrow> context_config \<Rightarrow> context_config" where
  "fill_context providerOverride c =
     (let c1 = c\<lparr>ctx_Options := Some (nil_map (ctx_Options c)),
                 Providers := Some (nil_map (Providers c)), IDEs := Some (nil_map (IDEs c))\<rparr> in
      if providerOverride \<noteq> []
      then c1\<lparr>OriginalProvider := DefaultProvider c1, DefaultProvider := providerOverride\<rparr>
      else c1)"

definition override_context :: "string \<Rightarrow> config \<Rightarrow> config" where
  "override_context contextOverride c =
     (if contextOverride \<noteq> [] then c\<lparr>OriginalContext := DefaultContext c, DefaultContext := contextOverride\<rparr>
      else if DefaultContext c = [] then c\<lparr>DefaultContext := default_context\<rparr>
      else c)"

definition complete_config :: "string \<Rightarrow> string \<Rightarrow> string \<Rightarrow> config \<Rightarrow> config" where
  "complete_config path contextOverride providerOverride c0 =
     (let c = override_context contextOverride c0;
          cs = nil_map (Contexts c);
          ctx = (case map_of cs (DefaultContext c) of None \<Rightarrow> empty_context_config | Some x \<Rightarrow> x) in
      c\<lparr>Contexts := Some (AList.update (DefaultContext c) (fill_context providerOverride ctx) cs),
        Origin := path\<rparr>)"

definition LoadConfig ::
    "string result \<Rightarrow> (string \<Rightarrow> file_read) \<Rightarrow> (string \<Rightarrow> config result) \<Rightarrow> string \<Rightarrow> string \<Rightarrow> config result" where
  "LoadConfig path read yaml contextOverride providerOverride =
     (case path of
        Inl e \<Rightarrow> Inl e
      | Inr p \<Rightarrow>
          (case read p of
             ReadError e \<Rightarrow> Inl (Err (''read config: '' @ e))
           | NotExist \<Rightarrow> Inr (fresh_config p contextOverride providerOverride)
           | Bytes b \<Rightarrow>
               (case yaml b of
                  Inl e \<Rightarrow> Inl e
                | Inr c \<Rightarrow> Inr (complete_config p contextOverride providerOverride c))))"

text \<open>The configuration that \<open>SaveConfig\<close> hands to the YAML codec; the panic is the nil context.\<close>

definition saved_config :: "config \<Rightarrow> config result" where
  "saved_config c0 =
     (let c1 = CloneConfig c0;
          c = (if OriginalContext c1 \<noteq> [] then c1\<lparr>DefaultContext := OriginalContext c1\<rparr> else c1) in
      case map_of (nil_map (Contexts c)) (DefaultContext c) of
        None \<Rightarrow> Inl (Panic ''nil pointer dereference'')
      | Some ctx \<Rightarrow>
          Inr (if OriginalProvider ctx \<noteq> []
               then c\<lparr>Contexts := map_option (AList.map_entry (DefaultContext c)
                        (\<lambda>x. x\<lparr>DefaultProvider := OriginalProvider x\<rparr>)) (Contexts c)\<rparr>
               else c))"

definition SaveConfig ::
    "string result \<Rightarrow> (config \<Rightarrow> string result) \<Rightarrow> config \<Rightarrow> (string \<times> string) result" where
  "SaveConfig path marshal c =
     (case path of
        Inl e \<Rightarrow> Inl e
      | Inr p \<Rightarrow>
          (case saved_config c of
             Inl e \<Rightarrow> Inl e
           | Inr s \<Rightarrow> (case marshal s of Inl e \<Rightarrow> Inl e | Inr out \<Rightarrow> Inr (p, out))))"

section \<open>Lemmas\<close>

lemma nil_map_simps [simp]: "nil_map None = []" "nil_map (Some m) = m"
  by (simp_all add: nil_map_def)

lemma nil_map_drop_empty [simp]: "nil_map (drop_empty m) = nil_map m"
  by (simp add: drop_empty_def)

lemma fill_context_sel [simp]:
  "ctx_Options (fill_context p c) = Some (nil_map (ctx_Options c))"
  "Providers (fill_context p c) = Some (nil_map (Providers c))"
  "IDEs (fill_context p c) = Some (nil_map (IDEs c))"
  "DefaultProvider (fill_context p c) = (if p \<noteq> [] then p else DefaultProvider c)"
  "OriginalProvider (fill_context p c) = (if p \<noteq> [] then DefaultProvider c else OriginalProvider c)"
  by (simp_all add: fill_context_def Let_def)

lemma Current_complete_config:
  "Current (complete_config path co po c) =
    Some (fill_context po (case map_of (nil_map (Contexts c)) (DefaultContext (override_context co c)) of
      None \<Rightarrow> empty_context_config | Some x \<Rightarrow> x))"
  by (simp add: Current_def complete_config_def Let_def update_conv' override_context_def)

lemma DefaultContext_complete_config [simp]:
  "DefaultContext (complete_config path co po c) = DefaultContext (override_context co c)"
  "OriginalContext (complete_config path co po c) = OriginalContext (override_context co c)"
  by (simp_all add: complete_config_def Let_def)

lemma map_of_clone: "map_of (map (\<lambda>(k, x). (k, f x)) m) k = map_option f (map_of m k)"
  by (simp add: map_of_map)

lemma contexts_CloneConfig:
  "map_of (nil_map (Contexts (CloneConfig c))) k = map_option clone_context (map_of (nil_map (Contexts c)) k)"
  by (cases "Contexts c") (auto simp: CloneConfig_def drop_empty_def map_of_clone)

lemma CloneConfig_sel [simp]:
  "DefaultContext (CloneConfig c) = DefaultContext c" "OriginalContext (CloneConfig c) = OriginalContext c"
  "Origin (CloneConfig c) = Origin c"
  by (simp_all add: CloneConfig_def)

lemma clone_context_sel [simp]:
  "DefaultProvider (clone_context c) = DefaultProvider c" "OriginalProvider (clone_context c) = OriginalProvider c"
  by (simp_all add: clone_context_def)

lemma map_of_map_option_entry:
  "map_of (nil_map (map_option (AList.map_entry k f) m)) j =
    (if j = k then map_option f (map_of (nil_map m) j) else map_of (nil_map m) j)"
  by (cases m) (auto simp: AList.map_of_map_entry split: option.splits)

text \<open>The default provider of each context after saving: the current one gets its original back.\<close>

definition default_provider :: "config \<Rightarrow> string \<Rightarrow> string option" where
  "default_provider c k = map_option DefaultProvider (map_of (nil_map (Contexts c)) k)"

lemma default_provider_iff: "default_provider c k = Some p \<longleftrightarrow>
    (\<exists>x. map_of (nil_map (Contexts c)) k = Some x \<and> DefaultProvider x = p)"
  by (auto simp: default_provider_def)

lemma saved_config_cases:
  assumes "saved_config c = Inr s"
  obtains ctx k where "k = (if OriginalContext c \<noteq> [] then OriginalContext c else DefaultContext c)"
    "map_of (nil_map (Contexts c)) k = Some ctx" "DefaultContext s = k"
    "\<And>j. default_provider s j =
      (if j = k \<and> OriginalProvider ctx \<noteq> [] then Some (OriginalProvider ctx) else default_provider c j)"
proof -
  define k where "k = (if OriginalContext c \<noteq> [] then OriginalContext c else DefaultContext c)"
  define c1 where "c1 = (CloneConfig c)\<lparr>DefaultContext := k\<rparr>"
  have c1: "(if OriginalContext (CloneConfig c) \<noteq> [] then (CloneConfig c)\<lparr>DefaultContext := OriginalContext (CloneConfig c)\<rparr> else CloneConfig c) = c1"
    by (simp add: c1_def k_def)
  have look: "map_of (nil_map (Contexts c1)) j = map_option clone_context (map_of (nil_map (Contexts c)) j)" for j
    by (simp add: c1_def contexts_CloneConfig)
  from assms obtain ctx' where ctx': "map_of (nil_map (Contexts c1)) k = Some ctx'"
    unfolding saved_config_def c1 Let_def by (auto simp: c1_def split: option.splits)
  then obtain ctx where ctx: "map_of (nil_map (Contexts c)) k = Some ctx" "ctx' = clone_context ctx"
    using look by auto
  have dk: "DefaultContext c1 = k" by (simp add: c1_def)
  have s: "s = (if OriginalProvider ctx' \<noteq> []
      then c1\<lparr>Contexts := map_option (AList.map_entry k (\<lambda>x. x\<lparr>DefaultProvider := OriginalProvider x\<rparr>)) (Contexts c1)\<rparr>
      else c1)"
    using assms ctx' unfolding saved_config_def c1 Let_def dk by simp
  have "default_provider s j =
      (if j = k \<and> OriginalProvider ctx \<noteq> [] then Some (OriginalProvider ctx) else default_provider c j)" for j
    using ctx by (auto simp: s default_provider_def map_of_map_option_entry look option.map_comp o_def)
  moreover have "DefaultContext s = k" by (simp add: s dk)
  ultimately show thesis using that [OF k_def ctx(1)] by blast
qed

lemma fold_merge_keeps:
  "map_of opts k = Some v \<Longrightarrow> map_of (fold (merge_context_option now env) cos opts) k = Some v"
proof (induction cos arbitrary: opts)
  case (Cons co cos)
  have "map_of (merge_context_option now env co opts) k = Some v"
    using Cons.prems by (auto simp: merge_context_option_def update_conv' split: option.splits)
  with Cons.IH show ?case by simp
qed simp

lemma fold_merge_new:
  "map_of opts k = None \<Longrightarrow>
    map_of (fold (merge_context_option now env) cos opts) k =
      (if k \<in> co_Name ` set cos then
         map_option (\<lambda>v. \<lparr>Value = v, UserProvided = True, Filled = Some now, Children = []\<rparr>) (map_of env k)
       else None)"
proof (induction cos arbitrary: opts)
  case (Cons co cos)
  show ?case
  proof (cases "co_Name co = k \<and> map_of env k \<noteq> None")
    case True
    then obtain v where "map_of env k = Some v" by auto
    moreover have "map_of (merge_context_option now env co opts) k =
        Some \<lparr>Value = v, UserProvided = True, Filled = Some now, Children = []\<rparr>"
      using True Cons.prems \<open>map_of env k = Some v\<close> by (simp add: merge_context_option_def update_conv')
    ultimately show ?thesis using True fold_merge_keeps by fastforce
  next
    case False
    then have "map_of (merge_context_option now env co opts) k = None"
      using Cons.prems by (auto simp: merge_context_option_def update_conv' split: option.splits)
    with Cons.IH [OF this] False show ?thesis by auto
  qed
qed simp

end
