(* ===== verification/Config_Properties.thy ===== *)
theory Config_Properties
  imports Dev_Config
begin

text \<open>
  Properties of loading and saving the configuration: what the overrides of the command line do to
  the loaded configuration, and what of them is written back.
\<close>

text \<open>C5: A configuration that \<open>LoadConfig\<close> returns has a current context whose three maps are not
  nil; a context or provider override is the current context or its default provider; without an
  override the file decides, and the context is called default if it does not.\<close>

theorem LoadConfig_current:
  assumes "LoadConfig (Inr p) read yaml contextOverride providerOverride = Inr c"
  shows "\<exists>ctx. Current c = Some ctx \<and>
    ctx_Options ctx \<noteq> None \<and> Providers ctx \<noteq> None \<and> IDEs ctx \<noteq> None \<and> Origin c = p \<and>
    (contextOverride \<noteq> [] \<longrightarrow> DefaultContext c = contextOverride) \<and>
    (providerOverride \<noteq> [] \<longrightarrow> DefaultProvider ctx = providerOverride) \<and>
    DefaultContext c \<noteq> []"
proof (cases "read p")
  case NotExist
  with assms have c: "c = fresh_config p contextOverride providerOverride" by (simp add: LoadConfig_def)
  show ?thesis
    by (simp add: c fresh_config_def Let_def Current_def default_context_def)
next
  case (ReadError e)
  with assms show ?thesis by (simp add: LoadConfig_def)
next
  case (Bytes b)
  with assms obtain f where "c = complete_config p contextOverride providerOverride f"
    by (auto simp: LoadConfig_def split: sum.splits)
  then show ?thesis
    by (simp add: Current_complete_config)
      (simp add: override_context_def complete_config_def Let_def default_context_def)
qed

definition sample_file :: config where
  "sample_file =
     \<lparr>DefaultContext = ''work'',
      Contexts = Some [(''work'', empty_context_config\<lparr>DefaultProvider := ''docker''\<rparr>),
                       (''home'', empty_context_config\<lparr>DefaultProvider := ''ssh''\<rparr>)],
      Origin = [], OriginalContext = []\<rparr>"

theorem LoadConfig_current_witness:
  "\<exists>ctx. Current (complete_config ''p'' [] ''aws'' sample_file) = Some ctx \<and> DefaultProvider ctx = ''aws''"
proof -
  have l: "LoadConfig (Inr ''p'') (\<lambda>_. Bytes []) (\<lambda>_. Inr sample_file) [] ''aws'' =
      Inr (complete_config ''p'' [] ''aws'' sample_file)"
    by (simp add: LoadConfig_def)
  from LoadConfig_current [OF l] show ?thesis by auto
qed



text \<open>C7: When a command overrides the context and the provider and the context is not the default
  one of the file, saving writes the provider override into that context: \<open>SaveConfig\<close> looks for the
  original provider in the original context only.\<close>

theorem SaveConfig_persists_override:
  assumes disk: "read p = Bytes b" "yaml b = Inr f" and f: "DefaultContext f \<noteq> []"
    and over: "contextOverride \<noteq> []" "contextOverride \<noteq> DefaultContext f" "providerOverride \<noteq> []"
    and c: "LoadConfig (Inr p) read yaml contextOverride providerOverride = Inr c"
    and s: "saved_config c = Inr s"
  shows "DefaultContext s = DefaultContext f \<and> default_provider s contextOverride = Some providerOverride"
proof -
  have "c = complete_config p contextOverride providerOverride f"
    using disk c by (simp add: LoadConfig_def)
  then have cs: "default_provider c contextOverride = Some providerOverride"
    and orig: "OriginalContext c = DefaultContext f"
    using over by (simp_all add: default_provider_def complete_config_def Let_def override_context_def update_conv')
  from s show ?thesis
  proof (cases rule: saved_config_cases)
    case (1 ctx' k)
    then show ?thesis using cs orig f over(2) by auto
  qed
qed

theorem SaveConfig_persists_override_witness:
  "\<exists>s. saved_config (complete_config ''p'' ''home'' ''aws'' sample_file) = Inr s \<and>
    default_provider sample_file ''home'' = Some ''ssh'' \<and> default_provider s ''home'' = Some ''aws''"
proof -
  let ?c = "complete_config ''p'' ''home'' ''aws'' sample_file"
  have "saved_config ?c \<noteq> Inl e" for e
    by (simp add: saved_config_def Let_def contexts_CloneConfig sample_file_def complete_config_def
        override_context_def split: option.splits)
  then obtain s where s: "saved_config ?c = Inr s" by (cases "saved_config ?c") auto
  moreover have "LoadConfig (Inr ''p'') (\<lambda>_. Bytes []) (\<lambda>_. Inr sample_file) ''home'' ''aws'' = Inr ?c"
    by (simp add: LoadConfig_def)
  ultimately have "default_provider s ''home'' = Some ''aws''"
    using SaveConfig_persists_override [of "\<lambda>_. Bytes []" "''p''" "[]" "\<lambda>_. Inr sample_file" sample_file "''home''" "''aws''" ?c s]
    by (simp add: sample_file_def)
  with s show ?thesis by (simp add: sample_file_def default_provider_def)
qed

text \<open>Merging the environment into the context options: an option that is set keeps its value, a
  missing context option takes the value of the environment variable of its name, and nothing else
  is added.\<close>

theorem MergeContextOptions_lookup:
  "map_of (MergeContextOptions now environ opts) k =
    (case map_of opts k of
       Some v \<Rightarrow> Some v
     | None \<Rightarrow>
         if k \<in> co_Name ` set ContextOptions
         then map_option (\<lambda>v. \<lparr>Value = v, UserProvided = True, Filled = Some now, Children = []\<rparr>)
                (map_of (env_vars environ) k)
         else None)"
  using fold_merge_keeps [of opts k] fold_merge_new [of opts k]
  by (auto simp: MergeContextOptions_def split: option.splits)

end
