(* ===== verification/Option_Vars.thy ===== *)
theory Option_Vars
  imports Dev_Config "HOL-Library.Char_ord" "HOL-Library.List_Lexorder"
begin

text \<open>
  References to options inside strings: the regular expression \<open>variableExpression\<close> of
  \<^verbatim>\<open>pkg/options/resolver/resolver.go\<close> (shared in shape with the Dockerfile parser),
  \<open>findVariables\<close> of \<^verbatim>\<open>util.go\<close> and the substitution \<open>ResolveDefaultValue\<close>.  The lemmas give the
  expression an equivalent hand-written scanner and show that the substitution depends on the
  values of the variables that \<open>findVariables\<close> reports, and on nothing else.
\<close>

section \<open>Definitions\<close>

text \<open>\<open>\$\{?([C]+)(:(-|\+)([^\}]+))?\}?\<close> for a class \<open>C\<close> of name characters.\<close>

definition reference_expression :: "(char \<Rightarrow> bool) \<Rightarrow> re" where
  "reference_expression p =
     Seqs [Ch CHR ''$'', Opt (Ch CHR ''{''), Cap 1 (Plus (Cls p)),
           Opt (Cap 2 (Seqs [Ch CHR '':'', Cap 3 (Alt (Ch CHR ''-'') (Ch CHR ''+'')),
                             Cap 4 (Plus (Cls (\<lambda>c. c \<noteq> CHR ''}'')))])),
           Opt (Ch CHR ''}'')]"

definition is_var_char :: "char \<Rightarrow> bool" where
  "is_var_char c \<longleftrightarrow> is_upper c \<or> is_digit c \<or> c = CHR ''_''"

definition variableExpression :: re where
  "variableExpression = reference_expression is_var_char"

definition ResolveDefaultValue :: "string \<Rightarrow> string gomap \<Rightarrow> string" where
  "ResolveDefaultValue val opts =
     ReplaceAllStringFunc variableExpression
       (\<lambda>s. case FindStringSubmatch variableExpression s of
              None \<Rightarrow> s
            | Some (_, submatch) \<Rightarrow>
                (case map_of opts (group submatch 1) of Some v \<Rightarrow> v | None \<Rightarrow> s)) val"

definition ResolveDefaultValues :: "string gomap \<Rightarrow> string gomap \<Rightarrow> string gomap" where
  "ResolveDefaultValues vals opts =
     fold (\<lambda>(k, v) ret. let r = ResolveDefaultValue v opts in
             if r = [] then ret else AList.update k r ret) vals []"

definition findVariables :: "string \<Rightarrow> string list" where
  "findVariables str =
     sort (remdups (map (\<lambda>(_, caps). group caps 1) (FindAllStringSubmatch variableExpression str)))"

section \<open>The scanner\<close>

text \<open>What the optional parts behind the name leave over.\<close>

definition after_modifier :: "string \<Rightarrow> string" where
  "after_modifier s =
     (case s of
        x # y # t \<Rightarrow>
          if x = CHR '':'' \<and> (y = CHR ''-'' \<or> y = CHR ''+'') \<and> t \<noteq> [] \<and> hd t \<noteq> CHR ''}''
          then dropWhile (\<lambda>c. c \<noteq> CHR ''}'') t else s
      | _ \<Rightarrow> s)"

definition after_brace :: "string \<Rightarrow> string" where
  "after_brace s = (case s of x # t \<Rightarrow> if x = CHR ''}'' then t else s | [] \<Rightarrow> [])"

definition skip_brace :: "string \<Rightarrow> string" where
  "skip_brace s = (case s of x # t \<Rightarrow> if x = CHR ''{'' then t else s | [] \<Rightarrow> [])"

definition scan_reference :: "(char \<Rightarrow> bool) \<Rightarrow> string \<Rightarrow> (string \<times> string) option" where
  "scan_reference p s =
     (case s of
        [] \<Rightarrow> None
      | x # t \<Rightarrow>
          let name = takeWhile p (skip_brace t) in
          if x = CHR ''$'' \<and> name \<noteq> []
          then Some (name, after_brace (after_modifier (dropWhile p (skip_brace t))))
          else None)"

lemma mt_Opt: "mt (Opt r) k s = (case mt r k s of Some t \<Rightarrow> Some t | None \<Rightarrow> k s)"
  by (simp add: Opt_def split: option.splits)

lemma mt_Ch: "mt (Ch c) k (s, caps) = (case s of [] \<Rightarrow> None | x # t \<Rightarrow> if x = c then k (t, caps) else None)"
  by (simp add: Ch_def split: list.splits)

lemma mt_closing: "mt (Opt (Ch CHR ''}'')) Some (s, caps) = Some (after_brace s, caps)"
  by (auto simp: mt_Opt mt_Ch after_brace_def split: list.splits)

lemma mt_modifier:
  assumes K: "\<And>s c. K (s, c) = Some (h s, c)"
  shows "\<exists>caps'. mt (Opt (Cap 2 (Seqs [Ch CHR '':'', Cap 3 (Alt (Ch CHR ''-'') (Ch CHR ''+'')),
        Cap 4 (Plus (Cls (\<lambda>c. c \<noteq> CHR ''}'')))]))) K (s, caps) =
      Some (h (after_modifier s), caps') \<and> map_of caps' 1 = map_of caps 1"
proof -
  let ?P = "\<lambda>c. c \<noteq> CHR ''}''"
  consider "s = []" | x where "s = [x]" | x y t where "s = x # y # t"
    by (cases s; cases "tl s") auto
  then show ?thesis
  proof cases
    case (3 x y t)
    show ?thesis
    proof (cases "x = CHR '':'' \<and> (y = CHR ''-'' \<or> y = CHR ''+'') \<and> t \<noteq> [] \<and> hd t \<noteq> CHR ''}''")
      case True
      then obtain a u where t: "t = a # u" "a \<noteq> CHR ''}''" by (cases t) auto
      with True show ?thesis
        by (auto simp: 3 mt_Opt mt_Ch mt_Plus_Cls K after_modifier_def)
    next
      case False
      have none: "mt (Plus (Cls ?P)) k (t, c) = None" if "t = [] \<or> hd t = CHR ''}''" for k c
        using that by (cases t) (auto simp: Plus_def)
      show ?thesis
        using False by (auto simp: 3 mt_Opt mt_Ch K none after_modifier_def split: list.splits option.splits)
    qed
  qed (auto simp: mt_Opt mt_Ch K after_modifier_def split: list.splits option.splits)
qed

text \<open>The name in the first group and everything behind it.\<close>

definition name_part :: "(char \<Rightarrow> bool) \<Rightarrow> re" where
  "name_part p =
     Seq (Cap 1 (Plus (Cls p)))
       (Seq (Opt (Cap 2 (Seqs [Ch CHR '':'', Cap 3 (Alt (Ch CHR ''-'') (Ch CHR ''+'')),
                               Cap 4 (Plus (Cls (\<lambda>c. c \<noteq> CHR ''}'')))])))
            (Opt (Ch CHR ''}'')))"

lemma reference_expression_parts:
  "reference_expression p = Seq (Ch CHR ''$'') (Seq (Opt (Ch CHR ''{'')) (name_part p))"
  by (simp add: reference_expression_def name_part_def)

lemma take_length_takeWhile: "take (length u - length (dropWhile p u)) u = takeWhile p u"
proof -
  have "length u - length (dropWhile p u) = length (takeWhile p u)"
    by (metis add_diff_cancel_right' length_append takeWhile_dropWhile_id)
  then show ?thesis by (metis takeWhile_eq_take)
qed

lemma mt_name_part:
  "if takeWhile p u = [] then mt (name_part p) Some (u, []) = None
   else \<exists>caps. mt (name_part p) Some (u, []) = Some (after_brace (after_modifier (dropWhile p u)), caps) \<and>
     group caps 1 = takeWhile p u"
proof -
  let ?M = "Opt (Cap 2 (Seqs [Ch CHR '':'', Cap 3 (Alt (Ch CHR ''-'') (Ch CHR ''+'')),
    Cap 4 (Plus (Cls (\<lambda>c. c \<noteq> CHR ''}'')))]))"
  let ?K = "\<lambda>s'. mt ?M (mt (Opt (Ch CHR ''}'')) Some)
    (fst s', (1, take (length u - length (fst s')) u) # snd s')"
  obtain caps where caps: "?K (dropWhile p u, []) = Some (after_brace (after_modifier (dropWhile p u)), caps)"
      "map_of caps 1 = Some (takeWhile p u)"
    using mt_modifier [of "mt (Opt (Ch CHR ''}'')) Some" after_brace, OF mt_closing,
        of "dropWhile p u" "[(1, takeWhile p u)]"]
    by (auto simp: take_length_takeWhile)
  have "mt (name_part p) Some (u, []) = mt (Plus (Cls p)) ?K (u, [])"
    by (simp add: name_part_def del: Seqs.simps)
  also have "\<dots> = (if takeWhile p u = [] then None else ?K (dropWhile p u, []))"
    using caps(1) by (subst mt_Plus_Cls) (auto split: list.splits)
  finally have m: "mt (name_part p) Some (u, []) = (if takeWhile p u = [] then None else ?K (dropWhile p u, []))" .
  show ?thesis
  proof (cases "takeWhile p u = []")
    case False
    then show ?thesis using m caps by (auto simp: group_def)
  qed (use m in simp)
qed

lemma match_reference:
  assumes "\<not> p CHR ''{''"
  shows "case scan_reference p s of
      None \<Rightarrow> match_at (reference_expression p) s = None
    | Some (name, rest) \<Rightarrow>
        \<exists>caps. match_at (reference_expression p) s = Some (rest, caps) \<and> group caps 1 = name"
proof (cases s)
  case Nil
  then show ?thesis by (simp add: scan_reference_def match_at_def reference_expression_parts mt_Ch)
next
  case (Cons x t)
  have m: "match_at (reference_expression p) s =
      (if x = CHR ''$'' then (case mt (Ch CHR ''{'') (mt (name_part p) Some) (t, []) of
         Some r \<Rightarrow> Some r | None \<Rightarrow> mt (name_part p) Some (t, [])) else None)"
    by (simp add: Cons match_at_def reference_expression_parts mt_Ch mt_Opt)
  show ?thesis
  proof (cases "\<exists>u. t = CHR ''{'' # u")
    case True
    then obtain u where u: "t = CHR ''{'' # u" by blast
    have "mt (name_part p) Some (t, []) = None"
      using mt_name_part [of p t] assms by (simp add: u)
    then show ?thesis
      using mt_name_part [of p u] m
      by (auto simp: Cons u scan_reference_def skip_brace_def Let_def mt_Ch split: option.splits if_splits)
  next
    case False
    then have "skip_brace t = t" "mt (Ch CHR ''{'') k (t, []) = None" for k
      by (auto simp: skip_brace_def mt_Ch split: list.splits)
    then show ?thesis
      using mt_name_part [of p t] m by (auto simp: Cons scan_reference_def Let_def split: if_splits)
  qed
qed

lemma after_modifier_suffix: "\<exists>w. s = w @ after_modifier s"
proof (cases "after_modifier s = s")
  case False
  then obtain x y t where s: "s = x # y # t" "after_modifier s = dropWhile (\<lambda>c. c \<noteq> CHR ''}'') t"
    by (auto simp: after_modifier_def split: list.splits if_splits)
  then have "s = (x # y # takeWhile (\<lambda>c. c \<noteq> CHR ''}'') t) @ after_modifier s" by simp
  then show ?thesis by blast
qed simp

lemma after_brace_suffix: "\<exists>w. s = w @ after_brace s"
proof (cases s)
  case (Cons x t)
  then have "s = (if x = CHR ''}'' then [x] else []) @ after_brace s" by (simp add: after_brace_def)
  then show ?thesis by blast
qed (simp add: after_brace_def)

lemma scan_reference_split:
  assumes "scan_reference p s = Some (name, rest)"
  obtains b w where "s = CHR ''$'' # b @ name @ w @ rest" and "b = [] \<or> b = [CHR ''{'']"
    and "name \<noteq> []" and "list_all p name" and "w = [] \<or> \<not> p (hd w)"
    and "b = [] \<longrightarrow> hd name \<noteq> CHR ''{''"
proof -
  from assms obtain t where s: "s = CHR ''$'' # t" and name: "name = takeWhile p (skip_brace t)" "name \<noteq> []"
    and rest: "rest = after_brace (after_modifier (dropWhile p (skip_brace t)))"
    by (auto simp: scan_reference_def Let_def split: list.splits if_splits)
  define b where "b = (if skip_brace t = t then [] else [CHR ''{''])"
  have t: "t = b @ skip_brace t" "b = [] \<or> b = [CHR ''{'']"
    by (auto simp: b_def skip_brace_def split: list.splits)
  obtain w where w: "dropWhile p (skip_brace t) = w @ rest"
    using after_modifier_suffix [of "dropWhile p (skip_brace t)"]
      after_brace_suffix [of "after_modifier (dropWhile p (skip_brace t))"] rest by (metis append_assoc)
  have "skip_brace t = name @ w @ rest" using name(1) w by (metis takeWhile_dropWhile_id)
  with t(1) s have "s = CHR ''$'' # b @ name @ w @ rest" by simp
  moreover have "list_all p name" using name(1) by (metis list_all_iff set_takeWhileD)
  moreover have "w = [] \<or> \<not> p (hd w)"
    using w hd_dropWhile [of p "skip_brace t"] by (cases w) auto
  moreover have "b = [] \<longrightarrow> hd name \<noteq> CHR ''{''"
    using name \<open>skip_brace t = name @ w @ rest\<close> t(1) by (cases t) (auto simp: b_def skip_brace_def split: if_splits)
  ultimately show thesis using that t(2) name(2) by blast
qed

lemma matched_append [simp]: "matched (u @ rest) rest = u"
  by (simp add: matched_def)

text \<open>Scanning the text of a reference by itself finds the same name.\<close>

lemma scan_reference_again:
  assumes "scan_reference p s = Some (name, rest)"
  shows "\<exists>rest'. scan_reference p (matched s rest) = Some (name, rest')"
proof -
  obtain b w where s: "s = CHR ''$'' # b @ name @ w @ rest" "b = [] \<or> b = [CHR ''{'']"
    "name \<noteq> []" "list_all p name" "w = [] \<or> \<not> p (hd w)" "b = [] \<longrightarrow> hd name \<noteq> CHR ''{''"
    using assms by (rule scan_reference_split)
  have m: "matched s rest = CHR ''$'' # b @ name @ w"
    using matched_append [of "CHR ''$'' # b @ name @ w" rest] s(1) by simp
  have "skip_brace (b @ name @ w) = name @ w"
    using s(2,3,6) by (cases name) (auto simp: skip_brace_def)
  moreover have "takeWhile p (name @ w) = name"
    using s(4,5) by (cases w) (auto simp: list_all_iff takeWhile_append2)
  ultimately show ?thesis using s(3) by (simp add: m scan_reference_def)
qed

lemma scan_reference_shorter: "scan_reference p s = Some (name, rest) \<Longrightarrow> length rest < length s"
  by (erule scan_reference_split) simp

section \<open>The substitution by scanning\<close>

function expand :: "(char \<Rightarrow> bool) \<Rightarrow> (string \<Rightarrow> string option) \<Rightarrow> string \<Rightarrow> string" where
  "expand p m [] = []"
| "expand p m (c # cs) =
     (case scan_reference p (c # cs) of
        None \<Rightarrow> c # expand p m cs
      | Some (name, rest) \<Rightarrow>
          (case m name of Some v \<Rightarrow> v | None \<Rightarrow> matched (c # cs) rest) @ expand p m rest)"
  by pat_completeness auto
termination
  by (relation "measure (\<lambda>(p, m, s). length s)") (auto dest: scan_reference_shorter)

function references :: "(char \<Rightarrow> bool) \<Rightarrow> string \<Rightarrow> string list" where
  "references p [] = []"
| "references p (c # cs) =
     (case scan_reference p (c # cs) of
        None \<Rightarrow> references p cs
      | Some (name, rest) \<Rightarrow> name # references p rest)"
  by pat_completeness auto
termination
  by (relation "measure (\<lambda>(p, s). length s)") (auto dest: scan_reference_shorter)

lemma expand_cong: "(\<And>x. x \<in> set (references p s) \<Longrightarrow> m x = m' x) \<Longrightarrow> expand p m s = expand p m' s"
  by (induction p m s rule: expand.induct) (auto split: option.splits)

lemma expand_none: "(\<And>x. x \<in> set (references p s) \<Longrightarrow> m x = None) \<Longrightarrow> expand p m s = s"
proof (induction p m s rule: expand.induct)
  case (2 p m c cs)
  show ?case
  proof (cases "scan_reference p (c # cs)")
    case (Some nr)
    then obtain name rest where nr: "scan_reference p (c # cs) = Some (name, rest)" by (cases nr) simp
    obtain u where "c # cs = u @ rest" by (rule scan_reference_split [OF nr]) (metis append_assoc append_Cons)
    then have "matched (c # cs) rest @ rest = c # cs" by (metis matched_append)
    then show ?thesis using 2 nr by simp
  qed (use 2 in simp)
qed simp

lemma group_FindStringSubmatch:
  assumes "\<not> p CHR ''{''" and "scan_reference p s = Some (name, rest)"
  shows "\<exists>t caps. FindStringSubmatch (reference_expression p) s = Some (t, caps) \<and> group caps 1 = name"
proof -
  obtain caps where "match_at (reference_expression p) s = Some (rest, caps)" "group caps 1 = name"
    using match_reference [of p s] assms by auto
  moreover have "s \<noteq> []" using scan_reference_shorter [OF assms(2)] by auto
  ultimately show ?thesis by (cases s) auto
qed

lemma is_var_char_brace: "\<not> is_var_char CHR ''{''"
  by (simp add: is_var_char_def is_upper_def is_digit_def)

lemma ResolveDefaultValue_expand: "ResolveDefaultValue val opts = expand is_var_char (map_of opts) val"
proof -
  let ?f = "\<lambda>s. case FindStringSubmatch variableExpression s of
      None \<Rightarrow> s
    | Some (_, submatch) \<Rightarrow> (case map_of opts (group submatch 1) of Some v \<Rightarrow> v | None \<Rightarrow> s)"
  have "ReplaceAllStringFunc variableExpression ?f s = expand is_var_char (map_of opts) s" for s
  proof (induction s rule: length_induct)
    case (1 s)
    show ?case
    proof (cases s)
      case (Cons c cs)
      show ?thesis
      proof (cases "scan_reference is_var_char s")
        case None
        then show ?thesis
          using 1 match_reference [of is_var_char s] is_var_char_brace
          by (simp add: Cons variableExpression_def)
      next
        case (Some nr)
        then obtain name rest where nr: "scan_reference is_var_char s = Some (name, rest)" by (cases nr) simp
        obtain caps where caps: "match_at variableExpression s = Some (rest, caps)"
          using match_reference [of is_var_char s] is_var_char_brace nr by (auto simp: variableExpression_def)
        obtain rest' where again: "scan_reference is_var_char (matched s rest) = Some (name, rest')"
          using scan_reference_again [OF nr] by blast
        have "?f (matched s rest) = (case map_of opts name of Some v \<Rightarrow> v | None \<Rightarrow> matched s rest)"
          using group_FindStringSubmatch [OF is_var_char_brace again] by (auto simp: variableExpression_def)
        then show ?thesis
          using 1 caps nr scan_reference_shorter [OF nr] unfolding Cons by simp
      qed
    qed simp
  qed
  then show ?thesis by (simp add: ResolveDefaultValue_def)
qed

lemma set_findVariables: "set (findVariables s) = set (references is_var_char s)"
proof -
  have "map (\<lambda>(_, caps). group caps 1) (FindAllStringSubmatch variableExpression s) = references is_var_char s" for s
  proof (induction s rule: length_induct)
    case (1 s)
    show ?case
    proof (cases s)
      case (Cons c cs)
      then show ?thesis
        using 1 match_reference [of is_var_char s] is_var_char_brace scan_reference_shorter [of is_var_char s]
        by (auto simp: variableExpression_def less_Suc_eq_le split: option.splits)
    qed simp
  qed
  then show ?thesis by (simp add: findVariables_def)
qed

end
