(* ===== verification/Graph_Shrink.thy ===== *)
theory Graph_Shrink
  imports Dep_Graph
begin

text \<open>
  What removals may do to any well-formed graph, whatever the out-degrees: \<open>RemoveSubGraph\<close> and the
  loop over a node's children always end, and when they succeed only nodes of the subgraph are gone
  and the rest is untouched.  Also the invariant of the clients that every node hangs below the
  root.
\<close>

section \<open>Shrinking slices\<close>

definition slice_le :: "string slice \<Rightarrow> string slice \<Rightarrow> bool" where
  "slice_le s' s \<longleftrightarrow>
     length (elems s') \<le> length (elems s) \<and> length (elems s' @ spare s') = length (elems s @ spare s) \<and>
     (\<forall>n. length (elems s) \<le> n \<longrightarrow> n \<le> length (elems s @ spare s) \<longrightarrow>
        set (take n (elems s' @ spare s')) \<subseteq> set (take n (elems s @ spare s)))"

lemma slice_le_refl [simp]: "slice_le s s"
  by (simp add: slice_le_def)

lemma slice_le_trans:
  assumes "slice_le s'' s'" and "slice_le s' s"
  shows "slice_le s'' s"
  unfolding slice_le_def
proof (intro conjI allI impI)
  fix n
  assume n: "length (elems s) \<le> n" "n \<le> length (elems s @ spare s)"
  have "set (take n (elems s' @ spare s')) \<subseteq> set (take n (elems s @ spare s))"
    using assms(2) n unfolding slice_le_def by blast
  moreover have "set (take n (elems s'' @ spare s'')) \<subseteq> set (take n (elems s' @ spare s'))"
    using assms n unfolding slice_le_def by (metis order_trans)
  ultimately show "set (take n (elems s'' @ spare s'')) \<subseteq> set (take n (elems s @ spare s))" by blast
qed (use assms in \<open>auto simp: slice_le_def\<close>)

lemma slice_le_remove: "m < length (elems s) \<Longrightarrow> slice_le (slice_remove m s) s"
  unfolding slice_le_def
proof (intro conjI allI impI)
  assume m: "m < length (elems s)"
  then have ne: "elems s \<noteq> []" by auto
  show "length (elems (slice_remove m s) @ spare (slice_remove m s)) = length (elems s @ spare s)"
    using m by (rule length_backing_slice_remove)
  show "length (elems (slice_remove m s)) \<le> length (elems s)" using m by simp
  fix n
  assume n: "length (elems s) \<le> n"
  obtain ys where b: "elems (slice_remove m s) @ spare (slice_remove m s) = ys @ spare s"
      "length ys = length (elems s)" "set ys \<subseteq> set (elems s)"
  proof
    show "elems (slice_remove m s) @ spare (slice_remove m s) =
        (take m (elems s) @ drop (Suc m) (elems s) @ [last (elems s)]) @ spare s"
      using ne by (simp add: slice_remove_def)
    show "length (take m (elems s) @ drop (Suc m) (elems s) @ [last (elems s)]) = length (elems s)"
      using m by simp
    show "set (take m (elems s) @ drop (Suc m) (elems s) @ [last (elems s)]) \<subseteq> set (elems s)"
      using ne by (auto dest: in_set_takeD in_set_dropD)
  qed
  then show "set (take n (elems (slice_remove m s) @ spare (slice_remove m s)))
      \<subseteq> set (take n (elems s @ spare s))"
    unfolding b(1) using n by auto
qed

lemma slice_le_shift_out: "slice_le (shift_out x s) s"
  by (auto simp: shift_out_def slice_le_remove split: option.splits dest: last_index_SomeD)

section \<open>Shrinking graphs\<close>

definition slices_le :: "'a graph \<Rightarrow> 'a graph \<Rightarrow> bool" where
  "slices_le g' g \<longleftrightarrow>
     (\<forall>p s'. childs_slice g' p = Some s' \<longrightarrow> (\<exists>s. childs_slice g p = Some s \<and> slice_le s' s))"

lemma slices_le_trans: "slices_le g2 g1 \<Longrightarrow> slices_le g1 g \<Longrightarrow> slices_le g2 g"
  unfolding slices_le_def by (meson slice_le_trans)

definition shrinks :: "'a graph \<Rightarrow> string set \<Rightarrow> 'a graph \<Rightarrow> bool" where
  "shrinks g D g' \<longleftrightarrow>
     graph_wf g' \<and> graph_nodes g' = graph_nodes g - D \<and> edges g' = {(a, b) \<in> edges g. b \<notin> D} \<and>
     Root g' = Root g \<and> item g' = item g \<and> contents g' = contents g |` (- D) \<and> slices_le g' g"

lemma shrinks_refl: "graph_wf g \<Longrightarrow> shrinks g {} g"
  by (auto simp: shrinks_def slices_le_def)

lemma shrinks_trans: "shrinks g D g' \<Longrightarrow> shrinks g' D' g'' \<Longrightarrow> shrinks g (D \<union> D') g''"
  by (auto simp: shrinks_def Int_commute intro: slices_le_trans)

lemma shrinks_wf: "shrinks g D g' \<Longrightarrow> graph_wf g'"
  by (simp add: shrinks_def)

lemma shrinks_below:
  assumes "shrinks g D g'"
  shows "below g' x \<subseteq> below g x"
proof -
  have "(edges g')\<^sup>+ \<subseteq> (edges g)\<^sup>+" using assms by (intro trancl_mono_subset) (auto simp: shrinks_def)
  then show ?thesis by (auto simp: below_def)
qed

lemma shrinks_RemoveNode:
  assumes wf: "graph_wf g" and leaf: "childs g x = []" and "x \<noteq> Root g"
  shows "\<exists>g' D. RemoveNode x g = Inr g' \<and> shrinks g D g' \<and> D \<subseteq> {x}"
proof (cases "x \<in> graph_nodes g")
  case False
  then have "RemoveNode x g = Inr g" by (simp add: RemoveNode_def graph_nodes_iff)
  with shrinks_refl [OF wf] show ?thesis by blast
next
  case True
  obtain g' where g': "RemoveNode x g = Inr g'" using RemoveNode_leaf [OF wf True leaf] by blast
  note r = RemoveNode_Inr [OF wf True leaf assms(3) g']
  have "slices_le g' g"
    unfolding slices_le_def
  proof (intro allI impI)
    fix p s'
    assume s': "childs_slice g' p = Some s'"
    then have "p \<in> graph_nodes g'" by (auto simp: childs_slice_def graph_nodes_iff)
    then have "p \<noteq> x" using r(3) by auto
    with s' RemoveNode_slices [OF wf g'] show "\<exists>s. childs_slice g p = Some s \<and> slice_le s' s"
      using slice_le_shift_out by fastforce
  qed
  moreover have "(contents g)(x := None) = contents g |` (- {x})"
    by (auto simp: restrict_map_def fun_eq_iff)
  ultimately have "shrinks g {x} g'" using r by (auto simp: shrinks_def)
  with g' show ?thesis by blast
qed

text \<open>A removal that ends: an error, or a graph without some nodes of the set.\<close>

definition removal :: "'a graph \<Rightarrow> string set \<Rightarrow> (graph_error + 'a graph) option \<Rightarrow> bool" where
  "removal g X r \<longleftrightarrow> (\<exists>e. r = Some (Inl e)) \<or> (\<exists>g' D. r = Some (Inr g') \<and> shrinks g D g' \<and> D \<subseteq> X)"

lemma removal_mono: "removal g X r \<Longrightarrow> X \<subseteq> Y \<Longrightarrow> removal g Y r"
  unfolding removal_def by blast

lemma removal_RemoveNode:
  assumes "graph_wf g" and "i \<noteq> Root g"
  shows "removal g {i} (Some (RemoveNode i g))"
proof (cases "childs g i = []")
  case True
  with shrinks_RemoveNode [OF assms(1) True assms(2)] show ?thesis by (auto simp: removal_def)
next
  case False
  with RemoveNode_HasChildren [OF assms(1)] show ?thesis by (auto simp: removal_def)
qed

text \<open>The loop over the children: every entry it can read is an original child.\<close>

lemma RemoveChilds_removal:
  assumes step: "\<And>g' D c. shrinks g D g' \<Longrightarrow> c \<in> C \<Longrightarrow> removal g' X (RemoveSubGraph f c g')"
    and "shrinks g D g1" and "D \<subseteq> X" and "k + m \<le> n"
    and "\<And>s. childs_slice g1 i = Some s \<Longrightarrow>
      length (elems s) \<le> n \<and> n \<le> length (elems s @ spare s) \<and> set (take n (elems s @ spare s)) \<subseteq> C"
  shows "(\<exists>e. RemoveChilds f i m k g1 = Some (Inl e)) \<or>
    (\<exists>g' D. RemoveChilds f i m k g1 = Some (Inr g') \<and> shrinks g D g' \<and> D \<subseteq> X)"
  using assms(2-5)
proof (induction m arbitrary: k g1 D)
  case 0
  then show ?case by auto
next
  case (Suc m)
  show ?case
  proof (cases "Option.bind (node_at g1 i) (\<lambda>n. slice_read (Childs n) k)")
    case None
    then show ?thesis using Suc.prems by auto
  next
    case (Some c)
    then obtain s where s: "childs_slice g1 i = Some s" "slice_read s k = Some c"
      by (cases "node_at g1 i") (auto simp: childs_slice_def)
    then have win: "length (elems s) \<le> n" "n \<le> length (elems s @ spare s)"
        "set (take n (elems s @ spare s)) \<subseteq> C"
      using Suc.prems(4) by auto
    have "k < n" using Suc.prems(3) by simp
    then have "c = take n (elems s @ spare s) ! k" "k < length (take n (elems s @ spare s))"
      using s(2) win(2) by (auto simp: slice_read_Some simp del: take_append)
    then have "c \<in> C" using win(3) by (metis nth_mem subsetD)
    from step [OF Suc.prems(1) this] consider e where "RemoveSubGraph f c g1 = Some (Inl e)"
      | g2 D2 where "RemoveSubGraph f c g1 = Some (Inr g2)" "shrinks g1 D2 g2" "D2 \<subseteq> X"
      unfolding removal_def by blast
    then show ?thesis
    proof cases
      case 1
      then show ?thesis using Some by simp
    next
      case (2 g2 D2)
      have sh: "shrinks g (D \<union> D2) g2" using Suc.prems(1) 2(2) by (rule shrinks_trans)
      have win': "length (elems s') \<le> n \<and> n \<le> length (elems s' @ spare s') \<and> set (take n (elems s' @ spare s')) \<subseteq> C"
        if "childs_slice g2 i = Some s'" for s'
      proof -
        have "slices_le g2 g1" using 2(2) by (simp add: shrinks_def)
        then have "slice_le s' s" using that s(1) unfolding slices_le_def by (metis option.inject)
        then show ?thesis using win unfolding slice_le_def by (metis order_trans)
      qed
      have DX: "D \<union> D2 \<subseteq> X" "Suc k + m \<le> n" using Suc.prems(2,3) 2(3) by auto
      have "RemoveChilds f i (Suc m) k g1 = RemoveChilds f i m (Suc k) g2" using Some 2(1) by simp
      with Suc.IH [OF sh DX win'] show ?thesis by presburger
    qed
  qed
qed

lemma RemoveSubGraph_removal:
  assumes "graph_wf g" and "Root g \<notin> insert i (below g i)" and "card (below g i) < f"
  shows "removal g (insert i (below g i)) (RemoveSubGraph f i g)"
  using assms
proof (induction f arbitrary: i g)
  case 0
  then show ?case by simp
next
  case (Suc f)
  note wf = Suc.prems(1)
  show ?case
  proof (cases "node_at g i")
    case None
    then show ?thesis using shrinks_refl [OF wf] by (auto simp: removal_def)
  next
    case (Some n)
    have step: "removal g' (below g i) (RemoveSubGraph f c g')"
      if "shrinks g D g'" "c \<in> set (childs g i)" for g' D c
    proof -
      have b: "below g' c \<subseteq> below g c" using that(1) by (rule shrinks_below)
      have sub: "insert c (below g c) \<subseteq> below g i" using that(2) below_eq [of g i] by blast
      have "card (below g' c) \<le> card (below g c)" using b finite_below [OF wf] by (intro card_mono)
      then have "card (below g' c) < f"
        using card_below_child [OF wf that(2)] Suc.prems(3) by linarith
      moreover have "Root g' \<notin> insert c (below g' c)"
        using Suc.prems(2) b sub that(1) by (auto simp: shrinks_def)
      ultimately have "removal g' (insert c (below g' c)) (RemoveSubGraph f c g')"
        using Suc.IH [OF shrinks_wf [OF that(1)]] by blast
      then show ?thesis by (rule removal_mono) (use b sub in blast)
    qed
    have win: "length (elems s) \<le> length (elems (Childs n)) \<and> length (elems (Childs n)) \<le> length (elems s @ spare s) \<and>
        set (take (length (elems (Childs n))) (elems s @ spare s)) \<subseteq> set (childs g i)"
      if "childs_slice g i = Some s" for s
      using that Some by (auto simp: childs_slice_def)
    have root: "i \<noteq> Root g" using Suc.prems(2) by auto
    have "(\<exists>e. RemoveChilds f i (length (elems (Childs n))) 0 g = Some (Inl e)) \<or>
        (\<exists>g' D. RemoveChilds f i (length (elems (Childs n))) 0 g = Some (Inr g') \<and> shrinks g D g' \<and> D \<subseteq> below g i)"
      by (rule RemoveChilds_removal [OF step shrinks_refl [OF wf] _ _ win]) auto
    then consider e where "RemoveChilds f i (length (elems (Childs n))) 0 g = Some (Inl e)"
      | g1 D where "RemoveChilds f i (length (elems (Childs n))) 0 g = Some (Inr g1)"
          "shrinks g D g1" "D \<subseteq> below g i"
      by blast
    then show ?thesis
    proof cases
      case 1
      then show ?thesis using Some by (simp add: removal_def)
    next
      case (2 g1 D)
      have "removal g1 {i} (Some (RemoveNode i g1))"
        using 2(2) root by (intro removal_RemoveNode) (auto simp: shrinks_def)
      then show ?thesis
        using 2 Some shrinks_trans [OF 2(2)] unfolding removal_def by fastforce
    qed
  qed
qed

text \<open>The loop of \<open>deleteChildrenOf\<close>, with the number of nodes as fuel.\<close>

lemma RemoveChilds_node_removal:
  assumes wf: "graph_wf g" and root: "Root g \<notin> insert i (below g i)" and n: "node_at g i = Some n"
  shows "removal g (below g i) (RemoveChilds (leaf_fuel g) i (length (elems (Childs n))) 0 g)"
proof -
  have step: "removal g' (below g i) (RemoveSubGraph (leaf_fuel g) c g')"
    if "shrinks g D g'" "c \<in> set (childs g i)" for g' D c
  proof -
    have b: "below g' c \<subseteq> below g c" using that(1) by (rule shrinks_below)
    have sub: "insert c (below g c) \<subseteq> below g i" using that(2) below_eq [of g i] by blast
    have "card (below g' c) \<le> card (below g c)" using b finite_below [OF wf] by (intro card_mono)
    then have "card (below g' c) < leaf_fuel g"
      using card_below [OF wf, of c] by (simp add: leaf_fuel_def)
    moreover have "Root g' \<notin> insert c (below g' c)"
      using root b sub that(1) by (auto simp: shrinks_def)
    ultimately have "removal g' (insert c (below g' c)) (RemoveSubGraph (leaf_fuel g) c g')"
      using RemoveSubGraph_removal [OF shrinks_wf [OF that(1)]] by blast
    then show ?thesis by (rule removal_mono) (use b sub in blast)
  qed
  have win: "length (elems s) \<le> length (elems (Childs n)) \<and> length (elems (Childs n)) \<le> length (elems s @ spare s) \<and>
      set (take (length (elems (Childs n))) (elems s @ spare s)) \<subseteq> set (childs g i)"
    if "childs_slice g i = Some s" for s
    using that n by (auto simp: childs_slice_def)
  show ?thesis
    unfolding removal_def
    by (rule RemoveChilds_removal [OF step shrinks_refl [OF wf] _ _ win]) auto
qed

section \<open>Graphs in which everything hangs below the root\<close>

lemma rootedI:
  assumes wf: "graph_wf g" and p: "\<And>k. k \<in> graph_nodes g \<Longrightarrow> k \<noteq> Root g \<Longrightarrow> parents g k \<noteq> []"
  shows "rooted g"
  unfolding rooted_def
proof
  fix k
  have "Wellfounded.wf (edges g)"
    using finite_edges [OF wf] graph_wfD(8) [OF wf] by (rule finite_acyclic_wf)
  then show "k \<in> graph_nodes g \<Longrightarrow> (Root g, k) \<in> (edges g)\<^sup>*"
  proof (induction k rule: wf_induct_rule)
    case (less k)
    show ?case
    proof (cases "k = Root g")
      case False
      then obtain q where "q \<in> set (parents g k)" using p [OF less.prems] by (metis last_in_set)
      then have e: "(q, k) \<in> edges g" using graph_wfD(6) [OF wf] by simp
      then have "q \<in> graph_nodes g" by (auto intro: childs_in_nodes)
      with less.IH [OF e] e show ?thesis by (meson rtrancl_into_rtrancl)
    qed simp
  qed
qed

lemma rooted_parents:
  assumes wf: "graph_wf g" and r: "rooted g"
  shows "k \<in> graph_nodes g \<Longrightarrow> k \<noteq> Root g \<Longrightarrow> parents g k \<noteq> []" and "parents g (Root g) = []"
proof -
  assume k: "k \<in> graph_nodes g" "k \<noteq> Root g"
  then have "(Root g, k) \<in> (edges g)\<^sup>*" using r by (simp add: rooted_def)
  then obtain q where "(q, k) \<in> edges g" using k(2) by (metis rtranclE)
  then show "parents g k \<noteq> []" using graph_wfD(6) [OF wf] by auto
next
  have "q \<notin> set (parents g (Root g))" for q
  proof
    assume "q \<in> set (parents g (Root g))"
    then have e: "(q, Root g) \<in> edges g" using graph_wfD(6) [OF wf] by simp
    then have "(Root g, q) \<in> (edges g)\<^sup>*" using r childs_in_nodes by (auto simp: rooted_def)
    with e have "(q, q) \<in> (edges g)\<^sup>+" by (meson rtrancl_into_trancl2)
    with graph_wfD(8) [OF wf] show False by (simp add: acyclic_def)
  qed
  then show "parents g (Root g) = []" by (metis last_in_set)
qed

lemma below_root: "graph_wf g \<Longrightarrow> rooted g \<Longrightarrow> below g (Root g) = graph_nodes g - {Root g}"
proof -
  assume wf: "graph_wf g" and r: "rooted g"
  have "Root g \<notin> below g (Root g)" using graph_wfD(8) [OF wf] by (simp add: below_def acyclic_def)
  moreover have "k \<in> below g (Root g)" if "k \<in> graph_nodes g" "k \<noteq> Root g" for k
    using that r by (auto simp: rooted_def below_def dest: rtranclD)
  ultimately show ?thesis using below_subset [OF wf] by blast
qed

lemma root_not_below:
  assumes "graph_wf g" and "rooted g" and "i \<noteq> Root g"
  shows "Root g \<notin> insert i (below g i)"
proof -
  have "(i, Root g) \<notin> (edges g)\<^sup>+"
  proof
    assume "(i, Root g) \<in> (edges g)\<^sup>+"
    then obtain q where "(q, Root g) \<in> edges g" by (metis tranclD2)
    then show False using rooted_parents(2) [OF assms(1,2)] graph_wfD(6) [OF assms(1)] by auto
  qed
  then show ?thesis using assms(3) by (auto simp: below_def)
qed

lemma rooted_shrinks:
  assumes wf: "graph_wf g" and r: "rooted g" and s: "shrinks g D g'"
  shows "rooted g'"
proof (rule rootedI)
  show wf': "graph_wf g'" using s by (rule shrinks_wf)
  fix k
  assume k: "k \<in> graph_nodes g'" "k \<noteq> Root g'"
  then have "k \<in> graph_nodes g" "k \<notin> D" "k \<noteq> Root g" using s by (auto simp: shrinks_def)
  then obtain q where "q \<in> set (parents g k)" using rooted_parents(1) [OF wf r] by (metis last_in_set)
  then have "(q, k) \<in> edges g'" using graph_wfD(6) [OF wf] s \<open>k \<notin> D\<close> by (auto simp: shrinks_def)
  then show "parents g' k \<noteq> []" using graph_wfD(6) [OF wf'] by auto
qed

lemma rooted_more_edges:
  assumes "graph_wf g'" and "rooted g" and "edges g \<subseteq> edges g'" and "Root g' = Root g"
    and "\<And>k. k \<in> graph_nodes g' \<Longrightarrow> k \<notin> graph_nodes g \<Longrightarrow> parents g' k \<noteq> []" and "graph_wf g"
  shows "rooted g'"
proof (rule rootedI [OF assms(1)])
  fix k
  assume k: "k \<in> graph_nodes g'" "k \<noteq> Root g'"
  show "parents g' k \<noteq> []"
  proof (cases "k \<in> graph_nodes g")
    case True
    then obtain q where "q \<in> set (parents g k)"
      using rooted_parents(1) [OF assms(6,2)] k(2) assms(4) by (metis last_in_set)
    then have "(q, k) \<in> edges g" using graph_wfD(6) [OF assms(6)] by simp
    with assms(3) have "(q, k) \<in> edges g'" by blast
    then show ?thesis using graph_wfD(6) [OF assms(1)] by auto
  qed (use assms(5) k in blast)
qed

lemma rooted_AddEdge:
  assumes "graph_wf g" and "rooted g" and "AddEdge a b g = Inr g'"
  shows "rooted g'"
  using AddEdge_Inr [OF assms(1,3)] assms by (intro rooted_more_edges [OF _ assms(2)]) auto

lemma rooted_InsertNodeAt:
  assumes "graph_wf g" and "rooted g" and "InsertNodeAt p i d g = Inr (g', j)"
  shows "rooted g'"
proof -
  note i = InsertNodeAt_Inr [OF assms(1,3)]
  have "(p, i) \<in> edges g'" using i(2) by blast
  then have "parents g' i \<noteq> []" using graph_wfD(6) [OF i(1)] by auto
  then show ?thesis using i assms(1) by (intro rooted_more_edges [OF _ assms(2)]) auto
qed

end
