(* ===== verification/Resolver.thy ===== *)
theory Resolver
  imports Option_Vars Graph_Shrink
begin

text \<open>
  The option resolver of \<^verbatim>\<open>pkg/options/resolver\<close>: validation of values (\<^verbatim>\<open>parse.go\<close>), the dependency
  graph of the options (\<^verbatim>\<open>util.go\<close>), resolving one option and refreshing its sub options
  (\<^verbatim>\<open>resolve.go\<close>, \<^verbatim>\<open>sub_options.go\<close>) and the whole run (\<^verbatim>\<open>resolver.go\<close>).

  The map of resolved values is passed through and returned, and so is the resolver with its graph.
  What the code asks of its surroundings is a \<open>world\<close>: the order in which the ranges over maps
  visit the keys (one per range statement), the clock, the shell, the YAML decoder, the compiler for
  validation patterns, and the terminal.  Every iteration of the main loop has its own \<open>world\<close>, so
  that none of these need to repeat themselves.  A failing operation gives \<open>Inl\<close>; a recursion that
  does not end overflows the stack, which is a panic.  The main loop has fuel and gives \<open>None\<close> when
  it runs out.
\<close>

section \<open>Surroundings and state\<close>

record world =
  order :: "nat \<Rightarrow> string list \<Rightarrow> string list"
  clock :: int
  shell :: "string \<Rightarrow> string gomap \<Rightarrow> string result"
  yaml_sub_options :: "string \<Rightarrow> OptionDefinitions result"
  compile_regexp :: "string \<Rightarrow> (string \<Rightarrow> bool) result"
  is_terminal :: bool
  question :: "string \<Rightarrow> opt \<Rightarrow> string result"

type_synonym opt_graph = "opt option graph"

record resolver =
  userOptions :: "string gomap"
  extraValues :: "string gomap"
  r_graph :: opt_graph
  resolveLocal :: bool
  resolveGlobal :: bool
  resolveSub :: bool
  skipRequired :: bool

definition rootID :: string where
  "rootID = ''root''"

definition empty_graph :: opt_graph where
  "empty_graph = NewGraphOf (NewNode rootID None) ''provider option''"

datatype resolver_option = WithResolveLocal | WithResolveGlobal | WithResolveSubOptions | WithSkipRequired bool

fun apply_option :: "resolver_option \<Rightarrow> resolver \<Rightarrow> resolver" where
  "apply_option WithResolveLocal r = r\<lparr>resolveLocal := True\<rparr>"
| "apply_option WithResolveGlobal r = r\<lparr>resolveGlobal := True\<rparr>"
| "apply_option WithResolveSubOptions r = r\<lparr>resolveSub := True\<rparr>"
| "apply_option (WithSkipRequired skip) r = r\<lparr>skipRequired := skip\<rparr>"

definition New :: "string gomap \<Rightarrow> string gomap \<Rightarrow> resolver_option list \<Rightarrow> resolver" where
  "New user extra opts =
     fold apply_option opts
       \<lparr>userOptions = user, extraValues = extra, r_graph = empty_graph, resolveLocal = False,
        resolveGlobal = False, resolveSub = False, skipRequired = False\<rparr>"

section \<open>Validation\<close>

definition printUnusedUserValues :: "string gomap \<Rightarrow> OptionDefinitions \<Rightarrow> string list" where
  "printUnusedUserValues user options = filter (\<lambda>k. map_of options k = None) (keys user)"

definition invalid_value :: "string \<Rightarrow> string \<Rightarrow> string \<Rightarrow> gerr" where
  "invalid_value name val why =
     Err (''invalid value '' @ [CHR 0x27] @ val @ [CHR 0x27] @ '' for option '' @ [CHR 0x27] @ name @ [CHR 0x27] @ why)"

definition validate_pattern :: "world \<Rightarrow> string \<Rightarrow> string \<Rightarrow> opt \<Rightarrow> unit result" where
  "validate_pattern w name val option =
     (if ValidationPattern option = [] then Inr ()
      else (case compile_regexp w (ValidationPattern option) of
              Inl e \<Rightarrow> Inl e
            | Inr matcher \<Rightarrow>
                if matcher val then Inr ()
                else if ValidationMessage option \<noteq> [] then Inl (Err (ValidationMessage option))
                else Inl (invalid_value name val
                       ('', has to match the following regEx: '' @ ValidationPattern option))))"

definition validate_enum :: "string \<Rightarrow> string \<Rightarrow> opt \<Rightarrow> unit result" where
  "validate_enum name val option =
     (if Enum option \<noteq> [] \<and> val \<notin> set (map enum_Value (Enum option))
      then Inl (invalid_value name val '', has to match one of the following values'')
      else Inr ())"

definition validate_type :: "string \<Rightarrow> string \<Rightarrow> opt \<Rightarrow> unit result" where
  "validate_type name val option =
     (if Type option = ''number'' then
        (if ParseInt64 val = None then Inl (invalid_value name val '', must be a number'') else Inr ())
      else if Type option = ''boolean'' then
        (if ParseBool val = None then Inl (invalid_value name val '', must be a boolean'') else Inr ())
      else if Type option = ''duration'' then
        (if ParseDuration val = None
         then Inl (invalid_value name val '', must be a duration like 10s, 5m or 24h'') else Inr ())
      else Inr ())"

definition validateUserValue :: "world \<Rightarrow> string \<Rightarrow> string \<Rightarrow> opt \<Rightarrow> unit result" where
  "validateUserValue w name val option =
     (case validate_pattern w name val option of
        Inl e \<Rightarrow> Inl e
      | Inr _ \<Rightarrow>
          (case validate_enum name val option of
             Inl e \<Rightarrow> Inl e
           | Inr _ \<Rightarrow> validate_type name val option))"

section \<open>The graph of the options\<close>

definition combine :: "OptionValues \<Rightarrow> string gomap \<Rightarrow> string gomap" where
  "combine resolved extra = copy_into (copy_into [] extra) (map (\<lambda>(k, v). (k, Value v)) resolved)"

definition mergeMaps :: "'v gomap \<Rightarrow> 'v gomap \<Rightarrow> 'v gomap" where
  "mergeMaps existing new = copy_into (copy_into [] existing) new"

fun graph_err :: "graph_error \<Rightarrow> gerr" where
  "graph_err (ParentMissing p) = Err (''Parent '' @ p @ '' does not exist'')"
| "graph_err (FromMissing i) = Err (''fromID '' @ i @ '' does not exist'')"
| "graph_err (ToMissing i) = Err (''toID '' @ i @ '' does not exist'')"
| "graph_err (HasChildren i) = Err (''Cannot remove '' @ i @ '' from graph because it has still children'')"
| "graph_err (NotInParent i) = Err (''couldn'' @ [CHR 0x27] @ ''t find '' @ i @ '' in parent'')"
| "graph_err (CyclicError what path) =
     (case cyclic_error_message what path of Some m \<Rightarrow> Err m | None \<Rightarrow> Panic ''index out of range'')"

definition of_graph :: "graph_error + 'a \<Rightarrow> 'a result" where
  "of_graph r = (case r of Inl e \<Rightarrow> Inl (graph_err e) | Inr x \<Rightarrow> Inr x)"

definition of_removal :: "(graph_error + 'a) option \<Rightarrow> 'a result" where
  "of_removal r = (case r of None \<Rightarrow> Inl (Panic ''stack overflow'') | Some x \<Rightarrow> of_graph x)"

text \<open>The definition of an option in the graph; a missing node or nil data is dereferenced.\<close>

definition definition_at :: "opt_graph \<Rightarrow> string \<Rightarrow> opt option" where
  "definition_at g k = Option.bind (node_at g k) Data"

definition nil_deref :: gerr where
  "nil_deref = Panic ''nil pointer dereference''"

text \<open>The test \<open>a && g.Nodes[k].Data.F\<close>, which only dereferences when \<open>a\<close> holds.\<close>

definition and_flag :: "bool \<Rightarrow> (opt \<Rightarrow> bool) \<Rightarrow> opt_graph \<Rightarrow> string \<Rightarrow> bool result" where
  "and_flag a f g k =
     (if a then (case definition_at g k of None \<Rightarrow> Inl nil_deref | Some d \<Rightarrow> Inr (f d)) else Inr False)"

definition bad_dependency :: "string \<Rightarrow> string \<Rightarrow> string \<Rightarrow> string \<Rightarrow> gerr" where
  "bad_dependency what dep place name =
     Err (''cannot use a '' @ what @ '' option. Option '' @ [CHR 0x27] @ dep @ [CHR 0x27] @ '' used in '' @
          place @ '' of option '' @ [CHR 0x27] @ name @ [CHR 0x27])"

text \<open>One edge of a dependency: the two scope checks and \<open>AddChild\<close>.\<close>

definition checked_edge ::
    "bool result \<Rightarrow> bool result \<Rightarrow> string \<Rightarrow> string \<Rightarrow> string \<Rightarrow> string \<Rightarrow> string \<Rightarrow> opt_graph \<Rightarrow>
     opt_graph result" where
  "checked_edge bad_global bad_local dep place name a b g =
     (case bad_global of
        Inl e \<Rightarrow> Inl e
      | Inr True \<Rightarrow> Inl (bad_dependency ''global option as a dependency of a non-global'' dep place name)
      | Inr False \<Rightarrow>
          (case bad_local of
             Inl e \<Rightarrow> Inl e
           | Inr True \<Rightarrow> Inl (bad_dependency ''non-local option as a dependency of a local'' dep ''default'' name)
           | Inr False \<Rightarrow> of_graph (AddChild a b g)))"

fun add_children :: "string \<Rightarrow> opt \<Rightarrow> string list \<Rightarrow> opt_graph \<Rightarrow> opt_graph result" where
  "add_children name option [] g = Inr g"
| "add_children name option (c # cs) g =
     (if node_at g c = None \<or> c = name then add_children name option cs g
      else (case checked_edge (and_flag (\<not> Global option) Global g c)
                   (and_flag (Local option) (\<lambda>d. \<not> Local d) g c) c ''command'' name name c g of
              Inl e \<Rightarrow> Inl e
            | Inr g' \<Rightarrow> add_children name option cs g'))"

fun add_variables :: "string \<Rightarrow> string \<Rightarrow> opt \<Rightarrow> string list \<Rightarrow> opt_graph \<Rightarrow> opt_graph result" where
  "add_variables place name option [] g = Inr g"
| "add_variables place name option (d # ds) g =
     (if node_at g d = None \<or> d = name then add_variables place name option ds g
      else (case checked_edge (and_flag (Global option) (\<lambda>x. \<not> Global x) g d)
                   (and_flag (\<not> Local option) Local g d) d place name d name g of
              Inl e \<Rightarrow> Inl e
            | Inr g' \<Rightarrow> add_variables place name option ds g'))"

definition children_of :: "OptionValues \<Rightarrow> string \<Rightarrow> string list" where
  "children_of vals k = (case map_of vals k of None \<Rightarrow> [] | Some v \<Rightarrow> Children v)"

definition addDependency :: "OptionValues \<Rightarrow> string \<Rightarrow> opt_graph \<Rightarrow> opt_graph result" where
  "addDependency vals name g =
     (case definition_at g name of
        None \<Rightarrow> Inl nil_deref
      | Some option \<Rightarrow>
          (case add_children name option (children_of vals name) g of
             Inl e \<Rightarrow> Inl e
           | Inr g1 \<Rightarrow>
               (case add_variables ''default'' name option (findVariables (Default option)) g1 of
                  Inl e \<Rightarrow> Inl e
                | Inr g2 \<Rightarrow> add_variables ''command'' name option (findVariables (Command option)) g2)))"

fun add_dependencies :: "OptionValues \<Rightarrow> string list \<Rightarrow> opt_graph \<Rightarrow> opt_graph result" where
  "add_dependencies vals [] g = Inr g"
| "add_dependencies vals (k # ks) g =
     (case addDependency vals k g of Inl e \<Rightarrow> Inl e | Inr g' \<Rightarrow> add_dependencies vals ks g')"

text \<open>Drops the root from the parents of a node that has others.\<close>

definition remove_root_of :: "string \<Rightarrow> opt_graph \<Rightarrow> opt_graph" where
  "remove_root_of k g =
     (case node_at g k of
        None \<Rightarrow> g
      | Some n \<Rightarrow>
          if length (Parents n) > 1
          then (let g1 = upd_node k (\<lambda>n. n\<lparr>Parents := filter (\<lambda>p. p \<noteq> rootID) (Parents n)\<rparr>) g in
                if rootID \<in> set (Parents n)
                then upd_node (Root g)
                       (\<lambda>r. r\<lparr>Childs := \<lparr>elems = filter (\<lambda>c. c \<noteq> node_ID n) (elems (Childs r)), spare = []\<rparr>\<rparr>) g1
                else g1)
          else g)"

definition removeRootParent :: "string list \<Rightarrow> opt_graph \<Rightarrow> opt_graph" where
  "removeRootParent ks g = fold remove_root_of ks g"

definition addDependencies :: "world \<Rightarrow> OptionDefinitions \<Rightarrow> OptionValues \<Rightarrow> opt_graph \<Rightarrow> opt_graph result" where
  "addDependencies w defs vals g =
     (case add_dependencies vals (order w 4 (keys defs)) g of
        Inl e \<Rightarrow> Inl e
      | Inr g' \<Rightarrow> Inr (removeRootParent (order w 5 (keys (Nodes g'))) g'))"

fun insert_options :: "OptionDefinitions \<Rightarrow> string list \<Rightarrow> opt_graph \<Rightarrow> opt_graph result" where
  "insert_options defs [] g = Inr g"
| "insert_options defs (k # ks) g =
     (if node_at g k \<noteq> None
      then insert_options defs ks (upd_node k (\<lambda>n. n\<lparr>Data := map_of defs k\<rparr>) g)
      else (case InsertNodeAt rootID k (map_of defs k) g of
              Inl e \<Rightarrow> Inl (graph_err e)
            | Inr (g', _) \<Rightarrow> insert_options defs ks g'))"

definition addOptionsToGraph ::
    "world \<Rightarrow> OptionDefinitions \<Rightarrow> OptionValues \<Rightarrow> opt_graph \<Rightarrow> opt_graph result" where
  "addOptionsToGraph w defs vals g =
     (case insert_options defs (order w 3 (keys defs)) g of
        Inl e \<Rightarrow> Inl e
      | Inr g' \<Rightarrow> addDependencies w defs vals g')"

definition deleteChildrenOf :: "string \<Rightarrow> opt_graph \<Rightarrow> opt_graph result" where
  "deleteChildrenOf i g = of_removal (RemoveChilds (leaf_fuel g) i (length (childs g i)) 0 g)"

section \<open>Resolving one option\<close>

definition execOptionCommand :: "world \<Rightarrow> string \<Rightarrow> OptionValues \<Rightarrow> string gomap \<Rightarrow> string result" where
  "execOptionCommand w command vals extra = shell w command (combine vals extra)"

definition resolveFromCommand :: "world \<Rightarrow> opt \<Rightarrow> OptionValues \<Rightarrow> string gomap \<Rightarrow> option_value result" where
  "resolveFromCommand w option vals extra =
     (case execOptionCommand w (Command option) vals extra of
        Inl e \<Rightarrow> Inl e
      | Inr out \<Rightarrow> Inr (zero_value\<lparr>Value := TrimSpace out, Filled := Some (clock w)\<rparr>))"

definition resolveSubOptions :: "world \<Rightarrow> opt \<Rightarrow> OptionValues \<Rightarrow> string gomap \<Rightarrow> OptionDefinitions result" where
  "resolveSubOptions w option vals extra =
     (case execOptionCommand w (SubOptionsCommand option) vals extra of
        Inl e \<Rightarrow> Inl e
      | Inr out \<Rightarrow>
          (case yaml_sub_options w out of Inl e \<Rightarrow> Inl e | Inr opts \<Rightarrow> Inr (copy_into [] opts)))"

text \<open>\<open>getValue\<close>: the user value, the value from before if it is still valid, and the values without
  an invalid one.\<close>

definition getValue ::
    "world \<Rightarrow> resolver \<Rightarrow> string \<Rightarrow> opt \<Rightarrow> OptionValues \<Rightarrow>
     (string option \<times> option_value option \<times> OptionValues) result" where
  "getValue w r name option vals =
     (let userValue = map_of (userOptions r) name; prev = map_of vals name in
      case (case userValue of None \<Rightarrow> Inr () | Some v \<Rightarrow> validateUserValue w name v option) of
        Inl e \<Rightarrow> Inl e
      | Inr _ \<Rightarrow>
          (case prev of
             None \<Rightarrow> Inr (userValue, None, vals)
           | Some b \<Rightarrow>
               (case validateUserValue w name (Value b) option of
                  Inl _ \<Rightarrow> Inr (userValue, None, AList.delete name vals)
                | Inr _ \<Rightarrow> Inr (userValue, Some b, vals))))"

text \<open>Whether the value from before is kept as it is.\<close>

definition keeps_before :: "world \<Rightarrow> string \<Rightarrow> opt \<Rightarrow> option_value \<Rightarrow> bool result" where
  "keeps_before w name option b =
     (if UserProvided b \<or> Cache option = [] then Inr True
      else (case ParseDuration (Cache option) of
              None \<Rightarrow> Inl (Err (''parse cache duration of option '' @ name))
            | Some d \<Rightarrow> Inr (case Filled b of None \<Rightarrow> False | Some f \<Rightarrow> f + d > clock w)))"

definition skips_scope :: "resolver \<Rightarrow> opt \<Rightarrow> bool" where
  "skips_scope r option \<longleftrightarrow>
     \<not> Required option \<and> (\<not> resolveGlobal r \<and> Global option \<or> \<not> resolveLocal r \<and> Local option)"

definition before_children :: "option_value option \<Rightarrow> string list" where
  "before_children prev = (case prev of None \<Rightarrow> [] | Some b \<Rightarrow> Children b)"

definition compute_value ::
    "world \<Rightarrow> resolver \<Rightarrow> opt \<Rightarrow> string option \<Rightarrow> option_value option \<Rightarrow> OptionValues \<Rightarrow> option_value result" where
  "compute_value w r option userValue prev vals =
     (case userValue of
        Some u \<Rightarrow> Inr (zero_value\<lparr>Value := u, Children := before_children prev, UserProvided := True\<rparr>)
      | None \<Rightarrow>
          if Default option \<noteq> [] then
            Inr (zero_value\<lparr>Children := before_children prev,
                   Value := ResolveDefaultValue (Default option) (combine vals (extraValues r))\<rparr>)
          else if Command option \<noteq> [] then
            (case resolveFromCommand w option vals (extraValues r) of
               Inl e \<Rightarrow> Inl e
             | Inr v \<Rightarrow> Inr (v\<lparr>Children := before_children prev\<rparr>))
          else if length (Enum option) = 1 then
            Inr (zero_value\<lparr>Children := before_children prev, Value := enum_Value (hd (Enum option))\<rparr>)
          else Inr (zero_value\<lparr>Children := before_children prev\<rparr>))"

text \<open>The loop that forgets computed values of the children when the value has changed.\<close>

definition forget_child :: "string \<Rightarrow> OptionValues \<Rightarrow> OptionValues" where
  "forget_child c vals =
     (case map_of vals c of
        None \<Rightarrow> vals
      | Some v \<Rightarrow> if UserProvided v then vals else AList.delete c vals)"

definition forget_children :: "option_value option \<Rightarrow> option_value \<Rightarrow> string list \<Rightarrow> OptionValues \<Rightarrow> OptionValues" where
  "forget_children prev new cs vals =
     (if (case prev of None \<Rightarrow> [] | Some b \<Rightarrow> Value b) \<noteq> Value new then fold forget_child cs vals else vals)"

text \<open>A required option without a value: skipped together with its children, or asked for.\<close>

definition resolve_required ::
    "world \<Rightarrow> resolver \<Rightarrow> string \<Rightarrow> opt \<Rightarrow> option_value option \<Rightarrow> OptionValues \<Rightarrow> (resolver \<times> OptionValues) result" where
  "resolve_required w r name option prev vals =
     (if skipRequired r then
        (case deleteChildrenOf name (r_graph r) of
           Inl e \<Rightarrow> Inl e
         | Inr g \<Rightarrow> Inr (r\<lparr>r_graph := g\<rparr>, AList.delete name vals))
      else if \<not> is_terminal w then
        Inl (Err (''option '' @ name @ '' is required, but no value provided''))
      else
        (case question w name option of
           Inl e \<Rightarrow> Inl e
         | Inr answer \<Rightarrow>
             (let new = zero_value\<lparr>Value := answer, UserProvided := True\<rparr> in
              Inr (r, forget_children prev new (childs (r_graph r) name) (AList.update name new vals)))))"

definition resolve_new ::
    "world \<Rightarrow> resolver \<Rightarrow> string \<Rightarrow> opt \<Rightarrow> string option \<Rightarrow> option_value option \<Rightarrow> OptionValues \<Rightarrow>
     (resolver \<times> OptionValues) result" where
  "resolve_new w r name option userValue prev vals =
     (case compute_value w r option userValue prev vals of
        Inl e \<Rightarrow> Inl e
      | Inr new \<Rightarrow>
          if userValue = None \<and> Required option \<and> Value new = []
          then resolve_required w r name option prev (AList.update name new vals)
          else Inr (r, forget_children prev new (childs (r_graph r) name) (AList.update name new vals)))"

definition resolveOption ::
    "world \<Rightarrow> resolver \<Rightarrow> string \<Rightarrow> OptionValues \<Rightarrow> (resolver \<times> OptionValues) result" where
  "resolveOption w r name vals =
     (case definition_at (r_graph r) name of
        None \<Rightarrow> Inl nil_deref
      | Some option \<Rightarrow>
          (case getValue w r name option vals of
             Inl e \<Rightarrow> Inl e
           | Inr (userValue, prev, vals1) \<Rightarrow>
               (case (case (userValue, prev) of
                        (None, Some b) \<Rightarrow> keeps_before w name option b
                      | _ \<Rightarrow> Inr False) of
                  Inl e \<Rightarrow> Inl e
                | Inr True \<Rightarrow> Inr (r, vals1)
                | Inr False \<Rightarrow>
                    if userValue = None \<and> skips_scope r option then Inr (r, vals1)
                    else resolve_new w r name option userValue prev vals1)))"

section \<open>Sub options\<close>

definition dynamicOptionsForNode :: "opt_graph \<Rightarrow> string list \<Rightarrow> OptionDefinitions" where
  "dynamicOptionsForNode g children =
     fold (\<lambda>c m. case definition_at g c of None \<Rightarrow> m | Some d \<Rightarrow> AList.update c d m) children []"

definition option_changed :: "OptionDefinitions \<Rightarrow> OptionValues \<Rightarrow> string \<Rightarrow> opt \<Rightarrow> bool" where
  "option_changed old vals k new =
     (case map_of old k of
        None \<Rightarrow> True
      | Some oldV \<Rightarrow>
          (case map_of vals k of
             None \<Rightarrow> True
           | Some v \<Rightarrow>
               Enum new \<noteq> [] \<and> Value v \<notin> set (map enum_Value (Enum new)) \<or>
               \<not> UserProvided v \<and> Default oldV \<noteq> Default new))"

definition getChangedOptions :: "OptionDefinitions \<Rightarrow> OptionDefinitions \<Rightarrow> OptionValues \<Rightarrow> OptionDefinitions" where
  "getChangedOptions old new vals =
     filter (\<lambda>(k, _). map_of new k = None) old @
     filter (\<lambda>(k, d). option_changed old vals k d) new"

fun remove_changed :: "string list \<Rightarrow> opt_graph \<Rightarrow> OptionValues \<Rightarrow> (opt_graph \<times> OptionValues) result" where
  "remove_changed [] g vals = Inr (g, vals)"
| "remove_changed (c # cs) g vals =
     (case of_removal (RemoveSubGraph (leaf_fuel g) c g) of
        Inl e \<Rightarrow> Inl e
      | Inr g' \<Rightarrow> remove_changed cs g' (AList.delete c vals))"

definition drop_invalid_user ::
    "world \<Rightarrow> OptionDefinitions \<Rightarrow> string \<Rightarrow> string gomap \<Rightarrow> string gomap" where
  "drop_invalid_user w new k user =
     (case (map_of user k, map_of new k) of
        (Some v, Some d) \<Rightarrow>
          (case validateUserValue w k v d of Inl _ \<Rightarrow> AList.delete k user | Inr _ \<Rightarrow> user)
      | _ \<Rightarrow> user)"

definition refreshSubOptions ::
    "world \<Rightarrow> resolver \<Rightarrow> string \<Rightarrow> OptionValues \<Rightarrow> (resolver \<times> OptionValues) result" where
  "refreshSubOptions w r name vals =
     (case node_at (r_graph r) name of
        None \<Rightarrow> Inr (r, vals)
      | Some n \<Rightarrow>
          if \<not> resolveSub r then Inr (r, vals)
          else (case Data n of
            None \<Rightarrow> Inl nil_deref
          | Some option \<Rightarrow>
              if SubOptionsCommand option = [] \<or> map_of vals name = None then Inr (r, vals)
              else (case resolveSubOptions w option vals (extraValues r) of
                Inl e \<Rightarrow> Inl e
              | Inr new \<Rightarrow>
                  (let old = dynamicOptionsForNode (r_graph r) (children_of vals name);
                       changed = getChangedOptions old new vals in
                   case remove_changed (order w 0 (keys changed)) (r_graph r) vals of
                     Inl e \<Rightarrow> Inl e
                   | Inr (g1, vals1) \<Rightarrow>
                       (let user1 = fold (drop_invalid_user w new) (order w 1 (keys new)) (userOptions r);
                            val = (case map_of vals1 name of None \<Rightarrow> zero_value | Some v \<Rightarrow> v);
                            vals2 = AList.update name (val\<lparr>Children := order w 2 (keys new)\<rparr>) vals1 in
                        case addOptionsToGraph w new vals2 g1 of
                          Inl e \<Rightarrow> Inl e
                        | Inr g2 \<Rightarrow> Inr (r\<lparr>userOptions := user1, r_graph := g2\<rparr>, vals2))))))"

section \<open>The whole run\<close>

fun resolve_loop ::
    "(nat \<Rightarrow> world) \<Rightarrow> nat \<Rightarrow> nat \<Rightarrow> resolver \<Rightarrow> OptionValues \<Rightarrow> (resolver \<times> OptionValues) result option" where
  "resolve_loop ws 0 i r vals = None"
| "resolve_loop ws (Suc f) i r vals =
     (case NextFromTop (r_graph r) of
        None \<Rightarrow> None
      | Some (g, None) \<Rightarrow> Some (Inr (r\<lparr>r_graph := g\<rparr>, vals))
      | Some (g, Some name) \<Rightarrow>
          (case resolveOption (ws i) (r\<lparr>r_graph := g\<rparr>) name vals of
             Inl e \<Rightarrow> Some (Inl e)
           | Inr (r1, vals1) \<Rightarrow>
               (case refreshSubOptions (ws i) r1 name vals1 of
                  Inl e \<Rightarrow> Some (Inl e)
                | Inr (r2, vals2) \<Rightarrow> resolve_loop ws f (Suc i) r2 vals2)))"

definition resolveOptions ::
    "(nat \<Rightarrow> world) \<Rightarrow> nat \<Rightarrow> resolver \<Rightarrow> OptionValues \<Rightarrow> (resolver \<times> OptionValues) result option" where
  "resolveOptions ws fuel r vals = resolve_loop ws fuel 1 r (copy_into [] vals)"

definition new_dynamic_definitions :: "opt_graph \<Rightarrow> OptionDefinitions \<Rightarrow> OptionValues \<Rightarrow> OptionDefinitions" where
  "new_dynamic_definitions g defs vals =
     List.map_filter (\<lambda>k.
       if k = rootID \<or> map_of defs k \<noteq> None \<or> \<not> (\<exists>(_, v) \<in> set vals. k \<in> set (Children v)) then None
       else map_option (\<lambda>d. (k, d)) (definition_at g k)) (keys (Nodes g))"

definition prune_values :: "OptionDefinitions \<Rightarrow> OptionDefinitions \<Rightarrow> OptionValues \<Rightarrow> OptionValues" where
  "prune_values defs dyn vals = filter (\<lambda>(k, _). map_of dyn k \<noteq> None \<or> map_of defs k \<noteq> None) vals"

definition Resolve ::
    "(nat \<Rightarrow> world) \<Rightarrow> nat \<Rightarrow> resolver \<Rightarrow> OptionDefinitions \<Rightarrow> OptionDefinitions \<Rightarrow> OptionValues \<Rightarrow>
     (OptionValues \<times> OptionDefinitions) result option" where
  "Resolve ws fuel r dynamicDefinitions optionDefinitions vals =
     (case addOptionsToGraph (ws 0) (mergeMaps dynamicDefinitions optionDefinitions) vals empty_graph of
        Inl e \<Rightarrow> Some (Inl e)
      | Inr g \<Rightarrow>
          (case resolveOptions ws fuel (r\<lparr>r_graph := g\<rparr>) vals of
             None \<Rightarrow> None
           | Some (Inl e) \<Rightarrow> Some (Inl e)
           | Some (Inr (r', resolved)) \<Rightarrow>
               (let dyn = new_dynamic_definitions (r_graph r') optionDefinitions resolved in
                Some (Inr (prune_values optionDefinitions dyn resolved, dyn)))))"

end
