(* ===== verification/Resolver_Graph.thy ===== *)
theory Resolver_Graph
  imports Resolver
begin

text \<open>
  The graph that \<open>addOptionsToGraph\<close> builds: it stays well-formed with everything below the root,
  has a node for every option, keeps the marks of the nodes that were there, and has an edge from
  every option that a default value or a command refers to.
\<close>

section \<open>Updates that leave the structure alone\<close>

definition graph_ok :: "'a graph \<Rightarrow> bool" where
  "graph_ok g \<longleftrightarrow> graph_wf g \<and> rooted g \<and> Root g = rootID"

lemma graph_okD: "graph_ok g \<Longrightarrow> graph_wf g" "graph_ok g \<Longrightarrow> rooted g" "graph_ok g \<Longrightarrow> Root g = rootID"
  by (simp_all add: graph_ok_def)

definition same_shape :: "('a node \<Rightarrow> 'a node) \<Rightarrow> bool" where
  "same_shape f \<longleftrightarrow> (\<forall>n. node_ID (f n) = node_ID n \<and> Parents (f n) = Parents n \<and> Childs (f n) = Childs n)"

lemma same_shape_upd:
  assumes "same_shape f"
  shows "childs (upd_node i f g) = childs g" and "parents (upd_node i f g) = parents g"
    and "edges (upd_node i f g) = edges g" and "below (upd_node i f g) = below g"
proof -
  show c: "childs (upd_node i f g) = childs g" "parents (upd_node i f g) = parents g"
    using assms by (auto simp: fun_eq_iff childs_def parents_def same_shape_def split: option.splits)
  then show e: "edges (upd_node i f g) = edges g" by (simp add: edges_def)
  then show "below (upd_node i f g) = below g" by (simp add: fun_eq_iff below_def)
qed

lemma graph_wf_same_shape:
  assumes "same_shape f" and wf: "graph_wf g"
  shows "graph_wf (upd_node i f g)"
proof -
  have ID: "node_ID n = k" if "node_at (upd_node i f g) k = Some n" for k n
    using that graph_wfD(2) [OF wf, of k] assms(1) by (auto simp: same_shape_def split: if_splits)
  show ?thesis
    unfolding graph_wf_def same_shape_upd [OF assms(1)] wf_map_upd_node graph_nodes_upd_node upd_node_sel
    using ID wf [unfolded graph_wf_def] by blast
qed

lemma graph_ok_same_shape: "same_shape f \<Longrightarrow> graph_ok g \<Longrightarrow> graph_ok (upd_node i f g)"
  by (auto simp: graph_ok_def graph_wf_same_shape rooted_def same_shape_upd)

lemma same_shape_Data [simp]: "same_shape (\<lambda>n. n\<lparr>Data := d\<rparr>)"
  and same_shape_Done [simp]: "same_shape (\<lambda>n. n\<lparr>Done := b\<rparr>)"
  by (simp_all add: same_shape_def)

lemma contents_Data:
  "contents (upd_node i (\<lambda>n. n\<lparr>Data := d\<rparr>) g) =
    (\<lambda>k. if k = i then map_option (\<lambda>(_, b). (d, b)) (contents g k) else contents g k)"
  by (auto simp: contents_def fun_eq_iff option.map_comp o_def)

lemma definition_at_contents: "definition_at g k = Option.bind (contents g k) fst"
  by (cases "node_at g k") (simp_all add: definition_at_def contents_def)

lemma is_done_contents: "is_done g k \<longleftrightarrow> (case contents g k of None \<Rightarrow> True | Some (_, b) \<Rightarrow> b)"
  by (simp add: is_done_def contents_def split: option.splits)

lemma contents_nodes: "contents g k \<noteq> None \<longleftrightarrow> k \<in> graph_nodes g"
  by (simp add: contents_def graph_nodes_iff)

lemma graph_ok_empty: "graph_ok empty_graph"
proof -
  have "graph_nodes empty_graph = {rootID}"
    by (simp add: empty_graph_def NewGraphOf_def NewNode_def graph_nodes_def)
  moreover have "childs empty_graph a = []" "parents empty_graph a = []" for a
    by (simp_all add: empty_graph_def NewGraphOf_def NewNode_def node_at_def childs_def parents_def)
  moreover from this have "edges empty_graph = {}" by (simp add: edges_def)
  moreover have "Root empty_graph = rootID" "wf_map (Nodes empty_graph)"
    by (simp_all add: empty_graph_def NewGraphOf_def NewNode_def wf_map_def)
  moreover have "node_ID n = k" if "node_at empty_graph k = Some n" for k n
    using that by (auto simp: empty_graph_def NewGraphOf_def NewNode_def node_at_def split: if_splits)
  ultimately show ?thesis
    unfolding graph_ok_def graph_wf_def rooted_def by (simp add: acyclic_def)
qed

lemma contents_empty: "contents empty_graph = [rootID \<mapsto> (None, False)]"
  by (auto simp: empty_graph_def NewGraphOf_def NewNode_def contents_def node_at_def fun_eq_iff)

section \<open>Inserting the options\<close>

definition inserted :: "OptionDefinitions \<Rightarrow> string set \<Rightarrow> opt_graph \<Rightarrow> string \<Rightarrow> (opt option \<times> bool) option" where
  "inserted defs K g k =
     (if k \<in> K then Some (map_of defs k, case contents g k of None \<Rightarrow> False | Some (_, b) \<Rightarrow> b)
      else contents g k)"

lemma insert_options_Inr:
  assumes "insert_options defs ks g = Inr g'" and "graph_ok g"
  shows "graph_ok g' \<and> contents g' = inserted defs (set ks) g \<and> edges g \<subseteq> edges g'"
  using assms
proof (induction ks arbitrary: g)
  case Nil
  then show ?case by (simp add: inserted_def fun_eq_iff)
next
  case (Cons k ks)
  show ?case
  proof (cases "node_at g k")
    case None
    then obtain g1 where g1: "InsertNodeAt rootID k (map_of defs k) g = Inr (g1, k)" "insert_options defs ks g1 = Inr g'"
      using Cons.prems(1) by (auto simp: InsertNodeAt_def split: sum.splits option.splits)
    note i = InsertNodeAt_Inr [OF graph_okD(1) [OF Cons.prems(2)] g1(1)]
    have ok: "graph_ok g1"
      using i(1,5) rooted_InsertNodeAt [OF graph_okD(1,2) [OF Cons.prems(2)] g1(1)] graph_okD(3) [OF Cons.prems(2)]
      by (simp add: graph_ok_def)
    have "contents g1 = (contents g)(k \<mapsto> (map_of defs k, False))"
      using i(8) None by (simp add: graph_nodes_iff)
    moreover have "contents g k = None" using None by (simp add: contents_def)
    ultimately have "inserted defs (set ks) g1 = inserted defs (set (k # ks)) g"
      by (auto simp: inserted_def fun_eq_iff)
    moreover have "edges g \<subseteq> edges g1" using i(2) by blast
    ultimately show ?thesis using Cons.IH [OF g1(2) ok] by auto
  next
    case (Some n)
    let ?g = "upd_node k (\<lambda>n. n\<lparr>Data := map_of defs k\<rparr>) g"
    have nxt: "insert_options defs ks ?g = Inr g'" using Cons.prems(1) Some by simp
    have "inserted defs (set ks) ?g = inserted defs (set (k # ks)) g"
      using Some by (auto simp: inserted_def fun_eq_iff contents_Data contents_def)
    with Cons.IH [OF nxt graph_ok_same_shape [OF same_shape_Data Cons.prems(2)]] show ?thesis
      by (simp add: same_shape_upd)
  qed
qed

section \<open>Adding the dependencies\<close>

text \<open>Steps that only add edges.\<close>

definition grows :: "'a graph \<Rightarrow> 'a graph \<Rightarrow> bool" where
  "grows g g' \<longleftrightarrow> graph_ok g' \<and> contents g' = contents g \<and> edges g \<subseteq> edges g'"

lemma grows_refl: "graph_ok g \<Longrightarrow> grows g g"
  by (simp add: grows_def)

lemma grows_trans: "grows g g1 \<Longrightarrow> grows g1 g2 \<Longrightarrow> grows g g2"
  by (auto simp: grows_def)

lemma grows_nodes: "grows g g' \<Longrightarrow> node_at g' k = None \<longleftrightarrow> node_at g k = None"
  by (metis contents_nodes graph_nodes_iff grows_def)

lemma checked_edge_Inr:
  assumes "checked_edge bg bl dep place name a b g = Inr g'" and "graph_ok g"
  shows "grows g g' \<and> (a, b) \<in> edges g'"
proof -
  from assms(1) have e: "AddEdge a b g = Inr g'"
    by (auto simp: checked_edge_def of_graph_def AddChild_def split: sum.splits bool.splits)
  note r = AddEdge_Inr [OF graph_okD(1) [OF assms(2)] e]
  then show ?thesis
    using rooted_AddEdge [OF graph_okD(1,2) [OF assms(2)] e] graph_okD(3) [OF assms(2)]
    by (simp add: grows_def graph_ok_def subset_insertI del: edges_iff)
qed

lemma add_children_Inr:
  "add_children name option cs g = Inr g' \<Longrightarrow> graph_ok g \<Longrightarrow> grows g g'"
proof (induction cs arbitrary: g)
  case (Cons c cs)
  show ?case
  proof (cases "node_at g c = None \<or> c = name")
    case False
    with Cons.prems(1) obtain g1 where "checked_edge (and_flag (\<not> Global option) Global g c)
        (and_flag (Local option) (\<lambda>d. \<not> Local d) g c) c ''command'' name name c g = Inr g1"
        "add_children name option cs g1 = Inr g'"
      by (auto split: sum.splits)
    with checked_edge_Inr [OF this(1) Cons.prems(2)] Cons.IH show ?thesis
      by (meson grows_def grows_trans)
  qed (use Cons in auto)
qed (simp add: grows_refl)

lemma add_variables_Inr:
  "add_variables place name option ds g = Inr g' \<Longrightarrow> graph_ok g \<Longrightarrow>
    grows g g' \<and> (\<forall>d \<in> set ds. node_at g d \<noteq> None \<longrightarrow> d \<noteq> name \<longrightarrow> (d, name) \<in> edges g')"
proof (induction ds arbitrary: g)
  case (Cons d ds)
  show ?case
  proof (cases "node_at g d = None \<or> d = name")
    case False
    with Cons.prems(1) obtain g1 where g1: "checked_edge (and_flag (Global option) (\<lambda>x. \<not> Global x) g d)
        (and_flag (\<not> Local option) Local g d) d place name d name g = Inr g1"
        "add_variables place name option ds g1 = Inr g'"
      by (auto split: sum.splits)
    note e = checked_edge_Inr [OF g1(1) Cons.prems(2)]
    then have ok: "graph_ok g1" by (simp add: grows_def)
    from Cons.IH [OF g1(2) ok] e grows_nodes [of g g1] show ?thesis
      by (auto simp: grows_def simp del: edges_iff intro: grows_trans)
  qed (use Cons in auto)
qed (simp add: grows_refl)

definition depends_on :: "opt \<Rightarrow> string set" where
  "depends_on d = set (findVariables (Default d)) \<union> set (findVariables (Command d))"

lemma addDependency_Inr:
  assumes "addDependency vals name g = Inr g'" and "graph_ok g"
  shows "grows g g' \<and> (\<forall>d v. definition_at g name = Some d \<longrightarrow> v \<in> depends_on d \<longrightarrow>
    v \<in> graph_nodes g \<longrightarrow> v \<noteq> name \<longrightarrow> (v, name) \<in> edges g')"
proof -
  from assms(1) obtain d g1 g2 where d: "definition_at g name = Some d"
    and g1: "add_children name d (children_of vals name) g = Inr g1"
    and g2: "add_variables ''default'' name d (findVariables (Default d)) g1 = Inr g2"
    and g': "add_variables ''command'' name d (findVariables (Command d)) g2 = Inr g'"
    by (auto simp: addDependency_def split: option.splits sum.splits)
  note s1 = add_children_Inr [OF g1 assms(2)]
  then have ok1: "graph_ok g1" by (simp add: grows_def)
  note s2 = add_variables_Inr [OF g2 ok1]
  then have ok2: "graph_ok g2" by (simp add: grows_def)
  note s3 = add_variables_Inr [OF g' ok2]
  have nodes: "node_at g1 k = None \<longleftrightarrow> node_at g k = None" "node_at g2 k = None \<longleftrightarrow> node_at g k = None" for k
    using grows_nodes [OF s1] s2 grows_nodes [of g1 g2] by auto
  have "(v, name) \<in> edges g'" if v: "v \<in> depends_on d" "v \<in> graph_nodes g" "v \<noteq> name" for v
  proof (cases "v \<in> set (findVariables (Default d))")
    case True
    then have "(v, name) \<in> edges g2" using s2 v nodes(1) by (simp add: graph_nodes_iff del: edges_iff)
    moreover have "edges g2 \<subseteq> edges g'" using s3 by (simp add: grows_def)
    ultimately show ?thesis by blast
  next
    case False
    then show ?thesis using s3 v nodes(2) by (simp add: graph_nodes_iff depends_on_def del: edges_iff)
  qed
  with d s1 s2 s3 show ?thesis by (auto simp del: edges_iff intro: grows_trans)
qed

lemma add_dependencies_Inr:
  "add_dependencies vals ks g = Inr g' \<Longrightarrow> graph_ok g \<Longrightarrow>
    grows g g' \<and> (\<forall>k \<in> set ks. \<forall>d v. definition_at g k = Some d \<longrightarrow> v \<in> depends_on d \<longrightarrow>
      v \<in> graph_nodes g \<longrightarrow> v \<noteq> k \<longrightarrow> (v, k) \<in> edges g')"
proof (induction ks arbitrary: g)
  case (Cons k ks)
  then obtain g1 where g1: "addDependency vals k g = Inr g1" "add_dependencies vals ks g1 = Inr g'"
    by (auto split: sum.splits)
  note s1 = addDependency_Inr [OF g1(1) Cons.prems(2)]
  then have ok1: "graph_ok g1" by (simp add: grows_def)
  note s2 = Cons.IH [OF g1(2) ok1]
  have "definition_at g1 j = definition_at g j" "graph_nodes g1 = graph_nodes g" for j
    using s1 contents_nodes [of g1] contents_nodes [of g] by (auto simp: grows_def definition_at_contents)
  with s1 s2 show ?case
    by (auto simp del: edges_iff simp: grows_def)
qed (simp add: grows_refl)

section \<open>Dropping the root where there are other parents\<close>

lemma map_entry_id: "map_of m k = Some v \<Longrightarrow> f v = v \<Longrightarrow> AList.map_entry k f m = m"
  by (induction m) auto

lemma upd_node_id: "node_at g k = Some n \<Longrightarrow> f n = n \<Longrightarrow> upd_node k f g = g"
  by (simp add: upd_node_def node_at_def map_entry_id)

lemma two_distinct: "distinct xs \<Longrightarrow> length xs > 1 \<Longrightarrow> \<exists>x \<in> set xs. x \<noteq> r"
  by (cases xs; cases "tl xs") auto

text \<open>The step that does something: the edge from the root to the node goes.\<close>

lemma drop_root_edge:
  assumes ok: "graph_ok g" and n: "node_at g k = Some n"
    and two: "length (Parents n) > 1" and root: "rootID \<in> set (Parents n)"
  shows "graph_ok (remove_root_of k g) \<and> contents (remove_root_of k g) = contents g \<and>
    edges (remove_root_of k g) = edges g - {(rootID, k)}"
proof -
  note wf = graph_okD(1) [OF ok] and r = graph_okD(3) [OF ok]
  have ID: "node_ID n = k" using wf n by (rule graph_wfD(2))
  have "Parents n \<noteq> []" using two by auto
  then have k: "k \<noteq> rootID"
    using rooted_parents(2) [OF wf graph_okD(2) [OF ok]] n r by (metis parents_Some)
  define P where "P = (\<lambda>m :: opt option node. m\<lparr>Parents := filter (\<lambda>p. p \<noteq> rootID) (Parents m)\<rparr>)"
  define C where "C = (\<lambda>m :: opt option node. m\<lparr>Childs := \<lparr>elems = filter (\<lambda>c. c \<noteq> k) (elems (Childs m)), spare = []\<rparr>\<rparr>)"
  define g' where "g' = upd_node rootID C (upd_node k P g)"
  have eq: "remove_root_of k g = g'"
    using n two root by (simp add: remove_root_of_def Let_def ID r g'_def P_def C_def)
  have node: "node_at g' x = (if x = rootID then map_option C (node_at g x)
      else if x = k then map_option P (node_at g x) else node_at g x)" for x
    using k by (auto simp: g'_def)
  have ch: "childs g' x = (if x = rootID then filter (\<lambda>c. c \<noteq> k) (childs g x) else childs g x)" for x
    using k by (auto simp: childs_def node P_def C_def split: option.splits)
  have pa: "parents g' x = (if x = k then filter (\<lambda>p. p \<noteq> rootID) (parents g x) else parents g x)" for x
    using k by (auto simp: parents_def node P_def C_def split: option.splits)
  have sel: "graph_nodes g' = graph_nodes g" "Root g' = Root g" "wf_map (Nodes g') = wf_map (Nodes g)"
    by (simp_all add: g'_def)
  have e: "edges g' = edges g - {(rootID, k)}" by (auto simp: edges_def ch split: if_splits)
  have co: "contents g' = contents g"
    by (auto simp: fun_eq_iff contents_def node P_def C_def option.map_comp o_def)
  have wf': "graph_wf g'"
    unfolding graph_wf_def
  proof (intro conjI allI impI)
    show "wf_map (Nodes g')" "Root g' \<in> graph_nodes g'"
      using graph_wfD(1,3) [OF wf] by (simp_all add: sel)
    show "acyclic (edges g')" using graph_wfD(8) [OF wf] by (rule acyclic_subset) (auto simp: e)
    fix x m assume "node_at g' x = Some m"
    then obtain m' where "node_at g x = Some m'" "node_ID m = node_ID m'"
      by (auto simp: node P_def C_def split: if_splits)
    then show "node_ID m = x" using graph_wfD(2) [OF wf] by metis
  next
    fix a b
    show "distinct (childs g' a)" "distinct (parents g' a)"
      using graph_wfD(4,5) [OF wf] by (simp_all add: ch pa)
    show "set (childs g' a) \<subseteq> graph_nodes g'" using graph_wfD(7) [OF wf] by (auto simp: ch sel)
    show "b \<in> set (childs g' a) \<longleftrightarrow> a \<in> set (parents g' b)"
      using graph_wfD(6) [OF wf, of b a] by (auto simp: ch pa)
  qed
  have "rooted g'"
  proof (rule rootedI [OF wf'])
    fix x assume x: "x \<in> graph_nodes g'" "x \<noteq> Root g'"
    then have "parents g x \<noteq> []" using rooted_parents(1) [OF wf graph_okD(2) [OF ok]] by (simp add: sel)
    moreover have "\<exists>q \<in> set (parents g k). q \<noteq> rootID"
      using graph_wfD(5) [OF wf, of k] n two by (intro two_distinct) auto
    ultimately show "parents g' x \<noteq> []" by (auto simp: pa filter_empty_conv)
  qed
  then show ?thesis using wf' co e r by (simp add: eq graph_ok_def sel)
qed

definition trims :: "'a graph \<Rightarrow> 'a graph \<Rightarrow> bool" where
  "trims g g' \<longleftrightarrow> graph_ok g' \<and> contents g' = contents g \<and>
     edges g' \<subseteq> edges g \<and> {(a, b) \<in> edges g. a \<noteq> rootID} \<subseteq> edges g'"

lemma remove_root_of_trims: "graph_ok g \<Longrightarrow> trims g (remove_root_of k g)"
proof (cases "node_at g k")
  case None
  then show "graph_ok g \<Longrightarrow> ?thesis" by (auto simp: trims_def remove_root_of_def)
next
  case (Some n)
  assume ok: "graph_ok g"
  show ?thesis
  proof (cases "length (Parents n) > 1 \<and> rootID \<in> set (Parents n)")
    case True
    with drop_root_edge [OF ok Some] show ?thesis by (auto simp: trims_def simp del: edges_iff)
  next
    case False
    then have "filter (\<lambda>p. p \<noteq> rootID) (Parents n) = Parents n" if "length (Parents n) > 1"
      using that by (auto simp: filter_id_conv)
    then have "remove_root_of k g = g"
      using Some False by (auto simp: remove_root_of_def Let_def intro!: upd_node_id)
    with ok show ?thesis by (auto simp: trims_def)
  qed
qed

lemma removeRootParent_trims: "graph_ok g \<Longrightarrow> trims g (removeRootParent ks g)"
proof (induction ks arbitrary: g)
  case Nil
  then show ?case by (auto simp: trims_def removeRootParent_def)
next
  case (Cons k ks)
  have 1: "trims g (remove_root_of k g)" using Cons.prems by (rule remove_root_of_trims)
  then have "trims (remove_root_of k g) (removeRootParent ks (remove_root_of k g))"
    by (intro Cons.IH) (simp add: trims_def)
  with 1 show ?case unfolding trims_def by (auto simp: removeRootParent_def simp del: edges_iff)
qed

section \<open>The graph that is built\<close>

definition fair :: "world \<Rightarrow> bool" where
  "fair w \<longleftrightarrow> (\<forall>j ks. set (order w j ks) = set ks)"

lemma addOptionsToGraph_Inr:
  assumes eq: "addOptionsToGraph w defs vals g = Inr g'" and ok: "graph_ok g" and fair: "fair w"
  shows "graph_ok g'" and "contents g' = inserted defs (set (keys defs)) g"
    and "\<And>k d v. map_of defs k = Some d \<Longrightarrow> v \<in> depends_on d \<Longrightarrow> v \<in> graph_nodes g' \<Longrightarrow>
      v \<noteq> k \<Longrightarrow> v \<noteq> rootID \<Longrightarrow> (v, k) \<in> edges g'"
proof -
  from eq obtain g1 g2 where g1: "insert_options defs (order w 3 (keys defs)) g = Inr g1"
    and g2: "add_dependencies vals (order w 4 (keys defs)) g1 = Inr g2"
    and g': "g' = removeRootParent (order w 5 (keys (Nodes g2))) g2"
    by (auto simp: addOptionsToGraph_def addDependencies_def split: sum.splits)
  have sets: "set (order w j ks) = set ks" for j ks using fair by (simp add: fair_def)
  note i = insert_options_Inr [OF g1 ok]
  note d = add_dependencies_Inr [OF g2 conjunct1 [OF i]]
  then have ok2: "graph_ok g2" by (simp add: grows_def)
  note t = removeRootParent_trims [OF ok2, of "order w 5 (keys (Nodes g2))"]
  show "graph_ok g'" using t by (simp add: g' trims_def)
  have co: "contents g' = contents g1" using t d by (simp add: g' trims_def grows_def)
  then show co': "contents g' = inserted defs (set (keys defs)) g" using i by (simp add: sets)
  fix k o' v
  assume k: "map_of defs k = Some o'" and v: "v \<in> depends_on o'" "v \<in> graph_nodes g'" "v \<noteq> k" "v \<noteq> rootID"
  have key: "k \<in> set (keys defs)" using k by (simp only: in_keys_iff) simp
  then have "definition_at g1 k = Some o'"
    using k co' co by (simp add: definition_at_contents inserted_def)
  moreover have "v \<in> graph_nodes g1" using v(2) co by (metis contents_nodes)
  ultimately have "(v, k) \<in> edges g2" using d key v by (simp add: sets del: edges_iff set_map)
  then show "(v, k) \<in> edges g'" using t v(4) by (auto simp: g' trims_def simp del: edges_iff)
qed

lemma definition_at_inserted:
  "contents g' = inserted defs (set (keys defs)) g \<Longrightarrow>
    definition_at g' k = (case map_of defs k of Some d \<Rightarrow> Some d | None \<Rightarrow> definition_at g k)"
  using in_keys_iff [of k defs]
  by (auto simp: definition_at_contents inserted_def simp del: set_map split: option.splits)

end
