(* ===== verification/Resolver_Loop.thy ===== *)
theory Resolver_Loop
  imports Resolver_Graph
begin

text \<open>
  The main loop of the resolver: what one iteration may change, that the loop ends when no sub
  options are fetched, and that every option is resolved once, after the options it depends on, so
  that the values it was computed from are the final ones.
\<close>

section \<open>One option\<close>

definition same_settings :: "resolver \<Rightarrow> resolver \<Rightarrow> bool" where
  "same_settings r r' \<longleftrightarrow>
     userOptions r' = userOptions r \<and> extraValues r' = extraValues r \<and>
     resolveLocal r' = resolveLocal r \<and> resolveGlobal r' = resolveGlobal r \<and>
     resolveSub r' = resolveSub r \<and> skipRequired r' = skipRequired r"

lemma same_settings_refl [simp]: "same_settings r r"
  by (simp add: same_settings_def)

lemma same_settings_graph [simp]: "same_settings r (r'\<lparr>r_graph := g\<rparr>) \<longleftrightarrow> same_settings r r'"
  by (simp add: same_settings_def)

lemma same_settings_graph' [simp]: "same_settings (r\<lparr>r_graph := g\<rparr>) r' \<longleftrightarrow> same_settings r r'"
  by (simp add: same_settings_def)

lemma same_settings_trans: "same_settings a b \<Longrightarrow> same_settings b c \<Longrightarrow> same_settings a c"
  by (simp add: same_settings_def)

text \<open>What happens to the value of another option: nothing, or a computed value of a child is
  forgotten.\<close>

definition touched :: "string set \<Rightarrow> OptionValues \<Rightarrow> OptionValues \<Rightarrow> bool" where
  "touched C vals vals' \<longleftrightarrow>
     (\<forall>k. map_of vals' k = map_of vals k \<or>
       k \<in> C \<and> map_of vals' k = None \<and> (\<exists>v. map_of vals k = Some v \<and> \<not> UserProvided v))"

lemma touched_refl: "touched C vals vals"
  by (simp add: touched_def)

lemma touched_trans: "touched C a b \<Longrightarrow> touched C b c \<Longrightarrow> touched C a c"
  unfolding touched_def by metis

lemma touched_mono: "touched C a b \<Longrightarrow> C \<subseteq> D \<Longrightarrow> touched D a b"
  unfolding touched_def by blast

lemma touched_forget_child: "touched {c} vals (forget_child c vals)"
  by (auto simp: touched_def forget_child_def gomap_simps split: option.splits)

lemma touched_forget_children: "touched (set cs) vals (forget_children prev new cs vals)"
proof -
  have "touched (set cs) vals (fold forget_child cs vals)"
  proof (induction cs arbitrary: vals)
    case Nil
    then show ?case by (simp add: touched_refl)
  next
    case (Cons c cs)
    have "touched (set (c # cs)) vals (forget_child c vals)"
      using touched_forget_child by (rule touched_mono) simp
    moreover have "touched (set (c # cs)) (forget_child c vals) (fold forget_child cs (forget_child c vals))"
      using Cons.IH by (rule touched_mono) auto
    ultimately show ?case by (simp add: touched_trans)
  qed
  then show ?thesis by (simp add: forget_children_def touched_refl)
qed

lemma getValue_Inr:
  assumes "getValue w r name option vals = Inr (userValue, prev, vals1)"
  shows "userValue = map_of (userOptions r) name"
    and "prev = map_of vals1 name"
    and "k \<noteq> name \<Longrightarrow> map_of vals1 k = map_of vals k"
    and "prev = map_of vals name \<or> prev = None"
    and "case userValue of None \<Rightarrow> True | Some u \<Rightarrow> validateUserValue w name u option = Inr ()"
    and "case prev of None \<Rightarrow> True | Some b \<Rightarrow> validateUserValue w name (Value b) option = Inr ()"
  using assms by (auto simp: getValue_def Let_def gomap_simps split: sum.splits option.splits)

lemma forget_children_value:
  "name \<notin> set cs \<Longrightarrow> map_of (forget_children prev new cs (AList.update name v vals)) name = Some v"
  using touched_forget_children [of cs "AList.update name v vals" prev new]
  unfolding touched_def by (metis fun_upd_same update_conv')

text \<open>The ways in which \<open>resolveOption\<close> succeeds when required options are not skipped.\<close>

lemma resolveOption_cases:
  assumes eq: "resolveOption w r name vals = Inr (r', vals')" and "\<not> skipRequired r"
  obtains (kept) d prev vals1 where "definition_at (r_graph r) name = Some d"
      "getValue w r name d vals = Inr (None, prev, vals1)" "r' = r" "vals' = vals1"
      "(\<exists>b. prev = Some b \<and> keeps_before w name d b = Inr True) \<or> skips_scope r d"
  | (computed) d u prev vals1 new where "definition_at (r_graph r) name = Some d"
      "getValue w r name d vals = Inr (u, prev, vals1)" "r' = r"
      "compute_value w r d u prev vals1 = Inr new"
      "u = None \<Longrightarrow> Required d \<Longrightarrow> Value new \<noteq> []"
      "vals' = forget_children prev new (childs (r_graph r) name) (AList.update name new vals1)"
  | (asked) d prev vals1 new0 new where "definition_at (r_graph r) name = Some d"
      "getValue w r name d vals = Inr (None, prev, vals1)" "r' = r" "Required d"
      "compute_value w r d None prev vals1 = Inr new0" "Value new0 = []"
      "question w name d = Inr (Value new)" "UserProvided new"
      "vals' = forget_children prev new (childs (r_graph r) name)
         (AList.update name new (AList.update name new0 vals1))"
proof -
  from eq obtain d u prev vals1 where d: "definition_at (r_graph r) name = Some d"
    and gv: "getValue w r name d vals = Inr (u, prev, vals1)"
    by (auto simp: resolveOption_def split: option.splits sum.splits)
  let ?keep = "case (u, prev) of (None, Some b) \<Rightarrow> keeps_before w name d b | _ \<Rightarrow> Inr False"
  from eq d gv obtain k where k: "?keep = Inr k" by (auto simp: resolveOption_def split: sum.splits)
  show thesis
  proof (cases "k \<or> u = None \<and> skips_scope r d")
    case True
    then have r: "r' = r" "vals' = vals1" using eq d gv k by (auto simp: resolveOption_def split: if_splits bool.splits)
    from True k have "u = None" by (auto split: option.splits)
    moreover have "(\<exists>b. prev = Some b \<and> keeps_before w name d b = Inr True) \<or> skips_scope r d"
      using True k \<open>u = None\<close> by (auto split: option.splits)
    ultimately show thesis using kept [OF d _ r] gv by simp
  next
    case False
    then have new: "resolve_new w r name d u prev vals1 = Inr (r', vals')"
      using eq d gv k by (auto simp: resolveOption_def split: if_splits)
    then obtain n where n: "compute_value w r d u prev vals1 = Inr n"
      by (auto simp: resolve_new_def split: sum.splits)
    show thesis
    proof (cases "u = None \<and> Required d \<and> Value n = []")
      case True
      with new n assms(2) obtain a where a: "question w name d = Inr a" "r' = r"
        "vals' = forget_children prev (zero_value\<lparr>Value := a, UserProvided := True\<rparr>) (childs (r_graph r) name)
          (AList.update name (zero_value\<lparr>Value := a, UserProvided := True\<rparr>) (AList.update name n vals1))"
        by (auto simp: resolve_new_def resolve_required_def Let_def split: sum.splits if_splits)
      show thesis
        by (rule asked [of d prev vals1 n "zero_value\<lparr>Value := a, UserProvided := True\<rparr>"])
          (use True d gv n a in auto)
    next
      case False
      with new n have "r' = r" "vals' = forget_children prev n (childs (r_graph r) name) (AList.update name n vals1)"
        by (auto simp: resolve_new_def)
      then show thesis using computed [OF d gv _ n] False by blast
    qed
  qed
qed

lemma resolveOption_frame:
  assumes "resolveOption w r name vals = Inr (r', vals')" and "\<not> skipRequired r"
  shows "r' = r" and "k \<noteq> name \<Longrightarrow> map_of vals' k = map_of vals k \<or>
    k \<in> set (childs (r_graph r) name) \<and> map_of vals' k = None \<and>
      (\<exists>v. map_of vals k = Some v \<and> \<not> UserProvided v)"
proof -
  show "r' = r" using assms by (cases rule: resolveOption_cases) auto
  assume k: "k \<noteq> name"
  from assms show "map_of vals' k = map_of vals k \<or>
    k \<in> set (childs (r_graph r) name) \<and> map_of vals' k = None \<and>
      (\<exists>v. map_of vals k = Some v \<and> \<not> UserProvided v)"
  proof (cases rule: resolveOption_cases)
    case (kept d prev vals1)
    with k show ?thesis using getValue_Inr(3) by metis
  next
    case (computed d u prev vals1 new)
    with k touched_forget_children [of "childs (r_graph r) name" "AList.update name new vals1" prev new]
      getValue_Inr(3) [OF computed(2) k]
    show ?thesis unfolding touched_def by (simp add: update_conv') metis
  next
    case (asked d prev vals1 new0 new)
    with k touched_forget_children [of "childs (r_graph r) name"
        "AList.update name new (AList.update name new0 vals1)" prev new]
      getValue_Inr(3) [OF asked(2) k]
    show ?thesis unfolding touched_def by (simp add: update_conv') metis
  qed
qed

lemma compute_value_user:
  "compute_value w r d (Some u) prev vals = Inr new \<Longrightarrow> Value new = u \<and> UserProvided new"
  by (auto simp: compute_value_def)

lemma resolveOption_user:
  assumes "resolveOption w r name vals = Inr (r', vals')" and "\<not> skipRequired r"
    and "map_of (userOptions r) name = Some u" and "name \<notin> set (childs (r_graph r) name)"
  shows "\<exists>v d. map_of vals' name = Some v \<and> Value v = u \<and> UserProvided v \<and>
    definition_at (r_graph r) name = Some d \<and> validateUserValue w name u d = Inr ()"
  using assms(1,2)
proof (cases rule: resolveOption_cases)
  case (computed d u' prev vals1 new)
  have u': "u' = Some u" using getValue_Inr(1) [OF computed(2)] assms(3) by simp
  then have "Value new = u \<and> UserProvided new" using computed(4) compute_value_user by blast
  moreover have "validateUserValue w name u d = Inr ()" using getValue_Inr(5) [OF computed(2)] u' by simp
  moreover have "map_of vals' name = Some new" using computed(6) forget_children_value [OF assms(4)] by simp
  ultimately show ?thesis using computed(1) by blast
qed (use assms(3) getValue_Inr(1) in \<open>fastforce+\<close>)

lemma resolveOption_required:
  assumes "resolveOption w r name vals = Inr (r', vals')" and "\<not> skipRequired r"
    and "definition_at (r_graph r) name = Some d" and "Required d" and "map_of vals name = None"
    and "name \<notin> set (childs (r_graph r) name)"
  shows "\<exists>v. map_of vals' name = Some v \<and> (Value v \<noteq> [] \<or> UserProvided v)"
  using assms(1,2)
proof (cases rule: resolveOption_cases)
  case (kept d' prev vals1)
  then have "prev = None" using getValue_Inr(4) [OF kept(2)] assms(5) by auto
  with kept assms(3,4) show ?thesis by (auto simp: skips_scope_def)
next
  case (computed d' u prev vals1 new)
  then have "map_of vals' name = Some new" using forget_children_value [OF assms(6)] by simp
  moreover have "Value new \<noteq> [] \<or> UserProvided new"
    using computed assms(3,4) compute_value_user by (cases u) auto
  ultimately show ?thesis by blast
next
  case (asked d' prev vals1 new0 new)
  then show ?thesis using forget_children_value [OF assms(6)] by auto
qed

lemma resolveOption_default:
  assumes "resolveOption w r name vals = Inr (r', vals')" and "\<not> skipRequired r"
    and "definition_at (r_graph r) name = Some d" and "Default d \<noteq> []" and "\<not> skips_scope r d"
    and "map_of (userOptions r) name = None" and "map_of vals name = None"
    and "name \<notin> set (childs (r_graph r) name)"
    and "\<not> Required d \<or> ResolveDefaultValue (Default d) (combine vals (extraValues r)) \<noteq> []"
  shows "\<exists>v. map_of vals' name = Some v \<and> \<not> UserProvided v \<and>
    Value v = ResolveDefaultValue (Default d) (combine vals (extraValues r))"
  using assms(1,2)
proof (cases rule: resolveOption_cases)
  case (kept d' prev vals1)
  then have "prev = None" using getValue_Inr(4) [OF kept(2)] assms(7) by auto
  with kept assms(3,5) show ?thesis by auto
next
  case (computed d' u prev vals1 new)
  have "u = None" "prev = None" "vals1 = vals" "d' = d"
    using computed(1,2) assms(3,6,7) by (auto simp: getValue_def Let_def split: sum.splits)
  then have "new = zero_value\<lparr>Children := before_children None,
      Value := ResolveDefaultValue (Default d) (combine vals (extraValues r))\<rparr>"
    using computed(4) assms(4) by (simp add: compute_value_def)
  then show ?thesis using computed(6) forget_children_value [OF assms(8)] by (simp add: zero_value_def)
next
  case (asked d' prev vals1 new0 new)
  have "prev = None" "vals1 = vals" "d' = d"
    using asked(1,2) assms(3,6,7) by (auto simp: getValue_def Let_def split: sum.splits)
  then show ?thesis using asked(4,5,6) assms(4,9) by (auto simp: compute_value_def)
qed

lemma resolveOption_keeps:
  assumes "definition_at (r_graph r) name = Some d" and "map_of (userOptions r) name = None"
    and "map_of vals name = Some v" and "validateUserValue w name (Value v) d = Inr ()"
    and "UserProvided v \<or> Cache d = []"
  shows "resolveOption w r name vals = Inr (r, vals)"
  using assms by (simp add: resolveOption_def getValue_def Let_def keeps_before_def)

lemma wf_forget_child: "wf_map vals \<Longrightarrow> wf_map (forget_child c vals)"
  by (auto simp: forget_child_def split: option.splits)

lemma wf_forget_children: "wf_map vals \<Longrightarrow> wf_map (forget_children prev new cs vals)"
proof -
  have "wf_map vals \<Longrightarrow> wf_map (fold forget_child cs vals)"
    by (induction cs arbitrary: vals) (auto intro: wf_forget_child)
  then show "wf_map vals \<Longrightarrow> ?thesis" by (simp add: forget_children_def)
qed

lemma wf_getValue: "getValue w r name d vals = Inr (u, prev, vals1) \<Longrightarrow> wf_map vals \<Longrightarrow> wf_map vals1"
  by (auto simp: getValue_def Let_def split: sum.splits option.splits)

lemma wf_resolveOption:
  assumes "resolveOption w r name vals = Inr (r', vals')" and "\<not> skipRequired r" and "wf_map vals"
  shows "wf_map vals'"
  using assms(1,2) by (cases rule: resolveOption_cases)
    (use assms(3) in \<open>auto intro!: wf_forget_children dest: wf_getValue\<close>)

section \<open>The loop without sub options\<close>

lemma refreshSubOptions_off: "\<not> resolveSub r \<Longrightarrow> refreshSubOptions w r name vals = Inr (r, vals)"
  by (simp add: refreshSubOptions_def split: option.splits)

lemma contents_mark_done:
  "contents (mark_done i g) = (\<lambda>k. if k = i then map_option (\<lambda>(d, _). (d, True)) (contents g k) else contents g k)"
  by (auto simp: mark_done_def contents_def fun_eq_iff option.map_comp o_def)

lemma mark_done_facts:
  "graph_nodes (mark_done i g) = graph_nodes g" "edges (mark_done i g) = edges g"
  "childs (mark_done i g) = childs g" "Root (mark_done i g) = Root g"
  "definition_at (mark_done i g) k = definition_at g k"
  "graph_ok g \<Longrightarrow> graph_ok (mark_done i g)"
  "is_done (mark_done i g) k \<longleftrightarrow> k = i \<or> is_done g k"
  "length (Nodes (mark_done i g)) = length (Nodes g)"
proof -
  show "graph_nodes (mark_done i g) = graph_nodes g" "edges (mark_done i g) = edges g"
    "childs (mark_done i g) = childs g" "Root (mark_done i g) = Root g"
    "graph_ok g \<Longrightarrow> graph_ok (mark_done i g)"
    by (simp_all add: mark_done_def same_shape_upd graph_ok_same_shape)
  show "definition_at (mark_done i g) k = definition_at g k"
    by (cases "contents g k") (auto simp: definition_at_contents contents_mark_done)
  show "is_done (mark_done i g) k \<longleftrightarrow> k = i \<or> is_done g k"
    by (cases "contents g k") (auto simp: is_done_contents contents_mark_done)
  show "length (Nodes (mark_done i g)) = length (Nodes g)"
    using arg_cong [OF keys_upd_node, of length] unfolding mark_done_def length_map .
qed

definition pending :: "'a graph \<Rightarrow> string set" where
  "pending g = {k \<in> graph_nodes g. \<not> is_done g k}"

lemma finite_pending [simp]: "finite (pending g)"
  by (simp add: pending_def)

lemma pending_mark_done: "pending (mark_done i (g :: opt_graph)) = pending g - {i}"
  by (auto simp: pending_def mark_done_facts)

lemma pending_shrinks:
  assumes "shrinks g D g'"
  shows "pending g' \<subseteq> pending g"
proof
  fix k
  assume "k \<in> pending g'"
  then have "k \<in> graph_nodes g" "k \<notin> D" "\<not> is_done g' k" using assms by (auto simp: pending_def shrinks_def)
  moreover have "contents g' k = contents g k" using assms \<open>k \<notin> D\<close> by (simp add: shrinks_def)
  ultimately show "k \<in> pending g" by (simp add: pending_def is_done_contents)
qed

lemma resolveOption_graph:
  assumes "resolveOption w r name vals = Inr (r', vals')" and "graph_ok (r_graph r)" and "name \<noteq> rootID"
  shows "same_settings r r' \<and> graph_ok (r_graph r') \<and> (\<exists>D. shrinks (r_graph r) D (r_graph r'))"
proof (cases "skipRequired r")
  case False
  from resolveOption_frame(1) [OF assms(1) False] show ?thesis
    using assms(2) shrinks_refl [OF graph_okD(1)] by (auto simp: same_settings_def)
next
  case True
  have "r' = r \<or> (\<exists>g. deleteChildrenOf name (r_graph r) = Inr g \<and> r' = r\<lparr>r_graph := g\<rparr>)"
    using assms(1) True
    by (auto simp: resolveOption_def resolve_new_def resolve_required_def
        split: option.splits sum.splits if_splits bool.splits)
  then show ?thesis
  proof
    assume "r' = r"
    then show ?thesis using assms(2) shrinks_refl [OF graph_okD(1)] by auto
  next
    assume "\<exists>g. deleteChildrenOf name (r_graph r) = Inr g \<and> r' = r\<lparr>r_graph := g\<rparr>"
    then obtain g where g: "deleteChildrenOf name (r_graph r) = Inr g" "r' = r\<lparr>r_graph := g\<rparr>" by blast
    have root: "Root (r_graph r) \<notin> insert name (below (r_graph r) name)"
      using assms(2,3) by (intro root_not_below) (auto simp: graph_ok_def)
    show ?thesis
    proof (cases "node_at (r_graph r) name")
      case None
      with g(1) have "g = r_graph r" by (simp add: deleteChildrenOf_def of_removal_def of_graph_def)
      then show ?thesis using g(2) assms(2) shrinks_refl [OF graph_okD(1)] by auto
    next
      case (Some n)
      from RemoveChilds_node_removal [OF graph_okD(1) [OF assms(2)] root Some] g(1) Some
      obtain D where "shrinks (r_graph r) D g"
        by (auto simp: deleteChildrenOf_def of_removal_def of_graph_def removal_def)
      then show ?thesis
        using g(2) assms(2) rooted_shrinks [OF graph_okD(1,2) [OF assms(2)]]
        by (auto simp: graph_ok_def shrinks_def)
    qed
  qed
qed

text \<open>The loop ends: every iteration marks a node, and without sub options no node is added.\<close>

lemma resolve_loop_ends:
  assumes "graph_ok (r_graph r)" and "\<not> resolveSub r" and "card (pending (r_graph r)) < f"
  shows "resolve_loop ws f i r vals \<noteq> None"
  using assms
proof (induction f arbitrary: i r vals)
  case 0
  then show ?case by simp
next
  case (Suc f)
  show ?case
    using graph_okD(1) [OF Suc.prems(1)]
  proof (cases rule: NextFromTop_cases)
    case all_done
    then show ?thesis by simp
  next
    case (next_node name)
    let ?r = "r\<lparr>r_graph := mark_done name (r_graph r)\<rparr>"
    have name: "name \<in> pending (r_graph r)" "name \<noteq> rootID"
      using next_node below_root [OF graph_okD(1,2) [OF Suc.prems(1)]] graph_okD(3) [OF Suc.prems(1)]
      by (auto simp: pending_def)
    show ?thesis
    proof (cases "resolveOption (ws i) ?r name vals")
      case (Inl e)
      with next_node(1) show ?thesis by simp
    next
      case (Inr rv)
      then obtain r1 vals1 where 1: "resolveOption (ws i) ?r name vals = Inr (r1, vals1)" by (cases rv) simp
      have ok: "graph_ok (r_graph ?r)" using Suc.prems(1) by (simp add: mark_done_facts)
      from resolveOption_graph [OF 1 ok name(2)] obtain D where
        r1: "same_settings r r1" "graph_ok (r_graph r1)" "shrinks (r_graph ?r) D (r_graph r1)" by auto
      have "card (pending (r_graph r1)) \<le> card (pending (r_graph r) - {name})"
        using pending_shrinks [OF r1(3)] by (intro card_mono) (auto simp: pending_mark_done)
      also have "\<dots> < card (pending (r_graph r))" using name(1) by (intro card_Diff1_less) auto
      finally have "card (pending (r_graph r1)) < f" using Suc.prems(3) by linarith
      with Suc.IH r1 Suc.prems(2) have "resolve_loop ws f (Suc i) r1 vals1 \<noteq> None"
        by (simp add: same_settings_def)
      then show ?thesis
        using next_node(1) 1 r1(1) Suc.prems(2) by (simp add: refreshSubOptions_off same_settings_def)
    qed
  qed
qed

section \<open>Every option is resolved once, after what it depends on\<close>

definition parent_closed :: "'a graph \<Rightarrow> bool" where
  "parent_closed g \<longleftrightarrow>
     (\<forall>(p, k) \<in> edges g. is_done g k \<longrightarrow> p \<noteq> rootID \<longrightarrow> is_done g p)"

definition plain :: "resolver \<Rightarrow> bool" where
  "plain r \<longleftrightarrow> \<not> resolveSub r \<and> \<not> skipRequired r"

text \<open>Values that no later iteration touches: of done options, of the root and of names that are not
  options.\<close>

definition settled :: "'a graph \<Rightarrow> string set" where
  "settled g = {x. is_done g x \<or> x = rootID}"

lemma settled_not_node: "x \<notin> graph_nodes g \<Longrightarrow> x \<in> settled g"
  by (simp add: settled_def is_done_def graph_nodes_iff)

lemma parents_settled:
  assumes ok: "graph_ok g" and "\<And>p. (p, name) \<in> edges g \<Longrightarrow> p \<in> below g (Root g) \<Longrightarrow> is_done g p"
    and e: "(p, name) \<in> edges g"
  shows "p \<in> settled g"
proof (cases "p = rootID")
  case False
  have "p \<in> graph_nodes g" using e by (auto intro: childs_in_nodes)
  with False assms(2) [OF e] below_root [OF graph_okD(1,2) [OF ok]] graph_okD(3) [OF ok]
  show ?thesis by (simp add: settled_def)
qed (simp add: settled_def)

lemma parent_closed_mark_done:
  fixes g :: opt_graph
  assumes "parent_closed g" and "\<And>p. (p, name) \<in> edges g \<Longrightarrow> p \<in> settled g"
  shows "parent_closed (mark_done name g)"
  using assms by (auto simp: parent_closed_def mark_done_facts settled_def simp del: edges_iff)

text \<open>One iteration in which no options are fetched or skipped.\<close>

lemma iteration:
  fixes r :: resolver
  assumes ok: "graph_ok (r_graph r)" and pc: "parent_closed (r_graph r)" and pl: "plain r"
    and run: "resolve_loop ws (Suc f) i r vals = Some (Inr (rf, valsf))"
  obtains (stop) "valsf = vals" "pending (r_graph r) \<subseteq> {rootID}"
  | (step) name r1 vals1 where "r1 = r\<lparr>r_graph := mark_done name (r_graph r)\<rparr>" "name \<noteq> rootID"
      "name \<in> pending (r_graph r)" "resolveOption (ws i) r1 name vals = Inr (r1, vals1)"
      "resolve_loop ws f (Suc i) r1 vals1 = Some (Inr (rf, valsf))"
      "graph_ok (r_graph r1)" "parent_closed (r_graph r1)" "plain r1"
      "\<And>p. (p, name) \<in> edges (r_graph r) \<Longrightarrow> p \<in> settled (r_graph r)"
      "\<And>x. x \<in> settled (r_graph r) \<Longrightarrow> map_of vals1 x = map_of vals x"
proof -
  let ?g = "r_graph r"
  note wf = graph_okD(1) [OF ok]
  have br: "below ?g (Root ?g) = graph_nodes ?g - {rootID}"
    using below_root [OF graph_okD(1,2) [OF ok]] graph_okD(3) [OF ok] by simp
  from wf show thesis
  proof (cases rule: NextFromTop_cases)
    case all_done
    then have "valsf = vals" using run by simp
    moreover have "pending ?g \<subseteq> {rootID}" using all_done(2) br by (auto simp: pending_def)
    ultimately show thesis by (rule stop)
  next
    case (next_node name)
    define r1 where "r1 = r\<lparr>r_graph := mark_done name ?g\<rparr>"
    have pl1: "plain r1" using pl by (simp add: plain_def r1_def)
    have name: "name \<noteq> rootID" "name \<in> pending ?g" using next_node br by (auto simp: pending_def)
    have par: "p \<in> settled ?g" if "(p, name) \<in> edges ?g" for p
      using ok next_node(4) that by (rule parents_settled)
    from run next_node(1) obtain r2 vals1 where 2: "resolveOption (ws i) r1 name vals = Inr (r2, vals1)"
      by (auto simp: r1_def split: sum.splits)
    then have "r2 = r1" using resolveOption_frame(1) pl1 by (auto simp: plain_def)
    with 2 have ro: "resolveOption (ws i) r1 name vals = Inr (r1, vals1)" by simp
    have loop: "resolve_loop ws f (Suc i) r1 vals1 = Some (Inr (rf, valsf))"
      using run next_node(1) ro pl1 by (simp add: r1_def refreshSubOptions_off plain_def)
    have pc1: "parent_closed (r_graph r1)"
      using parent_closed_mark_done [OF pc par] by (simp add: r1_def)
    have "map_of vals1 x = map_of vals x" if x: "x \<in> settled ?g" for x
    proof -
      have "x \<noteq> name" using x name by (auto simp: settled_def pending_def)
      moreover have "x \<notin> set (childs ?g name)"
      proof
        assume "x \<in> set (childs ?g name)"
        then have e: "(name, x) \<in> edges ?g" by simp
        then have "x \<noteq> rootID"
          using rooted_parents(2) [OF wf graph_okD(2) [OF ok]] graph_wfD(6) [OF wf] graph_okD(3) [OF ok] by auto
        then have "is_done ?g x" using x by (simp add: settled_def)
        then have "is_done ?g name" using pc e name(1) by (auto simp: parent_closed_def simp del: edges_iff)
        then show False using name(2) by (simp add: pending_def)
      qed
      ultimately show ?thesis
        using resolveOption_frame(2) [OF ro _ \<open>x \<noteq> name\<close>] pl1 by (auto simp: plain_def r1_def mark_done_facts)
    qed
    with par show thesis
      using step [OF r1_def name ro loop _ pc1 pl1] ok by (simp add: r1_def mark_done_facts)
  qed
qed

lemma resolve_loop_settled:
  assumes "graph_ok (r_graph r)" and "parent_closed (r_graph r)" and "plain r"
    and "resolve_loop ws f i r vals = Some (Inr (rf, valsf))" and "x \<in> settled (r_graph r)"
  shows "map_of valsf x = map_of vals x"
  using assms
proof (induction f arbitrary: i r vals)
  case 0
  then show ?case by simp
next
  case (Suc f)
  from Suc.prems(1-4) show ?case
  proof (cases rule: iteration)
    case (step name r1 vals1)
    have "x \<in> settled (r_graph r1)"
      using Suc.prems(5) step(1) by (auto simp: settled_def mark_done_facts)
    with Suc.IH [OF step(6-8,5)] step(10) Suc.prems(5) show ?thesis by metis
  qed simp
qed

lemma resolve_loop_wf:
  assumes "graph_ok (r_graph r)" and "parent_closed (r_graph r)" and "plain r"
    and "resolve_loop ws f i r vals = Some (Inr (rf, valsf))" and "wf_map vals"
  shows "wf_map valsf"
  using assms
proof (induction f arbitrary: i r vals)
  case 0
  then show ?case by simp
next
  case (Suc f)
  from Suc.prems(1-4) show ?case
  proof (cases rule: iteration)
    case (step name r1 vals1)
    then have "wf_map vals1" using wf_resolveOption [OF step(4)] Suc.prems(5) by (simp add: plain_def)
    with Suc.IH [OF step(6-8,5)] show ?thesis .
  qed (use Suc.prems(5) in simp)
qed

text \<open>The iteration that resolves \<open>k\<close>: the values it sees of its dependencies are the final ones, and
  the value it stores is final.\<close>

definition visited :: "(nat \<Rightarrow> world) \<Rightarrow> resolver \<Rightarrow> OptionValues \<Rightarrow> OptionValues \<Rightarrow> string \<Rightarrow> bool" where
  "visited ws r vals valsf k \<longleftrightarrow>
     (\<exists>j rj vj vj'. resolveOption (ws j) rj k vj = Inr (rj, vj') \<and> same_settings r rj \<and>
        definition_at (r_graph rj) k = definition_at (r_graph r) k \<and>
        childs (r_graph rj) k = childs (r_graph r) k \<and>
        (map_of vj k = map_of vals k \<or>
           map_of vj k = None \<and> (\<exists>v. map_of vals k = Some v \<and> \<not> UserProvided v)) \<and>
        map_of valsf k = map_of vj' k \<and> (wf_map vals \<longrightarrow> wf_map vj) \<and>
        (\<forall>x. x \<noteq> k \<longrightarrow> x \<notin> graph_nodes (r_graph r) \<or> (x, k) \<in> edges (r_graph r) \<longrightarrow>
           map_of vj x = map_of valsf x))"

lemma resolve_loop_visits:
  assumes "graph_ok (r_graph r)" and "parent_closed (r_graph r)" and "plain r"
    and "resolve_loop ws f i r vals = Some (Inr (rf, valsf))"
    and "k \<in> pending (r_graph r)" and "k \<noteq> rootID"
  shows "visited ws r vals valsf k"
  using assms
proof (induction f arbitrary: i r vals)
  case 0
  then show ?case by simp
next
  case (Suc f)
  note settled = resolve_loop_settled [OF Suc.prems(1-4)]
  from Suc.prems(1-4) show ?case
  proof (cases rule: iteration)
    case stop
    then show ?thesis using Suc.prems(5,6) by blast
  next
    case (step name r1 vals1)
    have r1: "same_settings r r1" "definition_at (r_graph r1) = definition_at (r_graph r)"
      "childs (r_graph r1) = childs (r_graph r)" "edges (r_graph r1) = edges (r_graph r)"
      "graph_nodes (r_graph r1) = graph_nodes (r_graph r)"
      by (auto simp: step(1) mark_done_facts fun_eq_iff)
    show ?thesis
    proof (cases "k = name")
      case True
      have "name \<in> settled (r_graph r1)" by (simp add: step(1) settled_def mark_done_facts)
      then have "map_of valsf name = map_of vals1 name"
        using resolve_loop_settled [OF step(6-8,5)] by blast
      moreover have "map_of vals x = map_of valsf x"
        if "x \<notin> graph_nodes (r_graph r) \<or> (x, name) \<in> edges (r_graph r)" for x
        using that settled step(9) settled_not_node by metis
      ultimately show ?thesis
        unfolding visited_def True
        using step(4) r1 by (intro exI [of _ i] exI [of _ r1] exI [of _ vals] exI [of _ vals1]) auto
    next
      case False
      then have "k \<in> pending (r_graph r1)" using Suc.prems(5) by (simp add: step(1) pending_mark_done)
      from Suc.IH [OF step(6-8,5) this Suc.prems(6)]
      obtain j rj vj vj' where v: "resolveOption (ws j) rj k vj = Inr (rj, vj')" "same_settings r1 rj"
        "definition_at (r_graph rj) k = definition_at (r_graph r) k"
        "childs (r_graph rj) k = childs (r_graph r) k"
        "map_of vj k = map_of vals1 k \<or> map_of vj k = None \<and> (\<exists>v. map_of vals1 k = Some v \<and> \<not> UserProvided v)"
        "map_of valsf k = map_of vj' k" "wf_map vals1 \<longrightarrow> wf_map vj"
        "\<forall>x. x \<noteq> k \<longrightarrow> x \<notin> graph_nodes (r_graph r) \<or> (x, k) \<in> edges (r_graph r) \<longrightarrow> map_of vj x = map_of valsf x"
        unfolding visited_def r1 by blast
      have fr: "map_of vals1 k = map_of vals k \<or>
          map_of vals1 k = None \<and> (\<exists>v. map_of vals k = Some v \<and> \<not> UserProvided v)"
        using resolveOption_frame(2) [OF step(4) _ False] step(8) by (auto simp: plain_def)
      have "map_of vj k = map_of vals k \<or> map_of vj k = None \<and> (\<exists>v. map_of vals k = Some v \<and> \<not> UserProvided v)"
        using v(5) fr by metis
      moreover have "wf_map vals \<longrightarrow> wf_map vj"
        using v(7) wf_resolveOption [OF step(4)] step(8) by (auto simp: plain_def)
      ultimately show ?thesis
        unfolding visited_def using v r1(1) same_settings_trans [OF r1(1) v(2)]
        by (intro exI [of _ j] exI [of _ rj] exI [of _ vj] exI [of _ vj']) simp
    qed
  qed
qed

end
