(* ===== verification/Resolver_Properties.thy ===== *)
theory Resolver_Properties
  imports Resolver_Loop
begin

text \<open>
  The properties of \<open>Resolve\<close>: it ends when no sub options are fetched; user values, required
  options, defaults and stored values come out as they should, whatever order the ranges over maps
  take and whatever the shell, the clock and the terminal answer.
\<close>

section \<open>From the loop to the run\<close>

lemma map_of_mergeMaps: "wf_map a \<Longrightarrow> wf_map b \<Longrightarrow> map_of (mergeMaps a b) = map_of a ++ map_of b"
  by (simp add: mergeMaps_def map_of_copy_into)

lemma map_of_filter_key: "map_of (filter (\<lambda>(k, _). P k) m) k = (if P k then map_of m k else None)"
  by (induction m) auto

lemma wf_filter_key: "wf_map m \<Longrightarrow> wf_map (filter P m)"
  by (induction m) (auto simp: wf_map_def)

lemma map_of_map_Value: "map_of (map (\<lambda>(k, v). (k, Value v)) m) k = map_option Value (map_of m k)"
  by (induction m) auto

lemma map_of_combine:
  assumes "wf_map vals" and "wf_map extra"
  shows "map_of (combine vals extra) k =
    (case map_of vals k of Some v \<Rightarrow> Some (Value v) | None \<Rightarrow> map_of extra k)"
proof -
  have "wf_map (map (\<lambda>(k, v). (k, Value v)) vals)"
    using assms(1) by (simp add: wf_map_def comp_def case_prod_unfold)
  then show ?thesis
    using assms(2) by (simp add: combine_def map_of_copy_into map_add_def map_of_map_Value split: option.splits)
qed

text \<open>What a successful run without sub options and skipping consists of.\<close>

lemma Resolve_parts:
  assumes run: "Resolve ws fuel r dyn defs vals = Some (Inr (vals', dyn'))"
    and fair: "\<And>i. fair (ws i)" and wf: "wf_map dyn" "wf_map defs" "wf_map vals" and pl: "plain r"
  obtains g valsf rf where "graph_ok g" "parent_closed g" "pending g = graph_nodes g"
    "graph_nodes g = insert rootID (dom (map_of dyn ++ map_of defs))"
    "\<And>k. k \<noteq> rootID \<Longrightarrow> definition_at g k = (map_of dyn ++ map_of defs) k"
    "\<And>k d v. (map_of dyn ++ map_of defs) k = Some d \<Longrightarrow> v \<in> depends_on d \<Longrightarrow> v \<in> graph_nodes g \<Longrightarrow>
      v \<noteq> k \<Longrightarrow> v \<noteq> rootID \<Longrightarrow> (v, k) \<in> edges g"
    "resolve_loop ws fuel 1 (r\<lparr>r_graph := g\<rparr>) (copy_into [] vals) = Some (Inr (rf, valsf))"
    "\<And>k. map_of defs k \<noteq> None \<Longrightarrow> map_of vals' k = map_of valsf k"
    "wf_map valsf" "wf_map vals'" "dyn' = new_dynamic_definitions (r_graph rf) defs valsf"
    "\<And>k. map_of vals' k \<noteq> None \<Longrightarrow> (map_of dyn' k \<noteq> None \<or> map_of defs k \<noteq> None) \<and> map_of valsf k \<noteq> None"
proof -
  let ?m = "mergeMaps dyn defs"
  from run obtain g rf valsf where g: "addOptionsToGraph (ws 0) ?m vals empty_graph = Inr g"
    and loop: "resolve_loop ws fuel 1 (r\<lparr>r_graph := g\<rparr>) (copy_into [] vals) = Some (Inr (rf, valsf))"
    and dyn': "dyn' = new_dynamic_definitions (r_graph rf) defs valsf"
    and vals': "vals' = prune_values defs dyn' valsf"
    by (auto simp: Resolve_def resolveOptions_def Let_def split: sum.splits option.splits)
  note a = addOptionsToGraph_Inr [OF g graph_ok_empty fair]
  define M where "M = map_of dyn ++ map_of defs"
  have m: "map_of ?m = M" using wf by (simp add: map_of_mergeMaps M_def)
  have keys: "k \<in> set (keys ?m) \<longleftrightarrow> M k \<noteq> None" for k
    unfolding in_keys_iff m ..
  have co: "contents g k = (if M k \<noteq> None then Some (M k, False)
      else if k = rootID then Some (None, False) else None)" for k
    unfolding a(2) inserted_def keys m contents_empty by auto
  have in_nodes: "k \<in> graph_nodes g \<longleftrightarrow> M k \<noteq> None \<or> k = rootID" for k
    unfolding contents_nodes [symmetric] co by (simp del: not_None_eq)
  have nodes: "graph_nodes g = insert rootID (dom M)"
    by (rule set_eqI) (auto simp: in_nodes)
  have not_done: "\<not> is_done g k" if "k \<in> graph_nodes g" for k
    using that by (auto simp: is_done_contents co in_nodes)
  have pend: "pending g = graph_nodes g" using not_done by (auto simp: pending_def)
  have pc: "parent_closed g"
    unfolding parent_closed_def
  proof (intro ballI, clarify)
    fix p k assume "(p, k) \<in> edges g" "is_done g k"
    then have "k \<in> graph_nodes g" using graph_wfD(7) [OF graph_okD(1) [OF a(1)]] by simp
    with not_done \<open>is_done g k\<close> show "is_done g p" by blast
  qed
  have def_at: "definition_at g k = M k" if "k \<noteq> rootID" for k
    using that by (simp add: definition_at_contents co)
  have wfv: "wf_map valsf"
    by (rule resolve_loop_wf [OF _ _ _ loop]) (use a(1) pc pl in \<open>auto simp: plain_def\<close>)
  have wfv': "wf_map vals'" using wfv by (simp add: vals' prune_values_def wf_filter_key)
  have look: "map_of vals' k = (if map_of dyn' k \<noteq> None \<or> map_of defs k \<noteq> None then map_of valsf k else None)" for k
    using map_of_filter_key [of "\<lambda>k. map_of dyn' k \<noteq> None \<or> map_of defs k \<noteq> None" valsf k]
    unfolding vals' prune_values_def .
  show thesis
    by (rule that [OF a(1) pc pend nodes [unfolded M_def] def_at [unfolded M_def] _ loop _ wfv wfv' dyn'])
      (use a(3) look in \<open>simp_all add: m M_def del: edges_iff split: if_splits\<close>)
qed

lemma references_chars: "x \<in> set (references p s) \<Longrightarrow> list_all p x"
proof (induction p s rule: references.induct)
  case (2 p c cs)
  show ?case
  proof (cases "scan_reference p (c # cs)")
    case (Some nr)
    then obtain name rest where nr: "scan_reference p (c # cs) = Some (name, rest)" by (cases nr) simp
    have "list_all p name" using nr by (rule scan_reference_split)
    then show ?thesis using 2 nr by auto
  qed (use 2 in auto)
qed simp

lemma root_no_variable: "rootID \<notin> set (findVariables s)"
proof
  assume "rootID \<in> set (findVariables s)"
  then have "list_all is_var_char rootID" using references_chars by (simp add: set_findVariables)
  then show False by (simp add: rootID_def is_var_char_def is_upper_def is_digit_def)
qed

lemma ResolveDefaultValue_cong:
  assumes "\<And>x. x \<in> set (findVariables s) \<Longrightarrow> map_of m x = map_of m' x"
  shows "ResolveDefaultValue s m = ResolveDefaultValue s m'"
  unfolding ResolveDefaultValue_expand
  by (rule expand_cong) (rule assms, simp add: set_findVariables)

lemma visited_by_Resolve:
  assumes "graph_ok g" and "parent_closed g" and "plain r" and "pending g = graph_nodes g"
    and "resolve_loop ws fuel 1 (r\<lparr>r_graph := g\<rparr>) (copy_into [] vals) = Some (Inr (rf, valsf))"
    and "k \<in> graph_nodes g" and "k \<noteq> rootID"
  shows "visited ws (r\<lparr>r_graph := g\<rparr>) (copy_into [] vals) valsf k"
proof (rule resolve_loop_visits [OF _ _ _ assms(5)])
  show "k \<in> pending (r_graph (r\<lparr>r_graph := g\<rparr>))" using assms(4,6) by simp
qed (use assms(1-3,7) in \<open>simp_all add: plain_def\<close>)

lemma map_of_copy [simp]: "wf_map vals \<Longrightarrow> map_of (copy_into [] vals) = map_of vals"
  by (simp add: map_of_copy_into)

text \<open>The iteration that resolves an option of the definitions, seen from the result.\<close>

lemma Resolve_option:
  assumes run: "Resolve ws fuel r dyn defs vals = Some (Inr (vals', dyn'))"
    and fair: "\<And>i. fair (ws i)" and wf: "wf_map dyn" "wf_map defs" "wf_map vals" and pl: "plain r"
    and k: "map_of defs k = Some d" "k \<noteq> rootID"
  obtains j rj vj vj' valsf where "resolveOption (ws j) rj k vj = Inr (rj, vj')" "same_settings r rj"
    "\<not> skipRequired rj" "definition_at (r_graph rj) k = Some d" "k \<notin> set (childs (r_graph rj) k)"
    "map_of vj k = map_of vals k \<or> map_of vj k = None" "map_of vals' k = map_of vj' k"
    "wf_map vj" "wf_map vals'" "\<And>x. x \<in> depends_on d \<Longrightarrow> x \<noteq> k \<Longrightarrow> map_of vj x = map_of valsf x"
    "\<And>x. map_of defs x \<noteq> None \<Longrightarrow> map_of vals' x = map_of valsf x"
    "\<And>x. map_of defs x = None \<Longrightarrow> map_of dyn x = None \<Longrightarrow> map_of vals x = None \<Longrightarrow>
      map_of valsf x = None \<and> map_of vals' x = None"
proof (rule Resolve_parts [OF run fair wf pl])
  fix g valsf rf
  assume g: "graph_ok g" "parent_closed g" "pending g = graph_nodes g"
      "graph_nodes g = insert rootID (dom (map_of dyn ++ map_of defs))"
    and def_at: "\<And>k. k \<noteq> rootID \<Longrightarrow> definition_at g k = (map_of dyn ++ map_of defs) k"
    and edge: "\<And>k d v. (map_of dyn ++ map_of defs) k = Some d \<Longrightarrow> v \<in> depends_on d \<Longrightarrow> v \<in> graph_nodes g \<Longrightarrow>
      v \<noteq> k \<Longrightarrow> v \<noteq> rootID \<Longrightarrow> (v, k) \<in> edges g"
    and loop: "resolve_loop ws fuel 1 (r\<lparr>r_graph := g\<rparr>) (copy_into [] vals) = Some (Inr (rf, valsf))"
    and v': "\<And>k. map_of defs k \<noteq> None \<Longrightarrow> map_of vals' k = map_of valsf k"
    and wf': "wf_map valsf" "wf_map vals'"
    and none: "\<And>k. map_of vals' k \<noteq> None \<Longrightarrow> (map_of dyn' k \<noteq> None \<or> map_of defs k \<noteq> None) \<and> map_of valsf k \<noteq> None"
  have node: "k \<in> graph_nodes g" using k(1) g(4) by (auto simp: map_add_def)
  have M: "(map_of dyn ++ map_of defs) k = Some d" using k(1) by simp
  from visited_by_Resolve [OF g(1,2) pl g(3) loop node k(2)]
  obtain j rj vj vj' where v: "resolveOption (ws j) rj k vj = Inr (rj, vj')" "same_settings r rj"
    "definition_at (r_graph rj) k = definition_at g k" "childs (r_graph rj) k = childs g k"
    "map_of vj k = map_of vals k \<or> map_of vj k = None" "map_of valsf k = map_of vj' k" "wf_map vj"
    "\<And>x. x \<noteq> k \<Longrightarrow> x \<notin> graph_nodes g \<or> (x, k) \<in> edges g \<Longrightarrow> map_of vj x = map_of valsf x"
    unfolding visited_def using wf(3) by auto
  have irr: "k \<notin> set (childs (r_graph rj) k)" using graph_wf_irrefl [OF graph_okD(1) [OF g(1)]] v(4) by simp
  have dep: "map_of vj x = map_of valsf x" if "x \<in> depends_on d" "x \<noteq> k" for x
  proof -
    have "x \<noteq> rootID" using that(1) root_no_variable by (auto simp: depends_on_def)
    then show ?thesis using v(8) [OF that(2)] edge [OF M that(1) _ that(2)] by blast
  qed
  have out: "map_of valsf x = None \<and> map_of vals' x = None"
    if x: "map_of defs x = None" "map_of dyn x = None" "map_of vals x = None" for x
  proof -
    have "(map_of dyn ++ map_of defs) x = None" using x by (simp add: map_add_None)
    then have "x \<in> settled g"
      using g(4) settled_not_node [of x g] by (cases "x = rootID") (auto simp: settled_def)
    then have "map_of valsf x = map_of vals x"
      using resolve_loop_settled [OF _ _ _ loop, of x] g(1,2) pl wf(3) by (simp add: plain_def)
    with x none [of x] show ?thesis by (cases "map_of vals' x") auto
  qed
  show thesis
    by (rule that [OF v(1,2) _ _ irr v(5) _ v(7) wf'(2) dep v' out])
      (use v(2,3,6) pl def_at [OF k(2)] M v' k(1) in \<open>auto simp: plain_def same_settings_def\<close>)
qed

text \<open>A sample provider: two options, the second one refers to the first; the ranges visit the keys in
  the order of the list and there is no shell and no terminal.\<close>

definition sample_world :: world where
  "sample_world = \<lparr>order = (\<lambda>_ ks. ks), clock = 0, shell = (\<lambda>_ _. Inl (Err ''no shell'')),
     yaml_sub_options = (\<lambda>_. Inl (Err ''no yaml'')), compile_regexp = (\<lambda>_. Inl (Err ''no regexp'')),
     is_terminal = False, question = (\<lambda>_ _. Inl (Err ''no terminal''))\<rparr>"

definition sample_defs :: OptionDefinitions where
  "sample_defs = [(''B'', zero_opt\<lparr>Default := ''$A'' @ ''z''\<rparr>), (''A'', zero_opt\<lparr>Default := ''x'', Required := True\<rparr>)]"

lemma fair_sample: "fair sample_world"
  by (simp add: fair_def sample_world_def)

text \<open>A run that gives a result, and the result.\<close>

definition returns :: "'a result option \<Rightarrow> bool" where
  "returns x = (case x of None \<Rightarrow> False | Some (Inl _) \<Rightarrow> False | Some (Inr _) \<Rightarrow> True)"

lemma returnsD: "returns x \<Longrightarrow> x = Some (Inr (projr (the x)))"
  by (auto simp: returns_def split: option.splits sum.splits)

definition sample_result :: "OptionValues \<times> OptionDefinitions" where
  "sample_result = projr (the (Resolve (\<lambda>_. sample_world) 4 (New [] [] []) [] sample_defs []))"

lemma sample_run:
  "Resolve (\<lambda>_. sample_world) 4 (New [] [] []) [] sample_defs [] = Some (Inr (fst sample_result, snd sample_result))"
proof -
  have "returns (Resolve (\<lambda>_. sample_world) 4 (New [] [] []) [] sample_defs [])" by code_simp
  then show ?thesis unfolding sample_result_def prod.collapse by (rule returnsD)
qed

lemma sample_facts:
  "wf_map sample_defs" "plain (New u e [])" "map_of sample_defs ''A'' = Some (zero_opt\<lparr>Default := ''x'', Required := True\<rparr>)"
  "map_of sample_defs ''B'' = Some (zero_opt\<lparr>Default := ''$A'' @ ''z''\<rparr>)" "''A'' \<noteq> rootID" "''B'' \<noteq> rootID"
  "userOptions (New u e []) = u" "extraValues (New u e []) = e" "\<not> resolveSub (New u e [])"
  by (simp_all add: sample_defs_def wf_map_def New_def plain_def rootID_def)

section \<open>Termination\<close>

text \<open>C8: When no sub options are fetched, \<open>Resolve\<close> ends after at most one iteration per option
  definition (it returns values or an error), in every mode and for every answer of the surroundings.\<close>

theorem Resolve_terminates:
  assumes fair: "\<And>i. fair (ws i)" and "\<not> resolveSub r" and "wf_map dyn" and "wf_map defs"
    and fuel: "length dyn + length defs + 1 < fuel"
  shows "Resolve ws fuel r dyn defs vals \<noteq> None"
proof (cases "addOptionsToGraph (ws 0) (mergeMaps dyn defs) vals empty_graph")
  case (Inl e)
  then show ?thesis by (simp add: Resolve_def)
next
  case (Inr g)
  note a = addOptionsToGraph_Inr [OF Inr graph_ok_empty fair]
  have "graph_nodes g \<subseteq> set (rootID # keys dyn @ keys defs)"
  proof
    fix k assume "k \<in> graph_nodes g"
    then have "contents g k \<noteq> None" by (simp only: contents_nodes)
    then have "k = rootID \<or> map_of (mergeMaps dyn defs) k \<noteq> None"
      unfolding a(2) inserted_def in_keys_iff contents_empty by (auto split: if_splits)
    then have "k = rootID \<or> map_of dyn k \<noteq> None \<or> map_of defs k \<noteq> None"
      using assms(3,4) by (auto simp: map_of_mergeMaps)
    then show "k \<in> set (rootID # keys dyn @ keys defs)"
      using in_keys_iff [of k dyn] in_keys_iff [of k defs] by (auto simp del: set_map)
  qed
  then have "card (graph_nodes g) \<le> length (rootID # keys dyn @ keys defs)"
    by (meson List.finite_set card_length card_mono order_trans)
  moreover have "card (pending g) \<le> card (graph_nodes g)"
    by (rule card_mono) (auto simp: pending_def)
  ultimately have "resolve_loop ws fuel 1 (r\<lparr>r_graph := g\<rparr>) (copy_into [] vals) \<noteq> None"
    using fuel a(1) assms(2) by (intro resolve_loop_ends) simp_all
  then show ?thesis
    using Inr by (auto simp: Resolve_def resolveOptions_def Let_def split: sum.splits)
qed

theorem Resolve_terminates_witness:
  "Resolve (\<lambda>_. sample_world) 4 (New [] [] []) [] sample_defs [] \<noteq> None"
proof (rule Resolve_terminates)
  show "length ([] :: OptionDefinitions) + length sample_defs + 1 < 4" by (simp add: sample_defs_def)
qed (rule fair_sample sample_facts wf_map_Nil)+

section \<open>User values, required options and defaults\<close>


definition user_result :: "OptionValues \<times> OptionDefinitions" where
  "user_result = projr (the (Resolve (\<lambda>_. sample_world) 4 (New [(''A'', ''u'')] [] []) [] sample_defs []))"






section \<open>Stored values\<close>

text \<open>A value from an earlier run that is still valid and does not expire.\<close>

definition holds_still :: "(nat \<Rightarrow> world) \<Rightarrow> string \<Rightarrow> opt \<Rightarrow> option_value \<Rightarrow> bool" where
  "holds_still ws k d v \<longleftrightarrow>
     (\<forall>i. validateUserValue (ws i) k (Value v) d = Inr ()) \<and> (UserProvided v \<or> Cache d = [])"

lemma resolve_loop_stable:
  assumes "graph_ok (r_graph r)" and "parent_closed (r_graph r)" and "plain r"
    and "card (pending (r_graph r)) < f"
    and "\<And>k. k \<in> graph_nodes (r_graph r) \<Longrightarrow> k \<noteq> rootID \<Longrightarrow>
      \<exists>d v. definition_at (r_graph r) k = Some d \<and> map_of (userOptions r) k = None \<and>
        map_of vals k = Some v \<and> holds_still ws k d v"
  shows "\<exists>rf. resolve_loop ws f i r vals = Some (Inr (rf, vals))"
  using assms
proof (induction f arbitrary: i r)
  case 0
  then show ?case by simp
next
  case (Suc f)
  let ?g = "r_graph r"
  note ok = Suc.prems(1)
  from graph_okD(1) [OF ok] show ?case
  proof (cases rule: NextFromTop_cases)
    case all_done
    then show ?thesis by simp
  next
    case (next_node name)
    let ?r = "r\<lparr>r_graph := mark_done name ?g\<rparr>"
    have name: "name \<in> graph_nodes ?g" "name \<noteq> rootID" "name \<in> pending ?g"
      using next_node below_root [OF graph_okD(1,2) [OF ok]] graph_okD(3) [OF ok] by (auto simp: pending_def)
    obtain d v where d: "definition_at ?g name = Some d" "map_of (userOptions r) name = None"
      "map_of vals name = Some v" "holds_still ws name d v"
      using Suc.prems(5) [OF name(1,2)] by blast
    have ro: "resolveOption (ws i) ?r name vals = Inr (?r, vals)"
      by (rule resolveOption_keeps) (use d in \<open>auto simp: mark_done_facts holds_still_def\<close>)
    have "card (pending ?g - {name}) < card (pending ?g)" using name(3) by (intro card_Diff1_less) auto
    then have "card (pending (mark_done name ?g)) < f"
      using Suc.prems(4) unfolding pending_mark_done by linarith
    moreover have "parent_closed (mark_done name ?g)"
      using Suc.prems(2) parents_settled [OF ok next_node(4)] by (rule parent_closed_mark_done)
    moreover have "plain ?r" using Suc.prems(3) by (simp add: plain_def)
    ultimately have "\<exists>rf. resolve_loop ws f (Suc i) ?r vals = Some (Inr (rf, vals))"
      using ok Suc.prems(5) by (intro Suc.IH) (simp_all add: mark_done_facts)
    then show ?thesis
      using next_node(1) ro Suc.prems(3) by (simp add: refreshSubOptions_off plain_def)
  qed
qed


lemma validate_unconstrained:
  "ValidationPattern d = [] \<Longrightarrow> Enum d = [] \<Longrightarrow> Type d = [] \<Longrightarrow> validateUserValue w k v d = Inr ()"
  by (simp add: validateUserValue_def validate_pattern_def validate_enum_def validate_type_def)

definition stored_values :: OptionValues where
  "stored_values = [(''A'', zero_value\<lparr>Value := ''old''\<rparr>), (''B'', zero_value\<lparr>Value := ''oldz''\<rparr>)]"


section \<open>References in default values\<close>

text \<open>C14: Substituting option values in a default only depends on the options that \<open>findVariables\<close>
  reports, the ones for which the dependency graph gets an edge; and where none of them has a value
  the default stays as it is.\<close>

theorem ResolveDefaultValue_variables:
  "((\<forall>x. map_of m x = map_of m' x \<or> x \<notin> set (findVariables s)) \<longrightarrow>
      ResolveDefaultValue s m = ResolveDefaultValue s m') \<and>
   ((\<forall>x. map_of m x = None \<or> x \<notin> set (findVariables s)) \<longrightarrow> ResolveDefaultValue s m = s)"
proof (intro conjI impI)
  assume "\<forall>x. map_of m x = map_of m' x \<or> x \<notin> set (findVariables s)"
  then show "ResolveDefaultValue s m = ResolveDefaultValue s m'"
    by (intro ResolveDefaultValue_cong) auto
next
  assume "\<forall>x. map_of m x = None \<or> x \<notin> set (findVariables s)"
  then show "ResolveDefaultValue s m = s"
    unfolding ResolveDefaultValue_expand set_findVariables by (intro expand_none) auto
qed

theorem ResolveDefaultValue_variables_witness:
  "findVariables ''x${HOME_1:-y}/$B'' = [''B'', ''HOME_1''] \<and>
   ResolveDefaultValue ''x${HOME_1:-y}/$B'' [(''C'', ''c'')] = ''x${HOME_1:-y}/$B''"
proof -
  have v: "findVariables ''x${HOME_1:-y}/$B'' = [''B'', ''HOME_1'']" by code_simp
  show ?thesis
    using ResolveDefaultValue_variables [of "[(''C'', ''c'')]" "[]" "''x${HOME_1:-y}/$B''"] by (auto simp: v)
qed

end
