(* ===== verification/Provider.thy ===== *)
theory Provider
  imports Option_Vars
begin

text \<open>
  Providers: the data of \<^verbatim>\<open>pkg/provider/provider.go\<close> and the parser and validation of
  \<^verbatim>\<open>pkg/provider/parse.go\<close>.  The YAML codec, the version parser and the compiler for regular
  expressions are arguments.  A range over a map visits the keys in the order that the argument
  \<open>ord\<close> gives, which decides which of several errors is reported.  A nil and an empty list or map
  are one value, and the pointers in the maps are not nil.  The nested structs of
  \<^verbatim>\<open>ProxyCommands\<close> and of the agent's \<^verbatim>\<open>exec\<close> are flattened into their parent.  Where the
  source appends the message of an error of a library to its own, the model has its own part only.
\<close>

section \<open>Data\<close>

record provider_binary =
  bin_OS :: string
  bin_Arch :: string
  bin_Checksum :: string
  bin_Path :: string
  bin_ArchivePath :: string
  bin_Name :: string

record provider_source =
  src_Internal :: bool
  src_Github :: string
  src_File :: string
  src_URL :: string
  src_Raw :: string

record provider_option_group =
  og_Name :: string
  og_Options :: "string list"
  og_DefaultVisible :: bool

record dockerless_options =
  dl_Disabled :: string
  dl_Image :: string
  dl_IgnorePaths :: string
  dl_RegistryCache :: string
  dl_DisableDockerCredentials :: string

record custom_driver_config =
  cu_FindDevContainer :: "string list"
  cu_CommandDevContainer :: "string list"
  cu_TargetArchitecture :: "string list"
  cu_RunDevContainer :: "string list"
  cu_StartDevContainer :: "string list"
  cu_StopDevContainer :: "string list"
  cu_DeleteDevContainer :: "string list"
  cu_CanReprovision :: string
  cu_GetDevContainerLogs :: "string list"

record docker_driver_config =
  dk_Path :: string
  dk_Install :: string
  dk_Builder :: string
  dk_Env :: "string gomap"

record kubernetes_driver_config =
  k8_KubernetesContext :: string
  k8_KubernetesConfig :: string
  k8_KubernetesNamespace :: string
  k8_PodTimeout :: string
  k8_KubernetesPullSecretsEnabled :: string
  k8_CreateNamespace :: string
  k8_ClusterRole :: string
  k8_ServiceAccount :: string
  k8_Architecture :: string
  k8_InactivityTimeout :: string
  k8_StorageClass :: string
  k8_DiskSize :: string
  k8_PvcAccessMode :: string
  k8_PvcAnnotations :: string
  k8_NodeSelector :: string
  k8_Resources :: string
  k8_WorkspaceVolumeMount :: string
  k8_PodManifestTemplate :: string
  k8_Labels :: string
  k8_StrictSecurity :: string

record agent_config =
  ag_Local :: string
  ag_Path :: string
  ag_DataPath :: string
  ag_DownloadURL :: string
  ag_Timeout :: string
  ag_ContainerTimeout :: string
  ag_InjectGitCredentials :: string
  ag_InjectDockerCredentials :: string
  ag_Shutdown :: "string list"
  ag_Binaries :: "provider_binary list gomap"
  ag_Dockerless :: dockerless_options
  ag_Driver :: string
  ag_Docker :: docker_driver_config
  ag_Custom :: custom_driver_config
  ag_Kubernetes :: kubernetes_driver_config

record proxy_commands =
  px_Up :: "string list"
  px_Stop :: "string list"
  px_Delete :: "string list"
  px_Ssh :: "string list"
  px_Status :: "string list"
  px_Health :: "string list"
  px_CreateWorkspace :: "string list"
  px_GetWorkspace :: "string list"
  px_GetSelf :: "string list"
  px_GetVersion :: "string list"
  px_ListWorkspaces :: "string list"
  px_ListProjects :: "string list"
  px_ListTemplates :: "string list"
  px_ListClusters :: "string list"
  px_WatchWorkspaces :: "string list"
  px_UpdateWorkspace :: "string list"

record daemon_commands =
  dm_Start :: "string list"
  dm_Status :: "string list"

record provider_commands =
  ex_Init :: "string list"
  ex_Command :: "string list"
  ex_Create :: "string list"
  ex_Delete :: "string list"
  ex_Start :: "string list"
  ex_Stop :: "string list"
  ex_Status :: "string list"
  ex_Proxy :: "proxy_commands option"
  ex_Daemon :: "daemon_commands option"

record provider =
  pr_Name :: string
  pr_Version :: string
  pr_Icon :: string
  pr_IconDark :: string
  pr_Home :: string
  pr_Source :: provider_source
  pr_Description :: string
  pr_OptionGroups :: "provider_option_group list"
  pr_Options :: OptionDefinitions
  pr_Agent :: agent_config
  pr_Exec :: provider_commands
  pr_Binaries :: "provider_binary list gomap"

definition zero_dockerless :: dockerless_options where
  "zero_dockerless = \<lparr>dl_Disabled = [], dl_Image = [], dl_IgnorePaths = [], dl_RegistryCache = [],
     dl_DisableDockerCredentials = []\<rparr>"

definition zero_docker :: docker_driver_config where
  "zero_docker = \<lparr>dk_Path = [], dk_Install = [], dk_Builder = [], dk_Env = []\<rparr>"

definition zero_custom :: custom_driver_config where
  "zero_custom = \<lparr>cu_FindDevContainer = [], cu_CommandDevContainer = [], cu_TargetArchitecture = [],
     cu_RunDevContainer = [], cu_StartDevContainer = [], cu_StopDevContainer = [],
     cu_DeleteDevContainer = [], cu_CanReprovision = [], cu_GetDevContainerLogs = []\<rparr>"

definition zero_kubernetes :: kubernetes_driver_config where
  "zero_kubernetes = \<lparr>k8_KubernetesContext = [], k8_KubernetesConfig = [], k8_KubernetesNamespace = [],
     k8_PodTimeout = [], k8_KubernetesPullSecretsEnabled = [], k8_CreateNamespace = [],
     k8_ClusterRole = [], k8_ServiceAccount = [], k8_Architecture = [], k8_InactivityTimeout = [],
     k8_StorageClass = [], k8_DiskSize = [], k8_PvcAccessMode = [], k8_PvcAnnotations = [],
     k8_NodeSelector = [], k8_Resources = [], k8_WorkspaceVolumeMount = [],
     k8_PodManifestTemplate = [], k8_Labels = [], k8_StrictSecurity = []\<rparr>"

definition zero_agent :: agent_config where
  "zero_agent = \<lparr>ag_Local = [], ag_Path = [], ag_DataPath = [], ag_DownloadURL = [], ag_Timeout = [],
     ag_ContainerTimeout = [], ag_InjectGitCredentials = [], ag_InjectDockerCredentials = [],
     ag_Shutdown = [], ag_Binaries = [], ag_Dockerless = zero_dockerless, ag_Driver = [],
     ag_Docker = zero_docker, ag_Custom = zero_custom, ag_Kubernetes = zero_kubernetes\<rparr>"

definition DockerDriver :: string where "DockerDriver = ''docker''"
definition KubernetesDriver :: string where "KubernetesDriver = ''kubernetes''"
definition CustomDriver :: string where "CustomDriver = ''custom''"

definition IsDockerDriver :: "agent_config \<Rightarrow> bool" where
  "IsDockerDriver a \<longleftrightarrow> ag_Driver a = [] \<or> ag_Driver a = DockerDriver"

definition IsMachineProvider :: "provider \<Rightarrow> bool" where
  "IsMachineProvider p \<longleftrightarrow> ex_Create (pr_Exec p) \<noteq> []"

definition IsProxyProvider :: "provider \<Rightarrow> bool" where
  "IsProxyProvider p \<longleftrightarrow> ex_Proxy (pr_Exec p) \<noteq> None"

definition HasHealthCheck :: "provider \<Rightarrow> bool" where
  "HasHealthCheck p \<longleftrightarrow> (case ex_Proxy (pr_Exec p) of None \<Rightarrow> False | Some x \<Rightarrow> px_Health x \<noteq> [])"

definition IsDaemonProvider :: "provider \<Rightarrow> bool" where
  "IsDaemonProvider p \<longleftrightarrow> ex_Daemon (pr_Exec p) \<noteq> None"

section \<open>Validation\<close>

text \<open>A sequence of checks \<open>if cond { return error }\<close>.\<close>

fun first_error :: "(bool \<times> string) list \<Rightarrow> unit result" where
  "first_error [] = Inr ()"
| "first_error ((bad, msg) # cs) = (if bad then Inl (Err msg) else first_error cs)"

definition is_provider_name_char :: "char \<Rightarrow> bool" where
  "is_provider_name_char c \<longleftrightarrow> is_lower c \<or> is_digit c \<or> c = CHR ''-''"

definition ProviderNameRegEx :: re where
  "ProviderNameRegEx = Plus (Cls (\<lambda>c. \<not> is_provider_name_char c))"

definition optionNameRegEx :: re where
  "optionNameRegEx = Plus (Cls (\<lambda>c. \<not> is_var_char c))"

definition allowedTypes :: "string list" where
  "allowedTypes = [''string'', ''multiline'', ''duration'', ''number'', ''boolean'']"

definition quoted :: "string \<Rightarrow> string" where
  "quoted s = [CHR 0x27] @ s @ [CHR 0x27]"

definition check_option :: "(string \<Rightarrow> bool) \<Rightarrow> string \<Rightarrow> opt \<Rightarrow> unit result" where
  "check_option compiles k d =
     first_error
      [(MatchString optionNameRegEx k,
          ''provider option '' @ quoted k @ '' can only consist of upper case letters, numbers or underscores. E.g. MY_OPTION, MY_OTHER_OPTION''),
       (ValidationPattern d \<noteq> [] \<and> \<not> compiles (ValidationPattern d),
          ''error parsing validation pattern '' @ quoted (ValidationPattern d) @ '' for option '' @ quoted k),
       (Default d \<noteq> [] \<and> Command d \<noteq> [], ''default and command cannot be used together in option '' @ quoted k),
       (Global d \<and> Cache d \<noteq> [], ''global and cache cannot be used together in option '' @ quoted k),
       (Global d \<and> Mutable d, ''global and mutable cannot be used together in option '' @ quoted k),
       (Cache d \<noteq> [] \<and> ParseDuration (Cache d) = None, ''invalid cache value for option '' @ quoted k),
       (Type d \<noteq> [] \<and> Type d \<notin> set allowedTypes, ''type can only be one of in option '' @ quoted k @ '': ['' @ Join allowedTypes '' '' @ '']''),
       (Cache d \<noteq> [] \<and> Command d = [], ''cache can only be used with command in option '' @ quoted k)]"

definition check_binary :: "string \<Rightarrow> string \<Rightarrow> provider_binary \<Rightarrow> unit result" where
  "check_binary pfx name b =
     first_error
      [(bin_OS b \<noteq> ''linux'' \<and> bin_OS b \<noteq> ''darwin'' \<and> bin_OS b \<noteq> ''windows'',
          ''unsupported binary operating system '' @ quoted (bin_OS b) @
            '', must be '' @ quoted ''linux'' @ '', '' @ quoted ''darwin'' @ '' or '' @ quoted ''windows''),
       (bin_Path b = [], pfx @ ''.'' @ name @ ''.path required binary path, cannot be empty''),
       (bin_ArchivePath b = [] \<and> (HasSuffix (bin_Path b) ''.gz'' \<or> HasSuffix (bin_Path b) ''.tar'' \<or>
          HasSuffix (bin_Path b) ''.tgz'' \<or> HasSuffix (bin_Path b) ''.zip''),
          pfx @ ''.'' @ name @ ''.archivePath required because binary path is an archive''),
       (bin_Arch b = [], pfx @ ''.'' @ name @ ''.arch required, cannot be empty'')]"

text \<open>The first error of a list of checks.\<close>

fun all_ok :: "unit result list \<Rightarrow> unit result" where
  "all_ok [] = Inr ()"
| "all_ok (c # cs) = (case c of Inl e \<Rightarrow> Inl e | Inr _ \<Rightarrow> all_ok cs)"

definition validateBinaries :: "(string list \<Rightarrow> string list) \<Rightarrow> string \<Rightarrow> provider_binary list gomap \<Rightarrow> unit result" where
  "validateBinaries ord pfx binaries =
     all_ok (map (\<lambda>name.
       all_ok (first_error [(MatchString optionNameRegEx name,
           ''binary name '' @ quoted name @ '' can only consist of upper case letters, numbers or underscores. E.g. MY_BINARY, KUBECTL'')]
         # map (check_binary pfx name) (the (map_of binaries name)))) (ord (keys binaries)))"

definition validateOptionGroups :: "provider \<Rightarrow> unit result" where
  "validateOptionGroups p =
     all_ok (map (\<lambda>(i, g). first_error [(og_Name g = [],
       ''optionGroups['' @ nat_digits i @ ''].name cannot be empty'')]) (enumerate 0 (pr_OptionGroups p)))"

text \<open>The machine commands that proxy and daemon providers may not have.  All of the messages but the
  first name \<open>exec.create\<close>, as in the source.\<close>

definition forbidden_commands :: "string \<Rightarrow> provider \<Rightarrow> (bool \<times> string) list" where
  "forbidden_commands kind p =
     (let e = pr_Exec p in
      [(pr_Agent p \<noteq> zero_agent, ''agent config is not allowed for '' @ kind @ '' providers''),
       (ex_Command e \<noteq> [], ''exec.command is not allowed in '' @ kind @ '' providers''),
       (ex_Create e \<noteq> [], ''exec.create is not allowed in '' @ kind @ '' providers''),
       (ex_Start e \<noteq> [], ''exec.create is not allowed in '' @ kind @ '' providers''),
       (ex_Stop e \<noteq> [], ''exec.create is not allowed in '' @ kind @ '' providers''),
       (ex_Status e \<noteq> [], ''exec.create is not allowed in '' @ kind @ '' providers''),
       (ex_Delete e \<noteq> [], ''exec.create is not allowed in '' @ kind @ '' providers'')])"

definition check_proxy :: "proxy_commands \<Rightarrow> (bool \<times> string) list" where
  "check_proxy x =
     [(px_Status x = [], ''exec.proxy.status is required for proxy providers''),
      (px_Stop x = [], ''exec.proxy.stop is required for proxy providers''),
      (px_Delete x = [], ''exec.proxy.delete is required for proxy providers''),
      (px_Ssh x = [], ''exec.proxy.ssh is required for proxy providers''),
      (px_Up x = [], ''exec.proxy.up is required for proxy providers'')]"

definition check_driver :: "agent_config \<Rightarrow> (bool \<times> string) list" where
  "check_driver a =
     (ag_Driver a \<noteq> [] \<and> ag_Driver a \<noteq> CustomDriver \<and> ag_Driver a \<noteq> DockerDriver \<and> ag_Driver a \<noteq> KubernetesDriver,
        ''agent.driver can only be docker, kubernetes or custom'')
     # (if ag_Driver a = CustomDriver then
          (let c = ag_Custom a in
           [(cu_TargetArchitecture c = [], ''agent.custom.targetArchitecture is required''),
            (cu_StartDevContainer c = [], ''agent.custom.startDevContainer is required''),
            (cu_StopDevContainer c = [], ''agent.custom.stopDevContainer is required''),
            (cu_RunDevContainer c = [], ''agent.custom.runDevContainer is required''),
            (cu_DeleteDevContainer c = [], ''agent.custom.deleteDevContainer is required''),
            (cu_FindDevContainer c = [], ''agent.custom.findDevContainer is required''),
            (cu_CommandDevContainer c = [], ''agent.custom.commandDevContainer is required'')])
        else [])"

definition check_commands :: "provider_commands \<Rightarrow> (bool \<times> string) list" where
  "check_commands e =
     [(ex_Command e = [], ''exec.command is required''),
      (ex_Create e \<noteq> [] \<and> ex_Delete e = [], ''exec.delete is required''),
      (ex_Create e = [] \<and> ex_Delete e \<noteq> [], ''exec.create is required''),
      (ex_Start e = [] \<and> ex_Stop e \<noteq> [], ''exec.start is required''),
      (ex_Stop e = [] \<and> ex_Start e \<noteq> [], ''exec.start is required''),
      (ex_Status e = [] \<and> ex_Start e \<noteq> [], ''exec.status is required''),
      (ex_Create e = [] \<and> ex_Start e \<noteq> [], ''exec.create is required'')]"

definition validateProviderType :: "(string list \<Rightarrow> string list) \<Rightarrow> provider \<Rightarrow> unit result" where
  "validateProviderType ord p =
     (case ex_Proxy (pr_Exec p) of
        Some x \<Rightarrow> first_error (forbidden_commands ''proxy'' p @ check_proxy x)
      | None \<Rightarrow>
          (case ex_Daemon (pr_Exec p) of
             Some d \<Rightarrow>
               first_error (forbidden_commands ''daemon'' p @
                 [(dm_Start d = [], ''exec.daemon.start is required for daemon providers'')])
           | None \<Rightarrow>
               all_ok [first_error (check_driver (pr_Agent p)),
                       validateBinaries ord ''agent.binaries'' (ag_Binaries (pr_Agent p)),
                       first_error (check_commands (pr_Exec p))]))"

definition validate ::
    "(string \<Rightarrow> bool) \<Rightarrow> (string \<Rightarrow> bool) \<Rightarrow> (string list \<Rightarrow> string list) \<Rightarrow> provider \<Rightarrow> unit result" where
  "validate semver compiles ord p =
     all_ok
      [first_error
        [(pr_Name p = [], ''name is missing in provider.yaml''),
         (MatchString ProviderNameRegEx (pr_Name p),
            ''provider name can only include lowercase letters, numbers or dashes''),
         (length (pr_Name p) > 32, ''provider name cannot be longer than 32 characters''),
         (pr_Version p \<noteq> [] \<and> \<not> semver (TrimPrefix (pr_Version p) ''v''), ''parse provider version'')],
       all_ok (map (\<lambda>k. check_option compiles k (the (map_of (pr_Options p) k))) (ord (keys (pr_Options p)))),
       validateBinaries ord ''binaries'' (pr_Binaries p),
       validateProviderType ord p,
       validateOptionGroups p]"

definition ParseProvider ::
    "(string \<Rightarrow> provider result) \<Rightarrow> (string \<Rightarrow> bool) \<Rightarrow> (string \<Rightarrow> bool) \<Rightarrow> (string list \<Rightarrow> string list) \<Rightarrow>
     string \<Rightarrow> provider result" where
  "ParseProvider yaml semver compiles ord payload =
     (case yaml payload of
        Inl e \<Rightarrow> Inl (wrap ''parse provider config'' e)
      | Inr p \<Rightarrow>
          (case validate semver compiles ord p of
             Inl e \<Rightarrow> Inl (wrap ''validate'' e)
           | Inr _ \<Rightarrow> Inr p))"

fun parse_options :: "string list \<Rightarrow> string gomap \<Rightarrow> string gomap result" where
  "parse_options [] retMap = Inr retMap"
| "parse_options (option # options) retMap =
     (let splitted = Split CHR ''='' option in
      if length splitted = 1
      then Inl (Err (''invalid option '' @ quoted option @ '', expected format KEY=VALUE''))
      else parse_options options
             (AList.update (ToUpper (TrimSpace (hd splitted))) (Join (tl splitted) ''='') retMap))"

definition ParseOptions :: "string list \<Rightarrow> string gomap result" where
  "ParseOptions options = parse_options options []"

section \<open>Lemmas\<close>

lemma first_error_ok: "first_error cs = Inr () \<longleftrightarrow> (\<forall>(bad, _) \<in> set cs. \<not> bad)"
  by (induction cs rule: first_error.induct) auto

lemma all_ok_ok: "all_ok cs = Inr () \<longleftrightarrow> (\<forall>c \<in> set cs. c = Inr ())"
  by (induction cs) (auto split: sum.splits)

lemma MatchString_class: "MatchString (Plus (Cls p)) s \<longleftrightarrow> (\<exists>c \<in> set s. p c)"
proof (induction s)
  case Nil
  then show ?case by (simp add: MatchString_def match_at_def Plus_def)
next
  case (Cons x s)
  have "match_at (Plus (Cls p)) (x # s) = (if p x then Some (dropWhile p (x # s), []) else None)"
    unfolding match_at_def by (subst mt_Plus_Cls) auto
  then show ?case using Cons by (auto simp: MatchString_def split: if_splits)
qed

end
