(* ===== verification/Go_Regexp_Lang.thy ===== *)
theory Go_Regexp_Lang
  imports Go_Regexp
begin

text \<open>
  The language of an expression and the correctness of the backtracking matcher against it, for
  expressions without captures and end-of-text assertions inside.  With a continuation that accepts
  a single suffix this determines the match.
\<close>

primrec plain_re :: "re \<Rightarrow> bool" where
  "plain_re Empty \<longleftrightarrow> True"
| "plain_re (Cls p) \<longleftrightarrow> True"
| "plain_re (Seq a b) \<longleftrightarrow> plain_re a \<and> plain_re b"
| "plain_re (Alt a b) \<longleftrightarrow> plain_re a \<and> plain_re b"
| "plain_re (Star a) \<longleftrightarrow> plain_re a"
| "plain_re (Lazy a) \<longleftrightarrow> plain_re a"
| "plain_re (Cap n a) \<longleftrightarrow> False"
| "plain_re Eot \<longleftrightarrow> False"

primrec lang :: "re \<Rightarrow> string set" where
  "lang Empty = {[]}"
| "lang (Cls p) = {[c] | c. p c}"
| "lang (Seq a b) = {u @ v | u v. u \<in> lang a \<and> v \<in> lang b}"
| "lang (Alt a b) = lang a \<union> lang b"
| "lang (Star a) = {concat us | us. set us \<subseteq> lang a}"
| "lang (Lazy a) = {concat us | us. set us \<subseteq> lang a}"
| "lang (Cap n a) = lang a"
| "lang Eot = {[]}"

section \<open>Soundness\<close>

lemma starn_sound:
  assumes "\<And>k s c t. m k (s, c) = Some t \<Longrightarrow> \<exists>u v. s = u @ v \<and> u \<in> L \<and> k (v, c) = Some t"
  shows "starn m k n (s, c) = Some t \<Longrightarrow> \<exists>us v. s = concat us @ v \<and> set us \<subseteq> L \<and> k (v, c) = Some t"
proof (induction n arbitrary: s)
  case 0
  then show ?case by (intro exI [of _ "[]"] exI [of _ s]) simp
next
  case (Suc n)
  show ?case
  proof (cases "m (\<lambda>s'. if length (fst s') < length s then starn m k n s' else None) (s, c)")
    case None
    with Suc.prems show ?thesis by (intro exI [of _ "[]"] exI [of _ s]) simp
  next
    case (Some t')
    with Suc.prems have "t' = t" by simp
    with assms [OF Some] obtain u v where uv: "s = u @ v" "u \<in> L" "starn m k n (v, c) = Some t"
      by (auto split: if_splits)
    from Suc.IH [OF uv(3)] obtain us w where "v = concat us @ w" "set us \<subseteq> L" "k (w, c) = Some t" by auto
    with uv show ?thesis by (intro exI [of _ "u # us"] exI [of _ w]) simp
  qed
qed

lemma lazyn_sound:
  assumes "\<And>k s c t. m k (s, c) = Some t \<Longrightarrow> \<exists>u v. s = u @ v \<and> u \<in> L \<and> k (v, c) = Some t"
  shows "lazyn m k n (s, c) = Some t \<Longrightarrow> \<exists>us v. s = concat us @ v \<and> set us \<subseteq> L \<and> k (v, c) = Some t"
proof (induction n arbitrary: s)
  case 0
  then show ?case by (intro exI [of _ "[]"] exI [of _ s]) simp
next
  case (Suc n)
  show ?case
  proof (cases "k (s, c)")
    case None
    with Suc.prems have "m (\<lambda>s'. if length (fst s') < length s then lazyn m k n s' else None) (s, c) = Some t"
      by simp
    from assms [OF this] obtain u v where uv: "s = u @ v" "u \<in> L" "lazyn m k n (v, c) = Some t"
      by (auto split: if_splits)
    from Suc.IH [OF uv(3)] obtain us w where "v = concat us @ w" "set us \<subseteq> L" "k (w, c) = Some t" by auto
    with uv show ?thesis by (intro exI [of _ "u # us"] exI [of _ w]) simp
  next
    case (Some t')
    with Suc.prems show ?thesis by (intro exI [of _ "[]"] exI [of _ s]) simp
  qed
qed

lemma mt_sound:
  "plain_re r \<Longrightarrow> mt r k (s, c) = Some t \<Longrightarrow> \<exists>u v. s = u @ v \<and> u \<in> lang r \<and> k (v, c) = Some t"
proof (induction r arbitrary: k s c t)
  case (Seq a b)
  then have "mt a (mt b k) (s, c) = Some t" by simp
  from Seq.IH(1) [OF _ this] Seq.prems(1) obtain u v where
    uv: "s = u @ v" "u \<in> lang a" "mt b k (v, c) = Some t" by auto
  from Seq.IH(2) [OF _ uv(3)] Seq.prems(1) obtain w x where "v = w @ x" "w \<in> lang b" "k (x, c) = Some t" by auto
  with uv show ?case by (intro exI [of _ "u @ w"] exI [of _ x]) auto
next
  case (Alt a b)
  show ?case
  proof (cases "mt a k (s, c)")
    case None
    with Alt.prems Alt.IH(2) [of k s c t] show ?thesis by (simp, blast)
  next
    case (Some t')
    with Alt.prems Alt.IH(1) [of k s c t] show ?thesis by (simp, blast)
  qed
next
  case (Star a)
  then have "starn (mt a) k (length s) (s, c) = Some t" by simp
  with starn_sound [where L = "lang a" and m = "mt a" and t = t, OF Star.IH] Star.prems(1)
  obtain us v where "s = concat us @ v" "set us \<subseteq> lang a" "k (v, c) = Some t" by force
  then show ?case by (intro exI [of _ "concat us"] exI [of _ v]) auto
next
  case (Lazy a)
  then have "lazyn (mt a) k (length s) (s, c) = Some t" by simp
  with lazyn_sound [where L = "lang a" and m = "mt a" and t = t, OF Lazy.IH] Lazy.prems(1)
  obtain us v where "s = concat us @ v" "set us \<subseteq> lang a" "k (v, c) = Some t" by force
  then show ?case by (intro exI [of _ "concat us"] exI [of _ v]) auto
next
  case (Cls p)
  then obtain x xs where "s = [x] @ xs" "p x" "k (xs, c) = Some t" by (cases s) (auto split: if_splits)
  then show ?case unfolding lang.simps by blast
qed auto

section \<open>Completeness\<close>

lemma concat_nonempty: "concat (filter (\<lambda>u. u \<noteq> []) us) = concat us"
  by (induction us) auto

lemma starn_complete:
  assumes "\<And>k s c u v. s = u @ v \<Longrightarrow> u \<in> L \<Longrightarrow> k (v, c) \<noteq> None \<Longrightarrow> m k (s, c) \<noteq> None"
    and "s = concat us @ v" "set us \<subseteq> L" "k (v, c) \<noteq> None" "length s \<le> n"
  shows "starn m k n (s, c) \<noteq> None"
  using assms(2-)
proof (induction n arbitrary: s us)
  case 0
  then have "s = []" "v = []" by auto
  with 0(3) show ?case by (simp del: not_None_eq)
next
  case (Suc n)
  let ?ns = "filter (\<lambda>u. u \<noteq> []) us"
  have s: "s = concat ?ns @ v" using Suc.prems(1) by (simp add: concat_nonempty)
  show ?case
  proof (cases ?ns)
    case Nil
    then have "s = v" using s by simp
    then show ?thesis using Suc.prems(3) by (auto split: option.splits)
  next
    case (Cons u ws)
    then have "set (u # ws) = {x \<in> set us. x \<noteq> []}" by (metis set_filter)
    then have u: "u \<noteq> []" "u \<in> L" "set ws \<subseteq> L" using Suc.prems(2) by auto
    have "starn m k n (concat ws @ v, c) \<noteq> None"
      using Suc.IH [of "concat ws @ v" ws] Suc.prems(3,4) s Cons u by (cases u) auto
    then have "m (\<lambda>s'. if length (fst s') < length s then starn m k n s' else None) (s, c) \<noteq> None"
      using s Cons u by (intro assms(1) [of s u "concat ws @ v"]) auto
    then show ?thesis by auto
  qed
qed

lemma lazyn_complete:
  assumes "\<And>k s c u v. s = u @ v \<Longrightarrow> u \<in> L \<Longrightarrow> k (v, c) \<noteq> None \<Longrightarrow> m k (s, c) \<noteq> None"
    and "s = concat us @ v" "set us \<subseteq> L" "k (v, c) \<noteq> None" "length s \<le> n"
  shows "lazyn m k n (s, c) \<noteq> None"
  using assms(2-)
proof (induction n arbitrary: s us)
  case 0
  then have "s = []" "v = []" by auto
  with 0(3) show ?case by (simp del: not_None_eq)
next
  case (Suc n)
  let ?ns = "filter (\<lambda>u. u \<noteq> []) us"
  have s: "s = concat ?ns @ v" using Suc.prems(1) by (simp add: concat_nonempty)
  show ?case
  proof (cases ?ns)
    case Nil
    then have "s = v" using s by simp
    then show ?thesis using Suc.prems(3) by (auto split: option.splits)
  next
    case (Cons u ws)
    then have "set (u # ws) = {x \<in> set us. x \<noteq> []}" by (metis set_filter)
    then have u: "u \<noteq> []" "u \<in> L" "set ws \<subseteq> L" using Suc.prems(2) by auto
    have "lazyn m k n (concat ws @ v, c) \<noteq> None"
      using Suc.IH [of "concat ws @ v" ws] Suc.prems(3,4) s Cons u by (cases u) auto
    then have "m (\<lambda>s'. if length (fst s') < length s then lazyn m k n s' else None) (s, c) \<noteq> None"
      using s Cons u by (intro assms(1) [of s u "concat ws @ v"]) auto
    then show ?thesis by (auto split: option.splits)
  qed
qed

lemma mt_complete:
  "plain_re r \<Longrightarrow> s = u @ v \<Longrightarrow> u \<in> lang r \<Longrightarrow> k (v, c) \<noteq> None \<Longrightarrow> mt r k (s, c) \<noteq> None"
proof (induction r arbitrary: k s c u v)
  case (Seq a b)
  then obtain x y where xy: "u = x @ y" "x \<in> lang a" "y \<in> lang b" by auto
  with Seq have "mt b k (y @ v, c) \<noteq> None" by auto
  with Seq.IH(1) [of s x "y @ v" "mt b k" c] Seq.prems xy show ?case by simp
next
  case (Alt a b)
  show ?case
  proof (cases "mt a k (s, c)")
    case None
    then have "u \<notin> lang a" using Alt.IH(1) [of s u v k c] Alt.prems by auto
    then show ?thesis using Alt.IH(2) [of s u v k c] Alt.prems None by simp
  qed simp
next
  case (Star a)
  then obtain us where "u = concat us" "set us \<subseteq> lang a" by auto
  with starn_complete [of "lang a" "mt a" s us v k c "length s"] Star show ?case by auto
next
  case (Lazy a)
  then obtain us where "u = concat us" "set us \<subseteq> lang a" by auto
  with lazyn_complete [of "lang a" "mt a" s us v k c "length s"] Lazy show ?case by auto
qed auto

section \<open>A determined match\<close>

lemma mt_unique:
  assumes "plain_re r" "s = u @ v" "u \<in> lang r" "k (v, c) = Some t"
    and "\<And>u' v'. s = u' @ v' \<Longrightarrow> k (v', c) \<noteq> None \<Longrightarrow> v' = v"
  shows "mt r k (s, c) = Some t"
proof -
  obtain t' where t': "mt r k (s, c) = Some t'" using mt_complete [OF assms(1-3), of k c] assms(4) by auto
  from mt_sound [OF assms(1) this] obtain u' v' where v': "s = u' @ v'" "k (v', c) = Some t'" by auto
  have "v' = v" using assms(5) [OF v'(1)] v'(2) by simp
  with v'(2) assms(4) t' show ?thesis by simp
qed

lemma mt_none:
  assumes "plain_re r" "\<And>u v. s = u @ v \<Longrightarrow> u \<in> lang r \<Longrightarrow> k (v, c) = None"
  shows "mt r k (s, c) = None"
  using mt_sound [OF assms(1), of k s c] assms(2) by (cases "mt r k (s, c)") auto

lemma lang_Lit [simp]: "lang (Lit w) = {w}"
  by (induction w) (auto simp: Ch_def)

lemma plain_Lit [simp]: "plain_re (Lit w)"
  by (induction w) (auto simp: Ch_def)

lemma lang_Star_Cls: "lang (Star (Cls p)) = {s. list_all p s}"
proof -
  have "list_all p (concat us)" if "set us \<subseteq> {[c] | c. p c}" for us
    using that by (induction us) auto
  moreover have "\<exists>us. s = concat us \<and> set us \<subseteq> {[c] | c. p c}" if "list_all p s" for s
    using that by (intro exI [of _ "map (\<lambda>c. [c]) s"]) (auto simp: list_all_iff)
  ultimately show ?thesis by auto
qed

lemma lang_Plus_Cls: "lang (Plus (Cls p)) = {s. s \<noteq> [] \<and> list_all p s}"
proof -
  have "s \<in> lang (Plus (Cls p)) \<longleftrightarrow> s \<noteq> [] \<and> list_all p s" for s
    unfolding Plus_def lang.simps(3) lang_Star_Cls
    by (cases s) (auto intro: exI [of _ "[hd s]"] exI [of _ "tl s"])
  then show ?thesis by auto
qed

lemma plain_Plus [simp]: "plain_re (Plus r) = plain_re r"
  by (simp add: Plus_def)

end
