(* ===== verification/Git.thy ===== *)
theory Git
  imports Go_Regexp_Lang
begin

text \<open>
  Repository references and cloning: \<^verbatim>\<open>pkg/git/git.go\<close> and \<^verbatim>\<open>pkg/git/clone.go\<close>.  Running a git
  command is an argument that gives its error, if any; an operation returns the commands it ran, in
  order, with its result.
\<close>

section \<open>References\<close>

definition CommitDelimiter :: string where "CommitDelimiter = ''@sha256:''"
definition SubPathDelimiter :: string where "SubPathDelimiter = ''@subpath:''"

definition PullRequestReference :: re where
  "PullRequestReference = Seqs [Lit ''pull/'', Cap 3 (Plus (Cls is_digit)), Lit ''/head'']"

definition repoBaseRegEx :: re where
  "repoBaseRegEx = Seqs
     [Opt (Seq (Alts [Seq (Lit ''http'') (Opt (Ch CHR ''s'')), Lit ''git'', Lit ''ssh'', Lit ''file'']) (Lit ''://'')),
      Opt (Ch CHR ''/''),
      Opt (Seq (Plus (Cls (\<lambda>c. c \<noteq> CHR ''@'' \<and> c \<noteq> CHR ''/'' \<and> not_newline c))) (Ch CHR ''@'')),
      Plus (Cls (\<lambda>c. c \<noteq> CHR '':'' \<and> c \<noteq> CHR ''/'' \<and> not_newline c)),
      Plus (Seq (Cls (\<lambda>c. c = CHR '':'' \<or> c = CHR ''/'')) (Plus (Cls (\<lambda>c. c \<noteq> CHR ''/'' \<and> not_newline c)))),
      Opt (Lit ''.git'')]"

definition is_ref_char :: "char \<Rightarrow> bool" where
  "is_ref_char c \<longleftrightarrow> is_alnum c \<or> c = CHR ''.'' \<or> c = CHR ''/'' \<or> c = CHR ''-'' \<or> c = CHR ''_''"

definition suffix_regex :: "string \<Rightarrow> (char \<Rightarrow> bool) \<Rightarrow> re" where
  "suffix_regex delim p = Seqs [Cap 1 repoBaseRegEx, Lit delim, Cap 2 (Plus (Cls p)), Eot]"

definition git_branchRegEx :: re where "git_branchRegEx = suffix_regex ''@'' is_ref_char"
definition git_commitRegEx :: re where "git_commitRegEx = suffix_regex CommitDelimiter is_alnum"
definition git_subPathRegEx :: re where "git_subPathRegEx = suffix_regex SubPathDelimiter is_ref_char"
definition git_prReferenceRegEx :: re where
  "git_prReferenceRegEx = Seqs [Cap 1 repoBaseRegEx, Lit ''@'', Cap 2 PullRequestReference, Eot]"

definition has_scheme :: "string \<Rightarrow> bool" where
  "has_scheme s \<longleftrightarrow> HasPrefix s ''ssh://'' \<or> HasPrefix s ''git@'' \<or> HasPrefix s ''http://'' \<or>
     HasPrefix s ''https://'' \<or> HasPrefix s ''file://''"

text \<open>The groups 1 and 2 of a match at the front.\<close>

definition two_groups :: "re \<Rightarrow> string \<Rightarrow> (string \<times> string) option" where
  "two_groups r s = map_option (\<lambda>(_, caps). (group caps 1, group caps 2)) (FindPrefixSubmatch r s)"

text \<open>Repository, pull request, branch, commit and path in the repository.\<close>

definition NormalizeRepository :: "string \<Rightarrow> string \<times> string \<times> string \<times> string \<times> string" where
  "NormalizeRepository str0 =
     (let str = (if has_scheme str0 then str0 else ''https://'' @ str0) in
      case two_groups git_prReferenceRegEx str of
        Some (r, pr) \<Rightarrow> (r, pr, [], [], [])
      | None \<Rightarrow>
          (let (str1, subpath) = (case two_groups git_subPathRegEx str of
                 Some (r, p) \<Rightarrow> (r, TrimSuffix p ''/'') | None \<Rightarrow> (str, []));
               (str2, branch) = (case two_groups git_branchRegEx str1 of Some (r, b) \<Rightarrow> (r, b) | None \<Rightarrow> (str1, []));
               (str3, commit) = (case two_groups git_commitRegEx str2 of Some (r, c) \<Rightarrow> (r, c) | None \<Rightarrow> (str2, [])) in
           (str3, [], branch, commit, subpath)))"

record git_info =
  gi_Repository :: string
  gi_Branch :: string
  gi_Commit :: string
  gi_PR :: string
  gi_SubPath :: string

definition NewGitInfo :: "string \<Rightarrow> string \<Rightarrow> string \<Rightarrow> string \<Rightarrow> string \<Rightarrow> git_info" where
  "NewGitInfo repository branch commit pr subpath =
     \<lparr>gi_Repository = repository, gi_Branch = branch, gi_Commit = commit, gi_PR = pr, gi_SubPath = subpath\<rparr>"

definition NormalizeRepositoryGitInfo :: "string \<Rightarrow> git_info" where
  "NormalizeRepositoryGitInfo str =
     (let (repository, pr, branch, commit, subpath) = NormalizeRepository str in
      NewGitInfo repository branch commit pr subpath)"

text \<open>\<open>ReplaceAllString\<close> with a template that refers to the group of the number.\<close>

function replace_reference :: "string \<Rightarrow> string \<Rightarrow> string" where
  "replace_reference pre [] = []"
| "replace_reference pre (c # cs) =
     (case match_at PullRequestReference (c # cs) of
        None \<Rightarrow> c # replace_reference pre cs
      | Some (rest, caps) \<Rightarrow>
          if length rest \<le> length cs
          then pre @ group caps 3 @ replace_reference pre rest
          else c # replace_reference pre cs)"
  by pat_completeness auto
termination by (relation "measure (\<lambda>(p, s). length s)") auto

definition GetBranchNameForPR :: "string \<Rightarrow> string" where
  "GetBranchNameForPR ref = replace_reference ''PR'' ref"

definition GetIDForPR :: "string \<Rightarrow> string" where
  "GetIDForPR ref = replace_reference ''pr'' ref"

section \<open>Cloning\<close>

datatype CloneStrategy = FullCloneStrategy | BloblessCloneStrategy | TreelessCloneStrategy
  | ShallowCloneStrategy | BareCloneStrategy

definition CloneStrategy_Set :: "string \<Rightarrow> CloneStrategy result" where
  "CloneStrategy_Set v =
     (if v = [] then Inr FullCloneStrategy
      else if v = ''blobless'' then Inr BloblessCloneStrategy
      else if v = ''treeless'' then Inr TreelessCloneStrategy
      else if v = ''shallow'' then Inr ShallowCloneStrategy
      else if v = ''bare'' then Inr BareCloneStrategy
      else Inl (Err (''CloneStrategy '' @ v @ '' not supported'')))"

fun CloneStrategy_String :: "CloneStrategy \<Rightarrow> string" where
  "CloneStrategy_String FullCloneStrategy = []"
| "CloneStrategy_String BloblessCloneStrategy = ''blobless''"
| "CloneStrategy_String TreelessCloneStrategy = ''treeless''"
| "CloneStrategy_String ShallowCloneStrategy = ''shallow''"
| "CloneStrategy_String BareCloneStrategy = ''bare''"

record cloner =
  cl_extraArgs :: "string list"
  cl_cloneStrategy :: CloneStrategy
  cl_skipLFS :: bool

datatype clone_option = WithCloneStrategy CloneStrategy | WithRecursiveSubmodules | WithSkipLFS

fun apply_clone_option :: "clone_option \<Rightarrow> cloner \<Rightarrow> cloner" where
  "apply_clone_option (WithCloneStrategy s) c = c\<lparr>cl_cloneStrategy := s\<rparr>"
| "apply_clone_option WithRecursiveSubmodules c = c\<lparr>cl_extraArgs := cl_extraArgs c @ [''--recurse-submodules'']\<rparr>"
| "apply_clone_option WithSkipLFS c = c\<lparr>cl_skipLFS := True\<rparr>"

definition NewClonerWithOpts :: "clone_option list \<Rightarrow> cloner" where
  "NewClonerWithOpts options =
     fold apply_clone_option options \<lparr>cl_extraArgs = [], cl_cloneStrategy = FullCloneStrategy, cl_skipLFS = False\<rparr>"

fun initialArgs :: "CloneStrategy \<Rightarrow> string list" where
  "initialArgs BloblessCloneStrategy = [''clone'', ''--filter=blob:none'']"
| "initialArgs TreelessCloneStrategy = [''clone'', ''--filter=tree:0'']"
| "initialArgs ShallowCloneStrategy = [''clone'', ''--depth=1'']"
| "initialArgs BareCloneStrategy = [''clone'', ''--bare'', ''--depth=1'']"
| "initialArgs FullCloneStrategy = [''clone'']"

text \<open>A git command: the variables added to the environment, the arguments and the directory.\<close>

record git_command =
  gc_env :: "string list"
  gc_args :: "string list"
  gc_dir :: string

definition Clone_command :: "cloner \<Rightarrow> string \<Rightarrow> string \<Rightarrow> string list \<Rightarrow> string list \<Rightarrow> git_command" where
  "Clone_command c repository targetDir extraArgs extraEnv =
     \<lparr>gc_env = extraEnv @ (if cl_skipLFS c then [''GIT_LFS_SKIP_SMUDGE=1''] else []),
      gc_args = initialArgs (cl_cloneStrategy c) @ extraArgs @ cl_extraArgs c @ [repository, targetDir, ''--progress''],
      gc_dir = []\<rparr>"

definition GetDefaultExtraEnv :: "bool \<Rightarrow> string list" where
  "GetDefaultExtraEnv strict =
     [''GIT_TERMINAL_PROMPT=0'',
      ''GIT_SSH_COMMAND=ssh -oBatchMode=yes -oStrictHostKeyChecking='' @ (if strict then ''yes'' else ''no'')]"

text \<open>Commands run one after the other until one fails; an error gets the message of its step.\<close>

fun run_all :: "(git_command \<Rightarrow> gerr option) \<Rightarrow> (git_command \<times> (gerr \<Rightarrow> gerr)) list \<Rightarrow> git_command list \<times> unit result" where
  "run_all run [] = ([], Inr ())"
| "run_all run ((c, msg) # cs) =
     (case run c of
        Some e \<Rightarrow> ([c], Inl (msg e))
      | None \<Rightarrow> (let (ran, res) = run_all run cs in (c # ran, res)))"

definition checkoutPR :: "git_info \<Rightarrow> string list \<Rightarrow> string \<Rightarrow> (git_command \<times> (gerr \<Rightarrow> gerr)) list" where
  "checkoutPR info extraEnv targetDir =
     (let prBranch = GetBranchNameForPR (gi_PR info) in
      [(\<lparr>gc_env = extraEnv, gc_args = [''fetch'', ''origin'', gi_PR info @ '':'' @ prBranch], gc_dir = targetDir\<rparr>,
          wrap ''fetch pull request reference''),
       (\<lparr>gc_env = extraEnv, gc_args = [''switch'', prBranch], gc_dir = targetDir\<rparr>, wrap ''switch to branch'')])"

definition checkoutCommit :: "git_info \<Rightarrow> string list \<Rightarrow> string \<Rightarrow> (git_command \<times> (gerr \<Rightarrow> gerr)) list" where
  "checkoutCommit info extraEnv targetDir =
     [(\<lparr>gc_env = extraEnv, gc_args = [''reset'', ''--hard'', gi_Commit info], gc_dir = targetDir\<rparr>,
        wrap ''reset head to commit'')]"

definition CloneRepositoryWithEnv ::
    "(git_command \<Rightarrow> gerr option) \<Rightarrow> git_info \<Rightarrow> string list \<Rightarrow> string \<Rightarrow> string \<Rightarrow> bool \<Rightarrow> clone_option list \<Rightarrow>
     git_command list \<times> unit result" where
  "CloneRepositoryWithEnv run info extraEnv0 targetDir helper strict options =
     (let cloner = NewClonerWithOpts options;
          extraEnv = GetDefaultExtraEnv strict @ extraEnv0;
          extraArgs = (if helper \<noteq> [] then [''--config'', ''credential.helper='' @ helper] else []) @
                      (if gi_Branch info \<noteq> [] then [''--branch'', gi_Branch info] else []) in
      run_all run
        ((Clone_command cloner (gi_Repository info) targetDir extraArgs extraEnv, id) #
         (if gi_PR info \<noteq> [] then checkoutPR info extraEnv targetDir
          else if gi_Commit info \<noteq> [] then checkoutCommit info extraEnv targetDir
          else [])))"

definition CloneRepository ::
    "(git_command \<Rightarrow> gerr option) \<Rightarrow> git_info \<Rightarrow> string \<Rightarrow> string \<Rightarrow> bool \<Rightarrow> clone_option list \<Rightarrow>
     git_command list \<times> unit result" where
  "CloneRepository run info targetDir helper strict options =
     CloneRepositoryWithEnv run info [] targetDir helper strict options"

section \<open>Lemmas\<close>

lemma plain_repoBase [simp]: "plain_re repoBaseRegEx"
  by (simp add: repoBaseRegEx_def Opt_def Ch_def)

text \<open>The end of a reference: a delimiter, a non-empty word, and nothing more.\<close>

lemma mt_rest:
  "mt (Seqs [Lit d, Cap 2 (Plus (Cls p)), Eot]) Some (v, c) =
     (if HasPrefix v d \<and> drop (length d) v \<noteq> [] \<and> list_all p (drop (length d) v)
      then Some ([], (2, drop (length d) v) # c) else None)"
proof -
  let ?w = "drop (length d) v"
  let ?k = "\<lambda>s'. mt Eot Some (fst s', (2, take (length ?w - length (fst s')) ?w) # snd s')"
  have "mt (Plus (Cls p)) ?k (?w, c) =
      (if ?w \<noteq> [] \<and> list_all p ?w then Some ([], (2, ?w) # c) else None)"
  proof (cases "?w \<noteq> [] \<and> list_all p ?w")
    case True
    have "mt (Plus (Cls p)) ?k (?w, c) = Some ([], (2, ?w) # c)"
      by (rule mt_unique [where u = ?w and v = "[]"]) (use True in \<open>auto simp: lang_Plus_Cls split: if_splits\<close>)
    with True show ?thesis by simp
  next
    case False
    have "mt (Plus (Cls p)) ?k (?w, c) = None"
      by (rule mt_none) (use False in \<open>auto simp: lang_Plus_Cls\<close>)
    with False show ?thesis by simp
  qed
  then show ?thesis by (simp add: mt_Lit)
qed

lemma first_split_unique:
  "p @ a # y = q @ a # z \<Longrightarrow> a \<notin> set p \<Longrightarrow> a \<notin> set q \<Longrightarrow> p = q \<and> y = z"
proof (induction p arbitrary: q)
  case Nil
  then show ?case by (cases q) auto
next
  case (Cons b p)
  then show ?case by (cases q) auto
qed

lemma last_split_unique:
  assumes "u @ a # x = u' @ a # x'" "a \<notin> set x" "a \<notin> set x'"
  shows "x = x' \<and> u = u'"
proof -
  have "rev (u @ a # x) = rev (u' @ a # x')" using assms(1) by simp
  then have "rev x @ a # rev u = rev x' @ a # rev u'" by simp
  from first_split_unique [OF this] assms show ?thesis by simp
qed

lemma suffix_regex_hit:
  assumes s: "s = u @ d @ w" and u: "u \<in> lang repoBaseRegEx" and w: "w \<noteq> []" "list_all p w"
    and d: "d = CHR ''@'' # d'" "CHR ''@'' \<notin> set d'" "\<not> p CHR ''@''"
  shows "two_groups (suffix_regex d p) s = Some (u, w)"
proof -
  let ?k = "\<lambda>s'. mt (Seqs [Lit d, Cap 2 (Plus (Cls p)), Eot]) Some
    (fst s', (1, take (length s - length (fst s')) s) # snd s')"
  have at: "CHR ''@'' \<notin> set y" if "list_all p y" for y using that d(3) by (auto simp: list_all_iff)
  have "mt repoBaseRegEx ?k (s, []) = Some ([], [(2, w), (1, u)])"
  proof (rule mt_unique [where u = u and v = "d @ w"])
    show "?k (d @ w, []) = Some ([], [(2, w), (1, u)])" using w s by (simp add: mt_rest HasPrefix_def del: Seqs.simps)
    fix u' v' assume v': "s = u' @ v'" "?k (v', []) \<noteq> None"
    then have "HasPrefix v' d \<and> list_all p (drop (length d) v')"
      by (auto simp: mt_rest simp del: Seqs.simps split: if_splits)
    then obtain w' where "v' = d @ w'" "list_all p w'"
      by (metis HasPrefix_def append_take_drop_id)
    moreover have "u' @ CHR ''@'' # d' @ w' = u @ CHR ''@'' # d' @ w" if "v' = d @ w'" for w'
      using that s v'(1) d(1) by simp
    ultimately have "d' @ w' = d' @ w"
      using last_split_unique [of u' "CHR ''@''" "d' @ w'" u "d' @ w"] d(2) at w(2) by auto
    with \<open>v' = d @ w'\<close> d show "v' = d @ w" by simp
  qed (use s u in simp_all)
  then show ?thesis
    by (simp add: two_groups_def FindPrefixSubmatch_def match_at_def suffix_regex_def group_def)
qed

lemma suffix_regex_miss:
  assumes "\<And>u w. s = u @ d @ w \<Longrightarrow> w \<noteq> [] \<Longrightarrow> list_all p w \<Longrightarrow> False"
  shows "two_groups (suffix_regex d p) s = None"
proof -
  let ?k = "\<lambda>s'. mt (Seqs [Lit d, Cap 2 (Plus (Cls p)), Eot]) Some
    (fst s', (1, take (length s - length (fst s')) s) # snd s')"
  have "mt repoBaseRegEx ?k (s, []) = None"
  proof (rule mt_none)
    fix u v assume "s = u @ v"
    then show "?k (v, []) = None"
      using assms [of u "drop (length d) v"] by (auto simp: mt_rest HasPrefix_def simp del: Seqs.simps)
        (metis append_take_drop_id)
  qed simp
  then show ?thesis
    by (simp add: two_groups_def FindPrefixSubmatch_def match_at_def suffix_regex_def)
qed

definition pr_reference :: "string \<Rightarrow> bool" where
  "pr_reference s \<longleftrightarrow> (\<exists>n. s = ''pull/'' @ n @ ''/head'' \<and> n \<noteq> [] \<and> list_all is_digit n)"

lemma mt_number:
  assumes "\<And>v. v \<noteq> ''/head'' \<Longrightarrow> k (v, c) = None"
  shows "mt (Plus (Cls is_digit)) k (s, c) =
    (if \<exists>n. s = n @ ''/head'' \<and> n \<noteq> [] \<and> list_all is_digit n then k (''/head'', c) else None)"
proof (cases "\<exists>n. s = n @ ''/head'' \<and> n \<noteq> [] \<and> list_all is_digit n")
  case True
  then obtain n where n: "s = n @ ''/head''" "n \<noteq> []" "list_all is_digit n" by blast
  show ?thesis
  proof (cases "k (''/head'', c)")
    case None
    have "mt (Plus (Cls is_digit)) k (s, c) = None"
      by (rule mt_none) (use None assms in \<open>auto, metis\<close>)
    with None show ?thesis by simp
  next
    case (Some t)
    have "mt (Plus (Cls is_digit)) k (s, c) = Some t"
    proof (rule mt_unique [OF _ n(1)])
      fix u' v' assume "k (v', c) \<noteq> None"
      then show "v' = ''/head''" using assms [of v'] by argo
    qed (use n Some in \<open>auto simp: lang_Plus_Cls\<close>)
    with Some True show ?thesis by simp
  qed
next
  case False
  have "mt (Plus (Cls is_digit)) k (s, c) = None"
    by (rule mt_none) (use False assms in \<open>auto simp: lang_Plus_Cls\<close>)
  with False show ?thesis by auto
qed

lemma HasPrefix_split: "HasPrefix v d \<longleftrightarrow> v = d @ drop (length d) v"
  by (metis HasPrefix_def append_eq_conv_conj)

lemma mt_pull_request:
  fixes x :: string and c :: "(nat \<times> string) list"
  defines "kk \<equiv> \<lambda>s'. mt Eot Some (fst s', (2, take (length x - length (fst s')) x) # snd s')"
  shows "\<not> pr_reference x \<Longrightarrow> mt PullRequestReference kk (x, c) = None"
    and "pr_reference x \<Longrightarrow> \<exists>n. mt PullRequestReference kk (x, c) = Some ([], (2, x) # (3, n) # c)"
proof -
  define y where "y = drop (length ''pull/'') x"
  define k3 where "k3 = (\<lambda>s'. mt (Lit ''/head'') kk (fst s', (3, take (length y - length (fst s')) y) # snd s'))"
  have k3: "k3 (v, c) = (if v = ''/head'' then Some ([], (2, x) # (3, take (length y - length ''/head'') y) # c) else None)" for v
    by (auto simp: k3_def kk_def mt_Lit HasPrefix_split [of v] simp del: Lit.simps)
  have "mt PullRequestReference kk (x, c) =
      (if HasPrefix x ''pull/'' then mt (Plus (Cls is_digit)) k3 (y, c) else None)"
    by (simp add: PullRequestReference_def mt_Lit k3_def y_def del: Lit.simps)
  also have "\<dots> = (if HasPrefix x ''pull/'' \<and> (\<exists>n. y = n @ ''/head'' \<and> n \<noteq> [] \<and> list_all is_digit n)
      then k3 (''/head'', c) else None)"
    by (subst mt_number) (auto simp: k3)
  also have "HasPrefix x ''pull/'' \<and> (\<exists>n. y = n @ ''/head'' \<and> n \<noteq> [] \<and> list_all is_digit n) \<longleftrightarrow> pr_reference x"
    unfolding pr_reference_def y_def HasPrefix_split [of x] by auto
  finally show "\<not> pr_reference x \<Longrightarrow> mt PullRequestReference kk (x, c) = None"
    and "pr_reference x \<Longrightarrow> \<exists>n. mt PullRequestReference kk (x, c) = Some ([], (2, x) # (3, n) # c)"
    by (auto simp: k3)
qed

lemma mt_pr_rest:
  "\<not> (\<exists>x. v = CHR ''@'' # x \<and> pr_reference x) \<Longrightarrow>
    mt (Seqs [Lit ''@'', Cap 2 PullRequestReference, Eot]) Some (v, c) = None"
  "pr_reference x \<Longrightarrow> \<exists>n. mt (Seqs [Lit ''@'', Cap 2 PullRequestReference, Eot]) Some (CHR ''@'' # x, c) =
    Some ([], (2, x) # (3, n) # c)"
proof -
  assume no: "\<not> (\<exists>x. v = CHR ''@'' # x \<and> pr_reference x)"
  show "mt (Seqs [Lit ''@'', Cap 2 PullRequestReference, Eot]) Some (v, c) = None"
  proof (cases "HasPrefix v ''@''")
    case True
    then obtain x where x: "v = CHR ''@'' # x" by (cases v) (auto simp: HasPrefix_def)
    with no mt_pull_request(1) [of x c] show ?thesis by (simp add: mt_Lit HasPrefix_def del: Lit.simps)
  qed (simp add: mt_Lit del: Lit.simps)
next
  assume "pr_reference x"
  from mt_pull_request(2) [OF this, of c]
  show "\<exists>n. mt (Seqs [Lit ''@'', Cap 2 PullRequestReference, Eot]) Some (CHR ''@'' # x, c) =
    Some ([], (2, x) # (3, n) # c)"
    by (simp add: mt_Lit HasPrefix_def del: Lit.simps)
qed

lemma pr_reference_no_at: "pr_reference x \<Longrightarrow> CHR ''@'' \<notin> set x"
  by (fastforce simp: pr_reference_def list_all_iff is_digit_def)

lemma pr_regex_hit:
  assumes s: "s = u @ CHR ''@'' # x" and u: "u \<in> lang repoBaseRegEx" and x: "pr_reference x"
  shows "two_groups git_prReferenceRegEx s = Some (u, x)"
proof -
  let ?k = "\<lambda>s'. mt (Seqs [Lit ''@'', Cap 2 PullRequestReference, Eot]) Some
    (fst s', (1, take (length s - length (fst s')) s) # snd s')"
  obtain n where n: "?k (CHR ''@'' # x, []) = Some ([], [(2, x), (3, n), (1, u)])"
    using mt_pr_rest(2) [OF x, of "[(1, u)]"] s by auto
  have "mt repoBaseRegEx ?k (s, []) = Some ([], [(2, x), (3, n), (1, u)])"
  proof (rule mt_unique [where u = u and v = "CHR ''@'' # x"])
    show "?k (CHR ''@'' # x, []) = Some ([], [(2, x), (3, n), (1, u)])" by (rule n)
    fix u' v' assume v': "s = u' @ v'" "?k (v', []) \<noteq> None"
    then obtain x' where x': "v' = CHR ''@'' # x'" "pr_reference x'"
      using mt_pr_rest(1) [of v'] by (metis fst_conv)
    then show "v' = CHR ''@'' # x"
      using last_split_unique [of u' "CHR ''@''" x' u x] s v'(1) pr_reference_no_at x by auto
  qed (use s u in simp_all)
  then show ?thesis
    by (simp add: two_groups_def FindPrefixSubmatch_def match_at_def git_prReferenceRegEx_def group_def)
qed

lemma pr_regex_miss:
  assumes "\<And>u x. s = u @ CHR ''@'' # x \<Longrightarrow> pr_reference x \<Longrightarrow> False"
  shows "two_groups git_prReferenceRegEx s = None"
proof -
  let ?k = "\<lambda>s'. mt (Seqs [Lit ''@'', Cap 2 PullRequestReference, Eot]) Some
    (fst s', (1, take (length s - length (fst s')) s) # snd s')"
  have "mt repoBaseRegEx ?k (s, []) = None"
  proof (rule mt_none)
    fix u v assume "s = u @ v"
    with assms have "\<not> (\<exists>x. v = CHR ''@'' # x \<and> pr_reference x)" by blast
    then show "?k (v, []) = None" using mt_pr_rest(1) by (simp only: fst_conv)
  qed simp
  then show ?thesis
    by (simp add: two_groups_def FindPrefixSubmatch_def match_at_def git_prReferenceRegEx_def)
qed

section \<open>Normalising references\<close>

definition full_match :: "re \<Rightarrow> string \<Rightarrow> bool" where
  "full_match r s \<longleftrightarrow> mt r (mt Eot Some) (s, []) \<noteq> None"

lemma full_match_lang: "plain_re r \<Longrightarrow> full_match r s \<longleftrightarrow> s \<in> lang r"
proof
  assume r: "plain_re r"
  show "s \<in> lang r" if m: "full_match r s"
  proof -
    obtain t where "mt r (mt Eot Some) (s, []) = Some t" using m unfolding full_match_def by blast
    from mt_sound [OF r this] show ?thesis by (auto split: if_splits)
  qed
  show "full_match r s" if "s \<in> lang r"
    unfolding full_match_def by (rule mt_complete [OF r, of s s "[]"]) (use that in auto)
qed

text \<open>A repository that carries no reference of its own.\<close>

definition plain_repo :: "string \<Rightarrow> bool" where
  "plain_repo r \<longleftrightarrow> has_scheme r \<and> full_match repoBaseRegEx r \<and>
     two_groups git_branchRegEx r = None \<and> two_groups git_commitRegEx r = None \<and>
     two_groups git_subPathRegEx r = None \<and> two_groups git_prReferenceRegEx r = None"

lemma HasPrefix_append: "HasPrefix r d \<Longrightarrow> HasPrefix (r @ s) d"
  by (metis HasPrefix_def HasPrefix_split append.assoc append_eq_conv_conj)

lemma HasPrefix_set: "HasPrefix b d \<Longrightarrow> set d \<subseteq> set b"
  by (metis HasPrefix_def set_take_subset)

lemma has_scheme_append: "has_scheme r \<Longrightarrow> has_scheme (r @ s)"
  unfolding has_scheme_def using HasPrefix_append by blast

lemma ref_chars: "\<not> is_ref_char CHR ''@''" "\<not> is_ref_char CHR '':''" "\<not> is_alnum CHR ''@''" "\<not> is_alnum CHR '':''"
  by (simp_all add: is_ref_char_def is_alnum_def is_digit_def is_upper_def is_lower_def)

lemma words_no_at: "list_all is_ref_char w \<Longrightarrow> CHR ''@'' \<notin> set w \<and> CHR '':'' \<notin> set w"
  "list_all is_alnum w \<Longrightarrow> CHR ''@'' \<notin> set w \<and> CHR '':'' \<notin> set w"
  using ref_chars by (auto simp: list_all_iff)

text \<open>Only the part after the last at sign can be a reference.\<close>

lemma reference_miss:
  assumes "CHR ''@'' \<notin> set x"
  shows "\<not> pr_reference x \<Longrightarrow> two_groups git_prReferenceRegEx (r @ CHR ''@'' # x) = None"
    and "\<not> HasPrefix x ''subpath:'' \<Longrightarrow> two_groups git_subPathRegEx (r @ CHR ''@'' # x) = None"
    and "\<not> HasPrefix x ''sha256:'' \<Longrightarrow> two_groups git_commitRegEx (r @ CHR ''@'' # x) = None"
    and "\<not> list_all is_ref_char x \<Longrightarrow> two_groups git_branchRegEx (r @ CHR ''@'' # x) = None"
proof -
  have x: "y = x" if "r @ CHR ''@'' # x = u @ CHR ''@'' # y" "CHR ''@'' \<notin> set y" for u y
    using last_split_unique [OF that(1) assms that(2)] by simp
  show "two_groups git_prReferenceRegEx (r @ CHR ''@'' # x) = None" if "\<not> pr_reference x"
    by (rule pr_regex_miss) (use x that pr_reference_no_at in blast)
  show "two_groups git_subPathRegEx (r @ CHR ''@'' # x) = None" if "\<not> HasPrefix x ''subpath:''"
    unfolding git_subPathRegEx_def
  proof (rule suffix_regex_miss)
    fix u w assume "r @ CHR ''@'' # x = u @ SubPathDelimiter @ w" "list_all is_ref_char w"
    with x [of u "''subpath:'' @ w"] words_no_at(1) have "x = ''subpath:'' @ w" by (auto simp: SubPathDelimiter_def)
    with that show False by (simp add: HasPrefix_def)
  qed
  show "two_groups git_commitRegEx (r @ CHR ''@'' # x) = None" if "\<not> HasPrefix x ''sha256:''"
    unfolding git_commitRegEx_def
  proof (rule suffix_regex_miss)
    fix u w assume "r @ CHR ''@'' # x = u @ CommitDelimiter @ w" "list_all is_alnum w"
    with x [of u "''sha256:'' @ w"] words_no_at(2) have "x = ''sha256:'' @ w" by (auto simp: CommitDelimiter_def)
    with that show False by (simp add: HasPrefix_def)
  qed
  show "two_groups git_branchRegEx (r @ CHR ''@'' # x) = None" if "\<not> list_all is_ref_char x"
    unfolding git_branchRegEx_def
    by (rule suffix_regex_miss) (use x that words_no_at(1) in auto)
qed

lemma reference_hit:
  assumes "full_match repoBaseRegEx r"
  shows "pr_reference x \<Longrightarrow> two_groups git_prReferenceRegEx (r @ CHR ''@'' # x) = Some (r, x)"
    and "x \<noteq> [] \<Longrightarrow> list_all is_ref_char x \<Longrightarrow> two_groups git_branchRegEx (r @ CHR ''@'' # x) = Some (r, x)"
    and "x \<noteq> [] \<Longrightarrow> list_all is_alnum x \<Longrightarrow> two_groups git_commitRegEx (r @ CommitDelimiter @ x) = Some (r, x)"
    and "x \<noteq> [] \<Longrightarrow> list_all is_ref_char x \<Longrightarrow> two_groups git_subPathRegEx (r @ SubPathDelimiter @ x) = Some (r, x)"
proof -
  have r: "r \<in> lang repoBaseRegEx" using assms full_match_lang by simp
  show "pr_reference x \<Longrightarrow> two_groups git_prReferenceRegEx (r @ CHR ''@'' # x) = Some (r, x)"
    by (rule pr_regex_hit [OF refl r])
  show "x \<noteq> [] \<Longrightarrow> list_all is_ref_char x \<Longrightarrow> two_groups git_branchRegEx (r @ CHR ''@'' # x) = Some (r, x)"
    unfolding git_branchRegEx_def by (rule suffix_regex_hit [OF _ r]) (auto simp: ref_chars)
  show "x \<noteq> [] \<Longrightarrow> list_all is_alnum x \<Longrightarrow> two_groups git_commitRegEx (r @ CommitDelimiter @ x) = Some (r, x)"
    unfolding git_commitRegEx_def by (rule suffix_regex_hit [OF _ r]) (auto simp: ref_chars CommitDelimiter_def)
  show "x \<noteq> [] \<Longrightarrow> list_all is_ref_char x \<Longrightarrow> two_groups git_subPathRegEx (r @ SubPathDelimiter @ x) = Some (r, x)"
    unfolding git_subPathRegEx_def by (rule suffix_regex_hit [OF _ r]) (auto simp: ref_chars SubPathDelimiter_def)
qed

lemma NormalizeRepository_plain: "plain_repo r \<Longrightarrow> NormalizeRepository r = (r, [], [], [], [])"
  by (simp add: NormalizeRepository_def plain_repo_def)

lemma NormalizeRepository_pr:
  assumes "plain_repo r" "pr_reference x"
  shows "NormalizeRepository (r @ ''@'' @ x) = (r, x, [], [], [])"
  using assms by (simp add: NormalizeRepository_def plain_repo_def has_scheme_append reference_hit(1))

lemma NormalizeRepository_branch:
  assumes "plain_repo r" "b \<noteq> []" "list_all is_ref_char b" "\<not> pr_reference b"
  shows "NormalizeRepository (r @ ''@'' @ b) = (r, [], b, [], [])"
proof -
  have "\<not> HasPrefix b ''subpath:''" using words_no_at(1) [OF assms(3)] HasPrefix_set [of b] by fastforce
  with assms words_no_at(1) [OF assms(3)] reference_hit(2) [of r b]
  show ?thesis
    by (simp add: NormalizeRepository_def plain_repo_def has_scheme_append reference_miss(1,2))
qed

lemma NormalizeRepository_commit:
  assumes "plain_repo r" "c \<noteq> []" "list_all is_alnum c"
  shows "NormalizeRepository (r @ CommitDelimiter @ c) = (r, [], [], c, [])"
proof -
  define x where "x = ''sha256:'' @ c"
  have eq: "CommitDelimiter @ c = CHR ''@'' # x" by (simp add: CommitDelimiter_def x_def)
  have x: "CHR ''@'' \<notin> set x" "\<not> HasPrefix x ''subpath:''" "\<not> list_all is_ref_char x" "\<not> pr_reference x"
    using words_no_at(2) [OF assms(3)] ref_chars by (auto simp: HasPrefix_def pr_reference_def x_def)
  show ?thesis
    using assms reference_hit(3) [of r c]
    unfolding NormalizeRepository_def eq
    by (simp add: plain_repo_def has_scheme_append reference_miss(1,2,4) x)
qed

end
