(* ===== verification/Go_Path.thy ===== *)
theory Go_Path
  imports Prelude
begin

text \<open>
  The slash-separated paths of Go's package \<open>path\<close>, which \<open>path/filepath\<close> agrees with on Unix:
  \<open>Clean\<close>, \<open>Join\<close>, \<open>Dir\<close>, \<open>Base\<close>.
\<close>

section \<open>Definitions\<close>

text \<open>The elements that remain: \<open>kept\<close> is the result so far, innermost first.\<close>

fun clean_elems :: "bool \<Rightarrow> string list \<Rightarrow> string list \<Rightarrow> string list" where
  "clean_elems rooted kept [] = rev kept"
| "clean_elems rooted kept (e # es) =
     (if e = [] \<or> e = ''.'' then clean_elems rooted kept es
      else if e = ''..'' then
        (case kept of
           [] \<Rightarrow> clean_elems rooted (if rooted then [] else [''..'']) es
         | k # ks \<Rightarrow> if k = ''..'' then clean_elems rooted (''..'' # kept) es else clean_elems rooted ks es)
      else clean_elems rooted (e # kept) es)"

definition Clean :: "string \<Rightarrow> string" where
  "Clean p =
     (let rooted = HasPrefix p ''/'';
          s = (if rooted then ''/'' else []) @ Join (clean_elems rooted [] (Split CHR ''/'' p)) ''/'' in
      if s = [] then ''.'' else s)"

fun path_Join :: "string list \<Rightarrow> string" where
  "path_Join [] = []"
| "path_Join (e # es) = (if e = [] then path_Join es else Clean (Join (e # es) ''/''))"

definition after_last_slash :: "string \<Rightarrow> string" where
  "after_last_slash p = rev (takeWhile (\<lambda>c. c \<noteq> CHR ''/'') (rev p))"

definition upto_last_slash :: "string \<Rightarrow> string" where
  "upto_last_slash p = rev (dropWhile (\<lambda>c. c \<noteq> CHR ''/'') (rev p))"

definition path_Dir :: "string \<Rightarrow> string" where
  "path_Dir p = Clean (upto_last_slash p)"

definition path_Base :: "string \<Rightarrow> string" where
  "path_Base p =
     (if p = [] then ''.''
      else (let b = after_last_slash (rev (dropWhile (\<lambda>c. c = CHR ''/'') (rev p))) in
            if b = [] then ''/'' else b))"

section \<open>Lemmas\<close>

lemma path_split: "p = upto_last_slash p @ after_last_slash p"
  unfolding upto_last_slash_def after_last_slash_def
  by (simp flip: rev_append)

lemma clean_elems_append:
  "clean_elems r kept (xs @ ys) = clean_elems r (rev (clean_elems r kept xs)) ys"
  by (induction r kept xs rule: clean_elems.induct) (auto split: list.splits)

text \<open>A plain name: it survives cleaning and adds one element to a path.\<close>

definition plain_name :: "string \<Rightarrow> bool" where
  "plain_name e \<longleftrightarrow> e \<noteq> [] \<and> e \<noteq> ''.'' \<and> e \<noteq> ''..'' \<and> CHR ''/'' \<notin> set e"

lemma clean_elems_plain: "list_all plain_name es \<Longrightarrow> clean_elems r kept es = rev kept @ es"
  by (induction es arbitrary: kept) (auto simp: plain_name_def)

lemma clean_elems_elems:
  "set (clean_elems r kept es) \<subseteq> set kept \<union> set es"
  by (induction r kept es rule: clean_elems.induct) (auto split: list.splits)

lemma clean_elems_nonempty:
  "[] \<notin> set kept \<Longrightarrow> [] \<notin> set (clean_elems r kept es)"
  by (induction r kept es rule: clean_elems.induct) (auto split: list.splits)

lemma path_Join_plain:
  assumes "d \<noteq> []" "list_all plain_name es" "es \<noteq> []"
  shows "path_Join (d # es) =
    (if HasPrefix d ''/'' then ''/'' else []) @
      Join (clean_elems (HasPrefix d ''/'') [] (Split CHR ''/'' d) @ es) ''/''"
proof -
  have es: "Join (d # es) ''/'' = d @ CHR ''/'' # Join es ''/''" using assms(3) by (cases es) auto
  have "Split CHR ''/'' (Join (d # es) ''/'') = Split CHR ''/'' d @ es"
  proof -
    have "Split CHR ''/'' (Join es ''/'') = es"
      using assms(2,3) by (intro Split_Join) (auto simp: list_all_iff plain_name_def)
    then show ?thesis by (simp add: es Split_append')
  qed
  moreover have "HasPrefix (Join (d # es) ''/'') ''/'' = HasPrefix d ''/''"
    unfolding es using assms(1) by (cases d) (auto simp: HasPrefix_def)
  moreover have "Join (xs @ es) ''/'' \<noteq> []" for xs
    using assms(2,3) by (cases xs) (auto simp: plain_name_def)
  ultimately show ?thesis
    using assms(1,2) by (auto simp: Clean_def clean_elems_append clean_elems_plain Let_def)
qed

lemma path_Join_inject:
  assumes "d \<noteq> []" "list_all plain_name es" "es \<noteq> []" "list_all plain_name es'" "es' \<noteq> []"
    and eq: "path_Join (d # es) = path_Join (d # es')"
  shows "es = es'"
proof -
  let ?c = "clean_elems (HasPrefix d ''/'') [] (Split CHR ''/'' d)"
  have c: "CHR ''/'' \<notin> set x" if "x \<in> set ?c" for x
    using that clean_elems_elems [of "HasPrefix d ''/''" "[]"] Split_elems by fastforce
  have "Join (?c @ es) ''/'' = Join (?c @ es') ''/''"
    using eq assms by (auto simp: path_Join_plain simp del: path_Join.simps split: if_splits)
  moreover have "Split CHR ''/'' (Join (?c @ xs) ''/'') = ?c @ xs" if "list_all plain_name xs" "xs \<noteq> []" for xs
    using that c by (intro Split_Join) (auto simp: list_all_iff plain_name_def)
  ultimately show ?thesis using assms by (metis same_append_eq)
qed

text \<open>Cleaning is idempotent: on the stack of kept elements a double dot only lies on double dots.\<close>

fun kept_ok :: "bool \<Rightarrow> string list \<Rightarrow> bool" where
  "kept_ok r [] = True"
| "kept_ok r (k # ks) =
     (k \<noteq> [] \<and> k \<noteq> ''.'' \<and> (if k = ''..'' then \<not> r \<and> (\<forall>x \<in> set ks. x = ''..'') else kept_ok r ks))"

lemma kept_ok_dots: "\<not> r \<Longrightarrow> \<forall>x \<in> set ks. x = ''..'' \<Longrightarrow> kept_ok r ks"
  by (induction ks) auto

lemma kept_ok_append: "kept_ok r (xs @ ys) \<Longrightarrow> kept_ok r ys"
  by (induction xs) (auto intro: kept_ok_dots split: if_splits)

lemma kept_ok_clean: "kept_ok r kept \<Longrightarrow> kept_ok r (rev (clean_elems r kept es))"
proof (induction r kept es rule: clean_elems.induct)
  case (2 r kept e es)
  then show ?case by (cases kept) auto
qed simp

lemma clean_elems_fixed: "kept_ok r (rev es @ kept) \<Longrightarrow> clean_elems r kept es = rev kept @ es"
proof (induction es arbitrary: kept)
  case (Cons e es)
  have "kept_ok r (e # kept)" using Cons.prems kept_ok_append [of r "rev es" "e # kept"] by simp
  with Cons show ?case by (cases kept) auto
qed simp

lemma path_Join_nested:
  assumes "d \<noteq> []" "list_all plain_name es" "es \<noteq> []" "list_all plain_name fs" "fs \<noteq> []"
  shows "path_Join (path_Join (d # es) # fs) = path_Join (d # es @ fs)"
proof -
  let ?r = "HasPrefix d ''/''"
  define c where "c = clean_elems ?r [] (Split CHR ''/'' d)"
  define p where "p = path_Join (d # es)"
  have p: "p = (if ?r then ''/'' else []) @ Join (c @ es) ''/''"
    unfolding p_def c_def by (rule path_Join_plain) (use assms in auto)
  have el: "CHR ''/'' \<notin> set x" if "x \<in> set (c @ es)" for x
    using that assms(2) clean_elems_elems [of ?r "[]" "Split CHR ''/'' d"] Split_elems
    by (fastforce simp: c_def list_all_iff plain_name_def)
  have ne: "[] \<notin> set (c @ es)"
    using clean_elems_nonempty [of "[]" ?r "Split CHR ''/'' d"] assms(2)
    by (auto simp: c_def list_all_iff plain_name_def)
  have sp: "Split CHR ''/'' (Join (c @ es) ''/'') = c @ es" by (rule Split_Join) (use assms(3) el in auto)
  obtain x xs where x: "c @ es = x # xs" "x \<noteq> []" "hd x \<noteq> CHR ''/''"
    using ne el assms(3) by (cases "c @ es") (auto, metis list.set_intros(1) list.set_sel(1))
  then have j: "Join (c @ es) ''/'' = x @ (if xs = [] then [] else CHR ''/'' # Join xs ''/'')" by (cases xs) auto
  have r: "HasPrefix p ''/'' = ?r" using x j p by (cases x) (auto simp: HasPrefix_def)
  have "clean_elems ?r [] (Split CHR ''/'' p) = clean_elems ?r [] (c @ es)"
    using sp p by simp
  also have "\<dots> = c @ es"
    using clean_elems_append [of ?r "[]" c es] kept_ok_clean [of ?r "[]" "Split CHR ''/'' d"]
      clean_elems_fixed [of ?r c "[]"] clean_elems_plain [OF assms(2)]
    by (simp add: c_def)
  finally have "clean_elems (HasPrefix p ''/'') [] (Split CHR ''/'' p) = c @ es" using r by simp
  moreover have "p \<noteq> []" using p j x by auto
  ultimately have "path_Join (p # fs) = (if ?r then ''/'' else []) @ Join ((c @ es) @ fs) ''/''"
    using path_Join_plain [of p fs] assms r by simp
  then show ?thesis using path_Join_plain [of d "es @ fs"] assms by (simp add: p_def c_def)
qed

end
