(* ===== verification/Ids.thy ===== *)
theory Ids
  imports Git Go_Path
begin

text \<open>
  Identifiers made from names: \<^verbatim>\<open>pkg/workspace/id.go\<close>, \<^verbatim>\<open>pkg/id/id.go\<close> and \<open>ToProInstanceID\<close> of
  \<^verbatim>\<open>pkg/provider/dir.go\<close>.  The hash function of the standard library is an argument.
\<close>

section \<open>Definitions\<close>

text \<open>\<open>strings.ReplaceAll\<close> for a non-empty old text.\<close>

function ReplaceAll :: "string \<Rightarrow> string \<Rightarrow> string \<Rightarrow> string" where
  "ReplaceAll old new [] = []"
| "ReplaceAll old new (c # cs) =
     (if old \<noteq> [] \<and> HasPrefix (c # cs) old then new @ ReplaceAll old new (drop (length old) (c # cs))
      else c # ReplaceAll old new cs)"
  by pat_completeness auto
termination by (relation "measure (\<lambda>(_, _, s). length s)") auto

definition workspaceIDRegEx1 :: re where
  "workspaceIDRegEx1 = Cls (\<lambda>c. \<not> (is_word c \<or> c = CHR ''-''))"

definition is_id_char :: "char \<Rightarrow> bool" where
  "is_id_char c \<longleftrightarrow> is_digit c \<or> is_lower c \<or> c = CHR ''-''"

definition workspaceIDRegEx2 :: re where
  "workspaceIDRegEx2 = Plus (Cls (\<lambda>c. \<not> is_id_char c))"

definition id_branchRegEx :: re where
  "id_branchRegEx = Plus (Cls (\<lambda>c. \<not> (is_alnum c \<or> c = CHR ''.'' \<or> c = CHR ''-'')))"

definition ToID :: "string \<Rightarrow> string" where
  "ToID str0 =
     (let str = ToLower str0;
          splitted = Split CHR ''@'' str;
          name =
            (if length splitted = 2 then
               (if MatchString PullRequestReference str
                then ReplaceAllStringFunc PullRequestReference GetIDForPR (splitted ! 1)
                else (let branch = TrimSuffix (splitted ! 1) ''.git'' in
                      if \<not> MatchString id_branchRegEx branch then splitted ! 0 else branch))
             else
               (let s = TrimSuffix str ''/'' in
                if CHR ''/'' \<in> set s
                then TrimSuffix
                       (if length splitted = 2 \<and> \<not> MatchString id_branchRegEx (splitted ! 1) then splitted ! 0
                        else after_last_slash s) ''.git''
                else s));
          cleaned = ReplaceAllString workspaceIDRegEx2 (ReplaceAllString workspaceIDRegEx1 name ''-'') [] in
      Trim (if length cleaned > 48 then take 48 cleaned else cleaned) ''-'')"

definition SafeConcatNameMax :: "(string \<Rightarrow> string) \<Rightarrow> string list \<Rightarrow> nat \<Rightarrow> string" where
  "SafeConcatNameMax sha256_hex name limit =
     (let fullPath = Join name ''-'' in
      if length fullPath > limit
      then ReplaceAll ''.-'' ''-'' (take (limit - 8) fullPath @ ''-'' @ take 7 (sha256_hex fullPath))
      else fullPath)"

definition SafeConcatName :: "(string \<Rightarrow> string) \<Rightarrow> string list \<Rightarrow> string" where
  "SafeConcatName sha256_hex name = SafeConcatNameMax sha256_hex name 63"

definition dockerImageNameRegEx :: re where
  "dockerImageNameRegEx = Plus (Cls (\<lambda>c. \<not> (is_lower c \<or> is_digit c \<or> c = CHR ''-'' \<or> c = CHR ''_'')))"

definition ToDockerImageName :: "string \<Rightarrow> string" where
  "ToDockerImageName name = ReplaceAllString dockerImageNameRegEx (ToLower name) []"

definition ToProInstanceID :: "(string \<Rightarrow> string) \<Rightarrow> string \<Rightarrow> string" where
  "ToProInstanceID sha256_hex url =
     (let u = ToLower (TrimPrefix url ''https://'') in
      SafeConcatNameMax sha256_hex
        [Trim (ReplaceAllString workspaceIDRegEx2 (ReplaceAllString workspaceIDRegEx1 u ''-'') []) ''-''] 32)"

section \<open>Lemmas\<close>

lemma match_at_Cls: "match_at (Cls p) (c # cs) = (if p c then Some (cs, []) else None)"
  by (simp add: match_at_def)

lemma ReplaceAll_Cls: "ReplaceAllString (Cls p) s [d] = map (\<lambda>c. if p c then d else c) s"
  by (induction s) (auto simp: ReplaceAllString_def match_at_Cls)

lemma match_at_Plus_Cls:
  "match_at (Plus (Cls p)) (c # cs) = (if p c then Some (dropWhile p (c # cs), []) else None)"
  unfolding match_at_def by (subst mt_Plus_Cls) auto

lemma filter_not_dropWhile: "filter (\<lambda>c. \<not> p c) (dropWhile p s) = filter (\<lambda>c. \<not> p c) s"
  by (induction s) auto

lemma ReplaceAll_Plus_Cls: "ReplaceAllString (Plus (Cls p)) s [] = filter (\<lambda>c. \<not> p c) s"
proof (induction "length s" arbitrary: s rule: less_induct)
  case less
  show ?case
  proof (cases s)
    case (Cons c cs)
    have "length (dropWhile p cs) \<le> length cs" by (rule length_dropWhile_le)
    then show ?thesis
      using less [of cs] less [of "dropWhile p cs"] Cons
      by (auto simp: ReplaceAllString_def match_at_Plus_Cls filter_not_dropWhile)
  qed (simp add: ReplaceAllString_def)
qed

lemma set_trim_with: "set (trim_with p s) \<subseteq> set s"
  unfolding trim_with_def by (metis set_dropWhileD set_rev subsetI)

lemma trim_with_length: "length (trim_with p s) \<le> length s"
  unfolding trim_with_def by (metis length_dropWhile_le length_rev order_trans)

lemma trim_with_ends: "trim_with p s \<noteq> [] \<Longrightarrow> \<not> p (hd (trim_with p s)) \<and> \<not> p (last (trim_with p s))"
proof -
  assume ne: "trim_with p s \<noteq> []"
  define u where "u = dropWhile p s"
  define v where "v = dropWhile p (rev u)"
  have t: "trim_with p s = rev v" by (simp add: trim_with_def u_def v_def)
  have v: "v \<noteq> []" using ne t by simp
  then have "\<not> p (hd v)" unfolding v_def by (rule hd_dropWhile)
  moreover have "rev u = takeWhile p (rev u) @ v" by (simp add: v_def)
  then have "last v = hd u" using v by (metis last_appendR last_rev)
  moreover have "u \<noteq> []" using v by (auto simp: v_def)
  then have "\<not> p (hd u)" unfolding u_def by (rule hd_dropWhile)
  ultimately show ?thesis using v t by (simp add: hd_rev last_rev)
qed

lemma trim_with_id: "s = [] \<or> \<not> p (hd s) \<and> \<not> p (last s) \<Longrightarrow> trim_with p s = s"
  unfolding trim_with_def using dropWhile_eq_self_iff [of p s] dropWhile_eq_self_iff [of p "rev s"]
  by (auto simp: hd_rev)

text \<open>The form of an identifier.\<close>

definition valid_id :: "string \<Rightarrow> bool" where
  "valid_id s \<longleftrightarrow> list_all is_id_char s \<and> length s \<le> 48 \<and> (s = [] \<or> hd s \<noteq> CHR ''-'' \<and> last s \<noteq> CHR ''-'')"

definition clean_id :: "string \<Rightarrow> string" where
  "clean_id s = filter is_id_char (map (\<lambda>c. if \<not> (is_word c \<or> c = CHR ''-'') then CHR ''-'' else c) s)"

lemma clean_id_regex:
  "ReplaceAllString workspaceIDRegEx2 (ReplaceAllString workspaceIDRegEx1 s ''-'') [] = clean_id s"
  by (simp add: workspaceIDRegEx1_def workspaceIDRegEx2_def ReplaceAll_Cls ReplaceAll_Plus_Cls clean_id_def)

lemma ToID_parts: "\<exists>name. ToID s = Trim (take 48 (clean_id name)) ''-''"
proof -
  have t: "(if length x > 48 then take 48 x else x) = take 48 x" for x :: string by simp
  show ?thesis unfolding ToID_def Let_def clean_id_regex t by (rule exI, rule refl)
qed

lemma ToID_valid: "valid_id (ToID s)"
proof -
  obtain name where id: "ToID s = trim_with (\<lambda>c. c \<in> set ''-'') (take 48 (clean_id name))"
    using ToID_parts [of s] by (auto simp: Trim_def)
  have "set (ToID s) \<subseteq> set (clean_id name)"
    unfolding id using set_trim_with set_take_subset by (metis subset_trans)
  then have "list_all is_id_char (ToID s)" by (auto simp: clean_id_def list_all_iff)
  moreover have "length (ToID s) \<le> 48"
    unfolding id using trim_with_length [of _ "take 48 (clean_id name)"] by (metis length_take min.cobounded2 order_trans)
  moreover have "ToID s = [] \<or> hd (ToID s) \<noteq> CHR ''-'' \<and> last (ToID s) \<noteq> CHR ''-''"
    unfolding id using trim_with_ends [of "\<lambda>c. c \<in> set ''-''" "take 48 (clean_id name)"] by auto
  ultimately show ?thesis by (simp add: valid_id_def)
qed

lemma id_char_facts:
  assumes "is_id_char c"
  shows "to_lower_char c = c" "is_word c \<or> c = CHR ''-''" "c \<noteq> CHR ''@''" "c \<noteq> CHR ''/''" "c \<noteq> CHR ''.''"
  using assms by (auto simp: is_id_char_def to_lower_char_def Let_def is_word_def is_alnum_def is_digit_def
      is_lower_def is_upper_def)

lemma ToID_fixed: "valid_id s \<Longrightarrow> ToID s = s"
proof -
  assume v: "valid_id s"
  then have c: "is_id_char c" if "c \<in> set s" for c using that by (auto simp: valid_id_def list_all_iff)
  have low: "ToLower s = s" unfolding ToLower_def by (rule map_idI) (use c id_char_facts(1) in blast)
  have "CHR ''@'' \<notin> set s" "CHR ''/'' \<notin> set s" using c id_char_facts(3,4) by blast+
  then have sp: "Split CHR ''@'' s = [s]" "TrimSuffix s ''/'' = s" "CHR ''/'' \<notin> set s"
    by (auto simp: Split_no TrimSuffix_def HasSuffix_def dest: in_set_dropD) (metis in_set_dropD list.set_intros(1))
  have cl: "clean_id s = s"
  proof -
    have "map (\<lambda>c. if \<not> (is_word c \<or> c = CHR ''-'') then CHR ''-'' else c) s = s"
      by (rule map_idI) (use c id_char_facts(2) in auto)
    then show ?thesis unfolding clean_id_def using c by (simp add: filter_True)
  qed
  have "Trim s ''-'' = s" unfolding Trim_def by (rule trim_with_id) (use v in \<open>auto simp: valid_id_def\<close>)
  then show ?thesis using v by (simp add: ToID_def low sp cl clean_id_regex valid_id_def)
qed

end
