(* ===== verification/Provider_Properties.thy ===== *)
theory Provider_Properties
  imports Provider Ids Resolver
begin

text \<open>
  The properties of the validation of providers and of the parser for option values of the command
  line.
\<close>

section \<open>Validation\<close>

text \<open>What a valid provider is, without an order among the checks.\<close>

definition valid_provider_name :: "string \<Rightarrow> bool" where
  "valid_provider_name s \<longleftrightarrow> s \<noteq> [] \<and> length s \<le> 32 \<and> list_all is_provider_name_char s"

definition valid_option :: "(string \<Rightarrow> bool) \<Rightarrow> string \<Rightarrow> opt \<Rightarrow> bool" where
  "valid_option compiles k d \<longleftrightarrow>
     list_all is_var_char k \<and>
     (ValidationPattern d = [] \<or> compiles (ValidationPattern d)) \<and>
     (Default d = [] \<or> Command d = []) \<and>
     (Global d \<longrightarrow> Cache d = [] \<and> \<not> Mutable d) \<and>
     (Cache d \<noteq> [] \<longrightarrow> Command d \<noteq> [] \<and> ParseDuration (Cache d) \<noteq> None) \<and>
     (Type d = [] \<or> Type d \<in> set allowedTypes)"

definition is_archive :: "string \<Rightarrow> bool" where
  "is_archive path \<longleftrightarrow> (\<exists>x \<in> {''.gz'', ''.tar'', ''.tgz'', ''.zip''}. HasSuffix path x)"

definition valid_binaries :: "provider_binary list gomap \<Rightarrow> bool" where
  "valid_binaries m \<longleftrightarrow> (\<forall>(name, bs) \<in> set m. list_all is_var_char name \<and>
     (\<forall>b \<in> set bs. bin_OS b \<in> {''linux'', ''darwin'', ''windows''} \<and> bin_Path b \<noteq> [] \<and> bin_Arch b \<noteq> [] \<and>
        (is_archive (bin_Path b) \<longrightarrow> bin_ArchivePath b \<noteq> [])))"

definition no_machine :: "provider \<Rightarrow> bool" where
  "no_machine p \<longleftrightarrow> (let e = pr_Exec p in pr_Agent p = zero_agent \<and> ex_Command e = [] \<and> ex_Create e = [] \<and>
     ex_Start e = [] \<and> ex_Stop e = [] \<and> ex_Status e = [] \<and> ex_Delete e = [])"

definition valid_kind :: "provider \<Rightarrow> bool" where
  "valid_kind p \<longleftrightarrow>
     (case (ex_Proxy (pr_Exec p), ex_Daemon (pr_Exec p)) of
        (Some x, _) \<Rightarrow> no_machine p \<and> [] \<notin> {px_Status x, px_Stop x, px_Delete x, px_Ssh x, px_Up x}
      | (None, Some d) \<Rightarrow> no_machine p \<and> dm_Start d \<noteq> []
      | (None, None) \<Rightarrow>
          (let a = pr_Agent p; c = ag_Custom a; e = pr_Exec p in
           ag_Driver a \<in> {[], CustomDriver, DockerDriver, KubernetesDriver} \<and>
           (ag_Driver a = CustomDriver \<longrightarrow>
              [] \<notin> {cu_TargetArchitecture c, cu_StartDevContainer c, cu_StopDevContainer c, cu_RunDevContainer c,
                      cu_DeleteDevContainer c, cu_FindDevContainer c, cu_CommandDevContainer c}) \<and>
           valid_binaries (ag_Binaries a) \<and>
           ex_Command e \<noteq> [] \<and>
           (ex_Create e = [] \<longleftrightarrow> ex_Delete e = []) \<and>
           (ex_Start e = [] \<longleftrightarrow> ex_Stop e = []) \<and>
           (ex_Start e \<noteq> [] \<longrightarrow> ex_Status e \<noteq> [] \<and> IsMachineProvider p)))"

definition valid_provider :: "(string \<Rightarrow> bool) \<Rightarrow> (string \<Rightarrow> bool) \<Rightarrow> provider \<Rightarrow> bool" where
  "valid_provider semver compiles p \<longleftrightarrow>
     valid_provider_name (pr_Name p) \<and>
     (pr_Version p \<noteq> [] \<longrightarrow> semver (TrimPrefix (pr_Version p) ''v'')) \<and>
     (\<forall>(k, d) \<in> set (pr_Options p). valid_option compiles k d) \<and>
     valid_binaries (pr_Binaries p) \<and>
     valid_kind p \<and>
     (\<forall>g \<in> set (pr_OptionGroups p). og_Name g \<noteq> [])"

lemma checks:
  "first_error [] = Inr () \<longleftrightarrow> True" "first_error ((bad, msg) # cs) = Inr () \<longleftrightarrow> \<not> bad \<and> first_error cs = Inr ()"
  "all_ok [] = Inr () \<longleftrightarrow> True" "all_ok (r # rs) = Inr () \<longleftrightarrow> r = Inr () \<and> all_ok rs = Inr ()"
  "all_ok (map f xs) = Inr () \<longleftrightarrow> (\<forall>x \<in> set xs. f x = Inr ())"
  by (auto simp: all_ok_ok split: sum.splits)

lemma option_name: "\<not> MatchString optionNameRegEx s \<longleftrightarrow> list_all is_var_char s"
  and provider_name: "\<not> MatchString ProviderNameRegEx s \<longleftrightarrow> list_all is_provider_name_char s"
  by (auto simp: optionNameRegEx_def ProviderNameRegEx_def MatchString_class list_all_iff)

lemma check_option_ok: "check_option compiles k d = Inr () \<longleftrightarrow> valid_option compiles k d"
  unfolding check_option_def valid_option_def checks option_name by (cases "Cache d = []") auto

lemma check_binary_ok:
  "check_binary pfx name b = Inr () \<longleftrightarrow>
    bin_OS b \<in> {''linux'', ''darwin'', ''windows''} \<and> bin_Path b \<noteq> [] \<and> bin_Arch b \<noteq> [] \<and>
    (is_archive (bin_Path b) \<longrightarrow> bin_ArchivePath b \<noteq> [])"
  unfolding check_binary_def checks is_archive_def by blast

lemma all_keys:
  assumes "wf_map m" "\<And>ks. set (ord ks) = set ks"
  shows "(\<forall>k \<in> set (ord (keys m)). P k (the (map_of m k))) \<longleftrightarrow> (\<forall>(k, v) \<in> set m. P k v)"
  using assms by (force simp: wf_map_def)

lemma validateBinaries_ok:
  assumes "wf_map m" "\<And>ks. set (ord ks) = set ks"
  shows "validateBinaries ord pfx m = Inr () \<longleftrightarrow> valid_binaries m"
proof -
  have "validateBinaries ord pfx m = Inr () \<longleftrightarrow>
    (\<forall>k \<in> set (ord (keys m)). list_all is_var_char k \<and> (\<forall>b \<in> set (the (map_of m k)). check_binary pfx k b = Inr ()))"
    unfolding validateBinaries_def checks option_name by blast
  also have "\<dots> \<longleftrightarrow> valid_binaries m"
    unfolding valid_binaries_def
    using all_keys [OF assms, of "\<lambda>k bs. list_all is_var_char k \<and> (\<forall>b \<in> set bs. check_binary pfx k b = Inr ())"]
    by (simp add: check_binary_ok)
  finally show ?thesis .
qed

lemma forbidden_commands_ok: "first_error (forbidden_commands kind p @ cs) = Inr () \<longleftrightarrow> no_machine p \<and> first_error cs = Inr ()"
  unfolding forbidden_commands_def no_machine_def Let_def append_Cons append_Nil checks by blast

lemma validateProviderType_ok:
  assumes "wf_map (ag_Binaries (pr_Agent p))" "\<And>ks. set (ord ks) = set ks"
  shows "validateProviderType ord p = Inr () \<longleftrightarrow> valid_kind p"
proof (cases "ex_Proxy (pr_Exec p)")
  case (Some x)
  then show ?thesis
    unfolding validateProviderType_def valid_kind_def Some by (auto simp: forbidden_commands_ok check_proxy_def checks simp del: first_error.simps)
next
  case None
  show ?thesis
  proof (cases "ex_Daemon (pr_Exec p)")
    case (Some d)
    then show ?thesis unfolding validateProviderType_def valid_kind_def None Some
      by (simp add: forbidden_commands_ok checks del: first_error.simps)
  next
    case no: None
    have d: "first_error (check_driver a) = Inr () \<longleftrightarrow>
        ag_Driver a \<in> {[], CustomDriver, DockerDriver, KubernetesDriver} \<and>
        (ag_Driver a = CustomDriver \<longrightarrow> [] \<notin> {cu_TargetArchitecture (ag_Custom a), cu_StartDevContainer (ag_Custom a),
           cu_StopDevContainer (ag_Custom a), cu_RunDevContainer (ag_Custom a), cu_DeleteDevContainer (ag_Custom a),
           cu_FindDevContainer (ag_Custom a), cu_CommandDevContainer (ag_Custom a)})" for a
      by (cases "ag_Driver a = CustomDriver") (auto simp: check_driver_def Let_def checks simp del: first_error.simps)
    have e: "first_error (check_commands (pr_Exec p)) = Inr () \<longleftrightarrow>
        ex_Command (pr_Exec p) \<noteq> [] \<and> (ex_Create (pr_Exec p) = [] \<longleftrightarrow> ex_Delete (pr_Exec p) = []) \<and>
        (ex_Start (pr_Exec p) = [] \<longleftrightarrow> ex_Stop (pr_Exec p) = []) \<and>
        (ex_Start (pr_Exec p) \<noteq> [] \<longrightarrow> ex_Status (pr_Exec p) \<noteq> [] \<and> IsMachineProvider p)"
      unfolding check_commands_def IsMachineProvider_def checks by blast
    show ?thesis
      unfolding validateProviderType_def valid_kind_def None no
      by (simp add: checks d e validateBinaries_ok [OF assms] Let_def del: first_error.simps all_ok.simps)
  qed
qed

lemma validateOptionGroups_ok: "validateOptionGroups p = Inr () \<longleftrightarrow> (\<forall>g \<in> set (pr_OptionGroups p). og_Name g \<noteq> [])"
proof -
  have "validateOptionGroups p = Inr () \<longleftrightarrow> (\<forall>x \<in> set (enumerate 0 (pr_OptionGroups p)). og_Name (snd x) \<noteq> [])"
    unfolding validateOptionGroups_def checks by (simp add: split_beta checks del: first_error.simps)
  also have "\<dots> \<longleftrightarrow> (\<forall>g \<in> snd ` set (enumerate 0 (pr_OptionGroups p)). og_Name g \<noteq> [])" by blast
  finally show ?thesis by (simp flip: set_map)
qed

text \<open>C16: The validation accepts exactly the valid providers, in whatever order the maps are visited: the
  name, the version, the options, the binaries and the option groups are well formed, and the
  provider is of one kind, a proxy, a daemon or an agent with the commands and the driver that this
  kind needs and none of another one.\<close>

theorem validate_accepts_valid:
  assumes "wf_map (pr_Options p)" "wf_map (pr_Binaries p)" "wf_map (ag_Binaries (pr_Agent p))"
    and ord: "\<And>ks. set (ord ks) = set ks"
  shows "validate semver compiles ord p = Inr () \<longleftrightarrow> valid_provider semver compiles p"
proof -
  have "(\<forall>k \<in> set (ord (keys (pr_Options p))). check_option compiles k (the (map_of (pr_Options p) k)) = Inr ()) \<longleftrightarrow>
      (\<forall>(k, d) \<in> set (pr_Options p). valid_option compiles k d)"
    using all_keys [OF assms(1) ord, of "\<lambda>k d. check_option compiles k d = Inr ()"] by (simp add: check_option_ok)
  then show ?thesis
    unfolding validate_def valid_provider_def valid_provider_name_def checks provider_name not_less
      validateBinaries_ok [OF assms(2) ord] validateProviderType_ok [OF assms(3) ord] validateOptionGroups_ok by blast
qed

text \<open>A sample: a provider for machines with one option, and one that has a start command only.\<close>

definition sample_machine_provider :: provider where
  "sample_machine_provider = \<lparr>pr_Name = ''my-cloud'', pr_Version = ''v0.0.1'', pr_Icon = [], pr_IconDark = [], pr_Home = [],
     pr_Source = \<lparr>src_Internal = False, src_Github = [], src_File = [], src_URL = [], src_Raw = []\<rparr>,
     pr_Description = [], pr_OptionGroups = [],
     pr_Options = [(''ZONE'', zero_opt\<lparr>Default := ''a''\<rparr>), (''DISK_NAME'', zero_opt\<lparr>Default := ''disk-${ZONE}''\<rparr>)],
     pr_Agent = zero_agent,
     pr_Exec = \<lparr>ex_Init = [], ex_Command = [''c''], ex_Create = [''n''], ex_Delete = [''d''], ex_Start = [], ex_Stop = [],
       ex_Status = [], ex_Proxy = None, ex_Daemon = None\<rparr>,
     pr_Binaries = [(''CTL'', [\<lparr>bin_OS = ''linux'', bin_Arch = ''amd64'', bin_Checksum = [], bin_Path = ''x.zip'',
       bin_ArchivePath = ''x'', bin_Name = []\<rparr>])]\<rparr>"

theorem validate_accepts_valid_witness:
  "valid_provider (\<lambda>_. True) (\<lambda>_. True) sample_machine_provider \<and>
   \<not> valid_provider (\<lambda>_. True) (\<lambda>_. True) (sample_machine_provider\<lparr>pr_Exec := (pr_Exec sample_machine_provider)\<lparr>ex_Start := [''s'']\<rparr>\<rparr>)"
proof -
  let ?p = sample_machine_provider and ?q = "sample_machine_provider\<lparr>pr_Exec := (pr_Exec sample_machine_provider)\<lparr>ex_Start := [''s'']\<rparr>\<rparr>"
  have "wf_map (pr_Options ?p)" "wf_map (pr_Binaries ?p)" "wf_map (ag_Binaries (pr_Agent ?p))"
    by (simp_all add: sample_machine_provider_def zero_agent_def wf_map_def)
  moreover have "\<not> isl (validate (\<lambda>_. True) (\<lambda>_. True) rev ?p)" "isl (validate (\<lambda>_. True) (\<lambda>_. True) rev ?q)" by code_simp+
  ultimately show ?thesis
    using validate_accepts_valid [of ?p rev "\<lambda>_. True" "\<lambda>_. True"] validate_accepts_valid [of ?q rev "\<lambda>_. True" "\<lambda>_. True"]
    by (cases "validate (\<lambda>_. True) (\<lambda>_. True) rev ?p") auto
qed

section \<open>Option names\<close>

lemma takeWhile_name: "list_all p k \<Longrightarrow> \<not> p c \<Longrightarrow> takeWhile p (k @ c # r) = k \<and> dropWhile p (k @ c # r) = c # r"
  by (induction k) auto

lemma scan_braces:
  assumes "list_all is_var_char k" "k \<noteq> []"
  shows "scan_reference is_var_char (''${'' @ k @ ''}'') = Some (k, [])"
proof -
  have "\<not> is_var_char CHR ''}''" by (simp add: is_var_char_def is_upper_def is_digit_def)
  from takeWhile_name [OF assms(1) this, of "[]"] assms(2) show ?thesis
    by (simp add: scan_reference_def skip_brace_def after_modifier_def after_brace_def)
qed

lemma references_braces:
  assumes "list_all is_var_char k" "k \<noteq> []"
  shows "references is_var_char (''${'' @ k @ ''}'') = [k]"
  using scan_braces [OF assms] by simp

lemma ParseProvider_valid:
  assumes "ParseProvider yaml semver compiles ord payload = Inr p" "\<And>ks. set (ord ks) = set ks"
    and "map_of (pr_Options p) k = Some d"
  shows "valid_option compiles k d"
proof -
  have "validate semver compiles ord p = Inr ()"
    using assms(1) by (auto simp: ParseProvider_def split: sum.splits)
  moreover have "k \<in> set (ord (keys (pr_Options p)))" using assms(2,3) in_keys_iff [of k "pr_Options p"] by simp
  ultimately have "check_option compiles k (the (map_of (pr_Options p) k)) = Inr ()"
    unfolding validate_def checks by (elim conjE) (rule bspec)
  then show ?thesis using assms(3) by (simp add: check_option_ok)
qed

text \<open>C17: In a provider that the parser accepts, each option is within reach of the defaults and commands
  of the others: a reference with its name is found as a variable and is replaced by its value.  No
  option has the identifier of the root of the option graph, and one whose value the provider keeps
  for all workspaces has no cache time and cannot be changed.\<close>

theorem ParseProvider_options:
  assumes "ParseProvider yaml semver compiles ord payload = Inr p" "\<And>ks. set (ord ks) = set ks"
    and "map_of (pr_Options p) k = Some d" "k \<noteq> []"
  shows "set (findVariables (''${'' @ k @ ''}'')) = {k} \<and>
    (map_of vals k = Some v \<longrightarrow> ResolveDefaultValue (''${'' @ k @ ''}'') vals = v) \<and>
    k \<noteq> rootID \<and> (Global d \<longrightarrow> Cache d = [] \<and> \<not> Mutable d)"
proof -
  have v: "valid_option compiles k d" by (rule ParseProvider_valid [OF assms(1-3)])
  then have k: "list_all is_var_char k" by (simp add: valid_option_def)
  have "\<not> list_all is_var_char rootID" by (simp add: rootID_def is_var_char_def is_upper_def is_digit_def)
  with k have "k \<noteq> rootID" by auto
  moreover have "ResolveDefaultValue (''${'' @ k @ ''}'') vals = v" if "map_of vals k = Some v"
    using that scan_braces [OF k assms(4)] by (simp add: ResolveDefaultValue_expand)
  ultimately show ?thesis
    using v references_braces [OF k assms(4)] unfolding set_findVariables valid_option_def by simp
qed

theorem ParseProvider_options_witness:
  "set (findVariables ''${ZONE}'') = {''ZONE''}"
proof -
  have "\<not> isl (validate (\<lambda>_. True) (\<lambda>_. True) rev sample_machine_provider)" by code_simp
  then have "ParseProvider (\<lambda>_. Inr sample_machine_provider) (\<lambda>_. True) (\<lambda>_. True) rev [] = Inr sample_machine_provider"
    by (cases "validate (\<lambda>_. True) (\<lambda>_. True) rev sample_machine_provider") (simp_all add: ParseProvider_def)
  from ParseProvider_options [OF this, of "''ZONE''" "zero_opt\<lparr>Default := ''a''\<rparr>"] show ?thesis
    by (simp add: sample_machine_provider_def)
qed

section \<open>Options on the command line\<close>

definition plain_key :: "string \<Rightarrow> bool" where
  "plain_key k \<longleftrightarrow> CHR ''='' \<notin> set k \<and> TrimSpace k = k \<and> ToUpper k = k"

lemma parse_options_app:
  assumes "list_all (plain_key \<circ> fst) m"
  shows "parse_options (map (\<lambda>(k, v). k @ ''='' @ v) m) acc = Inr (copy_into acc m)"
  using assms
proof (induction m arbitrary: acc)
  case (Cons kv m)
  obtain k v where kv: "kv = (k, v)" by (cases kv)
  with Cons.prems have k: "CHR ''='' \<notin> set k" "TrimSpace k = k" "ToUpper k = k" by (auto simp: plain_key_def)
  have "Split CHR ''='' (k @ CHR ''='' # v) = k # Split CHR ''='' v" by (rule Split_append [OF k(1)])
  then show ?case using Cons k by (simp add: kv Join_Split)
qed simp

text \<open>C21: Writing options as \<open>KEY=VALUE\<close>, with values that may contain the separator, and parsing them
  gives each key its last value; an option without a separator is an error that names it.\<close>

theorem ParseOptions_roundtrip:
  assumes "list_all (plain_key \<circ> fst) m" "CHR ''='' \<notin> set bad"
  shows "(\<exists>r. ParseOptions (map (\<lambda>(k, v). k @ ''='' @ v) m) = Inr r \<and> wf_map r \<and> map_of r = map_of (rev m)) \<and>
    ParseOptions (map (\<lambda>(k, v). k @ ''='' @ v) m @ bad # rest) =
      Inl (Err (''invalid option '' @ quoted bad @ '', expected format KEY=VALUE''))"
proof
  have "map_of (copy_into acc m) = map_of acc ++ map_of (rev m)" for acc :: "string gomap"
    by (induction m arbitrary: acc) (auto simp: update_conv')
  then show "\<exists>r. ParseOptions (map (\<lambda>(k, v). k @ ''='' @ v) m) = Inr r \<and> wf_map r \<and> map_of r = map_of (rev m)"
    unfolding ParseOptions_def parse_options_app [OF assms(1)] by simp
  have "parse_options (xs @ ys) acc = (case parse_options xs acc of Inl e \<Rightarrow> Inl e | Inr r \<Rightarrow> parse_options ys r)" for xs ys acc
    by (induction xs acc rule: parse_options.induct) (simp_all add: Let_def)
  then show "ParseOptions (map (\<lambda>(k, v). k @ ''='' @ v) m @ bad # rest) =
      Inl (Err (''invalid option '' @ quoted bad @ '', expected format KEY=VALUE''))"
    unfolding ParseOptions_def by (simp add: parse_options_app [OF assms(1), simplified] Split_no [OF assms(2)])
qed

theorem ParseOptions_roundtrip_witness:
  "\<exists>r. ParseOptions [''A=x=y'', ''B='', ''A=z''] = Inr r \<and> map_of r ''A'' = Some ''z''"
proof -
  have "list_all (plain_key \<circ> fst) [(''A'', ''x=y''), (''B'', ''''), (''A'', ''z'')]" by code_simp
  from ParseOptions_roundtrip [OF this, of "''A''" "[]"] show ?thesis by auto
qed

end
