(* ===== verification/Devcontainer.thy ===== *)
theory Devcontainer
  imports Go_Json Go_Path
begin

text \<open>
  The data of a development container: \<^verbatim>\<open>pkg/devcontainer/config\<close>, files \<^verbatim>\<open>config.go\<close>, \<^verbatim>\<open>metadata.go\<close>,
  \<^verbatim>\<open>feature.go\<close>, \<^verbatim>\<open>result.go\<close>, \<^verbatim>\<open>container_details.go\<close>, the legacy settings of \<^verbatim>\<open>parse.go\<close> and the
  list encodings of \<^verbatim>\<open>substitute.go\<close>.  An embedded struct is a field that holds its record.  A nil and
  an empty list or map are one value; pointers to values are options.
\<close>

section \<open>Data\<close>

record mount =
  mt_Type :: string
  mt_Source :: string
  mt_Target :: string
  mt_External :: bool
  mt_Other :: "string list"

record port_attribute =
  pa_OnAutoForward :: string
  pa_ElevateIfNeeded :: bool
  pa_Label :: string
  pa_RequireLocalPort :: bool
  pa_Protocol :: string

record host_requirements =
  hr_CPUs :: int
  hr_Memory :: string
  hr_Storage :: string
  hr_GPU :: string

record build_options =
  bo_Dockerfile :: string
  bo_Context :: string
  bo_Target :: string
  bo_Args :: "string gomap"
  bo_CacheFrom :: "string list"
  bo_Options :: "string list"

record config_base =
  cb_Name :: string
  cb_Features :: "json gomap"
  cb_OverrideFeatureInstallOrder :: "string list"
  cb_ForwardPorts :: "string list"
  cb_PortsAttributes :: "port_attribute gomap"
  cb_OtherPortsAttributes :: "port_attribute option"
  cb_UpdateRemoteUserUID :: "bool option"
  cb_RemoteEnv :: "string gomap"
  cb_RemoteUser :: string
  cb_InitializeCommand :: lifecycle_hook
  cb_ShutdownAction :: string
  cb_WaitFor :: string
  cb_UserEnvProbe :: string
  cb_HostRequirements :: "host_requirements option"
  cb_OverrideCommand :: "bool option"
  cb_WorkspaceFolder :: string
  cb_Settings :: "json gomap"
  cb_Extensions :: "string list"
  cb_DevPort :: int

record actions =
  ac_OnCreateCommand :: lifecycle_hook
  ac_UpdateContentCommand :: lifecycle_hook
  ac_PostCreateCommand :: lifecycle_hook
  ac_PostStartCommand :: lifecycle_hook
  ac_PostAttachCommand :: lifecycle_hook
  ac_Customizations :: "json gomap"

record updated_properties =
  up_Entrypoints :: "string list"
  up_OnCreateCommands :: "lifecycle_hook list"
  up_UpdateContentCommands :: "lifecycle_hook list"
  up_PostCreateCommands :: "lifecycle_hook list"
  up_PostStartCommands :: "lifecycle_hook list"
  up_PostAttachCommands :: "lifecycle_hook list"
  up_Customizations :: "json list gomap"

record compose_container =
  cc_DockerComposeFile :: "string list"
  cc_Service :: string
  cc_RunServices :: "string list"

record non_compose =
  nc_AppPort :: "string list"
  nc_ContainerEnv :: "string gomap"
  nc_ContainerUser :: string
  nc_Mounts :: "mount list"
  nc_Init :: "bool option"
  nc_Privileged :: "bool option"
  nc_CapAdd :: "string list"
  nc_SecurityOpt :: "string list"
  nc_RunArgs :: "string list"
  nc_WorkspaceMount :: string

record dockerfile_container =
  df_Dockerfile :: string
  df_Context :: string
  df_Build :: "build_options option"

record devcontainer =
  dc_Base :: config_base
  dc_Actions :: actions
  dc_NonCompose :: non_compose
  dc_Image :: string
  dc_Compose :: compose_container
  dc_Dockerfile :: dockerfile_container
  dc_ContainerID :: string
  dc_Origin :: string

record merged_devcontainer =
  md_Base :: config_base
  md_Updated :: updated_properties
  md_NonCompose :: non_compose
  md_Image :: string
  md_Compose :: compose_container
  md_Dockerfile :: dockerfile_container
  md_ContainerID :: string
  md_Origin :: string

record image_metadata =
  im_ID :: string
  im_Entrypoint :: string
  im_Base :: config_base
  im_Actions :: actions
  im_NonCompose :: non_compose

record image_metadata_config =
  imc_Raw :: "image_metadata list"
  imc_Config :: "image_metadata list"

record feature_option =
  fo_Default :: string
  fo_Description :: string
  fo_Type :: string
  fo_Enum :: "string list"
  fo_Proposals :: "string list"

record feature_config =
  fc_ID :: string
  fc_Name :: string
  fc_Version :: string
  fc_Description :: string
  fc_Entrypoint :: string
  fc_Deprecated :: bool
  fc_LegacyIds :: "string list"
  fc_Options :: "feature_option gomap"
  fc_DocumentationURL :: string
  fc_LicenseURL :: string
  fc_CapAdd :: "string list"
  fc_Init :: "bool option"
  fc_Privileged :: "bool option"
  fc_SecurityOpt :: "string list"
  fc_Mounts :: "mount list"
  fc_InstallsAfter :: "string list"
  fc_ContainerEnv :: "string gomap"
  fc_Customizations :: "json gomap"
  fc_Origin :: string

record feature_set =
  fs_ConfigID :: string
  fs_Folder :: string
  fs_Config :: feature_config
  fs_Options :: json

record image_details =
  id_ID :: string
  id_User :: string
  id_Env :: "string list"
  id_Labels :: "string gomap"
  id_Entrypoint :: "string list"
  id_Cmd :: "string list"

record container_details =
  cd_ID :: string
  cd_Created :: string
  cd_Status :: string
  cd_StartedAt :: string
  cd_Labels :: "string gomap"
  cd_WorkingDir :: string
  cd_LegacyUser :: string
  cd_LegacyImage :: string

record substitution_context =
  sc_DevContainerID :: string
  sc_LocalWorkspaceFolder :: string
  sc_ContainerWorkspaceFolder :: string
  sc_Env :: "string gomap"
  sc_WorkspaceMount :: string

record devcontainer_with_path =
  wp_Config :: "devcontainer option"
  wp_Path :: string

record result_config =
  re_DevContainerConfigWithPath :: "devcontainer_with_path option"
  re_MergedConfig :: "merged_devcontainer option"
  re_SubstitutionContext :: "substitution_context option"
  re_ContainerDetails :: "container_details option"

record vscode_customizations =
  vs_Settings :: "json gomap"
  vs_Extensions :: "string list"
  vs_DevPort :: int

record devpod_customizations =
  dp_PrebuildRepository :: "string list"
  dp_FeatureDownloadHTTPHeaders :: "string gomap"

definition zero_base :: config_base where
  "zero_base = \<lparr>cb_Name = [], cb_Features = [], cb_OverrideFeatureInstallOrder = [],
     cb_ForwardPorts = [], cb_PortsAttributes = [], cb_OtherPortsAttributes = None,
     cb_UpdateRemoteUserUID = None, cb_RemoteEnv = [], cb_RemoteUser = [], cb_InitializeCommand = [],
     cb_ShutdownAction = [], cb_WaitFor = [], cb_UserEnvProbe = [], cb_HostRequirements = None,
     cb_OverrideCommand = None, cb_WorkspaceFolder = [], cb_Settings = [], cb_Extensions = [],
     cb_DevPort = 0\<rparr>"

definition zero_actions :: actions where
  "zero_actions = \<lparr>ac_OnCreateCommand = [], ac_UpdateContentCommand = [], ac_PostCreateCommand = [],
     ac_PostStartCommand = [], ac_PostAttachCommand = [], ac_Customizations = []\<rparr>"

definition zero_non_compose :: non_compose where
  "zero_non_compose = \<lparr>nc_AppPort = [], nc_ContainerEnv = [], nc_ContainerUser = [], nc_Mounts = [],
     nc_Init = None, nc_Privileged = None, nc_CapAdd = [], nc_SecurityOpt = [], nc_RunArgs = [],
     nc_WorkspaceMount = []\<rparr>"

definition zero_mount :: mount where
  "zero_mount = \<lparr>mt_Type = [], mt_Source = [], mt_Target = [], mt_External = False, mt_Other = []\<rparr>"

definition zero_compose :: compose_container where
  "zero_compose = \<lparr>cc_DockerComposeFile = [], cc_Service = [], cc_RunServices = []\<rparr>"

definition zero_dockerfile :: dockerfile_container where
  "zero_dockerfile = \<lparr>df_Dockerfile = [], df_Context = [], df_Build = None\<rparr>"

definition zero_devcontainer :: devcontainer where
  "zero_devcontainer = \<lparr>dc_Base = zero_base, dc_Actions = zero_actions, dc_NonCompose = zero_non_compose,
     dc_Image = [], dc_Compose = zero_compose, dc_Dockerfile = zero_dockerfile, dc_ContainerID = [],
     dc_Origin = []\<rparr>"

definition zero_metadata :: image_metadata where
  "zero_metadata = \<lparr>im_ID = [], im_Entrypoint = [], im_Base = zero_base, im_Actions = zero_actions,
     im_NonCompose = zero_non_compose\<rparr>"

section \<open>The Dockerfile of a configuration\<close>

definition GetDockerfile :: "dockerfile_container \<Rightarrow> string" where
  "GetDockerfile d =
     (if df_Dockerfile d \<noteq> [] then df_Dockerfile d
      else (case df_Build d of
              Some b \<Rightarrow> if bo_Dockerfile b \<noteq> [] then bo_Dockerfile b else []
            | None \<Rightarrow> []))"

definition GetContext :: "dockerfile_container \<Rightarrow> string" where
  "GetContext d =
     (if df_Context d \<noteq> [] then df_Context d
      else (case df_Build d of
              Some b \<Rightarrow> if bo_Context b \<noteq> [] then bo_Context b else []
            | None \<Rightarrow> []))"

definition GetTarget :: "dockerfile_container \<Rightarrow> string" where
  "GetTarget d = (case df_Build d of Some b \<Rightarrow> bo_Target b | None \<Rightarrow> [])"

definition GetArgs :: "dockerfile_container \<Rightarrow> string gomap" where
  "GetArgs d = (case df_Build d of Some b \<Rightarrow> bo_Args b | None \<Rightarrow> [])"

definition GetOptions :: "dockerfile_container \<Rightarrow> string list" where
  "GetOptions d = (case df_Build d of Some b \<Rightarrow> bo_Options b | None \<Rightarrow> [])"

definition GetCacheFrom :: "dockerfile_container \<Rightarrow> string list" where
  "GetCacheFrom d = (case df_Build d of Some b \<Rightarrow> bo_CacheFrom b | None \<Rightarrow> [])"

definition GetContextPath :: "devcontainer \<Rightarrow> string" where
  "GetContextPath c =
     (let context = GetContext (dc_Dockerfile c);
          dockerfilePath = GetDockerfile (dc_Dockerfile c);
          configDir = path_Dir (dc_Origin c) in
      if context \<noteq> [] then path_Join [configDir, context]
      else if dockerfilePath \<noteq> [] then path_Join [configDir, path_Dir dockerfilePath]
      else configDir)"

section \<open>Mounts\<close>

definition Mount_String :: "mount \<Rightarrow> string" where
  "Mount_String m =
     Join ((if mt_Type m \<noteq> [] then [''type='' @ mt_Type m] else []) @
           (if mt_Source m \<noteq> [] then [''src='' @ mt_Source m] else []) @
           (if mt_Target m \<noteq> [] then [''dst='' @ mt_Target m] else []) @
           (if mt_External m then [''external='' @ FormatBool (mt_External m)] else []) @
           mt_Other m) '',''"

text \<open>One component of a mount.  A known key without a value reads past the end of the slice.\<close>

definition mount_component :: "string \<Rightarrow> mount \<Rightarrow> mount result" where
  "mount_component split m =
     (let splitted = Split CHR ''='' split;
          key = hd splitted;
          value = (if length splitted > 1 then Inr (splitted ! 1)
                   else Inl (Panic ''index out of range [1] with length 1'')) in
      if key = ''src'' \<or> key = ''source'' then
        (case value of Inl e \<Rightarrow> Inl e | Inr v \<Rightarrow> Inr (m\<lparr>mt_Source := v\<rparr>))
      else if key = ''dst'' \<or> key = ''destination'' \<or> key = ''target'' then
        (case value of Inl e \<Rightarrow> Inl e | Inr v \<Rightarrow> Inr (m\<lparr>mt_Target := v\<rparr>))
      else if key = ''type'' then
        (case value of Inl e \<Rightarrow> Inl e | Inr v \<Rightarrow> Inr (m\<lparr>mt_Type := v\<rparr>))
      else if key = ''external'' then
        (case value of
           Inl e \<Rightarrow> Inl e
         | Inr v \<Rightarrow> Inr (m\<lparr>mt_External := (case ParseBool v of None \<Rightarrow> False | Some b \<Rightarrow> b)\<rparr>))
      else Inr (m\<lparr>mt_Other := mt_Other m @ [split]\<rparr>))"

fun mount_components :: "string list \<Rightarrow> mount \<Rightarrow> mount result" where
  "mount_components [] m = Inr m"
| "mount_components (s # ss) m =
     (case mount_component s m of Inl e \<Rightarrow> Inl e | Inr m' \<Rightarrow> mount_components ss m')"

definition ParseMount :: "string \<Rightarrow> mount result" where
  "ParseMount str = mount_components (Split CHR '','' str) zero_mount"

definition Mount_Unmarshal :: "mount \<Rightarrow> json \<Rightarrow> mount result" where
  "Mount_Unmarshal m j =
     (case j of
        JStr s \<Rightarrow> ParseMount s
      | JObj obj \<Rightarrow>
          (let str = (\<lambda>k old. case map_of obj k of Some (JStr s) \<Rightarrow> s | _ \<Rightarrow> old);
               m1 = m\<lparr>mt_Source := str ''source'' (mt_Source m), mt_Target := str ''target'' (mt_Target m),
                      mt_Type := str ''type'' (mt_Type m),
                      mt_External := (case map_of obj ''external'' of Some (JBool b) \<Rightarrow> b | _ \<Rightarrow> mt_External m)\<rparr> in
           case map_of obj ''other'' of
             Some (JArr vs) \<Rightarrow>
               (case all_some (map as_str vs) of
                  None \<Rightarrow> Inl (Panic ''interface conversion: interface {} is not string'')
                | Some other \<Rightarrow> Inr (m1\<lparr>mt_Other := other\<rparr>))
           | _ \<Rightarrow> Inr m1)
      | _ \<Rightarrow> Inl ErrUnsupportedType)"

section \<open>Lists of assignments\<close>

definition ObjectToList :: "(string list \<Rightarrow> string list) \<Rightarrow> string gomap \<Rightarrow> string list" where
  "ObjectToList ord object = map (\<lambda>k. k @ ''='' @ the (map_of object k)) (ord (keys object))"

fun list_to_object :: "string list \<Rightarrow> string gomap \<Rightarrow> string gomap" where
  "list_to_object [] ret = ret"
| "list_to_object (l # ls) ret =
     (let splitted = Split CHR ''='' l in
      if length splitted = 1 then list_to_object ls ret
      else list_to_object ls (AList.update (hd splitted) (Join (tl splitted) ''='') ret))"

definition ListToObject :: "string list \<Rightarrow> string gomap" where
  "ListToObject xs = list_to_object xs []"

section \<open>Customizations\<close>

text \<open>\<open>convert\<close> decodes a JSON value into the struct.\<close>

definition GetDevPodCustomizations ::
    "(json \<Rightarrow> devpod_customizations result) \<Rightarrow> devcontainer \<Rightarrow> devpod_customizations" where
  "GetDevPodCustomizations convert c =
     (let none = \<lparr>dp_PrebuildRepository = [], dp_FeatureDownloadHTTPHeaders = []\<rparr> in
      case map_of (ac_Customizations (dc_Actions c)) ''devpod'' of
        None \<Rightarrow> none
      | Some JNull \<Rightarrow> none
      | Some j \<Rightarrow> (case convert j of Inl _ \<Rightarrow> none | Inr x \<Rightarrow> x))"

definition add_extension :: "string \<Rightarrow> string list \<Rightarrow> string list" where
  "add_extension e es = (if e \<in> set es then es else es @ [e])"

fun merge_vscode ::
    "(json \<Rightarrow> vscode_customizations result) \<Rightarrow> json list \<Rightarrow> vscode_customizations \<Rightarrow> vscode_customizations" where
  "merge_vscode convert [] ret = ret"
| "merge_vscode convert (j # js) ret =
     (case convert j of
        Inl _ \<Rightarrow> merge_vscode convert js ret
      | Inr v \<Rightarrow>
          merge_vscode convert js
            (ret\<lparr>vs_Extensions := fold add_extension (vs_Extensions v) (vs_Extensions ret),
                 vs_Settings := copy_into (vs_Settings ret) (vs_Settings v)\<rparr>))"

definition GetVSCodeConfiguration ::
    "(json \<Rightarrow> vscode_customizations result) \<Rightarrow> merged_devcontainer \<Rightarrow> vscode_customizations" where
  "GetVSCodeConfiguration convert c =
     (case map_of (up_Customizations (md_Updated c)) ''vscode'' of
        None \<Rightarrow> \<lparr>vs_Settings = [], vs_Extensions = [], vs_DevPort = 0\<rparr>
      | Some js \<Rightarrow> merge_vscode convert js \<lparr>vs_Settings = [], vs_Extensions = [], vs_DevPort = 0\<rparr>)"

text \<open>The deprecated top level settings move below \<open>customizations.vscode\<close>; \<open>encode\<close> is the JSON of
  the struct that the code stores there.\<close>

definition replaceLegacy ::
    "(json \<Rightarrow> vscode_customizations result) \<Rightarrow> (vscode_customizations \<Rightarrow> json) \<Rightarrow> devcontainer \<Rightarrow> devcontainer result" where
  "replaceLegacy convert encode c =
     (let b = dc_Base c; cu = ac_Customizations (dc_Actions c) in
      if cb_Extensions b = [] \<and> cb_Settings b = [] \<and> cb_DevPort b = 0 then Inr c
      else
        (case (case map_of cu ''vscode'' of
                 None \<Rightarrow> Inr \<lparr>vs_Settings = [], vs_Extensions = [], vs_DevPort = 0\<rparr>
               | Some j \<Rightarrow> convert j) of
           Inl e \<Rightarrow> Inl e
         | Inr v \<Rightarrow>
             (let v1 = (if cb_Extensions b \<noteq> [] then v\<lparr>vs_Extensions := cb_Extensions b\<rparr> else v);
                  v2 = v1\<lparr>vs_Settings :=
                         fold (\<lambda>(k, x) m. if map_of m k = None then AList.update k x m else m)
                           (cb_Settings b) (vs_Settings v1)\<rparr>;
                  v3 = (if vs_DevPort v2 = 0 then v2\<lparr>vs_DevPort := cb_DevPort b\<rparr> else v2) in
              Inr (c\<lparr>dc_Base := b\<lparr>cb_Extensions := [], cb_Settings := [],
                                  cb_DevPort := (if vs_DevPort v2 = 0 then 0 else cb_DevPort b)\<rparr>,
                     dc_Actions := (dc_Actions c)
                       \<lparr>ac_Customizations := AList.update ''vscode'' (encode v3) cu\<rparr>\<rparr>))))"

section \<open>Results\<close>

definition UserLabel :: string where "UserLabel = ''devpod.user''"

definition GetRemoteUser :: "result_config option \<Rightarrow> string" where
  "GetRemoteUser result =
     (case result of
        None \<Rightarrow> ''root''
      | Some r \<Rightarrow>
          (let label = (case re_ContainerDetails r of
                          Some d \<Rightarrow>
                            (case map_of (cd_Labels d) UserLabel of
                               Some u \<Rightarrow> if u \<noteq> [] then u else ''root''
                             | None \<Rightarrow> ''root'')
                        | None \<Rightarrow> ''root'') in
           case re_MergedConfig r of
             Some m \<Rightarrow> if cb_RemoteUser (md_Base m) \<noteq> [] then cb_RemoteUser (md_Base m) else label
           | None \<Rightarrow> label))"

text \<open>The nil pointer reads of \<open>GetMounts\<close> are panics.\<close>

definition GetMounts :: "result_config \<Rightarrow> mount list result" where
  "GetMounts r =
     (case re_SubstitutionContext r of
        None \<Rightarrow> Inl (Panic ''invalid memory address or nil pointer dereference'')
      | Some s \<Rightarrow>
          (case ParseMount (sc_WorkspaceMount s) of
             Inl e \<Rightarrow> Inl e
           | Inr w \<Rightarrow>
               (case re_MergedConfig r of
                  None \<Rightarrow> Inl (Panic ''invalid memory address or nil pointer dereference'')
                | Some m \<Rightarrow> Inr (w # filter (\<lambda>x. mt_Type x = ''bind'') (nc_Mounts (md_NonCompose m))))))"

section \<open>Lemmas\<close>

subsection \<open>Mounts\<close>

lemma mount_components_append:
  "mount_components (xs @ ys) m =
     (case mount_components xs m of Inl e \<Rightarrow> Inl e | Inr m' \<Rightarrow> mount_components ys m')"
  by (induction xs m rule: mount_components.induct) (auto split: sum.splits)

text \<open>The part before the first equals sign.\<close>

definition before_eq :: "string \<Rightarrow> string" where
  "before_eq s = takeWhile (\<lambda>c. c \<noteq> CHR ''='') s"

lemma hd_Split: "hd (Split c s) = takeWhile (\<lambda>x. x \<noteq> c) s"
  by (induction c s rule: Split.induct) (auto split: list.splits)

lemma Split_key:
  "CHR ''='' \<notin> set k \<Longrightarrow> Split CHR ''='' (k @ CHR ''='' # v) = k # Split CHR ''='' v"
  by (rule Split_append)

lemma nth_Split_key:
  assumes "CHR ''='' \<notin> set k"
  shows "hd (Split CHR ''='' (k @ CHR ''='' # v)) = k" "length (Split CHR ''='' (k @ CHR ''='' # v)) > 1"
    "Split CHR ''='' (k @ CHR ''='' # v) ! 1 = before_eq v"
  using assms hd_Split [of "CHR ''=''" v] by (auto simp: Split_key before_eq_def hd_conv_nth)

definition reserved_key :: "string \<Rightarrow> bool" where
  "reserved_key k \<longleftrightarrow> k \<in> {''src'', ''source'', ''dst'', ''destination'', ''target'', ''type'', ''external''}"

lemma mount_component_known:
  "mount_component (''type='' @ v) m = Inr (m\<lparr>mt_Type := before_eq v\<rparr>)"
  "mount_component (''src='' @ v) m = Inr (m\<lparr>mt_Source := before_eq v\<rparr>)"
  "mount_component (''dst='' @ v) m = Inr (m\<lparr>mt_Target := before_eq v\<rparr>)"
  "mount_component ''external=true'' m = Inr (m\<lparr>mt_External := True\<rparr>)"
  using nth_Split_key [of "''type''" v] nth_Split_key [of "''src''" v] nth_Split_key [of "''dst''" v]
  by (simp_all add: mount_component_def Let_def ParseBool_def)

lemma mount_components_other:
  "(\<And>x. x \<in> set xs \<Longrightarrow> \<not> reserved_key (before_eq x)) \<Longrightarrow>
    mount_components xs m = Inr (m\<lparr>mt_Other := mt_Other m @ xs\<rparr>)"
  by (induction xs arbitrary: m)
    (auto simp: mount_component_def Let_def reserved_key_def before_eq_def hd_Split)

text \<open>The mounts whose text determines them up to values with an equals sign.\<close>

definition printable_mount :: "mount \<Rightarrow> bool" where
  "printable_mount m \<longleftrightarrow>
     (\<forall>s \<in> set ([mt_Type m, mt_Source m, mt_Target m] @ mt_Other m). CHR '','' \<notin> set s) \<and>
     list_all (\<lambda>x. \<not> reserved_key (before_eq x)) (mt_Other m) \<and>
     m \<noteq> zero_mount"

definition mount_list :: "mount \<Rightarrow> string list" where
  "mount_list m =
     (if mt_Type m \<noteq> [] then [''type='' @ mt_Type m] else []) @
     (if mt_Source m \<noteq> [] then [''src='' @ mt_Source m] else []) @
     (if mt_Target m \<noteq> [] then [''dst='' @ mt_Target m] else []) @
     (if mt_External m then [''external=true''] else []) @ mt_Other m"

lemma Mount_String_list: "Mount_String m = Join (mount_list m) '',''"
  by (simp add: Mount_String_def mount_list_def FormatBool_def)

lemma mount_list_not_Nil: "printable_mount m \<Longrightarrow> mount_list m \<noteq> []"
  by (cases m) (auto simp: mount_list_def printable_mount_def zero_mount_def)

lemma mount_list_no_comma: "printable_mount m \<Longrightarrow> x \<in> set (mount_list m) \<Longrightarrow> CHR '','' \<notin> set x"
  by (auto simp: mount_list_def printable_mount_def split: if_splits)

lemma before_eq_Nil [simp]: "before_eq [] = []"
  by (simp add: before_eq_def)

lemma ParseMount_Mount_String:
  assumes m: "printable_mount m"
  shows "ParseMount (Mount_String m) =
    Inr (m\<lparr>mt_Type := before_eq (mt_Type m), mt_Source := before_eq (mt_Source m),
           mt_Target := before_eq (mt_Target m)\<rparr>)"
proof -
  have "Split CHR '','' (Mount_String m) = mount_list m"
    unfolding Mount_String_list using mount_list_not_Nil [OF m] mount_list_no_comma [OF m]
    by (intro Split_Join) auto
  moreover have "mount_components (mt_Other m) x = Inr (x\<lparr>mt_Other := mt_Other x @ mt_Other m\<rparr>)" for x
    using m by (intro mount_components_other) (auto simp: printable_mount_def list_all_iff)
  ultimately show ?thesis
    unfolding ParseMount_def
    by (cases m) (auto simp: mount_list_def mount_components_append mount_component_known [simplified]
      zero_mount_def)
qed

subsection \<open>Lists of assignments\<close>

lemma list_to_object_assignments:
  "(\<And>k. k \<in> set ks \<Longrightarrow> CHR ''='' \<notin> set k) \<Longrightarrow>
    list_to_object (map (\<lambda>k. k @ ''='' @ f k) ks) ret = fold (\<lambda>k. AList.update k (f k)) ks ret"
  by (induction ks arbitrary: ret) (auto simp: Split_key Join_Split Let_def)

lemma map_of_fold_update:
  "map_of (fold (\<lambda>k. AList.update k (f k)) ks m) x = (if x \<in> set ks then Some (f x) else map_of m x)"
  by (induction ks arbitrary: m) (auto simp: update_conv')

lemma map_of_ListToObject:
  assumes "\<And>k. k \<in> set (keys m) \<Longrightarrow> CHR ''='' \<notin> set k" and "set (ord (keys m)) = set (keys m)"
  shows "map_of (ListToObject (ObjectToList ord m)) = map_of m"
proof
  fix x
  have "map_of (ListToObject (ObjectToList ord m)) x =
      (if x \<in> set (keys m) then Some (the (map_of m x)) else None)"
    unfolding ListToObject_def ObjectToList_def
    by (subst list_to_object_assignments) (use assms in \<open>auto simp: map_of_fold_update\<close>)
  then show "map_of (ListToObject (ObjectToList ord m)) x = map_of m x"
    using in_keys_iff [of x m] by auto
qed

end
