(* ===== verification/Substitute.thy ===== *)
theory Substitute
  imports Devcontainer Option_Vars
begin

text \<open>
  Variable substitution in the devcontainer configuration, \<^verbatim>\<open>pkg/devcontainer/config/substitute.go\<close>.
  The two conversions through \<open>encoding/json\<close> are the arguments \<open>enc\<close> and \<open>dec\<close>, since they depend
  on the struct.  The context is updated by a substitution, so it is returned with the result.
\<close>

section \<open>Definitions\<close>

definition VariableRegExp :: re where
  "VariableRegExp = Seqs [Ch CHR ''$'', Ch CHR ''{'', Cap 1 (Lazy (Cls not_newline)), Ch CHR ''}'']"

type_synonym replace_function = "string \<Rightarrow> string \<Rightarrow> string list \<Rightarrow> string"

definition replace_match :: "replace_function \<Rightarrow> string \<Rightarrow> string" where
  "replace_match replace match =
     (let variable = take (length match - 3) (drop 2 match);
          parts = Split CHR '':'' variable in
      if length parts > 1 then replace match (hd parts) (tl parts) else replace match variable [])"

definition ResolveString :: "string \<Rightarrow> replace_function \<Rightarrow> string" where
  "ResolveString val replace = ReplaceAllStringFunc VariableRegExp (replace_match replace) val"

primrec substitute0 :: "replace_function \<Rightarrow> json \<Rightarrow> json" where
  "substitute0 replace JNull = JNull"
| "substitute0 replace (JBool b) = JBool b"
| "substitute0 replace (JNum n d) = JNum n d"
| "substitute0 replace (JStr s) = JStr (ResolveString s replace)"
| "substitute0 replace (JArr js) = JArr (map (substitute0 replace) js)"
| "substitute0 replace (JObj kvs) = JObj (map (map_prod id (substitute0 replace)) kvs)"

definition lookupValue :: "bool \<Rightarrow> string gomap \<Rightarrow> string list \<Rightarrow> string \<Rightarrow> string" where
  "lookupValue isWindows env args match =
     (case args of
        [] \<Rightarrow> match
      | a # rest \<Rightarrow>
          (case map_of env (if isWindows then ToLower a else a) of
             Some v \<Rightarrow> v
           | None \<Rightarrow> (case rest of [] \<Rightarrow> [] | d # _ \<Rightarrow> d)))"

definition replaceWithContainerEnv :: "string gomap \<Rightarrow> replace_function" where
  "replaceWithContainerEnv containerEnv match variable args =
     (if variable = ''containerEnv'' then lookupValue False containerEnv args match else match)"

definition replaceWithContext :: "bool \<Rightarrow> substitution_context \<Rightarrow> replace_function" where
  "replaceWithContext isWindows ctx match variable args =
     (if variable = ''devcontainerId'' then
        (if sc_DevContainerID ctx \<noteq> [] then sc_DevContainerID ctx else match)
      else if variable = ''env'' \<or> variable = ''localEnv'' then lookupValue isWindows (sc_Env ctx) args match
      else if variable = ''localWorkspaceFolder'' then
        (if sc_LocalWorkspaceFolder ctx \<noteq> [] then sc_LocalWorkspaceFolder ctx else match)
      else if variable = ''localWorkspaceFolderBasename'' then
        (if sc_LocalWorkspaceFolder ctx \<noteq> [] then path_Base (sc_LocalWorkspaceFolder ctx) else match)
      else if variable = ''containerWorkspaceFolder'' then
        (if sc_ContainerWorkspaceFolder ctx \<noteq> [] then sc_ContainerWorkspaceFolder ctx else match)
      else if variable = ''containerWorkspaceFolderBasename'' then
        (if sc_ContainerWorkspaceFolder ctx \<noteq> [] then path_Base (sc_ContainerWorkspaceFolder ctx) else match)
      else match)"

text \<open>The updates of the context at the start of a substitution.\<close>

definition prepare_context ::
    "bool \<Rightarrow> (string list \<Rightarrow> string list) \<Rightarrow> substitution_context \<Rightarrow> substitution_context" where
  "prepare_context isWindows ord ctx =
     (let ctx1 = (if isWindows
                  then ctx\<lparr>sc_Env := fold (\<lambda>k. AList.update (ToLower k) (the (map_of (sc_Env ctx) k)))
                         (ord (keys (sc_Env ctx))) []\<rparr>
                  else ctx) in
      if sc_ContainerWorkspaceFolder ctx1 \<noteq> []
      then ctx1\<lparr>sc_ContainerWorkspaceFolder :=
             ResolveString (sc_ContainerWorkspaceFolder ctx1) (replaceWithContext isWindows ctx1)\<rparr>
      else ctx1)"

definition Substitute ::
    "bool \<Rightarrow> (string list \<Rightarrow> string list) \<Rightarrow> ('a \<Rightarrow> json result) \<Rightarrow> (json \<Rightarrow> 'a result) \<Rightarrow>
     substitution_context \<Rightarrow> 'a \<Rightarrow> 'a result \<times> substitution_context" where
  "Substitute isWindows ord enc dec ctx config =
     (case enc config of
        Inl e \<Rightarrow> (Inl e, ctx)
      | Inr j \<Rightarrow>
          (let ctx1 = prepare_context isWindows ord ctx in
           (dec (substitute0 (replaceWithContext isWindows ctx1) j), ctx1)))"

definition SubstituteContainerEnv ::
    "('a \<Rightarrow> json result) \<Rightarrow> (json \<Rightarrow> 'a result) \<Rightarrow> string gomap \<Rightarrow> 'a \<Rightarrow> 'a result" where
  "SubstituteContainerEnv enc dec containerEnv config =
     (case enc config of
        Inl e \<Rightarrow> Inl e
      | Inr j \<Rightarrow> dec (substitute0 (replaceWithContainerEnv containerEnv) j))"

section \<open>Matching a variable\<close>

lemma lazyn_until:
  assumes "\<And>s c. k (s, c) = (case s of [] \<Rightarrow> None | x # t \<Rightarrow> if x = b then Some (g (t, c)) else None)"
    and "length s \<le> n"
  shows "lazyn (mt (Cls p)) k n (s, c) =
    (if b \<in> set s \<and> list_all p (takeWhile (\<lambda>x. x \<noteq> b) s)
     then Some (g (tl (dropWhile (\<lambda>x. x \<noteq> b) s), c)) else None)"
  using assms(2)
proof (induction n arbitrary: s)
  case 0
  then show ?case by (simp add: assms(1))
next
  case (Suc n)
  then show ?case by (cases s) (auto simp: assms(1))
qed

lemma match_variable:
  "match_at VariableRegExp s =
     (if HasPrefix s ''${'' \<and> CHR ''}'' \<in> set (drop 2 s) \<and>
         list_all not_newline (takeWhile (\<lambda>x. x \<noteq> CHR ''}'') (drop 2 s))
      then Some (tl (dropWhile (\<lambda>x. x \<noteq> CHR ''}'') (drop 2 s)),
                 [(1, takeWhile (\<lambda>x. x \<noteq> CHR ''}'') (drop 2 s))])
      else None)"
proof (cases "HasPrefix s ''${''")
  case False
  then show ?thesis
    by (cases s; cases "tl s") (auto simp: match_at_def VariableRegExp_def Ch_def HasPrefix_def)
next
  case True
  then obtain u where s: "s = CHR ''$'' # CHR ''{'' # u"
    by (cases s; cases "tl s") (auto simp: HasPrefix_def)
  let ?k = "\<lambda>s'. mt (Ch CHR ''}'') Some (fst s', (1, take (length u - length (fst s')) u) # snd s')"
  have "match_at VariableRegExp s = lazyn (mt (Cls not_newline)) ?k (length u) (u, [])"
    by (simp add: s match_at_def VariableRegExp_def Ch_def)
  also have "\<dots> = (if CHR ''}'' \<in> set u \<and> list_all not_newline (takeWhile (\<lambda>x. x \<noteq> CHR ''}'') u)
     then Some ((\<lambda>(t, c). (t, (1, take (length u - Suc (length t)) u) # c))
       (tl (dropWhile (\<lambda>x. x \<noteq> CHR ''}'') u), [])) else None)"
    by (rule lazyn_until) (auto simp: Ch_def split: list.splits)
  finally show ?thesis using True by (auto simp: s take_length_takeWhile)
qed

section \<open>Templates\<close>

text \<open>A text with variables as its pieces.\<close>

datatype piece = Text string | Var string

fun print_piece :: "piece \<Rightarrow> string" where
  "print_piece (Text t) = t"
| "print_piece (Var v) = ''${'' @ v @ ''}''"

fun piece_ok :: "piece \<Rightarrow> bool" where
  "piece_ok (Text t) \<longleftrightarrow> CHR ''$'' \<notin> set t"
| "piece_ok (Var v) \<longleftrightarrow> CHR ''}'' \<notin> set v \<and> list_all not_newline v"

text \<open>The value of a variable: its name and its arguments are separated by colons.\<close>

definition value_of :: "replace_function \<Rightarrow> string \<Rightarrow> string" where
  "value_of replace v = replace (''${'' @ v @ ''}'') (hd (Split CHR '':'' v)) (tl (Split CHR '':'' v))"

fun eval_piece :: "replace_function \<Rightarrow> piece \<Rightarrow> string" where
  "eval_piece replace (Text t) = t"
| "eval_piece replace (Var v) = value_of replace v"

lemma replace_match_variable: "replace_match replace (''${'' @ v @ ''}'') = value_of replace v"
proof -
  have "v = hd (Split CHR '':'' v)" "tl (Split CHR '':'' v) = []" if "\<not> length (Split CHR '':'' v) > 1"
    using that Join_Split [of "CHR '':''" v] by (cases "Split CHR '':'' v"; auto)+
  then show ?thesis
    unfolding replace_match_def value_of_def by (auto simp: Let_def simp del: One_nat_def)
qed

lemma ReplaceAll_plain:
  "CHR ''$'' \<notin> set t \<Longrightarrow>
    ReplaceAllStringFunc VariableRegExp f (t @ s) = t @ ReplaceAllStringFunc VariableRegExp f s"
proof (induction t)
  case (Cons x t)
  then have "match_at VariableRegExp (x # t @ s) = None" by (auto simp: match_variable HasPrefix_def)
  with Cons show ?case by simp
qed simp

lemma ReplaceAll_variable:
  assumes "piece_ok (Var v)"
  shows "ReplaceAllStringFunc VariableRegExp f ((''${'' @ v @ ''}'') @ s) =
    f (''${'' @ v @ ''}'') @ ReplaceAllStringFunc VariableRegExp f s"
proof -
  have "takeWhile (\<lambda>x. x \<noteq> CHR ''}'') (v @ CHR ''}'' # s) = v"
    "dropWhile (\<lambda>x. x \<noteq> CHR ''}'') (v @ CHR ''}'' # s) = CHR ''}'' # s"
    using assms by (auto simp: takeWhile_append dropWhile_append)
  then have "match_at VariableRegExp ((''${'' @ v @ ''}'') @ s) = Some (s, [(1, v)])"
    using assms by (simp add: match_variable HasPrefix_def)
  then show ?thesis using matched_append [of "''${'' @ v @ ''}''" s] by simp
qed

lemma ResolveString_pieces:
  "list_all piece_ok ps \<Longrightarrow>
    ResolveString (concat (map print_piece ps)) replace = concat (map (eval_piece replace) ps)"
proof (induction ps)
  case (Cons p ps)
  then show ?case
    using ReplaceAll_plain ReplaceAll_variable [of _ "replace_match replace" "concat (map print_piece ps)"]
      replace_match_variable [of replace]
    by (cases p) (auto simp: ResolveString_def)
qed (simp add: ResolveString_def)

lemma ResolveString_keeps: "(\<And>m v a. replace m v a = m) \<Longrightarrow> ResolveString s replace = s"
  unfolding ResolveString_def
  by (rule ReplaceAllStringFunc_id) (simp add: replace_match_def Let_def)

end
