(* ===== verification/Devcontainer_Merge.thy ===== *)
theory Devcontainer_Merge
  imports Substitute
begin

text \<open>
  Merging the configuration of a development container from the metadata of the base image, of the
  features and of \<^verbatim>\<open>devcontainer.json\<close>: \<^verbatim>\<open>pkg/devcontainer/config/merge.go\<close> and
  \<^verbatim>\<open>pkg/devcontainer/metadata/metadata.go\<close>.  The lemmas say which of several entries decides a setting.
\<close>

section \<open>Merging\<close>

fun first_some :: "('a \<Rightarrow> 'b option) \<Rightarrow> 'a list \<Rightarrow> 'b option" where
  "first_some m [] = None"
| "first_some m (e # es) = (case m e of None \<Rightarrow> first_some m es | Some x \<Rightarrow> Some x)"

definition mergeOtherPortsAttributes :: "image_metadata list \<Rightarrow> port_attribute option" where
  "mergeOtherPortsAttributes entries = first_some (\<lambda>e. cb_OtherPortsAttributes (im_Base e)) entries"

definition mergeHostRequirements :: "image_metadata list \<Rightarrow> host_requirements option" where
  "mergeHostRequirements entries = first_some (\<lambda>e. cb_HostRequirements (im_Base e)) entries"

definition some_bool :: "('a \<Rightarrow> bool option) \<Rightarrow> 'a list \<Rightarrow> bool option" where
  "some_bool m entries = first_some m entries"

fun merge_maps :: "(image_metadata \<Rightarrow> 'v gomap) \<Rightarrow> image_metadata list \<Rightarrow> 'v gomap \<Rightarrow> 'v gomap" where
  "merge_maps m [] ret = ret"
| "merge_maps m (e # es) ret = merge_maps m es (copy_into ret (m e))"

definition metadata_mergeMaps :: "(image_metadata \<Rightarrow> 'v gomap) \<Rightarrow> image_metadata list \<Rightarrow> 'v gomap" where
  "metadata_mergeMaps m entries = merge_maps m entries []"

fun firstString :: "(image_metadata \<Rightarrow> string) \<Rightarrow> image_metadata list \<Rightarrow> string" where
  "firstString m [] = []"
| "firstString m (e # es) = (if m e \<noteq> [] then m e else firstString m es)"

text \<open>The name under which a port is remembered.\<close>

definition port_name :: "string \<Rightarrow> string" where
  "port_name p = (if Atoi p \<noteq> None then ''localhost:'' @ p else p)"

fun merge_ports :: "string list \<Rightarrow> string list \<Rightarrow> string list \<Rightarrow> string list" where
  "merge_ports seen ret [] = ret"
| "merge_ports seen ret (p # ps) =
     (if port_name p \<in> set seen then merge_ports seen ret ps
      else merge_ports (port_name p # seen) (ret @ [p]) ps)"

definition mergeForwardPorts :: "image_metadata list \<Rightarrow> string list" where
  "mergeForwardPorts entries = merge_ports [] [] (concat (map (\<lambda>e. cb_ForwardPorts (im_Base e)) entries))"

definition ReverseSlice :: "'a list \<Rightarrow> 'a list" where
  "ReverseSlice s = fold (\<lambda>i r. r @ [s ! i]) (rev [0..<length s]) []"

fun merge_mounts :: "string list \<Rightarrow> mount list \<Rightarrow> mount list \<Rightarrow> mount list" where
  "merge_mounts seen ret [] = ret"
| "merge_mounts seen ret (m # ms) =
     (if mt_Target m \<in> set seen then merge_mounts seen ret ms
      else merge_mounts (mt_Target m # seen) (ret @ [m]) ms)"

definition mergeMounts :: "image_metadata list \<Rightarrow> mount list" where
  "mergeMounts entries =
     ReverseSlice (merge_mounts [] [] (concat (map (\<lambda>e. nc_Mounts (im_NonCompose e)) (ReverseSlice entries))))"

definition mergeLifestyleHooks :: "(image_metadata \<Rightarrow> lifecycle_hook) \<Rightarrow> image_metadata list \<Rightarrow> lifecycle_hook list" where
  "mergeLifestyleHooks m entries = map m (filter (\<lambda>e. length (m e) > 0) entries)"

definition collectOrNil :: "(image_metadata \<Rightarrow> string) \<Rightarrow> image_metadata list \<Rightarrow> string list" where
  "collectOrNil m entries = map m (filter (\<lambda>e. m e \<noteq> []) entries)"

definition unionOrNil :: "('k \<Rightarrow> 'a list) \<Rightarrow> 'k list \<Rightarrow> 'a list" where
  "unionOrNil m entries = concat (map m (filter (\<lambda>e. length (m e) > 0) entries))"

fun unique_from :: "'a list \<Rightarrow> 'a list \<Rightarrow> 'a list" where
  "unique_from result [] = result"
| "unique_from result (x # xs) = unique_from (if x \<in> set result then result else result @ [x]) xs"

definition unique :: "'a list \<Rightarrow> 'a list" where
  "unique s = unique_from [] s"

text \<open>\<open>customizations[k] = append(customizations[k], v)\<close> for every entry in order.\<close>

definition add_customization :: "string \<times> json \<Rightarrow> json list gomap \<Rightarrow> json list gomap" where
  "add_customization kv m =
     AList.update (fst kv) ((case map_of m (fst kv) of None \<Rightarrow> [] | Some vs \<Rightarrow> vs) @ [snd kv]) m"

definition merge_customizations :: "image_metadata list \<Rightarrow> json list gomap" where
  "merge_customizations entries = fold add_customization (concat (map (\<lambda>e. ac_Customizations (im_Actions e)) entries)) []"

text \<open>A clone through JSON; the field \<open>Origin\<close> is not part of the JSON and is copied.\<close>

definition CloneDevContainerConfig :: "devcontainer \<Rightarrow> devcontainer" where
  "CloneDevContainerConfig c = c"

definition MergeConfiguration :: "devcontainer \<Rightarrow> image_metadata list \<Rightarrow> merged_devcontainer" where
  "MergeConfiguration config entries =
     (let copied = CloneDevContainerConfig config;
          reversed = ReverseSlice entries in
      \<lparr>md_Base = (dc_Base copied)
         \<lparr>cb_WaitFor := firstString (\<lambda>e. cb_WaitFor (im_Base e)) reversed,
          cb_RemoteUser := firstString (\<lambda>e. cb_RemoteUser (im_Base e)) reversed,
          cb_UserEnvProbe := firstString (\<lambda>e. cb_UserEnvProbe (im_Base e)) reversed,
          cb_RemoteEnv := metadata_mergeMaps (\<lambda>e. cb_RemoteEnv (im_Base e)) reversed,
          cb_PortsAttributes := metadata_mergeMaps (\<lambda>e. cb_PortsAttributes (im_Base e)) reversed,
          cb_OverrideCommand := some_bool (\<lambda>e. cb_OverrideCommand (im_Base e)) reversed,
          cb_OtherPortsAttributes := mergeOtherPortsAttributes reversed,
          cb_ShutdownAction := firstString (\<lambda>e. cb_ShutdownAction (im_Base e)) reversed,
          cb_ForwardPorts := mergeForwardPorts reversed,
          cb_UpdateRemoteUserUID := some_bool (\<lambda>e. cb_UpdateRemoteUserUID (im_Base e)) reversed,
          cb_HostRequirements := mergeHostRequirements reversed\<rparr>,
       md_Updated =
         \<lparr>up_Entrypoints = collectOrNil im_Entrypoint reversed,
          up_OnCreateCommands = mergeLifestyleHooks (\<lambda>e. ac_OnCreateCommand (im_Actions e)) reversed,
          up_UpdateContentCommands = mergeLifestyleHooks (\<lambda>e. ac_UpdateContentCommand (im_Actions e)) reversed,
          up_PostCreateCommands = mergeLifestyleHooks (\<lambda>e. ac_PostCreateCommand (im_Actions e)) reversed,
          up_PostStartCommands = mergeLifestyleHooks (\<lambda>e. ac_PostStartCommand (im_Actions e)) reversed,
          up_PostAttachCommands = mergeLifestyleHooks (\<lambda>e. ac_PostAttachCommand (im_Actions e)) reversed,
          up_Customizations = merge_customizations entries\<rparr>,
       md_NonCompose = (dc_NonCompose copied)
         \<lparr>nc_Init := some_bool (\<lambda>e. nc_Init (im_NonCompose e)) reversed,
          nc_Privileged := some_bool (\<lambda>e. nc_Privileged (im_NonCompose e)) reversed,
          nc_CapAdd := unique (unionOrNil (\<lambda>e. nc_CapAdd (im_NonCompose e)) reversed),
          nc_SecurityOpt := unique (unionOrNil (\<lambda>e. nc_SecurityOpt (im_NonCompose e)) reversed),
          nc_Mounts := mergeMounts reversed,
          nc_ContainerUser := firstString (\<lambda>e. nc_ContainerUser (im_NonCompose e)) reversed,
          nc_ContainerEnv := metadata_mergeMaps (\<lambda>e. nc_ContainerEnv (im_NonCompose e)) reversed\<rparr>,
       md_Image = dc_Image copied, md_Compose = dc_Compose copied, md_Dockerfile = dc_Dockerfile copied,
       md_ContainerID = [], md_Origin = []\<rparr>)"

section \<open>The metadata of an image\<close>

definition ImageMetadataLabel :: string where "ImageMetadataLabel = ''devcontainer.metadata''"

definition FeatureConfigToImageMetadata :: "feature_config \<Rightarrow> image_metadata" where
  "FeatureConfigToImageMetadata f =
     zero_metadata
      \<lparr>im_Entrypoint := fc_Entrypoint f,
       im_Actions := zero_actions\<lparr>ac_Customizations := fc_Customizations f\<rparr>,
       im_NonCompose := zero_non_compose
         \<lparr>nc_Mounts := fc_Mounts f, nc_Init := fc_Init f, nc_Privileged := fc_Privileged f,
          nc_CapAdd := fc_CapAdd f, nc_SecurityOpt := fc_SecurityOpt f\<rparr>\<rparr>"

definition DevContainerConfigToImageMetadata :: "devcontainer \<Rightarrow> image_metadata" where
  "DevContainerConfigToImageMetadata c =
     (let b = dc_Base c; a = dc_Actions c; n = dc_NonCompose c in
      zero_metadata
       \<lparr>im_Base := zero_base
          \<lparr>cb_ForwardPorts := cb_ForwardPorts b, cb_PortsAttributes := cb_PortsAttributes b,
           cb_OtherPortsAttributes := cb_OtherPortsAttributes b,
           cb_UpdateRemoteUserUID := cb_UpdateRemoteUserUID b, cb_RemoteEnv := cb_RemoteEnv b,
           cb_RemoteUser := cb_RemoteUser b, cb_ShutdownAction := cb_ShutdownAction b,
           cb_WaitFor := cb_WaitFor b, cb_UserEnvProbe := cb_UserEnvProbe b,
           cb_HostRequirements := cb_HostRequirements b, cb_OverrideCommand := cb_OverrideCommand b\<rparr>,
        im_Actions := zero_actions
          \<lparr>ac_OnCreateCommand := ac_OnCreateCommand a, ac_UpdateContentCommand := ac_UpdateContentCommand a,
           ac_PostCreateCommand := ac_PostCreateCommand a, ac_PostStartCommand := ac_PostStartCommand a,
           ac_PostAttachCommand := ac_PostAttachCommand a, ac_Customizations := ac_Customizations a\<rparr>,
        im_NonCompose := zero_non_compose
          \<lparr>nc_ContainerEnv := nc_ContainerEnv n, nc_ContainerUser := nc_ContainerUser n,
           nc_Mounts := nc_Mounts n, nc_Init := nc_Init n, nc_Privileged := nc_Privileged n,
           nc_CapAdd := nc_CapAdd n, nc_SecurityOpt := nc_SecurityOpt n\<rparr>\<rparr>)"

text \<open>Substituting a list of entries one after the other; the context is carried along.  \<open>subst\<close>
  is \<open>Substitute\<close> for this struct.\<close>

fun substitute_all ::
    "(substitution_context \<Rightarrow> image_metadata \<Rightarrow> image_metadata result \<times> substitution_context) \<Rightarrow>
     substitution_context \<Rightarrow> image_metadata list \<Rightarrow> image_metadata list result \<times> substitution_context" where
  "substitute_all subst ctx [] = (Inr [], ctx)"
| "substitute_all subst ctx (raw # raws) =
     (case subst ctx raw of
        (Inl e, ctx1) \<Rightarrow> (Inl e, ctx1)
      | (Inr x, ctx1) \<Rightarrow>
          (case substitute_all subst ctx1 raws of
             (Inl e, ctx2) \<Rightarrow> (Inl e, ctx2)
           | (Inr xs, ctx2) \<Rightarrow> (Inr (x # xs), ctx2)))"

definition substituteConfig ::
    "(substitution_context \<Rightarrow> image_metadata \<Rightarrow> image_metadata result \<times> substitution_context) \<Rightarrow>
     substitution_context \<Rightarrow> image_metadata list \<Rightarrow> image_metadata_config result \<times> substitution_context" where
  "substituteConfig subst ctx raw =
     (case substitute_all subst ctx raw of
        (Inl e, ctx1) \<Rightarrow> (Inl e, ctx1)
      | (Inr xs, ctx1) \<Rightarrow> (Inr \<lparr>imc_Raw = raw, imc_Config = xs\<rparr>, ctx1))"

definition GetDevContainerMetadata ::
    "(substitution_context \<Rightarrow> image_metadata \<Rightarrow> image_metadata result \<times> substitution_context) \<Rightarrow>
     substitution_context \<Rightarrow> image_metadata_config \<Rightarrow> devcontainer \<Rightarrow> devcontainer \<Rightarrow> feature_set list \<Rightarrow>
     image_metadata_config result \<times> substitution_context" where
  "GetDevContainerMetadata subst ctx base configRaw config features =
     (let featuresRaw = map (\<lambda>f. FeatureConfigToImageMetadata (fs_Config f)) features in
      case substitute_all subst ctx featuresRaw of
        (Inl e, ctx1) \<Rightarrow> (Inl e, ctx1)
      | (Inr xs, ctx1) \<Rightarrow>
          (Inr \<lparr>imc_Raw = imc_Raw base @ featuresRaw @ [DevContainerConfigToImageMetadata configRaw],
                imc_Config = imc_Config base @ xs @ [DevContainerConfigToImageMetadata config]\<rparr>, ctx1))"

text \<open>The label holds a list of entries or a single one; a label that is neither is logged and
  ignored.\<close>

definition metadata_of_labels ::
    "(string \<Rightarrow> image_metadata list result) \<Rightarrow> (string \<Rightarrow> image_metadata result) \<Rightarrow>
     (substitution_context \<Rightarrow> image_metadata \<Rightarrow> image_metadata result \<times> substitution_context) \<Rightarrow>
     substitution_context \<Rightarrow> string gomap \<Rightarrow> image_metadata_config result \<times> substitution_context" where
  "metadata_of_labels json_list json_one subst ctx labels =
     (let none = (Inr \<lparr>imc_Raw = [], imc_Config = []\<rparr>, ctx) in
      case map_of labels ImageMetadataLabel of
        None \<Rightarrow> none
      | Some l \<Rightarrow>
          if l = [] then none
          else (case json_list l of
                  Inr multiple \<Rightarrow> substituteConfig subst ctx multiple
                | Inl _ \<Rightarrow>
                    (case json_one l of
                       Inr single \<Rightarrow> substituteConfig subst ctx [single]
                     | Inl _ \<Rightarrow> none)))"

definition GetImageMetadataFromContainer where
  "GetImageMetadataFromContainer json_list json_one subst ctx details =
     (case details of
        None \<Rightarrow> (Inr \<lparr>imc_Raw = [], imc_Config = []\<rparr>, ctx)
      | Some d \<Rightarrow> metadata_of_labels json_list json_one subst ctx (cd_Labels d))"

definition GetImageMetadata where
  "GetImageMetadata json_list json_one subst ctx details =
     metadata_of_labels json_list json_one subst ctx (id_Labels details)"

section \<open>Lemmas\<close>

lemma ReverseSlice_rev [simp]: "ReverseSlice s = rev s"
proof -
  have "fold (\<lambda>i r. r @ [s ! i]) is acc = acc @ map ((!) s) is" for "is" acc
    by (induction "is" arbitrary: acc) auto
  then show ?thesis by (simp add: ReverseSlice_def rev_map [symmetric] map_nth)
qed

lemma map_of_merge_maps:
  "(\<forall>e \<in> set es. wf_map (m e)) \<Longrightarrow>
   map_of (merge_maps m es ret) k =
     (case first_some (\<lambda>e. map_of (m e) k) (rev es) of Some v \<Rightarrow> Some v | None \<Rightarrow> map_of ret k)"
proof (induction es arbitrary: ret)
  case (Cons e es)
  have "first_some f (xs @ [x]) = (case first_some f xs of None \<Rightarrow> f x | Some y \<Rightarrow> Some y)"
    for f :: "image_metadata \<Rightarrow> 'a option" and xs x
    by (induction xs) (auto split: option.splits)
  with Cons show ?case by (auto simp: map_of_copy_into map_add_def split: option.splits)
qed simp

text \<open>The loops that keep the first element of every key are one function of the key.\<close>

fun first_by :: "('a \<Rightarrow> 'k) \<Rightarrow> 'k set \<Rightarrow> 'a list \<Rightarrow> 'a list" where
  "first_by key seen [] = []"
| "first_by key seen (x # xs) =
     (if key x \<in> seen then first_by key seen xs else x # first_by key (insert (key x) seen) xs)"

lemma merge_ports_first_by: "merge_ports seen ret ps = ret @ first_by port_name (set seen) ps"
  by (induction seen ret ps rule: merge_ports.induct) auto

lemma merge_mounts_first_by: "merge_mounts seen ret ms = ret @ first_by mt_Target (set seen) ms"
  by (induction seen ret ms rule: merge_mounts.induct) auto

lemma unique_from_first_by: "unique_from ret xs = ret @ first_by id (set ret) xs"
  by (induction ret xs rule: unique_from.induct) auto

lemma first_by_keys: "key ` set (first_by key seen xs) = key ` set xs - seen"
  by (induction key seen xs rule: first_by.induct) auto

lemma first_by_distinct: "distinct (map key (first_by key seen xs))"
proof (induction key seen xs rule: first_by.induct)
  case (2 key seen x xs)
  then show ?case using first_by_keys [of key "insert (key x) seen" xs] by auto
qed simp

lemma first_by_find:
  "y \<in> set (first_by key seen xs) \<longleftrightarrow> key y \<notin> seen \<and> find (\<lambda>x. key x = key y) xs = Some y"
  by (induction key seen xs rule: first_by.induct) auto


text \<open>The merged settings one by one.\<close>

lemma merged_base:
  "cb_RemoteUser (md_Base (MergeConfiguration c es)) = firstString (\<lambda>e. cb_RemoteUser (im_Base e)) (rev es)"
  "cb_WaitFor (md_Base (MergeConfiguration c es)) = firstString (\<lambda>e. cb_WaitFor (im_Base e)) (rev es)"
  "cb_UserEnvProbe (md_Base (MergeConfiguration c es)) = firstString (\<lambda>e. cb_UserEnvProbe (im_Base e)) (rev es)"
  "cb_ShutdownAction (md_Base (MergeConfiguration c es)) = firstString (\<lambda>e. cb_ShutdownAction (im_Base e)) (rev es)"
  "cb_OverrideCommand (md_Base (MergeConfiguration c es)) = first_some (\<lambda>e. cb_OverrideCommand (im_Base e)) (rev es)"
  "cb_UpdateRemoteUserUID (md_Base (MergeConfiguration c es)) =
     first_some (\<lambda>e. cb_UpdateRemoteUserUID (im_Base e)) (rev es)"
  "cb_OtherPortsAttributes (md_Base (MergeConfiguration c es)) =
     first_some (\<lambda>e. cb_OtherPortsAttributes (im_Base e)) (rev es)"
  "cb_HostRequirements (md_Base (MergeConfiguration c es)) = first_some (\<lambda>e. cb_HostRequirements (im_Base e)) (rev es)"
  "cb_RemoteEnv (md_Base (MergeConfiguration c es)) = merge_maps (\<lambda>e. cb_RemoteEnv (im_Base e)) (rev es) []"
  "cb_PortsAttributes (md_Base (MergeConfiguration c es)) = merge_maps (\<lambda>e. cb_PortsAttributes (im_Base e)) (rev es) []"
  "cb_ForwardPorts (md_Base (MergeConfiguration c es)) = mergeForwardPorts (rev es)"
  by (simp_all add: MergeConfiguration_def Let_def some_bool_def mergeOtherPortsAttributes_def
      mergeHostRequirements_def metadata_mergeMaps_def)

lemma merged_non_compose:
  "nc_ContainerUser (md_NonCompose (MergeConfiguration c es)) =
     firstString (\<lambda>e. nc_ContainerUser (im_NonCompose e)) (rev es)"
  "nc_Init (md_NonCompose (MergeConfiguration c es)) = first_some (\<lambda>e. nc_Init (im_NonCompose e)) (rev es)"
  "nc_Privileged (md_NonCompose (MergeConfiguration c es)) = first_some (\<lambda>e. nc_Privileged (im_NonCompose e)) (rev es)"
  "nc_ContainerEnv (md_NonCompose (MergeConfiguration c es)) =
     merge_maps (\<lambda>e. nc_ContainerEnv (im_NonCompose e)) (rev es) []"
  "nc_Mounts (md_NonCompose (MergeConfiguration c es)) = mergeMounts (rev es)"
  "nc_CapAdd (md_NonCompose (MergeConfiguration c es)) = unique (unionOrNil (\<lambda>e. nc_CapAdd (im_NonCompose e)) (rev es))"
  "nc_SecurityOpt (md_NonCompose (MergeConfiguration c es)) =
     unique (unionOrNil (\<lambda>e. nc_SecurityOpt (im_NonCompose e)) (rev es))"
  by (simp_all add: MergeConfiguration_def Let_def some_bool_def metadata_mergeMaps_def)

lemma first_some_Cons: "first_some m (x # es) = (if m x \<noteq> None then m x else first_some m es)"
  by (auto split: option.splits)

end
