(* ===== verification/Devcontainer_Properties.thy ===== *)
theory Devcontainer_Properties
  imports Devcontainer_Merge
begin

text \<open>
  The properties of mounts, variable substitution and merging of devcontainer configurations.
\<close>

section \<open>Merging\<close>

text \<open>C18: The last entry of the metadata (the one of \<^verbatim>\<open>devcontainer.json\<close>) decides every setting with one
  value that it sets, and a setting it leaves open is what the other entries give: the users, the
  probe, the command to wait for, the shutdown action, the flags, the attributes of the other ports
  and the host requirements.\<close>

theorem MergeConfiguration_last_wins:
  fixes c :: devcontainer and es :: "image_metadata list" and x :: image_metadata
  defines "m \<equiv> MergeConfiguration c (es @ [x])" and "m0 \<equiv> MergeConfiguration c es"
  shows "(\<forall>f \<in> {cb_RemoteUser, cb_WaitFor, cb_UserEnvProbe, cb_ShutdownAction}.
      f (md_Base m) = (if f (im_Base x) \<noteq> [] then f (im_Base x) else f (md_Base m0))) \<and>
    nc_ContainerUser (md_NonCompose m) =
      (if nc_ContainerUser (im_NonCompose x) \<noteq> [] then nc_ContainerUser (im_NonCompose x)
       else nc_ContainerUser (md_NonCompose m0)) \<and>
    (\<forall>f \<in> {cb_OverrideCommand, cb_UpdateRemoteUserUID}.
      f (md_Base m) = (if f (im_Base x) \<noteq> None then f (im_Base x) else f (md_Base m0))) \<and>
    (\<forall>f \<in> {nc_Init, nc_Privileged}.
      f (md_NonCompose m) = (if f (im_NonCompose x) \<noteq> None then f (im_NonCompose x) else f (md_NonCompose m0))) \<and>
    cb_OtherPortsAttributes (md_Base m) =
      (if cb_OtherPortsAttributes (im_Base x) \<noteq> None then cb_OtherPortsAttributes (im_Base x)
       else cb_OtherPortsAttributes (md_Base m0)) \<and>
    cb_HostRequirements (md_Base m) =
      (if cb_HostRequirements (im_Base x) \<noteq> None then cb_HostRequirements (im_Base x)
       else cb_HostRequirements (md_Base m0))"
  unfolding m_def m0_def
  by (simp add: merged_base merged_non_compose first_some_Cons del: first_some.simps)

definition sample_metadata :: image_metadata where
  "sample_metadata = zero_metadata\<lparr>im_Base := zero_base\<lparr>cb_RemoteUser := ''dev'', cb_RemoteEnv := [(''A'', ''1'')]\<rparr>\<rparr>"

definition sample_image :: image_metadata where
  "sample_image = zero_metadata
     \<lparr>im_Base := zero_base\<lparr>cb_RemoteUser := ''root'', cb_RemoteEnv := [(''A'', ''0''), (''B'', ''2'')]\<rparr>,
      im_NonCompose := zero_non_compose\<lparr>nc_Mounts := [zero_mount\<lparr>mt_Source := ''a'', mt_Target := ''/t''\<rparr>]\<rparr>\<rparr>"

theorem MergeConfiguration_last_wins_witness:
  "cb_RemoteUser (md_Base (MergeConfiguration zero_devcontainer ([sample_image] @ [sample_metadata]))) = ''dev''"
proof -
  have "cb_RemoteUser (im_Base sample_metadata) = ''dev''" by (simp add: sample_metadata_def)
  with MergeConfiguration_last_wins [of zero_devcontainer "[sample_image]" sample_metadata] show ?thesis
    by simp
qed

text \<open>C19: For the variables of the container and of the remote processes, and for the attributes of a
  port, it is the first entry (the base image) that wins over the later ones: the loop that merges
  the maps overwrites what it has, and it runs over the reversed entries.\<close>

theorem MergeConfiguration_env_first_wins:
  assumes "\<And>e. e \<in> set entries \<Longrightarrow> wf_map (cb_RemoteEnv (im_Base e)) \<and>
      wf_map (nc_ContainerEnv (im_NonCompose e)) \<and> wf_map (cb_PortsAttributes (im_Base e))"
  shows "map_of (cb_RemoteEnv (md_Base (MergeConfiguration c entries))) k =
      first_some (\<lambda>e. map_of (cb_RemoteEnv (im_Base e)) k) entries \<and>
    map_of (nc_ContainerEnv (md_NonCompose (MergeConfiguration c entries))) k =
      first_some (\<lambda>e. map_of (nc_ContainerEnv (im_NonCompose e)) k) entries \<and>
    map_of (cb_PortsAttributes (md_Base (MergeConfiguration c entries))) p =
      first_some (\<lambda>e. map_of (cb_PortsAttributes (im_Base e)) p) entries"
  using assms
  by (simp add: merged_base merged_non_compose map_of_merge_maps split: option.split)

theorem MergeConfiguration_env_first_wins_witness:
  "map_of (cb_RemoteEnv (md_Base (MergeConfiguration zero_devcontainer [sample_image, sample_metadata]))) ''A''
    = Some ''0''"
proof -
  have "e \<in> set [sample_image, sample_metadata] \<Longrightarrow> wf_map (cb_RemoteEnv (im_Base e)) \<and>
      wf_map (nc_ContainerEnv (im_NonCompose e)) \<and> wf_map (cb_PortsAttributes (im_Base e))" for e
    by (auto simp: sample_image_def sample_metadata_def zero_metadata_def zero_base_def zero_non_compose_def
        wf_map_def)
  from MergeConfiguration_env_first_wins [where entries = "[sample_image, sample_metadata]", OF this,
      of zero_devcontainer "''A''"]
  show ?thesis by (simp add: sample_image_def)
qed

text \<open>The merged mounts have one mount for every target that an entry mounts, and it is the first
  one in the order of the entries.\<close>

theorem MergeConfiguration_mounts:
  fixes c :: devcontainer and entries :: "image_metadata list"
  defines "all \<equiv> concat (map (\<lambda>e. nc_Mounts (im_NonCompose e)) entries)"
    and "ms \<equiv> nc_Mounts (md_NonCompose (MergeConfiguration c entries))"
  shows "distinct (map mt_Target ms) \<and> mt_Target ` set ms = mt_Target ` set all \<and>
    (\<forall>m. m \<in> set ms \<longleftrightarrow> find (\<lambda>x. mt_Target x = mt_Target m) all = Some m)"
proof -
  have ms: "ms = rev (first_by mt_Target {} all)"
    by (simp add: ms_def all_def merged_non_compose mergeMounts_def merge_mounts_first_by)
  show ?thesis
    unfolding ms using first_by_distinct [of mt_Target "{}" all] first_by_keys [of mt_Target "{}" all]
    by (simp add: first_by_find rev_map [symmetric])
qed



section \<open>Mounts and lists\<close>

text \<open>C21: Printing a mount and parsing it again gives the mount back, except that a type, source or target
  is cut at its first equals sign; so it is the identity on mounts without one.\<close>

theorem ParseMount_roundtrip:
  assumes "printable_mount m"
  shows "ParseMount (Mount_String m) =
      Inr (m\<lparr>mt_Type := before_eq (mt_Type m), mt_Source := before_eq (mt_Source m),
             mt_Target := before_eq (mt_Target m)\<rparr>) \<and>
    (CHR ''='' \<notin> set (mt_Type m @ mt_Source m @ mt_Target m) \<longrightarrow> ParseMount (Mount_String m) = Inr m)"
proof -
  have "before_eq s = s" if "CHR ''='' \<notin> set s" for s
    using that by (auto simp: before_eq_def takeWhile_eq_all_conv)
  then show ?thesis using ParseMount_Mount_String [OF assms] by simp
qed

theorem ParseMount_roundtrip_witness:
  "ParseMount ''type=bind,src=/a=b,dst=/c,ro'' =
    Inr \<lparr>mt_Type = ''bind'', mt_Source = ''/a'', mt_Target = ''/c'', mt_External = False, mt_Other = [''ro'']\<rparr>"
proof -
  let ?m = "\<lparr>mt_Type = ''bind'', mt_Source = ''/a=b'', mt_Target = ''/c'', mt_External = False, mt_Other = [''ro'']\<rparr>"
  have "printable_mount ?m" by (simp add: printable_mount_def reserved_key_def before_eq_def zero_mount_def)
  from ParseMount_roundtrip [OF this] show ?thesis by (simp add: Mount_String_def before_eq_def)
qed

text \<open>A list of assignments made from a map of variables gives the map back, in whatever order it is
  listed, when no name has an equals sign.\<close>

theorem ListToObject_roundtrip:
  assumes "\<And>k. k \<in> set (keys m) \<Longrightarrow> CHR ''='' \<notin> set k" and "set (ord (keys m)) = set (keys m)"
  shows "map_of (ListToObject (ObjectToList ord m)) = map_of m"
  using assms by (rule map_of_ListToObject)

theorem ListToObject_roundtrip_witness:
  "map_of (ListToObject (ObjectToList rev [(''A'', ''x=y''), (''B'', [])])) = map_of [(''A'', ''x=y''), (''B'', [])]"
  by (rule ListToObject_roundtrip) auto

section \<open>Substitution\<close>

text \<open>C22: A text made of plain pieces and of variables \<open>${name:arg:...}\<close> is replaced piece by piece: the
  plain pieces stay and every variable becomes the value of its name and arguments, and only the
  variables of the text are looked at (values are not expanded again).\<close>

theorem ResolveString_template:
  assumes "list_all piece_ok ps"
  shows "ResolveString (concat (map print_piece ps)) replace = concat (map (eval_piece replace) ps)"
  using assms by (rule ResolveString_pieces)

theorem ResolveString_template_witness:
  "ResolveString ''a/${localEnv:X:none}/${containerEnv:Y}''
     (replaceWithContext False \<lparr>sc_DevContainerID = [], sc_LocalWorkspaceFolder = [],
        sc_ContainerWorkspaceFolder = [], sc_Env = [(''X'', ''${x}'')], sc_WorkspaceMount = []\<rparr>) =
   ''a/${x}/${containerEnv:Y}''"
proof -
  have "list_all piece_ok [Text ''a/'', Var ''localEnv:X:none'', Text ''/'', Var ''containerEnv:Y'']"
    by (simp add: not_newline_def)
  from ResolveString_template [OF this] show ?thesis
    by (simp add: value_of_def replaceWithContext_def lookupValue_def)
qed

end
