(* ===== verification/Workspace_Types.thy ===== *)
theory Workspace_Types
  imports Provider Devcontainer Git
begin

text \<open>
  Workspaces and machines: the data of \<^verbatim>\<open>pkg/provider/workspace.go\<close>, \<^verbatim>\<open>machine.go\<close> and \<^verbatim>\<open>pro.go\<close>, the
  text form of a workspace source, and the variables of \<^verbatim>\<open>env.go\<close> that provider commands get.
\<close>

section \<open>Data\<close>

record workspace_source =
  ws_GitRepository :: string
  ws_GitBranch :: string
  ws_GitCommit :: string
  ws_GitPRReference :: string
  ws_GitSubPath :: string
  ws_LocalFolder :: string
  ws_Image :: string
  ws_Container :: string

record pro_metadata =
  pm_InstanceName :: string
  pm_Project :: string
  pm_DisplayName :: string

record workspace_ide_config =
  wi_Name :: string
  wi_Options :: OptionValues

record workspace_machine_config =
  wm_ID :: string
  wm_AutoDelete :: bool

record workspace_provider_config =
  wpc_Name :: string
  wpc_Options :: OptionValues

record workspace =
  w_ID :: string
  w_UID :: string
  w_Picture :: string
  w_Provider :: workspace_provider_config
  w_Machine :: workspace_machine_config
  w_IDE :: workspace_ide_config
  w_Source :: workspace_source
  w_DevContainerImage :: string
  w_DevContainerPath :: string
  w_DevContainerConfig :: "devcontainer option"
  w_CreationTimestamp :: int
  w_LastUsedTimestamp :: int
  w_Context :: string
  w_Imported :: bool
  w_Origin :: string
  w_Pro :: "pro_metadata option"
  w_SSHConfigPath :: string

record machine_provider_config =
  mp_Name :: string
  mp_Options :: OptionValues

record machine =
  m_ID :: string
  m_Provider :: machine_provider_config
  m_CreationTimestamp :: int
  m_Context :: string
  m_Origin :: string

record pro_instance =
  pi_Provider :: string
  pi_Host :: string
  pi_CreationTimestamp :: int

definition zero_source :: workspace_source where
  "zero_source = \<lparr>ws_GitRepository = [], ws_GitBranch = [], ws_GitCommit = [], ws_GitPRReference = [],
     ws_GitSubPath = [], ws_LocalFolder = [], ws_Image = [], ws_Container = []\<rparr>"

definition zero_workspace :: workspace where
  "zero_workspace = \<lparr>w_ID = [], w_UID = [], w_Picture = [],
     w_Provider = \<lparr>wpc_Name = [], wpc_Options = []\<rparr>, w_Machine = \<lparr>wm_ID = [], wm_AutoDelete = False\<rparr>,
     w_IDE = \<lparr>wi_Name = [], wi_Options = []\<rparr>, w_Source = zero_source, w_DevContainerImage = [],
     w_DevContainerPath = [], w_DevContainerConfig = None, w_CreationTimestamp = 0, w_LastUsedTimestamp = 0,
     w_Context = [], w_Imported = False, w_Origin = [], w_Pro = None, w_SSHConfigPath = []\<rparr>"

definition IsPro :: "workspace \<Rightarrow> bool" where
  "IsPro w \<longleftrightarrow> w_Pro w \<noteq> None"

section \<open>Sources\<close>

definition WorkspaceSourceGit :: string where "WorkspaceSourceGit = ''git:''"
definition WorkspaceSourceLocal :: string where "WorkspaceSourceLocal = ''local:''"
definition WorkspaceSourceImage :: string where "WorkspaceSourceImage = ''image:''"
definition WorkspaceSourceContainer :: string where "WorkspaceSourceContainer = ''container:''"
definition WorkspaceSourceUnknown :: string where "WorkspaceSourceUnknown = ''unknown:''"

lemmas source_prefixes = WorkspaceSourceGit_def WorkspaceSourceLocal_def WorkspaceSourceImage_def
  WorkspaceSourceContainer_def WorkspaceSourceUnknown_def

definition WorkspaceSource_String :: "workspace_source \<Rightarrow> string" where
  "WorkspaceSource_String w =
     (if ws_GitRepository w \<noteq> [] then
        (if ws_GitPRReference w \<noteq> [] then WorkspaceSourceGit @ ws_GitRepository w @ ''@'' @ ws_GitPRReference w
         else if ws_GitBranch w \<noteq> [] then WorkspaceSourceGit @ ws_GitRepository w @ ''@'' @ ws_GitBranch w
         else if ws_GitCommit w \<noteq> [] then WorkspaceSourceGit @ ws_GitRepository w @ CommitDelimiter @ ws_GitCommit w
         else WorkspaceSourceGit @ ws_GitRepository w)
      else if ws_LocalFolder w \<noteq> [] then WorkspaceSourceLocal @ ws_LocalFolder w
      else if ws_Image w \<noteq> [] then WorkspaceSourceImage @ ws_Image w
      else if ws_Container w \<noteq> [] then WorkspaceSourceContainer @ ws_Container w
      else [])"

definition WorkspaceSource_Type :: "workspace_source \<Rightarrow> string" where
  "WorkspaceSource_Type w =
     (if ws_GitRepository w \<noteq> [] then
        (if ws_GitPRReference w \<noteq> [] then WorkspaceSourceGit @ ''pr''
         else if ws_GitBranch w \<noteq> [] then WorkspaceSourceGit @ ''branch''
         else if ws_GitCommit w \<noteq> [] then WorkspaceSourceGit @ ''commit''
         else WorkspaceSourceGit)
      else if ws_LocalFolder w \<noteq> [] then WorkspaceSourceLocal
      else if ws_Image w \<noteq> [] then WorkspaceSourceImage
      else if ws_Container w \<noteq> [] then WorkspaceSourceContainer
      else WorkspaceSourceUnknown)"

definition ParseWorkspaceSource :: "string \<Rightarrow> workspace_source option" where
  "ParseWorkspaceSource source =
     (if HasPrefix source WorkspaceSourceGit then
        (let (repo, pr, branch, commit, subdir) = NormalizeRepository (TrimPrefix source WorkspaceSourceGit) in
         Some (zero_source\<lparr>ws_GitRepository := repo, ws_GitPRReference := pr, ws_GitBranch := branch,
                           ws_GitCommit := commit, ws_GitSubPath := subdir\<rparr>))
      else if HasPrefix source WorkspaceSourceLocal then
        Some (zero_source\<lparr>ws_LocalFolder := TrimPrefix source WorkspaceSourceLocal\<rparr>)
      else if HasPrefix source WorkspaceSourceImage then
        Some (zero_source\<lparr>ws_Image := TrimPrefix source WorkspaceSourceImage\<rparr>)
      else if HasPrefix source WorkspaceSourceContainer then
        Some (zero_source\<lparr>ws_Container := TrimPrefix source WorkspaceSourceContainer\<rparr>)
      else None)"

text \<open>The sources whose text determines them: one kind, no path in the repository, and a git
  reference of the form that the text of its kind has.\<close>

definition source_ok :: "workspace_source \<Rightarrow> bool" where
  "source_ok w \<longleftrightarrow>
     (if ws_GitRepository w \<noteq> [] then
        plain_repo (ws_GitRepository w) \<and> ws_GitSubPath w = [] \<and> ws_LocalFolder w = [] \<and> ws_Image w = [] \<and>
        ws_Container w = [] \<and>
        (ws_GitPRReference w = [] \<and> ws_GitBranch w = [] \<and> ws_GitCommit w = [] \<or>
         ws_GitPRReference w \<noteq> [] \<and> ws_GitBranch w = [] \<and> ws_GitCommit w = [] \<and> pr_reference (ws_GitPRReference w) \<or>
         ws_GitPRReference w = [] \<and> ws_GitBranch w \<noteq> [] \<and> ws_GitCommit w = [] \<and>
           list_all is_ref_char (ws_GitBranch w) \<and> \<not> pr_reference (ws_GitBranch w) \<or>
         ws_GitPRReference w = [] \<and> ws_GitBranch w = [] \<and> ws_GitCommit w \<noteq> [] \<and> list_all is_alnum (ws_GitCommit w))
      else
        w = zero_source\<lparr>ws_LocalFolder := ws_LocalFolder w\<rparr> \<and> ws_LocalFolder w \<noteq> [] \<or>
        w = zero_source\<lparr>ws_Image := ws_Image w\<rparr> \<and> ws_Image w \<noteq> [] \<or>
        w = zero_source\<lparr>ws_Container := ws_Container w\<rparr> \<and> ws_Container w \<noteq> [])"

lemma HasPrefix_self [simp]: "HasPrefix (d @ s) d" "TrimPrefix (d @ s) d = s"
  by (simp_all add: HasPrefix_def TrimPrefix_def)

lemma ParseWorkspaceSource_git:
  "ParseWorkspaceSource (WorkspaceSourceGit @ s) =
    (let (repo, pr, branch, commit, subdir) = NormalizeRepository s in
     Some (zero_source\<lparr>ws_GitRepository := repo, ws_GitPRReference := pr, ws_GitBranch := branch,
                       ws_GitCommit := commit, ws_GitSubPath := subdir\<rparr>))"
  by (simp add: ParseWorkspaceSource_def)

lemma ParseWorkspaceSource_other:
  "ParseWorkspaceSource (WorkspaceSourceLocal @ s) = Some (zero_source\<lparr>ws_LocalFolder := s\<rparr>)"
  "ParseWorkspaceSource (WorkspaceSourceImage @ s) = Some (zero_source\<lparr>ws_Image := s\<rparr>)"
  "ParseWorkspaceSource (WorkspaceSourceContainer @ s) = Some (zero_source\<lparr>ws_Container := s\<rparr>)"
  by (simp_all add: ParseWorkspaceSource_def source_prefixes HasPrefix_def TrimPrefix_def)

lemma ParseWorkspaceSource_String_other:
  assumes "source_ok w" and g: "ws_GitRepository w = []"
  shows "ParseWorkspaceSource (WorkspaceSource_String w) = Some w"
proof -
  consider "w = zero_source\<lparr>ws_LocalFolder := ws_LocalFolder w\<rparr>" "ws_LocalFolder w \<noteq> []"
    | "w = zero_source\<lparr>ws_Image := ws_Image w\<rparr>" "ws_Image w \<noteq> []"
    | "w = zero_source\<lparr>ws_Container := ws_Container w\<rparr>" "ws_Container w \<noteq> []"
    using assms g unfolding source_ok_def by auto
  then show ?thesis
  proof cases
    case 1
    then have "WorkspaceSource_String w = WorkspaceSourceLocal @ ws_LocalFolder w"
      using g by (simp add: WorkspaceSource_String_def)
    with 1 show ?thesis by (simp add: ParseWorkspaceSource_other)
  next
    case 2
    from arg_cong [OF 2(1), of ws_LocalFolder]
    have "WorkspaceSource_String w = WorkspaceSourceImage @ ws_Image w"
      using 2 g by (simp add: WorkspaceSource_String_def zero_source_def)
    with 2 show ?thesis by (simp add: ParseWorkspaceSource_other)
  next
    case 3
    from arg_cong [OF 3(1), of ws_LocalFolder] arg_cong [OF 3(1), of ws_Image]
    have "WorkspaceSource_String w = WorkspaceSourceContainer @ ws_Container w"
      using 3 g by (simp add: WorkspaceSource_String_def zero_source_def)
    with 3 show ?thesis by (simp add: ParseWorkspaceSource_other)
  qed
qed

lemma ParseWorkspaceSource_String_git:
  assumes "source_ok w" and g: "ws_GitRepository w \<noteq> []"
  shows "ParseWorkspaceSource (WorkspaceSource_String w) = Some w"
proof -
  let ?r = "ws_GitRepository w"
  have w: "w = zero_source\<lparr>ws_GitRepository := ?r, ws_GitPRReference := ws_GitPRReference w,
      ws_GitBranch := ws_GitBranch w, ws_GitCommit := ws_GitCommit w, ws_GitSubPath := []\<rparr>"
    and r: "plain_repo ?r"
    using assms g by (cases w; simp add: source_ok_def zero_source_def)+
  consider "ws_GitPRReference w = []" "ws_GitBranch w = []" "ws_GitCommit w = []"
    | "ws_GitPRReference w \<noteq> []" "ws_GitBranch w = []" "ws_GitCommit w = []" "pr_reference (ws_GitPRReference w)"
    | "ws_GitPRReference w = []" "ws_GitBranch w \<noteq> []" "ws_GitCommit w = []" "list_all is_ref_char (ws_GitBranch w)"
      "\<not> pr_reference (ws_GitBranch w)"
    | "ws_GitPRReference w = []" "ws_GitBranch w = []" "ws_GitCommit w \<noteq> []" "list_all is_alnum (ws_GitCommit w)"
    using assms g unfolding source_ok_def by auto
  then show ?thesis
  proof cases
    case 1
    then have "WorkspaceSource_String w = WorkspaceSourceGit @ ?r" using g by (simp add: WorkspaceSource_String_def)
    with 1 w NormalizeRepository_plain [OF r] show ?thesis by (simp add: ParseWorkspaceSource_git)
  next
    case 2
    then have "WorkspaceSource_String w = WorkspaceSourceGit @ ?r @ ''@'' @ ws_GitPRReference w"
      using g by (simp add: WorkspaceSource_String_def)
    with 2 w NormalizeRepository_pr [OF r 2(4)] show ?thesis by (simp add: ParseWorkspaceSource_git)
  next
    case 3
    then have "WorkspaceSource_String w = WorkspaceSourceGit @ ?r @ ''@'' @ ws_GitBranch w"
      using g by (simp add: WorkspaceSource_String_def)
    with 3 w NormalizeRepository_branch [OF r 3(2,4,5)] show ?thesis by (simp add: ParseWorkspaceSource_git)
  next
    case 4
    then have "WorkspaceSource_String w = WorkspaceSourceGit @ ?r @ CommitDelimiter @ ws_GitCommit w"
      using g by (simp add: WorkspaceSource_String_def)
    with 4 w NormalizeRepository_commit [OF r 4(3,4)] show ?thesis by (simp add: ParseWorkspaceSource_git)
  qed
qed

section \<open>Directories\<close>

text \<open>The part of the surroundings that the functions below read.\<close>

record host =
  h_environ :: "string list"
  h_executable :: string
  h_GOOS :: string
  h_GOARCH :: string
  h_log_level :: string
  h_configDir :: "string result"

definition in_config_dir :: "host \<Rightarrow> string list \<Rightarrow> string result" where
  "in_config_dir h parts = (case h_configDir h of Inl e \<Rightarrow> Inl e | Inr d \<Rightarrow> Inr (path_Join (d # parts)))"

definition GetProInstancesDir :: "host \<Rightarrow> string \<Rightarrow> string result" where
  "GetProInstancesDir h context = in_config_dir h [''contexts'', context, ''pro'']"

definition GetMachinesDir :: "host \<Rightarrow> string \<Rightarrow> string result" where
  "GetMachinesDir h context = in_config_dir h [''contexts'', context, ''machines'']"

definition GetLocksDir :: "host \<Rightarrow> string \<Rightarrow> string result" where
  "GetLocksDir h context = in_config_dir h [''contexts'', context, ''locks'']"

definition GetWorkspacesDir :: "host \<Rightarrow> string \<Rightarrow> string result" where
  "GetWorkspacesDir h context = in_config_dir h [''contexts'', context, ''workspaces'']"

definition GetProvidersDir :: "host \<Rightarrow> string \<Rightarrow> string result" where
  "GetProvidersDir h context = in_config_dir h [''contexts'', context, ''providers'']"

definition GetProviderDir :: "host \<Rightarrow> string \<Rightarrow> string \<Rightarrow> string result" where
  "GetProviderDir h context name = in_config_dir h [''contexts'', context, ''providers'', name]"

definition GetDaemonDir :: "host \<Rightarrow> string \<Rightarrow> string \<Rightarrow> string result" where
  "GetDaemonDir h context name = in_config_dir h [''contexts'', context, ''providers'', name, ''daemon'']"

definition GetProviderBinariesDir :: "host \<Rightarrow> string \<Rightarrow> string \<Rightarrow> string result" where
  "GetProviderBinariesDir h context name =
     (case GetProviderDir h context name of Inl e \<Rightarrow> Inl e | Inr d \<Rightarrow> Inr (path_Join [d, ''binaries'']))"

definition GetMachineDir :: "host \<Rightarrow> string \<Rightarrow> string \<Rightarrow> string result" where
  "GetMachineDir h context machineID =
     (if machineID = [] then Inl (Err ''machine id is empty'')
      else in_config_dir h [''contexts'', context, ''machines'', machineID])"

definition GetWorkspaceDir :: "host \<Rightarrow> string \<Rightarrow> string \<Rightarrow> string result" where
  "GetWorkspaceDir h context workspaceID =
     (if workspaceID = [] then Inl (Err ''workspace id is empty'')
      else in_config_dir h [''contexts'', context, ''workspaces'', workspaceID])"

section \<open>The environment of provider commands\<close>

definition combineOptions :: "OptionValues \<Rightarrow> OptionValues \<Rightarrow> OptionValues" where
  "combineOptions resolved other = copy_into (copy_into [] resolved) other"

definition CombineOptions :: "workspace option \<Rightarrow> machine option \<Rightarrow> OptionValues \<Rightarrow> OptionValues" where
  "CombineOptions w m options =
     (let o1 = combineOptions [] options;
          o2 = (case w of None \<Rightarrow> o1 | Some x \<Rightarrow> combineOptions o1 (wpc_Options (w_Provider x))) in
      (case m of None \<Rightarrow> o2 | Some x \<Rightarrow> combineOptions o2 (mp_Options (m_Provider x))))"

definition Merge :: "string gomap \<Rightarrow> string gomap \<Rightarrow> string gomap" where
  "Merge m1 m2 = copy_into (copy_into [] m1) m2"

text \<open>The value of a call whose error is ignored.\<close>

definition or_empty :: "string result \<Rightarrow> string" where
  "or_empty r = (case r of Inl _ \<Rightarrow> [] | Inr s \<Rightarrow> s)"

definition GetBaseEnvironment :: "host \<Rightarrow> string \<Rightarrow> string \<Rightarrow> string gomap" where
  "GetBaseEnvironment h context provider =
     [(''DEVPOD'', h_executable h), (''DEVPOD_OS'', h_GOOS h), (''DEVPOD_ARCH'', h_GOARCH h),
      (''PROVIDER_ID'', provider), (''PROVIDER_CONTEXT'', context),
      (''PROVIDER_FOLDER'', or_empty (GetProviderDir h context provider)),
      (''DEVPOD_LOG_LEVEL'', h_log_level h)]"

definition put_if :: "bool \<Rightarrow> string \<Rightarrow> string \<Rightarrow> string gomap \<Rightarrow> string gomap" where
  "put_if b k v m = (if b then AList.update k v m else m)"

definition ToOptionsWorkspace :: "host \<Rightarrow> workspace option \<Rightarrow> string gomap" where
  "ToOptionsWorkspace h wo =
     (case wo of
        None \<Rightarrow> []
      | Some w \<Rightarrow>
          (let v1 = put_if (w_ID w \<noteq> []) ''WORKSPACE_ID'' (w_ID w) [];
               v2 = put_if (w_UID w \<noteq> []) ''WORKSPACE_UID'' (w_UID w) v1;
               v3 = AList.update ''WORKSPACE_FOLDER'' (or_empty (GetWorkspaceDir h (w_Context w) (w_ID w))) v2;
               v4 = put_if (w_Context w \<noteq> []) ''MACHINE_CONTEXT'' (w_Context w)
                      (put_if (w_Context w \<noteq> []) ''WORKSPACE_CONTEXT'' (w_Context w) v3);
               v5 = put_if (w_Origin w \<noteq> []) ''WORKSPACE_ORIGIN'' (w_Origin w) v4;
               v6 = put_if (w_Picture w \<noteq> []) ''WORKSPACE_PICTURE'' (w_Picture w) v5;
               v7 = AList.update ''WORKSPACE_SOURCE'' (WorkspaceSource_String (w_Source w)) v6;
               v8 = put_if (wpc_Name (w_Provider w) \<noteq> []) ''WORKSPACE_PROVIDER'' (wpc_Name (w_Provider w)) v7;
               v9 = (if wm_ID (w_Machine w) \<noteq> []
                     then AList.update ''MACHINE_FOLDER'' (or_empty (GetMachineDir h (w_Context w) (wm_ID (w_Machine w))))
                            (AList.update ''MACHINE_ID'' (wm_ID (w_Machine w)) v8)
                     else v8);
               v10 = (case w_Pro w of
                        None \<Rightarrow> v9
                      | Some p \<Rightarrow> put_if (pm_Project p \<noteq> []) ''LOFT_PROJECT'' (pm_Project p) v9) in
           copy_into v10 (GetBaseEnvironment h (w_Context w) (wpc_Name (w_Provider w)))))"

definition ToOptionsMachine :: "host \<Rightarrow> machine option \<Rightarrow> string gomap" where
  "ToOptionsMachine h mo =
     (case mo of
        None \<Rightarrow> []
      | Some m \<Rightarrow>
          (let v1 = put_if (m_ID m \<noteq> []) ''MACHINE_ID'' (m_ID m) [];
               v2 = AList.update ''MACHINE_FOLDER'' (or_empty (GetMachineDir h (m_Context m) (m_ID m))) v1;
               v3 = put_if (m_Context m \<noteq> []) ''MACHINE_CONTEXT'' (m_Context m) v2;
               v4 = put_if (mp_Name (m_Provider m) \<noteq> []) ''MACHINE_PROVIDER'' (mp_Name (m_Provider m)) v3 in
           copy_into v4 (GetBaseEnvironment h (m_Context m) (mp_Name (m_Provider m)))))"

text \<open>The names of the options are put in upper case; of two names that only differ in case, the
  order of the range decides.\<close>

definition ToOptions ::
    "host \<Rightarrow> (string list \<Rightarrow> string list) \<Rightarrow> workspace option \<Rightarrow> machine option \<Rightarrow> OptionValues \<Rightarrow> string gomap" where
  "ToOptions h ord w m options =
     (let providerOptions = CombineOptions w m options;
          retVars = fold (\<lambda>k. AList.update (ToUpper k) (Value (the (map_of providerOptions k)))) (ord (keys providerOptions)) [] in
      Merge (Merge retVars (ToOptionsWorkspace h w)) (ToOptionsMachine h m))"

definition ToEnvironment ::
    "host \<Rightarrow> (string list \<Rightarrow> string list) \<Rightarrow> workspace option \<Rightarrow> machine option \<Rightarrow> OptionValues \<Rightarrow> string gomap \<Rightarrow> string list" where
  "ToEnvironment h ord w m options extraEnv =
     h_environ h @ ObjectToList ord (ToOptions h ord w m options) @ ObjectToList ord extraEnv"

definition GetProviderOptions :: "workspace option \<Rightarrow> machine option \<Rightarrow> config option \<Rightarrow> OptionValues result" where
  "GetProviderOptions w server devConfig =
     (let name = (case server of
                    Some m \<Rightarrow> mp_Name (m_Provider m)
                  | None \<Rightarrow> (case w of Some x \<Rightarrow> wpc_Name (w_Provider x) | None \<Rightarrow> [])) in
      case devConfig of
        None \<Rightarrow> Inr []
      | Some c \<Rightarrow>
          if name = [] then Inr []
          else (case ProviderOptions c name of
                  None \<Rightarrow> Inl (Panic ''invalid memory address or nil pointer dereference'')
                | Some vs \<Rightarrow> Inr (copy_into [] vs)))"

end
