(* ===== verification/Disk.thy ===== *)
theory Disk
  imports Go_Path "HOL-Library.Char_ord" "HOL-Library.List_Lexorder"
begin

text \<open>
  The file system as the sources use it through package \<open>os\<close>: files with their contents and
  directories, by clean path.  \<open>io_error\<close> is the failure of the operations on a path for a reason
  outside of the model (permissions, a full device); the operations fail with it and change nothing.
\<close>

section \<open>Operations\<close>

record disk =
  files :: "string gomap"
  dirs :: "string list"
  io_error :: "string \<Rightarrow> gerr option"

definition no_such_file :: "string \<Rightarrow> gerr" where
  "no_such_file p = Err (p @ '': no such file or directory'')"

text \<open>\<open>p\<close> is \<open>q\<close> or lies below it.\<close>

definition below_path :: "string \<Rightarrow> string \<Rightarrow> bool" where
  "below_path q p \<longleftrightarrow> p = q \<or> HasPrefix p (q @ ''/'')"

definition path_exists :: "disk \<Rightarrow> string \<Rightarrow> bool" where
  "path_exists d p \<longleftrightarrow> (\<exists>q \<in> set (keys (files d) @ dirs d). below_path p q)"

definition Stat_ok :: "disk \<Rightarrow> string \<Rightarrow> bool" where
  "Stat_ok d p \<longleftrightarrow> io_error d p = None \<and> path_exists d p"

definition MkdirAll :: "string \<Rightarrow> disk \<Rightarrow> disk result" where
  "MkdirAll p d =
     (case io_error d p of Some e \<Rightarrow> Inl e | None \<Rightarrow> Inr (d\<lparr>dirs := List.insert p (dirs d)\<rparr>))"

definition WriteFile :: "string \<Rightarrow> string \<Rightarrow> disk \<Rightarrow> disk result" where
  "WriteFile p content d =
     (case io_error d p of Some e \<Rightarrow> Inl e | None \<Rightarrow> Inr (d\<lparr>files := AList.update p content (files d)\<rparr>))"

definition ReadFile :: "disk \<Rightarrow> string \<Rightarrow> string result" where
  "ReadFile d p =
     (case io_error d p of
        Some e \<Rightarrow> Inl e
      | None \<Rightarrow> (case map_of (files d) p of None \<Rightarrow> Inl (no_such_file p) | Some c \<Rightarrow> Inr c))"

text \<open>\<open>os.IsNotExist\<close> of the error of \<open>ReadFile\<close>.\<close>

definition is_not_exist :: "disk \<Rightarrow> string \<Rightarrow> bool" where
  "is_not_exist d p \<longleftrightarrow> io_error d p = None \<and> map_of (files d) p = None"

definition RemoveAll :: "string \<Rightarrow> disk \<Rightarrow> disk result" where
  "RemoveAll p d =
     (case io_error d p of
        Some e \<Rightarrow> Inl e
      | None \<Rightarrow> Inr (d\<lparr>files := filter (\<lambda>(q, _). \<not> below_path p q) (files d),
                       dirs := filter (\<lambda>q. \<not> below_path p q) (dirs d)\<rparr>))"

text \<open>The entries of a directory by name, each with whether it is a directory.\<close>

definition entry_of :: "string \<Rightarrow> string \<Rightarrow> string" where
  "entry_of p q = takeWhile (\<lambda>c. c \<noteq> CHR ''/'') (drop (length p + 1) q)"

definition ReadDir :: "disk \<Rightarrow> string \<Rightarrow> (string \<times> bool) list result" where
  "ReadDir d p =
     (case io_error d p of
        Some e \<Rightarrow> Inl e
      | None \<Rightarrow>
          if \<not> path_exists d p then Inl (no_such_file p)
          else
            (let inside = filter (\<lambda>q. HasPrefix q (p @ ''/'')) (keys (files d) @ dirs d);
                 names = sort (remdups (map (entry_of p) inside)) in
             Inr (map (\<lambda>n. (n, n \<notin> set (map (drop (length p + 1)) (filter (\<lambda>q. HasPrefix q (p @ ''/'')) (keys (files d))))))
                   names)))"

section \<open>Lemmas\<close>

lemma ReadFile_WriteFile:
  "WriteFile p c d = Inr d' \<Longrightarrow> ReadFile d' q = (if q = p then Inr c else ReadFile d q)"
  by (auto simp: WriteFile_def ReadFile_def update_conv' split: option.splits if_splits)

lemma ReadFile_MkdirAll: "MkdirAll p d = Inr d' \<Longrightarrow> ReadFile d' q = ReadFile d q"
  by (auto simp: MkdirAll_def ReadFile_def split: option.splits)

lemma path_exists_iff:
  "path_exists d p \<longleftrightarrow> (\<exists>q \<in> fst ` set (files d). below_path p q) \<or> (\<exists>q \<in> set (dirs d). below_path p q)"
  by (auto simp: path_exists_def bex_Un)

lemma Stat_MkdirAll:
  "MkdirAll p d = Inr d' \<Longrightarrow> Stat_ok d' q \<longleftrightarrow> Stat_ok d q \<or> io_error d q = None \<and> below_path q p"
  by (auto simp: MkdirAll_def Stat_ok_def path_exists_iff split: option.splits)

lemma Stat_WriteFile:
  assumes "WriteFile p c d = Inr d'"
  shows "Stat_ok d' q \<longleftrightarrow> Stat_ok d q \<or> io_error d q = None \<and> below_path q p"
proof -
  have d': "d' = d\<lparr>files := AList.update p c (files d)\<rparr>"
    using assms by (auto simp: WriteFile_def split: option.splits)
  have f: "fst ` set (files d') = insert p (fst ` set (files d))" "dirs d' = dirs d" "io_error d' = io_error d"
    unfolding d' by (simp_all add: dom_update)
  show ?thesis unfolding Stat_ok_def path_exists_iff f by blast
qed

lemma map_of_filter_keys: "map_of (filter (\<lambda>(k, _). P k) m) x = (if P x then map_of m x else None)"
  by (induction m) auto

lemma ReadFile_RemoveAll:
  "RemoveAll p d = Inr d' \<Longrightarrow> io_error d q = None \<Longrightarrow>
    ReadFile d' q = (if below_path p q then Inl (no_such_file q) else ReadFile d q)"
  by (auto simp: RemoveAll_def ReadFile_def map_of_filter_keys split: option.splits if_splits)

lemma below_path_refl [simp]: "below_path p p"
  by (simp add: below_path_def)

lemma HasPrefix_iff: "HasPrefix p q \<longleftrightarrow> (\<exists>s. p = q @ s)"
  by (metis HasPrefix_def append_eq_conv_conj append_take_drop_id)

lemma below_path_trans: "below_path a b \<Longrightarrow> below_path b c \<Longrightarrow> below_path a c"
  by (auto simp: below_path_def HasPrefix_iff)

lemma Stat_RemoveAll:
  assumes "RemoveAll p d = Inr d'" "below_path p q"
  shows "\<not> Stat_ok d' q"
  using assms below_path_trans [OF assms(2)]
  by (auto simp: RemoveAll_def Stat_ok_def path_exists_def split: option.splits)

end
