(* ===== verification/Workspace_Store.thy ===== *)
theory Workspace_Store
  imports Workspace_Types Disk Ids
begin

text \<open>
  The files of workspaces, machines, providers and pro instances: \<^verbatim>\<open>pkg/provider/dir.go\<close>.  The JSON
  encoding of a struct is an argument, as is the one of its decoding; a saving operation returns its
  result and the disk.
\<close>

section \<open>Saving\<close>

definition WorkspaceConfigFile :: string where "WorkspaceConfigFile = ''workspace.json''"
definition WorkspaceResultFile :: string where "WorkspaceResultFile = ''workspace_result.json''"
definition MachineConfigFile :: string where "MachineConfigFile = ''machine.json''"
definition ProInstanceConfigFile :: string where "ProInstanceConfigFile = ''pro.json''"
definition ProviderConfigFile :: string where "ProviderConfigFile = ''provider.json''"

lemmas file_names = WorkspaceConfigFile_def WorkspaceResultFile_def MachineConfigFile_def
  ProInstanceConfigFile_def ProviderConfigFile_def

text \<open>The steps that all the saving operations share: make the directory, marshal, write the file.\<close>

definition save_json :: "string result \<Rightarrow> string \<Rightarrow> string result \<Rightarrow> disk \<Rightarrow> unit result \<times> disk" where
  "save_json dir name bytes d =
     (case dir of
        Inl e \<Rightarrow> (Inl e, d)
      | Inr p \<Rightarrow>
          (case MkdirAll p d of
             Inl e \<Rightarrow> (Inl e, d)
           | Inr d1 \<Rightarrow>
               (case bytes of
                  Inl e \<Rightarrow> (Inl e, d1)
                | Inr b \<Rightarrow>
                    (case WriteFile (path_Join [p, name]) b d1 of
                       Inl e \<Rightarrow> (Inl e, d1)
                     | Inr d2 \<Rightarrow> (Inr (), d2)))))"

definition SaveProviderConfig ::
    "host \<Rightarrow> (provider \<Rightarrow> string result) \<Rightarrow> string \<Rightarrow> provider \<Rightarrow> disk \<Rightarrow> unit result \<times> disk" where
  "SaveProviderConfig h enc context p d =
     save_json (GetProviderDir h context (pr_Name p)) ProviderConfigFile (enc p) d"

definition GetProInstanceDir :: "host \<Rightarrow> (string \<Rightarrow> string) \<Rightarrow> string \<Rightarrow> string \<Rightarrow> string result" where
  "GetProInstanceDir h sha256_hex context proHost =
     (if proHost = [] then Inl (Err ''pro instance host is empty'')
      else in_config_dir h [''contexts'', context, ''pro'', ToProInstanceID sha256_hex proHost])"

definition SaveProInstanceConfig ::
    "host \<Rightarrow> (string \<Rightarrow> string) \<Rightarrow> (pro_instance \<Rightarrow> string result) \<Rightarrow> string \<Rightarrow> pro_instance \<Rightarrow> disk \<Rightarrow> unit result \<times> disk" where
  "SaveProInstanceConfig h sha256_hex enc context p d =
     save_json (GetProInstanceDir h sha256_hex context (pi_Host p)) ProInstanceConfigFile (enc p) d"

definition SaveWorkspaceResult ::
    "host \<Rightarrow> (result_config \<Rightarrow> string result) \<Rightarrow> workspace \<Rightarrow> result_config \<Rightarrow> disk \<Rightarrow> unit result \<times> disk" where
  "SaveWorkspaceResult h enc w result d =
     save_json (GetWorkspaceDir h (w_Context w) (w_ID w)) WorkspaceResultFile (enc result) d"

definition SaveWorkspaceConfig ::
    "host \<Rightarrow> (workspace \<Rightarrow> string result) \<Rightarrow> workspace \<Rightarrow> disk \<Rightarrow> unit result \<times> disk" where
  "SaveWorkspaceConfig h enc w d =
     save_json (GetWorkspaceDir h (w_Context w) (w_ID w)) WorkspaceConfigFile (enc w) d"

definition SaveMachineConfig :: "host \<Rightarrow> (machine \<Rightarrow> string result) \<Rightarrow> machine \<Rightarrow> disk \<Rightarrow> unit result \<times> disk" where
  "SaveMachineConfig h enc m d =
     save_json (GetMachineDir h (m_Context m) (m_ID m)) MachineConfigFile (enc m) d"

section \<open>Loading\<close>

definition load_json :: "string result \<Rightarrow> string \<Rightarrow> (string \<Rightarrow> 'a result) \<Rightarrow> disk \<Rightarrow> (string \<times> 'a) result" where
  "load_json dir name dec d =
     (case dir of
        Inl e \<Rightarrow> Inl e
      | Inr p \<Rightarrow>
          (case ReadFile d (path_Join [p, name]) of
             Inl e \<Rightarrow> Inl e
           | Inr b \<Rightarrow> (case dec b of Inl e \<Rightarrow> Inl e | Inr x \<Rightarrow> Inr (path_Join [p, name], x))))"

definition LoadProviderConfig ::
    "host \<Rightarrow> (string \<Rightarrow> provider result) \<Rightarrow> string \<Rightarrow> string \<Rightarrow> disk \<Rightarrow> provider result" where
  "LoadProviderConfig h parse context name d =
     map_sum id snd (load_json (GetProviderDir h context name) ProviderConfigFile parse d)"

definition LoadMachineConfig ::
    "host \<Rightarrow> (string \<Rightarrow> machine result) \<Rightarrow> string \<Rightarrow> string \<Rightarrow> disk \<Rightarrow> machine result" where
  "LoadMachineConfig h dec context machineID d =
     map_sum id (\<lambda>(f, m). m\<lparr>m_Context := context, m_Origin := f\<rparr>)
       (load_json (GetMachineDir h context machineID) MachineConfigFile dec d)"

definition LoadProInstanceConfig ::
    "host \<Rightarrow> (string \<Rightarrow> string) \<Rightarrow> (string \<Rightarrow> pro_instance result) \<Rightarrow> string \<Rightarrow> string \<Rightarrow> disk \<Rightarrow> pro_instance result" where
  "LoadProInstanceConfig h sha256_hex dec context proHost d =
     map_sum id snd (load_json (GetProInstanceDir h sha256_hex context proHost) ProInstanceConfigFile dec d)"

definition LoadWorkspaceConfig ::
    "host \<Rightarrow> (string \<Rightarrow> workspace result) \<Rightarrow> string \<Rightarrow> string \<Rightarrow> disk \<Rightarrow> workspace result" where
  "LoadWorkspaceConfig h dec context workspaceID d =
     map_sum id (\<lambda>(f, w). w\<lparr>w_Context := context, w_Origin := f\<rparr>)
       (load_json (GetWorkspaceDir h context workspaceID) WorkspaceConfigFile dec d)"

text \<open>A workspace without a result has no file, which is not an error.\<close>

definition LoadWorkspaceResult ::
    "host \<Rightarrow> (string \<Rightarrow> result_config result) \<Rightarrow> string \<Rightarrow> string \<Rightarrow> disk \<Rightarrow> result_config option result" where
  "LoadWorkspaceResult h dec context workspaceID d =
     (case GetWorkspaceDir h context workspaceID of
        Inl e \<Rightarrow> Inl e
      | Inr p \<Rightarrow>
          if is_not_exist d (path_Join [p, WorkspaceResultFile]) then Inr None
          else (case ReadFile d (path_Join [p, WorkspaceResultFile]) of
                  Inl e \<Rightarrow> Inl e
                | Inr b \<Rightarrow> (case dec b of Inl e \<Rightarrow> Inl e | Inr r \<Rightarrow> Inr (Some r))))"

definition dir_exists :: "string result \<Rightarrow> disk \<Rightarrow> bool" where
  "dir_exists dir d = (case dir of Inl _ \<Rightarrow> False | Inr p \<Rightarrow> Stat_ok d p)"

definition WorkspaceExists :: "host \<Rightarrow> string \<Rightarrow> string \<Rightarrow> disk \<Rightarrow> bool" where
  "WorkspaceExists h context workspaceID d = dir_exists (GetWorkspaceDir h context workspaceID) d"

definition ProInstanceExists :: "host \<Rightarrow> (string \<Rightarrow> string) \<Rightarrow> string \<Rightarrow> string \<Rightarrow> disk \<Rightarrow> bool" where
  "ProInstanceExists h sha256_hex context proInstanceID d =
     dir_exists (GetProInstanceDir h sha256_hex context proInstanceID) d"

definition MachineExists :: "host \<Rightarrow> string \<Rightarrow> string \<Rightarrow> disk \<Rightarrow> bool" where
  "MachineExists h context machineID d = dir_exists (GetMachineDir h context machineID) d"

definition ProviderExists :: "host \<Rightarrow> string \<Rightarrow> string \<Rightarrow> disk \<Rightarrow> bool" where
  "ProviderExists h context provider d = dir_exists (GetProviderDir h context provider) d"

section \<open>Lemmas\<close>

lemma save_json_ok:
  assumes "save_json dir name bytes d = (Inr (), d')"
  obtains p b where "dir = Inr p" "bytes = Inr b" "ReadFile d' (path_Join [p, name]) = Inr b"
    "Stat_ok d' p" "\<And>q. q \<noteq> path_Join [p, name] \<Longrightarrow> ReadFile d' q = ReadFile d q"
proof -
  from assms obtain p d1 b where "dir = Inr p" "MkdirAll p d = Inr d1" "bytes = Inr b"
    and w: "WriteFile (path_Join [p, name]) b d1 = Inr d'"
    by (auto simp: save_json_def split: sum.splits)
  moreover have "io_error d p = None" "io_error d1 = io_error d"
    using \<open>MkdirAll p d = Inr d1\<close> by (auto simp: MkdirAll_def split: option.splits)
  ultimately show ?thesis
    using ReadFile_WriteFile [OF w] ReadFile_MkdirAll Stat_WriteFile [OF w, of p] Stat_MkdirAll [of p d d1 p] that
    by auto
qed

text \<open>Whether it succeeds or not, saving touches no other file.\<close>

lemma save_json_frame:
  assumes "save_json (Inr p) name bytes d = (r, d')" "q \<noteq> path_Join [p, name]"
  shows "ReadFile d' q = ReadFile d q"
  using assms ReadFile_WriteFile ReadFile_MkdirAll
  by (auto simp: save_json_def split: sum.splits)

lemma load_json_cong: "(\<And>p. dir = Inr p \<Longrightarrow> ReadFile d' (path_Join [p, name]) = ReadFile d (path_Join [p, name])) \<Longrightarrow>
    load_json dir name dec d' = load_json dir name dec d"
  by (auto simp: load_json_def split: sum.splits)

text \<open>The path of a file in the folder of an object of a context.\<close>

lemma config_file_path:
  assumes "h_configDir h = Inr c" "c \<noteq> []" "list_all plain_name (es @ [f])" "es \<noteq> []"
    and "in_config_dir h es = Inr p"
  shows "path_Join [p, f] = path_Join (c # es @ [f])"
  using assms path_Join_nested [of c es "[f]"] by (auto simp: in_config_dir_def simp del: path_Join.simps)

lemma plain_literals [simp]:
  "plain_name ''contexts''" "plain_name ''workspaces''" "plain_name ''machines''" "plain_name ''providers''"
  "plain_name WorkspaceConfigFile" "plain_name MachineConfigFile" "plain_name ProviderConfigFile"
  "plain_name WorkspaceResultFile"
  by (simp_all add: plain_name_def file_names)

lemma plain_valid_id: "valid_id s \<Longrightarrow> s \<noteq> [] \<Longrightarrow> plain_name s"
  using id_char_facts(4,5) by (fastforce simp: valid_id_def plain_name_def list_all_iff)

lemma workspace_file:
  assumes "h_configDir h = Inr c" "c \<noteq> []" "plain_name context" "plain_name w" "plain_name f"
    and "GetWorkspaceDir h context w = Inr p"
  shows "path_Join [p, f] = path_Join (c # [''contexts'', context, ''workspaces'', w, f])"
  using assms config_file_path [of h c "[''contexts'', context, ''workspaces'', w]" f p]
  by (auto simp: GetWorkspaceDir_def simp del: path_Join.simps split: if_splits)

lemma workspace_file_inject:
  assumes "h_configDir h = Inr c" "c \<noteq> []" "plain_name a" "plain_name w" "plain_name a'" "plain_name w'"
    and "plain_name f" "plain_name f'"
    and "GetWorkspaceDir h a w = Inr p" "GetWorkspaceDir h a' w' = Inr p'"
    and "path_Join [p, f] = path_Join [p', f']"
  shows "a = a' \<and> w = w' \<and> f = f'"
proof -
  have "path_Join (c # [''contexts'', a, ''workspaces'', w, f]) = path_Join (c # [''contexts'', a', ''workspaces'', w', f'])"
    using assms(11) unfolding workspace_file [OF assms(1-4,7,9)] workspace_file [OF assms(1,2,5,6,8,10)] .
  from path_Join_inject [OF assms(2) _ _ _ _ this] assms show ?thesis by simp
qed

lemma LoadWorkspaceConfig_frame:
  assumes "SaveWorkspaceConfig h enc w d = (r, d')" "(w_Context w, w_ID w) \<noteq> (context, i)"
    and "h_configDir h = Inr c" "c \<noteq> []" "plain_name (w_Context w)" "plain_name (w_ID w)" "plain_name context" "plain_name i"
  shows "LoadWorkspaceConfig h dec context i d' = LoadWorkspaceConfig h dec context i d"
proof -
  have "ReadFile d' (path_Join [p, WorkspaceConfigFile]) = ReadFile d (path_Join [p, WorkspaceConfigFile])"
    if p: "GetWorkspaceDir h context i = Inr p" for p
  proof (cases "GetWorkspaceDir h (w_Context w) (w_ID w)")
    case (Inl e)
    with assms(1) show ?thesis by (simp add: SaveWorkspaceConfig_def save_json_def)
  next
    case (Inr p')
    have "path_Join [p, WorkspaceConfigFile] \<noteq> path_Join [p', WorkspaceConfigFile]"
      using workspace_file_inject [OF assms(3,4,7,8,5,6) plain_literals(5,5) p Inr] assms(2) by metis
    with save_json_frame [of p' WorkspaceConfigFile "enc w" d r d'] assms(1) Inr show ?thesis
      by (simp add: SaveWorkspaceConfig_def)
  qed
  with load_json_cong [of "GetWorkspaceDir h context i" d' WorkspaceConfigFile d dec]
  show ?thesis by (simp add: LoadWorkspaceConfig_def)
qed

lemma LoadWorkspaceConfig_saved:
  assumes "SaveWorkspaceConfig h enc w d = (Inr (), d')" "\<And>b. enc w = Inr b \<Longrightarrow> dec b = Inr w'"
  shows "\<exists>p. GetWorkspaceDir h (w_Context w) (w_ID w) = Inr p \<and>
    LoadWorkspaceConfig h dec (w_Context w) (w_ID w) d' =
      Inr (w'\<lparr>w_Context := w_Context w, w_Origin := path_Join [p, WorkspaceConfigFile]\<rparr>) \<and>
    WorkspaceExists h (w_Context w) (w_ID w) d'"
  using assms(1) unfolding SaveWorkspaceConfig_def
  by (elim save_json_ok) (auto simp: LoadWorkspaceConfig_def load_json_def WorkspaceExists_def dir_exists_def assms(2))

end
