(* ===== verification/Options_Resolve.thy ===== *)
theory Options_Resolve
  imports Workspace_Store Resolver_Properties
begin

text \<open>
  Resolving and storing the options of machines, workspaces and providers: \<^verbatim>\<open>pkg/options/resolve.go\<close>.
  The download of the binaries of a provider is an argument that gives their paths.  The operations
  that save return the disk; \<open>None\<close> is a run of the resolver that is out of fuel.
\<close>

section \<open>Definitions\<close>

definition filterResolvedOptions ::
    "OptionValues \<Rightarrow> OptionValues \<Rightarrow> OptionValues option \<Rightarrow> OptionDefinitions \<Rightarrow> string gomap \<Rightarrow> OptionValues" where
  "filterResolvedOptions resolved prev providerValues providerOptions user =
     filter (\<lambda>(k, _).
       map_of user k \<noteq> None \<or> map_of prev k \<noteq> None \<or>
       (case providerValues of None \<Rightarrow> False | Some vs \<Rightarrow> map_of vs k = None) \<or>
       (case map_of providerOptions k of None \<Rightarrow> True | Some d \<Rightarrow> \<not> Global d)) resolved"

text \<open>\<open>reflect.DeepEqual\<close> of two maps.\<close>

definition same_map :: "OptionValues \<Rightarrow> OptionValues \<Rightarrow> bool" where
  "same_map a b \<longleftrightarrow> list_all (\<lambda>k. map_of a k = map_of b k) (keys a @ keys b)"

definition ResolveAndSaveOptionsMachine ::
    "host \<Rightarrow> (string \<Rightarrow> machine result) \<Rightarrow> (machine \<Rightarrow> string result) \<Rightarrow> (string \<Rightarrow> provider \<Rightarrow> string gomap result) \<Rightarrow>
     (nat \<Rightarrow> world) \<Rightarrow> nat \<Rightarrow> config \<Rightarrow> provider \<Rightarrow> machine \<Rightarrow> string gomap \<Rightarrow> disk \<Rightarrow>
     ((machine option \<times> gerr option) \<times> disk) option" where
  "ResolveAndSaveOptionsMachine h dec enc getBinaries ws fuel devConfig provider originalMachine user d =
     (case LoadMachineConfig h dec (m_Context originalMachine) (m_ID originalMachine) d of
        Inl e \<Rightarrow> Some ((Some originalMachine, Some e), d)
      | Inr m \<Rightarrow>
          (case getBinaries (DefaultContext devConfig) provider of
             Inl e \<Rightarrow> Some ((None, Some e), d)
           | Inr binaryPaths \<Rightarrow>
               (case (DynamicProviderOptionDefinitions devConfig (pr_Name provider),
                      ProviderOptions devConfig (pr_Name provider)) of
                  (Some dyn, Some vals) \<Rightarrow>
                    (case Resolve ws fuel
                            (New user (Merge (ToOptionsMachine h (Some m)) binaryPaths) [WithResolveLocal])
                            dyn (pr_Options provider) (CombineOptions None (Some m) vals) of
                       None \<Rightarrow> None
                     | Some (Inl e) \<Rightarrow> Some ((None, Some e), d)
                     | Some (Inr (resolved, _)) \<Rightarrow>
                         (let prev = mp_Options (m_Provider m);
                              saved = filterResolvedOptions resolved prev (Some vals) (pr_Options provider) user;
                              m1 = m\<lparr>m_Provider := (m_Provider m)\<lparr>mp_Options := saved\<rparr>\<rparr> in
                          if same_map prev saved then Some ((Some m1, None), d)
                          else (case SaveMachineConfig h enc m1 d of
                                  (Inl e, d1) \<Rightarrow> Some ((Some m1, Some e), d1)
                                | (Inr _, d1) \<Rightarrow> Some ((Some m1, None), d1))))
                | _ \<Rightarrow> Some ((None, Some nil_deref), d))))"

definition ResolveAndSaveOptionsWorkspace ::
    "host \<Rightarrow> (string \<Rightarrow> workspace result) \<Rightarrow> (workspace \<Rightarrow> string result) \<Rightarrow> (string \<Rightarrow> provider \<Rightarrow> string gomap result) \<Rightarrow>
     (nat \<Rightarrow> world) \<Rightarrow> nat \<Rightarrow> config \<Rightarrow> provider \<Rightarrow> workspace \<Rightarrow> string gomap \<Rightarrow> resolver_option list \<Rightarrow> disk \<Rightarrow>
     ((workspace option \<times> gerr option) \<times> disk) option" where
  "ResolveAndSaveOptionsWorkspace h dec enc getBinaries ws fuel devConfig provider originalWorkspace user options d =
     (case LoadWorkspaceConfig h dec (w_Context originalWorkspace) (w_ID originalWorkspace) d of
        Inl e \<Rightarrow> Some ((Some originalWorkspace, Some e), d)
      | Inr w \<Rightarrow>
          (case getBinaries (DefaultContext devConfig) provider of
             Inl e \<Rightarrow> Some ((None, Some e), d)
           | Inr binaryPaths \<Rightarrow>
               (case (DynamicProviderOptionDefinitions devConfig (pr_Name provider),
                      ProviderOptions devConfig (pr_Name provider)) of
                  (Some dyn, Some vals) \<Rightarrow>
                    (case Resolve ws fuel
                            (New user (Merge (ToOptionsWorkspace h (Some w)) binaryPaths) (options @ [WithResolveLocal]))
                            dyn (pr_Options provider) (CombineOptions (Some w) None vals) of
                       None \<Rightarrow> None
                     | Some (Inl e) \<Rightarrow> Some ((None, Some e), d)
                     | Some (Inr (resolved, _)) \<Rightarrow>
                         (let prev = wpc_Options (w_Provider w);
                              saved = filterResolvedOptions resolved prev (Some vals) (pr_Options provider) user;
                              w1 = w\<lparr>w_Provider := (w_Provider w)\<lparr>wpc_Options := saved\<rparr>\<rparr> in
                          if same_map prev saved then Some ((Some w1, None), d)
                          else (case SaveWorkspaceConfig h enc w1 d of
                                  (Inl e, d1) \<Rightarrow> Some ((Some w1, Some e), d1)
                                | (Inr _, d1) \<Rightarrow> Some ((Some w1, None), d1))))
                | _ \<Rightarrow> Some ((None, Some nil_deref), d))))"

definition ResolveAndSaveOptionsProxy where
  "ResolveAndSaveOptionsProxy h dec enc getBinaries ws fuel devConfig provider originalWorkspace user d =
     ResolveAndSaveOptionsWorkspace h dec enc getBinaries ws fuel devConfig provider originalWorkspace user
       [WithResolveSubOptions] d"

text \<open>The clone of the configuration with the new state of the provider in its current context.\<close>

definition set_provider_options ::
    "string \<Rightarrow> OptionValues \<Rightarrow> OptionDefinitions \<Rightarrow> bool option \<Rightarrow> context_config \<Rightarrow> context_config" where
  "set_provider_options name vals dyn singleMachine ctx =
     (let ps = nil_map (Providers ctx);
          p = (case map_of ps name of None \<Rightarrow> empty_provider_config | Some p \<Rightarrow> p);
          p1 = p\<lparr>prov_Options := copy_into [] vals, DynamicOptions := copy_into [] dyn\<rparr>;
          p2 = (case singleMachine of None \<Rightarrow> p1 | Some b \<Rightarrow> p1\<lparr>SingleMachine := b\<rparr>) in
      ctx\<lparr>Providers := Some (AList.update name p2 ps)\<rparr>)"

definition ResolveOptions ::
    "host \<Rightarrow> (string \<Rightarrow> provider \<Rightarrow> string gomap result) \<Rightarrow> (nat \<Rightarrow> world) \<Rightarrow> nat \<Rightarrow> config \<Rightarrow> provider \<Rightarrow>
     string gomap \<Rightarrow> bool \<Rightarrow> bool \<Rightarrow> bool option \<Rightarrow> config result option" where
  "ResolveOptions h getBinaries ws fuel devConfig provider user skipReq skipSub singleMachine =
     (case getBinaries (DefaultContext devConfig) provider of
        Inl e \<Rightarrow> Some (Inl e)
      | Inr binaryPaths \<Rightarrow>
          (case ProviderOptions devConfig (pr_Name provider) of
             None \<Rightarrow> Some (Inl nil_deref)
           | Some vals \<Rightarrow>
               (case Resolve ws fuel
                       (New user (Merge (GetBaseEnvironment h (DefaultContext devConfig) (pr_Name provider)) binaryPaths)
                         ([WithResolveGlobal, WithSkipRequired skipReq] @
                          (if skipSub then [] else [WithResolveSubOptions])))
                       [] (pr_Options provider) vals of
                  None \<Rightarrow> None
                | Some (Inl e) \<Rightarrow> Some (Inl e)
                | Some (Inr (resolved, dyn)) \<Rightarrow>
                    (let c = CloneConfig devConfig in
                     case Current c of
                       None \<Rightarrow> Some (Inl nil_deref)
                     | Some ctx \<Rightarrow>
                         Some (Inr (c\<lparr>Contexts := Some (AList.update (DefaultContext c)
                           (set_provider_options (pr_Name provider) resolved dyn singleMachine ctx)
                           (nil_map (Contexts c)))\<rparr>))))))"

section \<open>The agent of a workspace\<close>

text \<open>The constants of \<^verbatim>\<open>pkg/agent/agent.go\<close>; the version is set by the build.\<close>

definition RemoteDevPodHelperLocation :: string where "RemoteDevPodHelperLocation = ''/tmp/devpod''"

definition getenv :: "string gomap \<Rightarrow> string \<Rightarrow> string" where
  "getenv env k = (case map_of env k of None \<Rightarrow> [] | Some v \<Rightarrow> v)"

definition DefaultAgentDownloadURL :: "string gomap \<Rightarrow> string \<Rightarrow> string" where
  "DefaultAgentDownloadURL env version =
     (if getenv env ''DEVPOD_AGENT_URL'' \<noteq> [] then TrimSuffix (getenv env ''DEVPOD_AGENT_URL'') ''/'' @ ''/''
      else if version = ''v0.0.0'' then ''https://github.com/loft-sh/devpod/releases/latest/download/''
      else ''https://github.com/loft-sh/devpod/releases/download/'' @ version)"

definition resolveAgentDownloadURL :: "string gomap \<Rightarrow> string \<Rightarrow> context_config \<Rightarrow> string" where
  "resolveAgentDownloadURL env version ctx =
     (if getenv env ''DEVPOD_AGENT_URL'' \<noteq> [] then TrimSuffix (getenv env ''DEVPOD_AGENT_URL'') ''/'' @ ''/''
      else (case map_of (nil_map (ctx_Options ctx)) ''AGENT_URL'' of
              Some v \<Rightarrow> if Value v \<noteq> [] then TrimSuffix (Value v) ''/'' @ ''/'' else DefaultAgentDownloadURL env version
            | None \<Rightarrow> DefaultAgentDownloadURL env version))"

definition resolve_kubernetes :: "(string \<Rightarrow> string) \<Rightarrow> kubernetes_driver_config \<Rightarrow> kubernetes_driver_config" where
  "resolve_kubernetes f k =
     \<lparr>k8_KubernetesContext = f (k8_KubernetesContext k), k8_KubernetesConfig = f (k8_KubernetesConfig k),
      k8_KubernetesNamespace = f (k8_KubernetesNamespace k), k8_PodTimeout = f (k8_PodTimeout k),
      k8_KubernetesPullSecretsEnabled = f (k8_KubernetesPullSecretsEnabled k),
      k8_CreateNamespace = f (k8_CreateNamespace k), k8_ClusterRole = f (k8_ClusterRole k),
      k8_ServiceAccount = f (k8_ServiceAccount k), k8_Architecture = f (k8_Architecture k),
      k8_InactivityTimeout = f (k8_InactivityTimeout k), k8_StorageClass = f (k8_StorageClass k),
      k8_DiskSize = f (k8_DiskSize k), k8_PvcAccessMode = f (k8_PvcAccessMode k),
      k8_PvcAnnotations = f (k8_PvcAnnotations k), k8_NodeSelector = f (k8_NodeSelector k),
      k8_Resources = f (k8_Resources k), k8_WorkspaceVolumeMount = f (k8_WorkspaceVolumeMount k),
      k8_PodManifestTemplate = f (k8_PodManifestTemplate k), k8_Labels = f (k8_Labels k),
      k8_StrictSecurity = f (k8_StrictSecurity k)\<rparr>"

definition ResolveAgentConfig ::
    "host \<Rightarrow> (string list \<Rightarrow> string list) \<Rightarrow> string gomap \<Rightarrow> string \<Rightarrow> config \<Rightarrow> provider \<Rightarrow>
     workspace option \<Rightarrow> machine option \<Rightarrow> agent_config result" where
  "ResolveAgentConfig h ord env version devConfig provider w m =
     (case (ProviderOptions devConfig (pr_Name provider), Current devConfig) of
        (Some vals, Some ctx) \<Rightarrow>
          (let options = ToOptions h ord w m vals;
               f = (\<lambda>s. ResolveDefaultValue s options);
               a = pr_Agent provider;
               isLocal = f (ag_Local a);
               p = f (ag_Path a);
               url = f (ag_DownloadURL a);
               git = ContextOption devConfig ''SSH_INJECT_GIT_CREDENTIALS'' in
           Inr (a\<lparr>ag_Dockerless := (ag_Dockerless a)
                    \<lparr>dl_Image := f (dl_Image (ag_Dockerless a)), dl_Disabled := f (dl_Disabled (ag_Dockerless a)),
                     dl_IgnorePaths := f (dl_IgnorePaths (ag_Dockerless a)),
                     dl_RegistryCache := ContextOption devConfig ''REGISTRY_CACHE''\<rparr>,
                  ag_Driver := f (ag_Driver a), ag_Local := isLocal,
                  ag_Docker := (ag_Docker a)
                    \<lparr>dk_Path := f (dk_Path (ag_Docker a)), dk_Builder := f (dk_Builder (ag_Docker a)),
                     dk_Install := f (dk_Install (ag_Docker a)),
                     dk_Env := ResolveDefaultValues (dk_Env (ag_Docker a)) options\<rparr>,
                  ag_Kubernetes := resolve_kubernetes f (ag_Kubernetes a),
                  ag_DataPath := f (ag_DataPath a),
                  ag_Path := (if p = [] \<and> isLocal = ''true'' then h_executable h
                              else if p = [] then RemoteDevPodHelperLocation else p),
                  ag_DownloadURL := (if url = [] then resolveAgentDownloadURL env version ctx else url),
                  ag_Timeout := f (ag_Timeout a), ag_ContainerTimeout := f (ag_ContainerTimeout a),
                  ag_InjectGitCredentials := (if git \<noteq> [] then git else f (ag_InjectGitCredentials a)),
                  ag_InjectDockerCredentials := f (ag_InjectDockerCredentials a)\<rparr>))
      | _ \<Rightarrow> Inl nil_deref)"

section \<open>Lemmas\<close>

text \<open>An optional option outside of the scope of the run, for which the user gives no value, keeps its
  value or loses it (when it is not valid any more).\<close>

lemma Resolve_out_of_scope:
  assumes run: "Resolve ws fuel r dyn defs vals = Some (Inr (vals', dyn'))"
    and fair: "\<And>i. fair (ws i)" and wf: "wf_map dyn" "wf_map defs" "wf_map vals" and pl: "plain r"
    and k: "map_of defs k = Some d" "k \<noteq> rootID" and d: "skips_scope r d" and u: "map_of (userOptions r) k = None"
  shows "map_of vals' k = map_of vals k \<or> map_of vals' k = None"
proof (rule Resolve_option [OF run fair wf pl k])
  fix j rj vj vj' and valsf :: OptionValues
  assume v: "resolveOption (ws j) rj k vj = Inr (rj, vj')" "same_settings r rj" "\<not> skipRequired rj"
    "definition_at (r_graph rj) k = Some d" "map_of vals' k = map_of vj' k"
    "map_of vj k = map_of vals k \<or> map_of vj k = None"
  have u': "map_of (userOptions rj) k = None" and d': "skips_scope rj d"
    using v(2) u d by (auto simp: same_settings_def skips_scope_def)
  from v(1,4) u' d' obtain prev where "getValue (ws j) rj k d vj = Inr (None, prev, vj')"
    by (auto simp: resolveOption_def getValue_def Let_def split: sum.splits option.splits bool.splits if_splits)
  then have "map_of vj' k = map_of vj k \<or> map_of vj' k = None"
    by (auto simp: getValue_def Let_def map_of_delete split: sum.splits option.splits)
  with v(5,6) show ?thesis by auto
qed

lemma map_of_filterResolvedOptions:
  "map_of (filterResolvedOptions resolved prev (Some vals) defs user) k =
    (if map_of user k \<noteq> None \<or> map_of prev k \<noteq> None \<or> map_of vals k = None \<or>
        (case map_of defs k of None \<Rightarrow> True | Some d \<Rightarrow> \<not> Global d)
     then map_of resolved k else None)"
  unfolding filterResolvedOptions_def by (subst map_of_filter_key) simp

lemma wf_filterResolvedOptions: "wf_map resolved \<Longrightarrow> wf_map (filterResolvedOptions resolved prev vals defs user)"
  unfolding filterResolvedOptions_def by (rule wf_filter_key)

lemma map_of_combineOptions: "wf_map a \<Longrightarrow> wf_map b \<Longrightarrow> map_of (combineOptions a b) = map_of a ++ map_of b"
  by (simp add: combineOptions_def map_of_copy_into)

lemma wf_combineOptions: "wf_map (combineOptions a b)"
  by (simp add: combineOptions_def wf_map_copy_into)

lemma map_of_CombineOptions_workspace:
  assumes "wf_map vals" "wf_map (wpc_Options (w_Provider w))"
  shows "map_of (CombineOptions (Some w) None vals) = map_of vals ++ map_of (wpc_Options (w_Provider w))"
    and "wf_map (CombineOptions (Some w) None vals)"
  using assms by (simp_all add: CombineOptions_def Let_def map_of_combineOptions wf_combineOptions)

text \<open>What is saved for a workspace gives, on top of the values of the provider, the resolved values.\<close>

lemma saved_options_effective:
  assumes run: "Resolve ws fuel r dyn defs (CombineOptions (Some w) None vals) = Some (Inr (resolved, dyn'))"
    and fair: "\<And>i. fair (ws i)" and wf: "wf_map dyn" "wf_map defs" "wf_map vals" "wf_map (wpc_Options (w_Provider w))"
    and r: "\<not> resolveSub r" "\<not> skipRequired r" "\<not> resolveGlobal r" "wf_map resolved"
    and root: "map_of defs rootID = None"
    and glob: "\<And>k d. map_of defs k = Some d \<Longrightarrow> Global d \<Longrightarrow> \<not> Required d"
    and k: "map_of resolved k = Some v"
  shows "map_of (CombineOptions (Some (w\<lparr>w_Provider := (w_Provider w)
      \<lparr>wpc_Options := filterResolvedOptions resolved (wpc_Options (w_Provider w)) (Some vals) defs (userOptions r)\<rparr>\<rparr>)) None vals) k
    = Some v"
proof -
  let ?prev = "wpc_Options (w_Provider w)"
  let ?f = "filterResolvedOptions resolved ?prev (Some vals) defs (userOptions r)"
  have c: "map_of (CombineOptions (Some (w\<lparr>w_Provider := (w_Provider w)\<lparr>wpc_Options := ?f\<rparr>\<rparr>)) None vals) = map_of vals ++ map_of ?f"
    by (subst map_of_CombineOptions_workspace) (use wf r in \<open>auto intro: wf_filterResolvedOptions\<close>)
  show ?thesis
  proof (cases "map_of ?f k")
    case (Some x)
    then show ?thesis using k by (simp add: c map_of_filterResolvedOptions split: if_splits)
  next
    case None
    then obtain d x where d: "map_of defs k = Some d" "Global d" "map_of (userOptions r) k = None"
        "map_of ?prev k = None" "map_of vals k = Some x"
      using k by (auto simp: map_of_filterResolvedOptions split: if_splits option.splits)
    have "map_of resolved k = map_of (CombineOptions (Some w) None vals) k \<or> map_of resolved k = None"
      by (rule Resolve_out_of_scope [OF run fair wf(1,2) _ _ d(1)])
        (use d r glob root map_of_CombineOptions_workspace(2) wf in
          \<open>auto simp: plain_def skips_scope_def\<close>)
    then have "v = x" using k d map_of_CombineOptions_workspace(1) [OF wf(3,4)] by (auto simp: map_add_def)
    then show ?thesis using None d by (simp add: c map_add_def)
  qed
qed

end
