(* ===== verification/Workspace_Properties.thy ===== *)
theory Workspace_Properties
  imports Options_Resolve
begin

text \<open>
  The properties of stored workspaces and their options, of workspace sources, and of identifiers.
\<close>

section \<open>Options of a workspace\<close>

lemma wf_ctx_maps:
  "ProviderOptions c name = Some vals \<Longrightarrow> wf_map vals"
  "DynamicProviderOptionDefinitions c name = Some dyn \<Longrightarrow> wf_map dyn"
  by (auto simp: ProviderOptions_def DynamicProviderOptionDefinitions_def ctx_ProviderOptions_def
      ctx_DynamicProviderOptionDefinitions_def split: option.splits)

lemma New_local:
  "userOptions (New user extra [WithResolveLocal]) = user" "\<not> resolveSub (New user extra [WithResolveLocal])"
  "\<not> skipRequired (New user extra [WithResolveLocal])" "\<not> resolveGlobal (New user extra [WithResolveLocal])"
  by (simp_all add: New_def)

text \<open>The codec of the workspace file: what is decoded is what was encoded, but for the fields that are
  not part of the JSON or that loading sets.\<close>

definition workspace_codec :: "(workspace \<Rightarrow> string result) \<Rightarrow> (string \<Rightarrow> workspace result) \<Rightarrow> bool" where
  "workspace_codec enc dec \<longleftrightarrow> (\<forall>w b. enc w = Inr b \<longrightarrow> (\<exists>w'. dec b = Inr w' \<and>
     w'\<lparr>w_Context := w_Context w, w_Origin := w_Origin w\<rparr> = w))"

lemma same_map_map_of: "same_map a b \<Longrightarrow> map_of a = map_of b"
proof
  fix k assume "same_map a b"
  then show "map_of a k = map_of b k"
    using in_keys_iff [of k a] in_keys_iff [of k b]
    by (cases "k \<in> set (keys a @ keys b)") (auto simp: same_map_def list_all_iff)
qed

lemma CombineOptions_cong:
  assumes "map_of (wpc_Options (w_Provider a)) = map_of (wpc_Options (w_Provider b))"
    and "wf_map (wpc_Options (w_Provider a))" "wf_map (wpc_Options (w_Provider b))" "wf_map vals"
  shows "map_of (CombineOptions (Some a) None vals) = map_of (CombineOptions (Some b) None vals)"
  using assms by (simp add: map_of_CombineOptions_workspace)


text \<open>A sample: the provider of the resolver's sample, and a workspace without options on the disk.\<close>

definition sample_host :: host where
  "sample_host = \<lparr>h_environ = [], h_executable = ''/bin/devpod'', h_GOOS = ''linux'', h_GOARCH = ''amd64'',
     h_log_level = ''info'', h_configDir = Inr ''/r''\<rparr>"

definition sample_provider :: provider where
  "sample_provider = \<lparr>pr_Name = ''p'', pr_Version = [], pr_Icon = [], pr_IconDark = [], pr_Home = [],
     pr_Source = \<lparr>src_Internal = False, src_Github = [], src_File = [], src_URL = [], src_Raw = []\<rparr>,
     pr_Description = [], pr_OptionGroups = [], pr_Options = sample_defs, pr_Agent = zero_agent,
     pr_Exec = \<lparr>ex_Init = [], ex_Command = [''c''], ex_Create = [], ex_Delete = [], ex_Start = [], ex_Stop = [],
       ex_Status = [], ex_Proxy = None, ex_Daemon = None\<rparr>, pr_Binaries = []\<rparr>"

definition sample_config :: config where
  "sample_config = \<lparr>DefaultContext = ''c'', Contexts = Some [(''c'', empty_context_config)], Origin = [], OriginalContext = []\<rparr>"

definition sample_file :: string where "sample_file = ''/r/contexts/c/workspaces/w/workspace.json''"

definition sample_workspace :: workspace where
  "sample_workspace = zero_workspace\<lparr>w_ID := ''w'', w_Context := ''c'', w_Origin := sample_file\<rparr>"

definition sample_saved :: workspace where
  "sample_saved = sample_workspace\<lparr>w_Provider := \<lparr>wpc_Name = [], wpc_Options =
     [(''A'', zero_value\<lparr>Value := ''x''\<rparr>), (''B'', zero_value\<lparr>Value := ''xz''\<rparr>)]\<rparr>\<rparr>"

definition sample_enc :: "workspace \<Rightarrow> string result" where
  "sample_enc w = (if w = sample_saved then Inr ''saved'' else Inl (Err ''not encoded''))"

definition sample_dec :: "string \<Rightarrow> workspace result" where
  "sample_dec b = Inr (if b = ''saved'' then sample_saved else sample_workspace)"

definition sample_disk :: disk where
  "sample_disk = \<lparr>files = [(sample_file, ''first'')], dirs = [], io_error = (\<lambda>_. None)\<rparr>"

definition sample_save :: "((workspace option \<times> gerr option) \<times> disk) option" where
  "sample_save = ResolveAndSaveOptionsWorkspace sample_host sample_dec sample_enc (\<lambda>_ _. Inr []) (\<lambda>_. sample_world) 4
     sample_config sample_provider sample_workspace [] [] sample_disk"

definition saves :: "((workspace option \<times> gerr option) \<times> disk) option \<Rightarrow> bool" where
  "saves x = (case x of Some ((Some _, None), _) \<Rightarrow> True | _ \<Rightarrow> False)"

lemma savesD: "saves x \<Longrightarrow> \<exists>w d. x = Some ((Some w, None), d)"
  by (auto simp: saves_def split: option.splits prod.splits)

lemma sample_codec: "workspace_codec sample_enc sample_dec"
  by (simp add: workspace_codec_def sample_enc_def sample_dec_def)

lemma sample_saves: "saves sample_save"
  unfolding sample_save_def by code_simp

lemma sample_load: "LoadWorkspaceConfig sample_host sample_dec ''c'' ''w'' sample_disk = Inr sample_workspace"
proof -
  have "ReadFile sample_disk (path_Join [path_Join [''/r'', ''contexts'', ''c'', ''workspaces'', ''w''], WorkspaceConfigFile])
      = Inr ''first''"
    "path_Join [path_Join [''/r'', ''contexts'', ''c'', ''workspaces'', ''w''], WorkspaceConfigFile] = sample_file"
    by code_simp+
  then show ?thesis
    by (simp add: LoadWorkspaceConfig_def load_json_def GetWorkspaceDir_def in_config_dir_def sample_host_def
        sample_dec_def sample_workspace_def del: path_Join.simps)
qed


section \<open>Stored workspaces\<close>

text \<open>Saving a workspace and loading it by its context and identifier gives the workspace back, with
  the path of its file as origin, and it exists then; no other workspace is affected, whether saving
  succeeds or not.\<close>

theorem SaveWorkspaceConfig_roundtrip:
  assumes save: "SaveWorkspaceConfig h enc w d = (r, d')" and codec: "workspace_codec enc dec"
    and dir: "h_configDir h = Inr c" "c \<noteq> []"
    and names: "plain_name (w_Context w)" "plain_name (w_ID w)" "plain_name context" "plain_name i"
  shows "(r = Inr () \<longrightarrow> (\<exists>f. LoadWorkspaceConfig h dec (w_Context w) (w_ID w) d' = Inr (w\<lparr>w_Origin := f\<rparr>)) \<and>
      WorkspaceExists h (w_Context w) (w_ID w) d') \<and>
    ((context, i) \<noteq> (w_Context w, w_ID w) \<longrightarrow>
      LoadWorkspaceConfig h dec context i d' = LoadWorkspaceConfig h dec context i d)"
proof (intro conjI impI)
  assume "r = Inr ()"
  with save have s: "SaveWorkspaceConfig h enc w d = (Inr (), d')" by simp
  then obtain b where b: "enc w = Inr b" unfolding SaveWorkspaceConfig_def by (elim save_json_ok)
  with codec obtain x where x: "dec b = Inr x" "x\<lparr>w_Context := w_Context w, w_Origin := w_Origin w\<rparr> = w"
    by (auto simp: workspace_codec_def)
  have "x\<lparr>w_Context := w_Context w, w_Origin := f\<rparr> = w\<lparr>w_Origin := f\<rparr>" for f
    using arg_cong [OF x(2), of "w_Origin_update (\<lambda>_. f)"] by simp
  then show "\<exists>f. LoadWorkspaceConfig h dec (w_Context w) (w_ID w) d' = Inr (w\<lparr>w_Origin := f\<rparr>)"
    and "WorkspaceExists h (w_Context w) (w_ID w) d'"
    using LoadWorkspaceConfig_saved [OF s, of dec x] b x(1) by auto
next
  assume "(context, i) \<noteq> (w_Context w, w_ID w)"
  then have "(w_Context w, w_ID w) \<noteq> (context, i)" by auto
  from LoadWorkspaceConfig_frame [OF save this dir names]
  show "LoadWorkspaceConfig h dec context i d' = LoadWorkspaceConfig h dec context i d" .
qed

theorem SaveWorkspaceConfig_roundtrip_witness:
  "\<exists>f. LoadWorkspaceConfig sample_host sample_dec ''c'' ''w''
      (snd (SaveWorkspaceConfig sample_host sample_enc sample_saved sample_disk)) = Inr (sample_saved\<lparr>w_Origin := f\<rparr>)"
proof -
  have ok: "\<not> isl (fst (SaveWorkspaceConfig sample_host sample_enc sample_saved sample_disk))" by code_simp
  have n: "w_Context sample_saved = ''c''" "w_ID sample_saved = ''w''" "plain_name ''c''" "plain_name ''w''"
    by (simp_all add: sample_saved_def sample_workspace_def plain_name_def)
  have "SaveWorkspaceConfig sample_host sample_enc sample_saved sample_disk =
    (fst (SaveWorkspaceConfig sample_host sample_enc sample_saved sample_disk),
     snd (SaveWorkspaceConfig sample_host sample_enc sample_saved sample_disk))" by simp
  from SaveWorkspaceConfig_roundtrip [OF this sample_codec, of "''/r''" "''c''" "''w''"] ok n
  show ?thesis by (cases "fst (SaveWorkspaceConfig sample_host sample_enc sample_saved sample_disk)")
      (auto simp: sample_host_def)
qed

section \<open>Sources and identifiers\<close>



text \<open>C15: An identifier made from any name has only lower case letters, digits and dashes, no dash at
  its ends and at most 48 characters; made from an identifier it is that identifier; and a non-empty
  one is a single element of a path.\<close>

theorem ToID_identifier:
  "valid_id (ToID s) \<and> ToID (ToID s) = ToID s \<and> (ToID s \<noteq> [] \<longrightarrow> plain_name (ToID s))"
  using ToID_valid [of s] ToID_fixed plain_valid_id by blast

theorem ToID_identifier_witness: "plain_name (ToID ''github.com/Loft-sh/devpod.git'')"
proof -
  have "ToID ''github.com/Loft-sh/devpod.git'' \<noteq> []" by code_simp
  with ToID_identifier [of "''github.com/Loft-sh/devpod.git''"] show ?thesis by blast
qed

end
