(* ===== verification/Dockerfile.thy ===== *)
theory Dockerfile
  imports Option_Vars
begin

text \<open>
  Dockerfiles: \<^verbatim>\<open>pkg/dockerfile/parse.go\<close>.  The parser of buildkit and the scanner for lines are
  arguments; a node of the syntax tree has the fields that the source reads.  Pointers to stages are
  references, the preamble or an index into the list of stages.

  \<open>replaceVariables\<close> and \<open>findValue\<close> call each other and need not end; their first argument bounds the
  depth of the calls, and the value \<open>None\<close> stands for a run that panics, because the stack overflows
  or an index is out of range.  A nil and an empty map are one value.  \<open>RemoveSyntaxVersion\<close> is left
  out: its expression is anchored at the lines of a text.
\<close>

section \<open>Data\<close>

datatype dnode =
  Node (nd_Value: string) (nd_Next: "dnode option") (nd_Flags: "string list") (nd_Original: string)
    (nd_StartLine: nat) (nd_EndLine: nat) (nd_PrevComment: "string list")

record key_value =
  kv_Key :: string
  kv_Value :: string
  kv_Line :: nat

record base_stage =
  bs_Image :: string
  bs_Target :: string
  bs_Envs :: "key_value list"
  bs_Args :: "key_value list"
  bs_Instructions :: "dnode list"

record stage =
  st_Base :: base_stage
  st_Users :: "key_value list"

record directive =
  dv_Name :: string
  dv_Value :: string

record dockerfile =
  df_Raw :: string
  df_Directives :: "directive list"
  df_Preamble :: base_stage
  df_Syntax :: string
  df_Stages :: "stage list"
  df_StagesByTarget :: "nat gomap"

datatype stage_ref = PreambleRef | StageRef nat

fun base_of :: "dockerfile \<Rightarrow> stage_ref \<Rightarrow> base_stage" where
  "base_of d PreambleRef = df_Preamble d"
| "base_of d (StageRef i) = st_Base (df_Stages d ! i)"

definition quotes :: string where "quotes = [CHR 0x22, CHR 0x27]"

section \<open>Variables\<close>

definition argumentExpression :: re where
  "argumentExpression = reference_expression is_word"

definition stageID :: "base_stage \<Rightarrow> string" where
  "stageID s = bs_Image s @ ''-'' @ bs_Target s"

definition getExpressionValue :: "string \<Rightarrow> bool \<Rightarrow> string \<Rightarrow> string \<Rightarrow> string" where
  "getExpressionValue option isSet defaultValue val =
     Trim (if option = ''-'' then if isSet then val else defaultValue
           else if option = ''+'' then if isSet then defaultValue else val
           else []) quotes"

text \<open>\<open>regexp.ReplaceAllFunc\<close> with a function that may panic.\<close>

function ReplaceAllFunc :: "re \<Rightarrow> (string \<Rightarrow> string option) \<Rightarrow> string \<Rightarrow> string option" where
  "ReplaceAllFunc r f [] = Some []"
| "ReplaceAllFunc r f (c # cs) =
     (case match_at r (c # cs) of
        None \<Rightarrow> map_option ((#) c) (ReplaceAllFunc r f cs)
      | Some (rest, caps) \<Rightarrow>
          if length rest \<le> length cs
          then (case f (matched (c # cs) rest) of
                  None \<Rightarrow> None
                | Some v \<Rightarrow> map_option ((@) v) (ReplaceAllFunc r f rest))
          else map_option ((#) c) (ReplaceAllFunc r f cs))"
  by pat_completeness auto
termination by (relation "measure (\<lambda>(r, f, s). length s)") auto

definition lookup_str :: "string gomap \<Rightarrow> string \<Rightarrow> string" where
  "lookup_str m k = (case map_of m k of None \<Rightarrow> [] | Some v \<Rightarrow> v)"

text \<open>\<open>d.Stages[0].Instructions[0].StartLine\<close> and the last instruction of a stage.\<close>

definition first_line :: "dockerfile \<Rightarrow> nat option" where
  "first_line d =
     (case df_Stages d of
        [] \<Rightarrow> None
      | s # _ \<Rightarrow> (case bs_Instructions (st_Base s) of [] \<Rightarrow> None | x # _ \<Rightarrow> Some (nd_StartLine x)))"

definition last_line :: "base_stage \<Rightarrow> nat option" where
  "last_line s = (case rev (bs_Instructions s) of [] \<Rightarrow> None | x # _ \<Rightarrow> Some (nd_StartLine x))"

definition found_arg :: "string gomap \<Rightarrow> string \<Rightarrow> nat \<Rightarrow> base_stage \<Rightarrow> key_value option" where
  "found_arg buildArgs variable untilLine s =
     find (\<lambda>a. kv_Key a = variable \<and> kv_Line a < untilLine \<and> (lookup_str buildArgs (kv_Key a) \<noteq> [] \<or> kv_Value a \<noteq> []))
       (rev (bs_Args s))"

definition found_env :: "string \<Rightarrow> nat \<Rightarrow> base_stage \<Rightarrow> key_value option" where
  "found_env variable untilLine s =
     find (\<lambda>e. kv_Key e = variable \<and> kv_Line e < untilLine \<and> kv_Value e \<noteq> []) (rev (bs_Envs s))"

fun replaceVariables ::
    "nat \<Rightarrow> dockerfile \<Rightarrow> string \<Rightarrow> string gomap \<Rightarrow> string gomap \<Rightarrow> stage_ref \<Rightarrow> nat \<Rightarrow> string option"
  and find_value ::
    "nat \<Rightarrow> dockerfile \<Rightarrow> string gomap \<Rightarrow> string gomap \<Rightarrow> string \<Rightarrow> string list \<Rightarrow> bool \<Rightarrow> stage_ref \<Rightarrow> nat \<Rightarrow> string option" where
  "replaceVariables 0 d val buildArgs baseImageEnv r untilLine = None"
| "replaceVariables (Suc n) d val buildArgs baseImageEnv r untilLine =
     ReplaceAllFunc argumentExpression
       (\<lambda>m. case FindStringSubmatch argumentExpression m of
              None \<Rightarrow> None
            | Some (_, subMatches) \<Rightarrow>
                map_option
                  (\<lambda>v. if group subMatches 2 \<noteq> []
                       then getExpressionValue (group subMatches 3) (v \<noteq> []) (group subMatches 4) v else v)
                  (find_value n d buildArgs baseImageEnv (group subMatches 1) [] True r untilLine)) val"
| "find_value 0 d buildArgs baseImageEnv variable seenStages considerArg r untilLine = None"
| "find_value (Suc n) d buildArgs baseImageEnv variable seenStages considerArg r untilLine =
     (let s = base_of d r in
      if stageID s \<in> set seenStages then Some []
      else
        (case if considerArg then found_arg buildArgs variable untilLine s else None of
           Some a \<Rightarrow>
             if lookup_str buildArgs (kv_Key a) \<noteq> [] then Some (Trim (lookup_str buildArgs (kv_Key a)) quotes)
             else map_option (\<lambda>v. Trim v quotes)
                    (replaceVariables n d (kv_Value a) buildArgs baseImageEnv r (kv_Line a))
         | None \<Rightarrow>
             (case found_env variable untilLine s of
                Some e \<Rightarrow> replaceVariables n d (kv_Value e) buildArgs baseImageEnv r (kv_Line e)
              | None \<Rightarrow>
                  if r = PreambleRef then Some (lookup_str baseImageEnv variable)
                  else
                    (case first_line d of
                       None \<Rightarrow> None
                     | Some start \<Rightarrow>
                         (case replaceVariables n d (bs_Image s) buildArgs baseImageEnv PreambleRef start of
                            None \<Rightarrow> None
                          | Some img \<Rightarrow>
                              (case map_of (df_StagesByTarget d) img of
                                 None \<Rightarrow> find_value n d buildArgs baseImageEnv variable (stageID s # seenStages) True
                                           PreambleRef start
                               | Some j \<Rightarrow>
                                   (case last_line (base_of d (StageRef j)) of
                                      None \<Rightarrow> None
                                    | Some l \<Rightarrow> find_value n d buildArgs baseImageEnv variable (stageID s # seenStages)
                                                  False (StageRef j) (l + 1))))))))"

definition findValue ::
    "nat \<Rightarrow> dockerfile \<Rightarrow> string gomap \<Rightarrow> string gomap \<Rightarrow> string \<Rightarrow> stage_ref \<Rightarrow> nat \<Rightarrow> string option" where
  "findValue n d buildArgs baseImageEnv variable r untilLine =
     find_value n d buildArgs baseImageEnv variable [] True r untilLine"

section \<open>Users and base images\<close>

text \<open>The stage that a target names, or else the last one.\<close>

definition target_stage :: "dockerfile \<Rightarrow> string \<Rightarrow> nat option" where
  "target_stage d target =
     (case map_of (df_StagesByTarget d) target of
        Some i \<Rightarrow> Some i
      | None \<Rightarrow> if df_Stages d = [] then None else Some (length (df_Stages d) - 1))"

text \<open>The img of a stage with its variables replaced.\<close>

definition stage_image :: "nat \<Rightarrow> dockerfile \<Rightarrow> string gomap \<Rightarrow> string gomap \<Rightarrow> nat \<Rightarrow> string option" where
  "stage_image n d buildArgs baseImageEnv i =
     (case first_line d of
        None \<Rightarrow> None
      | Some start \<Rightarrow> replaceVariables n d (bs_Image (base_of d (StageRef i))) buildArgs baseImageEnv PreambleRef start)"

fun user_loop ::
    "nat \<Rightarrow> nat \<Rightarrow> dockerfile \<Rightarrow> string gomap \<Rightarrow> string gomap \<Rightarrow> string list \<Rightarrow> nat \<Rightarrow> string option" where
  "user_loop n 0 d buildArgs baseImageEnv seenStages i = None"
| "user_loop n (Suc k) d buildArgs baseImageEnv seenStages i =
     (let s = df_Stages d ! i in
      if stageID (st_Base s) \<in> set seenStages then Some []
      else if st_Users s \<noteq> []
      then replaceVariables n d (kv_Key (last (st_Users s))) buildArgs baseImageEnv (StageRef i) (kv_Line (last (st_Users s)))
      else if bs_Image (st_Base s) = [] then Some []
      else
        (case stage_image n d buildArgs baseImageEnv i of
           None \<Rightarrow> None
         | Some img \<Rightarrow>
             (case map_of (df_StagesByTarget d) img of
                None \<Rightarrow> Some []
              | Some j \<Rightarrow> user_loop n k d buildArgs baseImageEnv (stageID (st_Base s) # seenStages) j)))"

text \<open>The loops see every stage at most once, so \<open>length (df_Stages d) + 1\<close> rounds are enough.\<close>

definition FindUserStatement ::
    "nat \<Rightarrow> dockerfile \<Rightarrow> string gomap \<Rightarrow> string gomap \<Rightarrow> string \<Rightarrow> string option" where
  "FindUserStatement n d buildArgs baseImageEnv target =
     (case target_stage d target of
        None \<Rightarrow> None
      | Some i \<Rightarrow> user_loop n (length (df_Stages d) + 1) d buildArgs baseImageEnv [] i)"

fun base_image_loop :: "nat \<Rightarrow> nat \<Rightarrow> dockerfile \<Rightarrow> string gomap \<Rightarrow> nat list \<Rightarrow> nat \<Rightarrow> string option" where
  "base_image_loop n 0 d buildArgs visited i = None"
| "base_image_loop n (Suc k) d buildArgs visited i =
     (if i \<in> set visited then Some []
      else
        (case stage_image n d buildArgs [] i of
           None \<Rightarrow> None
         | Some nextTarget \<Rightarrow>
             (case map_of (df_StagesByTarget d) nextTarget of
                None \<Rightarrow> Some nextTarget
              | Some j \<Rightarrow> base_image_loop n k d buildArgs (i # visited) j)))"

definition FindBaseImage :: "nat \<Rightarrow> dockerfile \<Rightarrow> string gomap \<Rightarrow> string \<Rightarrow> string option" where
  "FindBaseImage n d buildArgs target =
     (case target_stage d target of
        None \<Rightarrow> None
      | Some i \<Rightarrow> base_image_loop n (length (df_Stages d) + 1) d buildArgs [] i)"

definition BuildContextFiles :: "dockerfile \<Rightarrow> string list" where
  "BuildContextFiles d =
     concat (map (\<lambda>s. concat (map (\<lambda>x.
       if HasPrefix (nd_Value x) ''ADD'' \<or> HasPrefix (nd_Value x) ''COPY''
       then let parts = Split CHR '' '' (nd_Original x) in if length parts > 2 then butlast (tl parts) else []
       else []) (bs_Instructions (st_Base s)))) (df_Stages d))"

section \<open>Printing\<close>

fun DumpNode :: "dnode \<Rightarrow> string" where
  "DumpNode (Node v nxt flags original start stop comments) =
     (if comments \<noteq> [] then ''# '' @ Join comments ([CHR 0x0A] @ ''# '') else []) @
     (if v \<noteq> [] then (if comments \<noteq> [] then [CHR 0x0A] else []) @ v else []) @
     concat (map (\<lambda>child. '' '' @ child) flags) @
     (case nxt of None \<Rightarrow> [] | Some x \<Rightarrow> '' '' @ DumpNode x)"

definition DumpAll :: "dnode list \<Rightarrow> string" where
  "DumpAll nodes = (if nodes = [] then [] else Join (map DumpNode nodes) [CHR 0x0A])"

definition Dump :: "dockerfile \<Rightarrow> string" where
  "Dump d =
     (let strs = DumpAll (bs_Instructions (df_Preamble d)) # map (\<lambda>s. DumpAll (bs_Instructions (st_Base s))) (df_Stages d) in
      Join (filter (\<lambda>s. s \<noteq> []) strs) [CHR 0x0A])"

section \<open>Parsing\<close>

definition parseUser :: "dnode \<Rightarrow> key_value result" where
  "parseUser x =
     (case nd_Next x of
        None \<Rightarrow> Inl (Panic ''nil pointer dereference'')
      | Some y \<Rightarrow> Inr \<lparr>kv_Key = hd (Split CHR '':'' (nd_Value y)), kv_Value = [], kv_Line = nd_StartLine x\<rparr>)"

definition parseArg :: "dnode \<Rightarrow> key_value result" where
  "parseArg x =
     (case nd_Next x of
        None \<Rightarrow> Inl (Panic ''nil pointer dereference'')
      | Some y \<Rightarrow>
          (case nd_Next y of
             Some z \<Rightarrow> Inr \<lparr>kv_Key = nd_Value y, kv_Value = nd_Value z, kv_Line = nd_StartLine x\<rparr>
           | None \<Rightarrow>
               if Contains (nd_Value y) ''='' then
                 (let splitted = Split CHR ''='' (nd_Value y) in
                  Inr \<lparr>kv_Key = hd splitted, kv_Value = Join (tl splitted) ''='', kv_Line = nd_StartLine x\<rparr>)
               else Inr \<lparr>kv_Key = nd_Value y, kv_Value = [], kv_Line = nd_StartLine x\<rparr>))"

fun env_pairs :: "nat \<Rightarrow> dnode option \<Rightarrow> key_value list" where
  "env_pairs line None = []"
| "env_pairs line (Some (Node k None flags original start stop comments)) = []"
| "env_pairs line (Some (Node k (Some (Node v nxt f2 o2 s2 e2 c2)) flags original start stop comments)) =
     \<lparr>kv_Key = TrimSpace k, kv_Value = Trim (ReplaceAllChar CHR 0x5C [] v) quotes, kv_Line = line\<rparr> # env_pairs line nxt"

definition parseEnv :: "dnode \<Rightarrow> key_value list" where
  "parseEnv x = env_pairs (nd_StartLine x) (nd_Next x)"

fun nth_next :: "nat \<Rightarrow> dnode \<Rightarrow> dnode option" where
  "nth_next 0 x = Some x"
| "nth_next (Suc n) x = (case nd_Next x of None \<Rightarrow> None | Some y \<Rightarrow> nth_next n y)"

definition parseStage :: "dnode \<Rightarrow> stage" where
  "parseStage x =
     (let img = (case nd_Next x of None \<Rightarrow> [] | Some y \<Rightarrow> nd_Value y);
          target = (case (nth_next 2 x, nth_next 3 x) of
                      (Some a, Some t) \<Rightarrow> if ToLower (nd_Value a) = ''as'' \<and> nd_Value t \<noteq> [] then nd_Value t else []
                    | _ \<Rightarrow> []) in
      \<lparr>st_Base = \<lparr>bs_Image = img, bs_Target = target, bs_Envs = [], bs_Args = [], bs_Instructions = [x]\<rparr>, st_Users = []\<rparr>)"

definition is_instruction :: "string \<Rightarrow> dnode \<Rightarrow> bool" where
  "is_instruction name x \<longleftrightarrow> ToLower (nd_Value x) = name"

text \<open>An instruction is added to the preamble or to a stage.\<close>

definition add_instruction :: "dnode \<Rightarrow> base_stage \<Rightarrow> base_stage result" where
  "add_instruction x s0 =
     (let s = s0\<lparr>bs_Instructions := bs_Instructions s0 @ [x]\<rparr> in
      if is_instruction ''env'' x then Inr (s\<lparr>bs_Envs := bs_Envs s @ parseEnv x\<rparr>)
      else if is_instruction ''arg'' x then map_sum id (\<lambda>a. s\<lparr>bs_Args := bs_Args s @ [a]\<rparr>) (parseArg x)
      else Inr s)"

definition add_to_stage :: "dnode \<Rightarrow> stage \<Rightarrow> stage result" where
  "add_to_stage x s =
     (case add_instruction x (st_Base s) of
        Inl e \<Rightarrow> Inl e
      | Inr b \<Rightarrow>
          if is_instruction ''user'' x
          then map_sum id (\<lambda>u. s\<lparr>st_Base := b, st_Users := st_Users s @ [u]\<rparr>) (parseUser x)
          else Inr (s\<lparr>st_Base := b\<rparr>))"

definition add_node_to :: "dnode \<Rightarrow> base_stage \<times> stage list \<Rightarrow> (base_stage \<times> stage list) result" where
  "add_node_to x = (\<lambda>(preamble, stages).
     if is_instruction ''from'' x then Inr (preamble, stages @ [parseStage x])
     else if stages = [] then map_sum id (\<lambda>p. (p, [])) (add_instruction x preamble)
     else map_sum id (\<lambda>s. (preamble, butlast stages @ [s])) (add_to_stage x (last stages)))"

fun add_nodes :: "dnode list \<Rightarrow> base_stage \<times> stage list \<Rightarrow> (base_stage \<times> stage list) result" where
  "add_nodes [] ps = Inr ps"
| "add_nodes (x # xs) ps = (case add_node_to x ps of Inl e \<Rightarrow> Inl e | Inr ps' \<Rightarrow> add_nodes xs ps')"

definition empty_base :: base_stage where
  "empty_base = \<lparr>bs_Image = [], bs_Target = [], bs_Envs = [], bs_Args = [], bs_Instructions = []\<rparr>"

fun stage_targets :: "nat \<Rightarrow> stage list \<Rightarrow> nat gomap \<Rightarrow> nat gomap" where
  "stage_targets i [] m = m"
| "stage_targets i (s # ss) m =
     stage_targets (Suc i) ss (if bs_Target (st_Base s) = [] then m else AList.update (bs_Target (st_Base s)) i m)"

definition Parse ::
    "(string \<Rightarrow> dnode list result) \<Rightarrow> (string \<Rightarrow> directive list result) \<Rightarrow> string \<Rightarrow> dockerfile result" where
  "Parse parser directiveParser dockerfileContent =
     (case parser dockerfileContent of
        Inl e \<Rightarrow> Inl e
      | Inr children \<Rightarrow>
          if children = [] then Inl (Err ''received empty Dockerfile'')
          else
            (case directiveParser dockerfileContent of
               Inl e \<Rightarrow> Inl e
             | Inr directives \<Rightarrow>
                 (case add_nodes children (empty_base, []) of
                    Inl e \<Rightarrow> Inl e
                  | Inr (preamble, stages) \<Rightarrow>
                      Inr \<lparr>df_Raw = dockerfileContent, df_Directives = directives, df_Preamble = preamble,
                           df_Syntax = (case find (\<lambda>x. dv_Name x = ''syntax'') directives of None \<Rightarrow> [] | Some x \<Rightarrow> dv_Value x),
                           df_Stages = stages, df_StagesByTarget = stage_targets 0 stages []\<rparr>)))"

section \<open>The name of the last stage\<close>

definition ReplaceInDockerfile :: "(string \<Rightarrow> string list) \<Rightarrow> string \<Rightarrow> dnode \<Rightarrow> string" where
  "ReplaceInDockerfile scan dockerfileContent x =
     Join (map (\<lambda>(lineNumber, text). if nd_StartLine x \<le> lineNumber \<and> lineNumber \<le> nd_EndLine x then DumpNode x else text)
             (enumerate 1 (scan dockerfileContent))) [CHR 0x0A]"

definition plain_node :: "string \<Rightarrow> dnode option \<Rightarrow> dnode" where
  "plain_node v nxt = Node v nxt [] [] 0 0 []"

fun set_Next :: "dnode option \<Rightarrow> dnode \<Rightarrow> dnode" where
  "set_Next y (Node v nxt flags original start stop comments) = Node v y flags original start stop comments"

definition EnsureDockerfileHasFinalStageName ::
    "(string \<Rightarrow> dnode list result) \<Rightarrow> (string \<Rightarrow> string list) \<Rightarrow> string \<Rightarrow> string \<Rightarrow> (string \<times> string) result" where
  "EnsureDockerfileHasFinalStageName parser scan dockerfileContent defaultLastStageName =
     (case parser dockerfileContent of
        Inl e \<Rightarrow> Inl e
      | Inr children \<Rightarrow>
          (case find (is_instruction ''from'') (rev children) of
             None \<Rightarrow> Inl (Err ''no FROM statement in dockerfile'')
           | Some lastChild \<Rightarrow>
               (case nd_Next lastChild of
                  None \<Rightarrow> Inl (Err ''cannot parse FROM statement in dockerfile'')
                | Some img \<Rightarrow>
                    (case (nth_next 2 lastChild, nth_next 3 lastChild) of
                       (Some a, Some t) \<Rightarrow>
                         if ToLower (nd_Value a) = ''as'' then Inr (nd_Value t, [])
                         else Inr (defaultLastStageName, ReplaceInDockerfile scan dockerfileContent
                           (set_Next (Some (set_Next (Some (plain_node ''AS'' (Some (plain_node defaultLastStageName None)))) img)) lastChild))
                     | _ \<Rightarrow> Inr (defaultLastStageName, ReplaceInDockerfile scan dockerfileContent
                           (set_Next (Some (set_Next (Some (plain_node ''AS'' (Some (plain_node defaultLastStageName None)))) img)) lastChild))))))"

end
