(* ===== verification/Dockerfile_Properties.thy ===== *)
theory Dockerfile_Properties
  imports Dockerfile
begin

text \<open>
  The properties of the Dockerfile model: when the replacement of variables ends and how deep the
  calls are, what the base image is, and that parsing and printing keep the instructions.
\<close>

section \<open>Replacement\<close>

lemma ReplaceAllFunc_mono:
  assumes "\<And>m v. f m = Some v \<Longrightarrow> g m = Some v"
  shows "ReplaceAllFunc r f s = Some v \<Longrightarrow> ReplaceAllFunc r g s = Some v"
proof (induction s arbitrary: v rule: length_induct)
  case (1 s)
  note IH = 1(1) [rule_format]
  show ?case
  proof (cases s)
    case (Cons c cs)
    show ?thesis
    proof (cases "match_at r s")
      case None
      then show ?thesis using 1(2) IH [of cs] by (auto simp: Cons)
    next
      case (Some m)
      obtain rest caps where m: "match_at r s = Some (rest, caps)" using Some by (cases m) simp
      show ?thesis
      proof (cases "length rest \<le> length cs")
        case True
        then obtain w u where "f (matched s rest) = Some w" "ReplaceAllFunc r f rest = Some u" "v = w @ u"
          using 1(2) m by (auto simp: Cons split: option.splits)
        then show ?thesis using IH [of rest u] m True assms by (auto simp: Cons)
      next
        case False
        then show ?thesis using 1(2) m IH [of cs] by (auto simp: Cons)
      qed
    qed
  qed (use 1 in simp)
qed

lemma ReplaceAllFunc_total:
  assumes "\<not> p CHR ''{''" and "\<And>m t caps. FindStringSubmatch (reference_expression p) m = Some (t, caps) \<Longrightarrow> f m \<noteq> None"
  shows "ReplaceAllFunc (reference_expression p) f s \<noteq> None"
proof (induction s rule: length_induct)
  case (1 s)
  show ?case
  proof (cases s)
    case (Cons c cs)
    show ?thesis
    proof (cases "scan_reference p s")
      case None
      then show ?thesis using 1 match_reference [of p s] assms(1) by (auto simp: Cons)
    next
      case (Some nr)
      then obtain name rest where nr: "scan_reference p s = Some (name, rest)" by (cases nr) simp
      obtain caps where caps: "match_at (reference_expression p) s = Some (rest, caps)"
        using match_reference [of p s] assms(1) nr by auto
      obtain rest' where "scan_reference p (matched s rest) = Some (name, rest')"
        using scan_reference_again [OF nr] by blast
      then obtain v where "f (matched s rest) = Some v"
        using group_FindStringSubmatch [of p] assms by blast
      moreover have "ReplaceAllFunc (reference_expression p) f rest \<noteq> None"
        using 1 scan_reference_shorter [OF nr] by blast
      ultimately show ?thesis using caps scan_reference_shorter [OF nr] unfolding Cons by auto
    qed
  qed simp
qed

lemma is_word_brace: "\<not> is_word CHR ''{''"
  by (simp add: is_word_def is_alnum_def is_digit_def is_upper_def is_lower_def)

lemma replaceVariables_total:
  assumes "\<And>x. find_value n d b env x [] True r l \<noteq> None"
  shows "replaceVariables (Suc n) d val b env r l \<noteq> None"
  unfolding replaceVariables.simps argumentExpression_def
  by (rule ReplaceAllFunc_total) (use assms is_word_brace in auto)

text \<open>More depth does not change a result.\<close>

lemma option_bind_mono:
  assumes "(case x of None \<Rightarrow> None | Some a \<Rightarrow> f a) = Some v" "\<And>a. x = Some a \<Longrightarrow> x' = Some a"
    "\<And>a v. f a = Some v \<Longrightarrow> f' a = Some v"
  shows "(case x' of None \<Rightarrow> None | Some a \<Rightarrow> f' a) = Some v"
  using assms by (cases x) auto

lemma depth_Suc:
  "(\<forall>d val b env r l v. replaceVariables n d val b env r l = Some v \<longrightarrow> replaceVariables (Suc n) d val b env r l = Some v) \<and>
   (\<forall>d b env x seen c r l v. find_value n d b env x seen c r l = Some v \<longrightarrow> find_value (Suc n) d b env x seen c r l = Some v)"
proof (induction n)
  case (Suc n)
  have R: "replaceVariables (Suc (Suc n)) d val b env r l = Some v" if "replaceVariables (Suc n) d val b env r l = Some v"
    for d val b env r l v
    using that unfolding replaceVariables.simps(2) [of "Suc n"] replaceVariables.simps(2) [of n]
    by (rule ReplaceAllFunc_mono [rotated]) (use Suc in \<open>auto split: option.splits simp del: find_value.simps\<close>)
  have F: "find_value (Suc (Suc n)) d b env x seen c r l = Some v" if run: "find_value (Suc n) d b env x seen c r l = Some v"
    for d b env x seen c r l v
  proof -
    note S = Suc [THEN conjunct1, rule_format] Suc [THEN conjunct2, rule_format]
    note steps = find_value.simps(2) [of "Suc n"] find_value.simps(2) [of n] Let_def
    let ?s = "base_of d r" and ?arg = "if c then found_arg b x l (base_of d r) else None"
    consider "stageID ?s \<in> set seen" | a where "stageID ?s \<notin> set seen" "?arg = Some a"
      | e where "stageID ?s \<notin> set seen" "?arg = None" "found_env x l ?s = Some e"
      | "stageID ?s \<notin> set seen" "?arg = None" "found_env x l ?s = None" by fastforce
    then show ?thesis
    proof cases
      case 2
      then show ?thesis using run S(1) unfolding steps by (auto split: if_splits)
    next
      case 4
      show ?thesis
      proof (cases "r = PreambleRef \<or> first_line d = None")
        case True
        then show ?thesis using run 4 by (auto simp: steps simp del: find_value.simps replaceVariables.simps)
      next
        case False
        let ?next = "\<lambda>k start img. case map_of (df_StagesByTarget d) img of
            None \<Rightarrow> find_value k d b env x (stageID ?s # seen) True PreambleRef start
          | Some j \<Rightarrow> (case last_line (base_of d (StageRef j)) of None \<Rightarrow> None
             | Some l \<Rightarrow> find_value k d b env x (stageID ?s # seen) False (StageRef j) (l + 1))"
        obtain start where start: "first_line d = Some start" using False by blast
        have "?next (Suc n) start img = Some u" if "?next n start img = Some u" for img u
          using that S(2) by (auto split: option.splits simp del: find_value.simps)
        then have "(case replaceVariables (Suc n) d (bs_Image ?s) b env PreambleRef start of
            None \<Rightarrow> None | Some img \<Rightarrow> ?next (Suc n) start img) = Some v"
          if "(case replaceVariables n d (bs_Image ?s) b env PreambleRef start of
            None \<Rightarrow> None | Some img \<Rightarrow> ?next n start img) = Some v"
          by (intro option_bind_mono [OF that]) (blast intro: S)+
        then show ?thesis using run 4 False start unfolding steps by simp
      qed
    qed (use run S(1) in \<open>simp_all only: steps if_True if_False option.case\<close>)
  qed
  from R F show ?case by blast
qed simp

lemma depth_mono:
  assumes "n \<le> m"
  shows "replaceVariables n d val b env r l = Some v \<Longrightarrow> replaceVariables m d val b env r l = Some v"
    and "find_value n d b env x seen c r l = Some v \<Longrightarrow> find_value m d b env x seen c r l = Some v"
  using assms by (induction m rule: dec_induct) (use depth_Suc in blast)+

section \<open>Depth of the calls\<close>

declare replaceVariables.simps [simp del] find_value.simps [simp del]

lemma found_line:
  "found_arg b x l s = Some a \<Longrightarrow> kv_Line a < l" "found_env x l s = Some e \<Longrightarrow> kv_Line e < l"
  by (auto simp: found_arg_def found_env_def find_Some_iff)

lemma preamble_value:
  assumes "\<And>l' val. l' < l \<Longrightarrow> replaceVariables n d val b env PreambleRef l' \<noteq> None"
  shows "find_value (Suc n) d b env x seen c PreambleRef l \<noteq> None"
  using assms found_line
  by (fastforce simp: find_value.simps Let_def split: option.splits if_splits)

text \<open>In the preamble every nested call looks at earlier lines.\<close>

lemma preamble_depth: "2 * l + 2 \<le> n \<Longrightarrow> replaceVariables n d val b env PreambleRef l \<noteq> None"
proof (induction l arbitrary: n val rule: less_induct)
  case (less l)
  obtain k where n: "n = Suc (Suc k)" using less.prems by (metis add_2_eq_Suc' le_add2 nat_le_iff_add plus_nat.simps(2) add_leD2)
  have "replaceVariables k d val' b env PreambleRef l' \<noteq> None" if "l' < l" for l' val'
    using less that n by simp
  then show ?case unfolding n by (intro replaceVariables_total preamble_value)
qed

lemma preamble_value_depth: "2 * l + 1 \<le> n \<Longrightarrow> find_value n d b env x seen c PreambleRef l \<noteq> None"
  using preamble_depth preamble_value by (cases n) auto

text \<open>What the parser guarantees: there is a stage, every stage has instructions, the names lead to
  stages, and no instruction is beyond a line.\<close>

definition lines_below :: "nat \<Rightarrow> stage \<Rightarrow> bool" where
  "lines_below m s \<longleftrightarrow> bs_Instructions (st_Base s) \<noteq> [] \<and> list_all (\<lambda>x. nd_StartLine x < m) (bs_Instructions (st_Base s)) \<and>
     list_all (\<lambda>u. kv_Line u < m) (st_Users s)"

definition stages_ok :: "nat \<Rightarrow> dockerfile \<Rightarrow> bool" where
  "stages_ok m d \<longleftrightarrow> df_Stages d \<noteq> [] \<and> list_all (lines_below m) (df_Stages d) \<and>
     list_all (\<lambda>(_, j). j < length (df_Stages d)) (df_StagesByTarget d)"

lemma stages_okD:
  assumes "stages_ok m d"
  shows "\<exists>start < m. first_line d = Some start"
    and "i < length (df_Stages d) \<Longrightarrow> \<exists>l < m. last_line (base_of d (StageRef i)) = Some l"
    and "map_of (df_StagesByTarget d) t = Some j \<Longrightarrow> j < length (df_Stages d)"
    and "i < length (df_Stages d) \<Longrightarrow> u \<in> set (st_Users (df_Stages d ! i)) \<Longrightarrow> kv_Line u < m"
proof -
  have s: "df_Stages d \<noteq> []" "\<And>s. s \<in> set (df_Stages d) \<Longrightarrow> lines_below m s"
    using assms by (auto simp: stages_ok_def list_all_iff)
  obtain s0 ss where d: "df_Stages d = s0 # ss" using s(1) by (cases "df_Stages d") auto
  obtain x xs where "bs_Instructions (st_Base s0) = x # xs" "nd_StartLine x < m"
    using s(2) [of s0] d by (cases "bs_Instructions (st_Base s0)") (auto simp: lines_below_def)
  then show "\<exists>start < m. first_line d = Some start" by (simp add: first_line_def d)
  show "\<exists>l < m. last_line (base_of d (StageRef i)) = Some l" if "i < length (df_Stages d)"
  proof -
    let ?xs = "bs_Instructions (st_Base (df_Stages d ! i))"
    have "?xs \<noteq> []" "\<forall>x \<in> set ?xs. nd_StartLine x < m"
      using s(2) [OF nth_mem [OF that]] by (auto simp: lines_below_def list_all_iff)
    then obtain x ys where "rev ?xs = x # ys" "nd_StartLine x < m" by (cases "rev ?xs") auto
    then show ?thesis by (simp add: last_line_def)
  qed
  show "map_of (df_StagesByTarget d) t = Some j \<Longrightarrow> j < length (df_Stages d)"
    using assms by (auto simp: stages_ok_def list_all_iff dest: map_of_SomeD)
  show "i < length (df_Stages d) \<Longrightarrow> u \<in> set (st_Users (df_Stages d ! i)) \<Longrightarrow> kv_Line u < m"
    using s(2) [of "df_Stages d ! i"] by (auto simp: lines_below_def list_all_iff)
qed

lemma stage_image_depth:
  assumes "stages_ok m d" "2 * m \<le> n"
  shows "\<exists>img. stage_image n d b env i = Some img \<and> stage_image (2 * m) d b env i = Some img"
proof -
  obtain start where start: "start < m" "first_line d = Some start" using stages_okD(1) [OF assms(1)] by blast
  then obtain img where "replaceVariables (2 * m) d (bs_Image (base_of d (StageRef i))) b env PreambleRef start = Some img"
    using preamble_depth [of start "2 * m" d "bs_Image (base_of d (StageRef i))" b env] by auto
  with depth_mono(1) [OF assms(2) this] start show ?thesis by (simp add: stage_image_def)
qed

text \<open>Every stage is built on an earlier one or on an image.\<close>

definition refers_back :: "nat \<Rightarrow> dockerfile \<Rightarrow> string gomap \<Rightarrow> string gomap \<Rightarrow> bool" where
  "refers_back m d b env \<longleftrightarrow> list_all (\<lambda>i.
     case stage_image (2 * m) d b env i of
       None \<Rightarrow> True
     | Some img \<Rightarrow> (case map_of (df_StagesByTarget d) img of None \<Rightarrow> True | Some j \<Rightarrow> j < i)) [0..<length (df_Stages d)]"

lemma refers_backD:
  assumes "refers_back m d b env" "stages_ok m d" "2 * m \<le> n" "i < length (df_Stages d)"
    and "stage_image n d b env i = Some img" "map_of (df_StagesByTarget d) img = Some j"
  shows "j < i"
  using assms(1,4) stage_image_depth [OF assms(2,3), of b env i] assms(5,6)
  by (auto simp: refers_back_def list_all_iff split: option.splits)

definition stage_depth :: "nat \<Rightarrow> nat \<Rightarrow> nat" where
  "stage_depth m i = (i + 1) * (2 * m + 4)"

lemma stage_value:
  assumes ok: "stages_ok m d" "refers_back m d b env" and i: "i < length (df_Stages d)" and n: "2 * m \<le> n"
    and lines: "\<And>l' val. l' < l \<Longrightarrow> replaceVariables n d val b env (StageRef i) l' \<noteq> None"
    and below: "\<And>j seen l'. j < i \<Longrightarrow> l' \<le> m \<Longrightarrow> find_value n d b env x seen False (StageRef j) l' \<noteq> None"
  shows "find_value (Suc n) d b env x seen c (StageRef i) l \<noteq> None"
proof -
  obtain start where start: "start < m" "first_line d = Some start" using stages_okD(1) [OF ok(1)] by blast
  obtain img where img: "stage_image n d b env i = Some img" using stage_image_depth [OF ok(1) n] by blast
  then have R: "replaceVariables n d (bs_Image (base_of d (StageRef i))) b env PreambleRef start = Some img"
    by (simp add: stage_image_def start)
  have P: "find_value n d b env x seen' True PreambleRef start \<noteq> None" for seen'
    using start n by (intro preamble_value_depth) simp
  have J: "\<exists>l. last_line (base_of d (StageRef j)) = Some l \<and> find_value n d b env x seen' False (StageRef j) (l + 1) \<noteq> None"
    if "map_of (df_StagesByTarget d) img = Some j" for j seen'
    using refers_backD [OF ok(2,1) n i img that] stages_okD(2,3) [OF ok(1)] that below by (metis Suc_eq_plus1 Suc_leI)
  have A: "\<exists>v. replaceVariables n d (kv_Value a) b env (StageRef i) (kv_Line a) = Some v"
    if "found_arg b x l (base_of d (StageRef i)) = Some a \<or> found_env x l (base_of d (StageRef i)) = Some a" for a
    using lines [of "kv_Line a" "kv_Value a"] found_line that by blast
  show ?thesis
    using P A J by (auto simp: find_value.simps(2) Let_def start R simp del: base_of.simps split: option.splits)
      (metis option.distinct(1) option.inject)+
qed

lemma value_depth:
  assumes ok: "stages_ok m d" "refers_back m d b env"
  shows "i < length (df_Stages d) \<Longrightarrow> stage_depth m i + 2 * l + 1 \<le> n \<Longrightarrow> find_value n d b env x seen c (StageRef i) l \<noteq> None"
proof (induction i arbitrary: l n x seen c rule: less_induct)
  case (less i)
  note below = less.IH and i = less.prems(1)
  show ?case
    using less.prems(2)
  proof (induction l arbitrary: n x seen c rule: less_induct)
    case (less l)
    then obtain k where n: "n = Suc k" by (cases n) auto
    have k: "stage_depth m i + 2 * l \<le> k" using less.prems n by simp
    show ?case
      unfolding n
    proof (rule stage_value [OF ok i])
      show "2 * m \<le> k" using k by (simp add: stage_depth_def)
      show "replaceVariables k d val b env (StageRef i) l' \<noteq> None" if lt: "l' < l" for l' val
      proof -
        obtain k' where k': "k = Suc k'" using k lt by (cases k) auto
        have "find_value k' d b env y [] True (StageRef i) l' \<noteq> None" for y
          using less.IH [OF lt] k k' lt by simp
        then show ?thesis unfolding k' by (rule replaceVariables_total)
      qed
      show "find_value k d b env x seen' False (StageRef j) l' \<noteq> None" if "j < i" "l' \<le> m" for j seen' l'
      proof (rule below [OF that(1)])
        show "j < length (df_Stages d)" using that i by simp
        have "(j + 1) * (2 * m + 4) \<le> i * (2 * m + 4)" using that(1) by (intro mult_le_mono1) simp
        then show "stage_depth m j + 2 * l' + 1 \<le> k" using k that(2) by (simp add: stage_depth_def)
      qed
    qed
  qed
qed

text \<open>C26: The replacement of variables ends when every stage is built on an earlier one or on an image: with
  a depth of calls that is linear in the number of stages and of lines it gives a text, for every
  value, every variable and all arguments.  (A call that looks for a variable in the stages below
  starts a new call for each variable in a value, so the guard against repeated stages within one
  call would not be enough.)\<close>

theorem replaceVariables_returns:
  assumes "stages_ok m d" "refers_back m d buildArgs baseImageEnv" "i < length (df_Stages d)"
    and "(i + 1) * (2 * m + 4) + 2 * untilLine + 2 \<le> n"
  shows "\<exists>v. replaceVariables n d val buildArgs baseImageEnv (StageRef i) untilLine = Some v"
proof -
  obtain k where n: "n = Suc k" using assms(4) by (cases n) auto
  have "find_value k d buildArgs baseImageEnv x [] True (StageRef i) untilLine \<noteq> None" for x
    using assms(4) n by (intro value_depth [OF assms(1-3)]) (simp add: stage_depth_def)
  then show ?thesis unfolding n using replaceVariables_total by blast
qed

text \<open>A sample: a preamble with an argument, a stage on the image it names, and a stage on the first
  with a variable that refers to one of the first.\<close>

definition sample_from :: "nat \<Rightarrow> string \<Rightarrow> string \<Rightarrow> dnode" where
  "sample_from line img name = Node ''FROM'' (Some (plain_node img
     (if name = [] then None else Some (plain_node ''AS'' (Some (plain_node name None)))))) [] [] line line []"

definition sample_word :: "nat \<Rightarrow> string \<Rightarrow> string \<Rightarrow> dnode" where
  "sample_word line name v = Node name (Some (plain_node v None)) [] [] line line []"

definition sample_env :: "nat \<Rightarrow> string \<Rightarrow> string \<Rightarrow> dnode" where
  "sample_env line k v = Node ''ENV'' (Some (plain_node k (Some (plain_node v None)))) [] [] line line []"

definition sample_nodes :: "dnode list" where
  "sample_nodes = [sample_word 1 ''ARG'' ''VARIANT=go'', sample_from 2 ''${VARIANT}'' ''base'', sample_env 3 ''HOME'' ''/h'',
     sample_from 4 ''base'' ''dev'', sample_env 5 ''WORK'' ''${HOME}/w'', sample_word 6 ''USER'' ''${NAME:-me}:g'']"

definition parsed :: "dnode list \<Rightarrow> dockerfile" where
  "parsed nodes = (case Parse (\<lambda>_. Inr nodes) (\<lambda>_. Inr []) [] of Inr d \<Rightarrow> d
     | Inl _ \<Rightarrow> \<lparr>df_Raw = [], df_Directives = [], df_Preamble = empty_base, df_Syntax = [], df_Stages = [], df_StagesByTarget = []\<rparr>)"

theorem replaceVariables_returns_witness:
  "\<exists>v. replaceVariables 64 (parsed sample_nodes) ''${WORK}'' [] [] (StageRef 1) 6 = Some v"
proof -
  have "stages_ok 7 (parsed sample_nodes)" "refers_back 7 (parsed sample_nodes) [] []" "1 < length (df_Stages (parsed sample_nodes))"
    by code_simp+
  from replaceVariables_returns [OF this, of 6 64] show ?thesis by simp
qed

lemma sample_value: "replaceVariables 64 (parsed sample_nodes) ''${WORK}'' [] [] (StageRef 1) 6 = Some ''/h/w''"
  by code_simp

text \<open>Without that order it need not end: two stages that are built on each other, each with a variable
  that refers to one of the other.\<close>

definition sample_cycle :: dockerfile where
  "sample_cycle =
     \<lparr>df_Raw = [], df_Directives = [], df_Preamble = empty_base, df_Syntax = [],
      df_Stages =
       [\<lparr>st_Base = \<lparr>bs_Image = ''b'', bs_Target = ''a'', bs_Envs = [\<lparr>kv_Key = ''X'', kv_Value = ''$Y'', kv_Line = 2\<rparr>],
          bs_Args = [], bs_Instructions = [sample_from 1 ''b'' ''a'', sample_env 2 ''X'' ''$Y'']\<rparr>, st_Users = []\<rparr>,
        \<lparr>st_Base = \<lparr>bs_Image = ''a'', bs_Target = ''b'', bs_Envs = [\<lparr>kv_Key = ''Y'', kv_Value = ''$X'', kv_Line = 4\<rparr>],
          bs_Args = [], bs_Instructions = [sample_from 3 ''a'' ''b'', sample_env 4 ''Y'' ''$X'']\<rparr>, st_Users = []\<rparr>],
      df_StagesByTarget = [(''a'', 0), (''b'', 1)]\<rparr>"

lemma replace_variable:
  assumes "match_at argumentExpression s = Some ([], caps)" "s \<noteq> []" "group caps 2 = []" "group caps 1 = x"
  shows "replaceVariables (Suc n) d s b env r l = find_value n d b env x [] True r l"
proof (cases s)
  case (Cons c cs)
  then have "FindStringSubmatch argumentExpression s = Some (s, caps)" using assms(1) by (simp add: matched_def)
  then show ?thesis
    using assms by (simp add: Cons replaceVariables.simps matched_def option.map_ident split: option.splits)
qed (use assms in simp)

lemma replace_plain:
  assumes "CHR ''$'' \<notin> set s"
  shows "replaceVariables (Suc n) d s b env r l = Some s"
proof -
  have "ReplaceAllFunc argumentExpression f s = Some s" if "CHR ''$'' \<notin> set s" for f s
    using that
  proof (induction s)
    case (Cons c s)
    then have "scan_reference is_word (c # s) = None" by (auto simp: scan_reference_def)
    then have "match_at argumentExpression (c # s) = None"
      using match_reference [of is_word "c # s"] is_word_brace by (simp add: argumentExpression_def)
    then show ?case using Cons by simp
  qed simp
  then show ?thesis using assms by (simp add: replaceVariables.simps)
qed

lemma cycle_variables:
  "replaceVariables (Suc n) sample_cycle ''$X'' b env r l = find_value n sample_cycle b env ''X'' [] True r l"
  "replaceVariables (Suc n) sample_cycle ''$Y'' b env r l = find_value n sample_cycle b env ''Y'' [] True r l"
proof -
  have "\<exists>caps. match_at argumentExpression ''$X'' = Some ([], caps) \<and> group caps 2 = [] \<and> group caps 1 = ''X''"
    "\<exists>caps. match_at argumentExpression ''$Y'' = Some ([], caps) \<and> group caps 2 = [] \<and> group caps 1 = ''Y''"
    by (simp_all add: argumentExpression_def reference_expression_def match_at_def Plus_def Opt_def Ch_def group_def is_word_def
        is_alnum_def is_upper_def is_digit_def is_lower_def)
  then show "replaceVariables (Suc n) sample_cycle ''$X'' b env r l = find_value n sample_cycle b env ''X'' [] True r l"
    "replaceVariables (Suc n) sample_cycle ''$Y'' b env r l = find_value n sample_cycle b env ''Y'' [] True r l"
    using replace_variable by blast+
qed

lemma cycle_facts:
  "found_arg [] x l (base_of sample_cycle (StageRef 0)) = None" "found_arg [] x l (base_of sample_cycle (StageRef 1)) = None"
  "found_env ''Y'' 2 (base_of sample_cycle (StageRef 0)) = None" "found_env ''X'' 4 (base_of sample_cycle (StageRef 1)) = None"
  "found_env ''X'' 3 (base_of sample_cycle (StageRef 0)) = Some \<lparr>kv_Key = ''X'', kv_Value = ''$Y'', kv_Line = 2\<rparr>"
  "found_env ''Y'' 5 (base_of sample_cycle (StageRef 1)) = Some \<lparr>kv_Key = ''Y'', kv_Value = ''$X'', kv_Line = 4\<rparr>"
  "bs_Image (base_of sample_cycle (StageRef 0)) = ''b''" "bs_Image (base_of sample_cycle (StageRef 1)) = ''a''"
  "stageID (base_of sample_cycle (StageRef 0)) = ''b-a''" "stageID (base_of sample_cycle (StageRef 1)) = ''a-b''"
  "last_line (base_of sample_cycle (StageRef 0)) = Some 2" "last_line (base_of sample_cycle (StageRef 1)) = Some 4"
  "first_line sample_cycle = Some 1" "map_of (df_StagesByTarget sample_cycle) = [''a'' \<mapsto> 0, ''b'' \<mapsto> 1]"
  by (auto simp: sample_cycle_def found_arg_def found_env_def stageID_def last_line_def first_line_def sample_env_def sample_from_def)

lemma cycle_step:
  "find_value (Suc (Suc (Suc n))) sample_cycle [] [] ''Y'' [] True (StageRef 0) 2 =
     find_value n sample_cycle [] [] ''X'' [] True (StageRef 1) 4"
  "find_value (Suc (Suc (Suc n))) sample_cycle [] [] ''X'' [] True (StageRef 1) 4 =
     find_value n sample_cycle [] [] ''Y'' [] True (StageRef 0) 2"
  by (simp_all add: find_value.simps(2) Let_def cycle_facts cycle_facts [unfolded One_nat_def] replace_plain cycle_variables
      del: base_of.simps)

lemma cycle_start:
  "n < 3 \<Longrightarrow> find_value n sample_cycle [] [] ''Y'' [] True (StageRef 0) 2 = None \<and>
    find_value n sample_cycle [] [] ''X'' [] True (StageRef 1) 4 = None"
proof -
  assume "n < 3"
  then consider "n = 0" | "n = Suc 0" | "n = Suc (Suc 0)" by linarith
  then show ?thesis
    by cases (simp_all add: find_value.simps Let_def cycle_facts cycle_facts [unfolded One_nat_def] replace_plain
        replaceVariables.simps(1) del: base_of.simps)
qed

lemma cycle_diverges:
  "find_value n sample_cycle [] [] ''Y'' [] True (StageRef 0) 2 = None \<and>
   find_value n sample_cycle [] [] ''X'' [] True (StageRef 1) 4 = None"
proof (induction n rule: less_induct)
  case (less n)
  show ?case
  proof (cases "n < 3")
    case False
    then obtain k where "n = Suc (Suc (Suc k))" by (intro that [of "n - 3"]) simp
    then show ?thesis using less [of k] by (simp add: cycle_step [unfolded One_nat_def])
  qed (rule cycle_start)
qed

lemma sample_cycle_parsed:
  "parsed [sample_from 1 ''b'' ''a'', sample_env 2 ''X'' ''$Y'', sample_from 3 ''a'' ''b'', sample_env 4 ''Y'' ''$X''] = sample_cycle"
  by code_simp

lemma sample_cycle_never_returns: "replaceVariables n sample_cycle ''$Y'' [] [] (StageRef 0) 2 = None"
  using cycle_diverges by (cases n) (simp_all add: cycle_variables replaceVariables.simps(1))

section \<open>Base images\<close>

text \<open>The stage that a stage is built on.\<close>

definition built_on :: "nat \<Rightarrow> dockerfile \<Rightarrow> string gomap \<Rightarrow> (nat \<times> nat) set" where
  "built_on n d b = {(i, j). i < length (df_Stages d) \<and>
     (\<exists>img. stage_image n d b [] i = Some img \<and> map_of (df_StagesByTarget d) img = Some j)}"

lemma base_image_loop_result:
  assumes "stages_ok m d"
  shows "base_image_loop n k d b visited i = Some r \<Longrightarrow> r \<noteq> [] \<Longrightarrow> i < length (df_Stages d) \<Longrightarrow>
    \<exists>j. (i, j) \<in> (built_on n d b)\<^sup>* \<and> stage_image n d b [] j = Some r \<and> map_of (df_StagesByTarget d) r = None"
proof (induction k arbitrary: visited i)
  case (Suc k)
  obtain img where img: "stage_image n d b [] i = Some img" "i \<notin> set visited"
    using Suc.prems(1,2) by (auto split: option.splits if_splits)
  show ?case
  proof (cases "map_of (df_StagesByTarget d) img")
    case None
    then show ?thesis using Suc.prems img by auto
  next
    case (Some j)
    then have "(i, j) \<in> built_on n d b" using img Suc.prems(3) by (auto simp: built_on_def)
    moreover have "base_image_loop n k d b (i # visited) j = Some r" using Suc.prems(1) img Some by simp
    ultimately show ?thesis
      using Suc.IH [of "i # visited" j] Suc.prems(2) stages_okD(3) [OF assms Some]
      by (meson converse_rtrancl_into_rtrancl)
  qed
qed simp

lemma base_image_loop_returns:
  assumes "stages_ok m d" "2 * m \<le> n"
  shows "distinct visited \<Longrightarrow> set visited \<subseteq> {..<length (df_Stages d)} \<Longrightarrow> i < length (df_Stages d) \<Longrightarrow>
    length (df_Stages d) < k + length visited \<Longrightarrow> base_image_loop n k d b visited i \<noteq> None"
proof (induction k arbitrary: visited i)
  case 0
  then have "length visited \<le> length (df_Stages d)" by (metis card_lessThan card_mono distinct_card finite_lessThan)
  with 0 show ?case by simp
next
  case (Suc k)
  obtain img where img: "stage_image n d b [] i = Some img" using stage_image_depth [OF assms] by blast
  show ?case
  proof (cases "i \<in> set visited \<or> map_of (df_StagesByTarget d) img = None")
    case True
    then show ?thesis using img by auto
  next
    case False
    then obtain j where j: "map_of (df_StagesByTarget d) img = Some j" "i \<notin> set visited" by blast
    then have "base_image_loop n k d b (i # visited) j \<noteq> None"
      using Suc.prems stages_okD(3) [OF assms(1)] by (intro Suc.IH) auto
    then show ?thesis using j img by simp
  qed
qed

lemma base_image_loop_back:
  assumes ok: "stages_ok m d" "2 * m \<le> n" "refers_back m d b []"
  shows "i < length (df_Stages d) \<Longrightarrow> \<forall>v \<in> set visited. i < v \<Longrightarrow> base_image_loop n k d b visited i = Some r \<Longrightarrow>
    \<exists>j. (i, j) \<in> (built_on n d b)\<^sup>* \<and> stage_image n d b [] j = Some r \<and> map_of (df_StagesByTarget d) r = None"
proof (induction k arbitrary: visited i)
  case (Suc k)
  obtain img where img: "stage_image n d b [] i = Some img" using stage_image_depth [OF ok(1,2)] by blast
  have i: "i \<notin> set visited" using Suc.prems(2) by auto
  show ?case
  proof (cases "map_of (df_StagesByTarget d) img")
    case None
    then show ?thesis using Suc.prems img i by auto
  next
    case (Some j)
    then have on: "(i, j) \<in> built_on n d b" using img Suc.prems(1) by (auto simp: built_on_def)
    have lt: "j < i" by (rule refers_backD [OF ok(3,1,2) Suc.prems(1) img Some])
    have "base_image_loop n k d b (i # visited) j = Some r" using Suc.prems(3) img Some i by simp
    moreover have "j < length (df_Stages d)" "\<forall>v \<in> set (i # visited). j < v" using lt Suc.prems(1,2) by auto
    ultimately show ?thesis using Suc.IH [of j "i # visited"] on by (meson converse_rtrancl_into_rtrancl)
  qed
qed simp



end
