(* ===== verification/Dockerfile_Parse.thy ===== *)
theory Dockerfile_Parse
  imports Dockerfile_Properties
begin

text \<open>
  What the parser of Dockerfiles builds, and that printing it gives the instructions back.
\<close>

section \<open>The structure of a parsed Dockerfile\<close>

abbreviation instructions :: "stage \<Rightarrow> dnode list" where
  "instructions s \<equiv> bs_Instructions (st_Base s)"

abbreviation is_from :: "dnode \<Rightarrow> bool" where
  "is_from \<equiv> is_instruction ''from''"

definition stage_shape :: "stage \<Rightarrow> bool" where
  "stage_shape s \<longleftrightarrow> (\<exists>x xs. instructions s = x # xs \<and> is_from x \<and> list_all (\<lambda>y. \<not> is_from y) xs \<and>
     bs_Target (st_Base s) = bs_Target (st_Base (parseStage x)) \<and> bs_Image (st_Base s) = bs_Image (st_Base (parseStage x))) \<and>
     (\<forall>u \<in> set (st_Users s). \<exists>y \<in> set (instructions s). kv_Line u = nd_StartLine y)"

definition file_shape :: "dnode list \<Rightarrow> base_stage \<times> stage list \<Rightarrow> bool" where
  "file_shape nodes ps \<longleftrightarrow>
     bs_Instructions (fst ps) @ concat (map instructions (snd ps)) = nodes \<and>
     list_all (\<lambda>y. \<not> is_from y) (bs_Instructions (fst ps)) \<and> list_all stage_shape (snd ps)"

lemma add_instruction_parts:
  assumes "add_instruction x s = Inr s'"
  shows "bs_Instructions s' = bs_Instructions s @ [x]" "bs_Target s' = bs_Target s" "bs_Image s' = bs_Image s"
  using assms by (auto simp: add_instruction_def Let_def map_sum_def split: if_splits sum.splits)

lemma add_to_stage_shape:
  assumes "add_to_stage x s = Inr s'" "stage_shape s" "\<not> is_from x"
  shows "stage_shape s'" "instructions s' = instructions s @ [x]"
proof -
  obtain b where b: "add_instruction x (st_Base s) = Inr b" "st_Base s' = b"
    and u: "st_Users s' = st_Users s \<or> (\<exists>u. parseUser x = Inr u \<and> st_Users s' = st_Users s @ [u])"
    using assms(1) by (auto simp: add_to_stage_def map_sum_def split: sum.splits if_splits)
  have "kv_Line u = nd_StartLine x" if "parseUser x = Inr u" for u
    using that by (auto simp: parseUser_def split: option.splits)
  then show "stage_shape s'" "instructions s' = instructions s @ [x]"
    using u assms(2,3) add_instruction_parts [OF b(1)] b(2) unfolding stage_shape_def by auto
qed

lemma add_node_shape:
  assumes "add_node_to x ps = Inr ps'" "file_shape nodes ps"
  shows "file_shape (nodes @ [x]) ps'"
proof -
  obtain p ss where ps: "ps = (p, ss)" by (cases ps)
  consider "is_from x" "ps' = (p, ss @ [parseStage x])"
    | p' where "\<not> is_from x" "ss = []" "add_instruction x p = Inr p'" "ps' = (p', [])"
    | s where "\<not> is_from x" "ss \<noteq> []" "add_to_stage x (last ss) = Inr s" "ps' = (p, butlast ss @ [s])"
    using assms(1) by (auto simp: add_node_to_def ps map_sum_def split: if_splits sum.splits)
  then show ?thesis
  proof cases
    case 1
    then have "stage_shape (parseStage x)" "instructions (parseStage x) = [x]"
      by (auto simp: stage_shape_def parseStage_def Let_def)
    then show ?thesis using 1 assms(2) by (auto simp: file_shape_def ps)
  next
    case 2
    then show ?thesis using assms(2) add_instruction_parts(1) [OF 2(3)] by (auto simp: file_shape_def ps)
  next
    case 3
    obtain s0 ts where ss: "ss = ts @ [s0]" using 3(2) by (metis append_butlast_last_id)
    then have "stage_shape s0" using assms(2) by (auto simp: file_shape_def ps)
    from add_to_stage_shape [OF _ this 3(1), of s] 3 show ?thesis
      using assms(2) by (auto simp: file_shape_def ps ss)
  qed
qed

lemma add_nodes_shape: "add_nodes xs ps = Inr ps' \<Longrightarrow> file_shape nodes ps \<Longrightarrow> file_shape (nodes @ xs) ps'"
proof (induction xs ps arbitrary: nodes rule: add_nodes.induct)
  case (2 x xs ps)
  then show ?case using add_node_shape [of x ps] by (fastforce split: sum.splits)
qed simp

text \<open>The index of the last stage with a name.\<close>

definition last_named :: "string \<Rightarrow> stage list \<Rightarrow> nat option" where
  "last_named t ss = (if t = [] then None else last_index t (map (\<lambda>s. bs_Target (st_Base s)) ss))"

lemma map_of_stage_targets:
  "map_of (stage_targets i ss m) t = (case last_named t ss of Some k \<Rightarrow> Some (i + k) | None \<Rightarrow> map_of m t)"
proof (induction ss arbitrary: i m)
  case (Cons s ss)
  show ?case
    by (cases "last_index t (map (\<lambda>s. bs_Target (st_Base s)) ss)") (auto simp: Cons last_named_def update_conv' simp del: last_index_None)
qed (simp add: last_named_def)

lemma Join_append: "xs \<noteq> [] \<Longrightarrow> ys \<noteq> [] \<Longrightarrow> Join (xs @ ys) sep = Join xs sep @ sep @ Join ys sep"
proof (induction xs)
  case (Cons x xs)
  then show ?case by (cases xs; cases ys) auto
qed simp

lemma DumpAll_append:
  "xs \<noteq> [] \<Longrightarrow> ys \<noteq> [] \<Longrightarrow> DumpAll (xs @ ys) = DumpAll xs @ [CHR 0x0A] @ DumpAll ys"
  unfolding DumpAll_def by (simp add: Join_append)

lemma DumpAll_empty: "list_all (\<lambda>x. DumpNode x \<noteq> []) xs \<Longrightarrow> DumpAll xs = [] \<longleftrightarrow> xs = []"
  by (cases xs) (auto simp: DumpAll_def)

lemma DumpAll_concat:
  "list_all (list_all (\<lambda>x. DumpNode x \<noteq> [])) xss \<Longrightarrow>
    Join (filter (\<lambda>s. s \<noteq> []) (map DumpAll xss)) [CHR 0x0A] = DumpAll (concat xss)"
proof (induction xss)
  case (Cons xs xss)
  then have IH: "Join (filter (\<lambda>s. s \<noteq> []) (map DumpAll xss)) [CHR 0x0A] = DumpAll (concat xss)"
    and e: "DumpAll xs = [] \<longleftrightarrow> xs = []" "DumpAll (concat xss) = [] \<longleftrightarrow> concat xss = []"
    using DumpAll_empty [of xs] DumpAll_empty [of "concat xss"] by (auto simp: list_all_iff)
  let ?f = "filter (\<lambda>s. s \<noteq> []) (map DumpAll xss)"
  show ?case
  proof (cases "xs = [] \<or> concat xss = []")
    case True
    have nil: "DumpAll [] = []" by (simp add: DumpAll_def)
    have "?f = []" if "concat xss = []" using that nil by (auto simp: filter_empty_conv)
    then show ?thesis using True IH e nil by (auto simp del: concat_eq_Nil_conv concat.simps simp: concat.simps(2))
  next
    case False
    then have "?f \<noteq> []" using IH e by (metis DumpAll_def Join.simps(1))
    then have "Join (DumpAll xs # ?f) [CHR 0x0A] = DumpAll xs @ [CHR 0x0A] @ Join ?f [CHR 0x0A]" by (cases ?f) auto
    then show ?thesis using False IH e DumpAll_append [of xs "concat xss"] by simp
  qed
qed (simp add: DumpAll_def)



end
