(* ===== verification/Features.thy ===== *)
theory Features
  imports Devcontainer_Merge Resolver Ids
begin

text \<open>
  Features of dev containers: \<^verbatim>\<open>pkg/devcontainer/feature/extend.go\<close> (the order of installation, the
  layers of the Dockerfile and the users), \<^verbatim>\<open>options.go\<close> (the variables of a feature) and the install
  script of \<^verbatim>\<open>features.go\<close>.  The normalisation of feature references (a registry library) is an
  argument, and so is the order in which a map is visited.  Downloading and unpacking features is
  left out.
\<close>

section \<open>Order of installation\<close>

type_synonym feature_graph = "feature_set option graph"

definition feature_lookup :: "feature_set list \<Rightarrow> feature_set gomap" where
  "feature_lookup features = fold (\<lambda>f m. AList.update (fs_ConfigID f) f m) features []"

fun insert_installs_after ::
    "feature_set gomap \<Rightarrow> string \<Rightarrow> string list \<Rightarrow> feature_graph \<Rightarrow> graph_error + feature_graph" where
  "insert_installs_after lookup i [] g = Inr g"
| "insert_installs_after lookup i (installAfter # rest) g =
     (case map_of lookup installAfter of
        None \<Rightarrow> insert_installs_after lookup i rest g
      | Some f \<Rightarrow>
          (case InsertNodeAt i installAfter (Some f) g of
             Inl e \<Rightarrow> Inl e
           | Inr (g', _) \<Rightarrow> insert_installs_after lookup i rest g'))"

fun insert_features :: "feature_set gomap \<Rightarrow> feature_set list \<Rightarrow> feature_graph \<Rightarrow> graph_error + feature_graph" where
  "insert_features lookup [] g = Inr g"
| "insert_features lookup (f # fs) g =
     (case InsertNodeAt ''root'' (fs_ConfigID f) (Some f) g of
        Inl e \<Rightarrow> Inl e
      | Inr (g1, _) \<Rightarrow>
          (case insert_installs_after lookup (fs_ConfigID f) (fc_InstallsAfter (fs_Config f)) g1 of
             Inl e \<Rightarrow> Inl e
           | Inr g2 \<Rightarrow> insert_features lookup fs g2))"

text \<open>The loop that removes leaf after leaf; an element \<open>None\<close> of the result is a nil pointer.\<close>

fun order_loop :: "nat \<Rightarrow> feature_graph \<Rightarrow> feature_set option list \<Rightarrow> (graph_error + feature_set option list) option" where
  "order_loop 0 g ordered = None"
| "order_loop (Suc n) g ordered =
     (case GetNextLeaf (leaf_fuel g) g (Root g) of
        None \<Rightarrow> None
      | Some leaf \<Rightarrow>
          if leaf = Root g then Some (Inr ordered)
          else (case RemoveNode leaf g of
                  Inl e \<Rightarrow> Some (Inl e)
                | Inr g' \<Rightarrow> order_loop n g' (ordered @ [Option.bind (map_option Data (node_at g leaf)) (\<lambda>x. x)])))"

definition computeAutomaticFeatureOrder :: "feature_set list \<Rightarrow> (graph_error + feature_set option list) option" where
  "computeAutomaticFeatureOrder features =
     (case insert_features (feature_lookup features) features (NewGraph (NewNode ''root'' None)) of
        Inl e \<Rightarrow> Some (Inl e)
      | Inr g \<Rightarrow> order_loop (leaf_fuel g) g [])"

fun override_order :: "string list \<Rightarrow> feature_set list \<Rightarrow> feature_set list \<Rightarrow> feature_set list" where
  "override_order [] orderedFeatures automaticOrder = orderedFeatures @ automaticOrder"
| "override_order (featureID # rest) orderedFeatures automaticOrder =
     override_order rest (orderedFeatures @ filter (\<lambda>f. fs_ConfigID f = featureID) automaticOrder)
       (filter (\<lambda>f. fs_ConfigID f \<noteq> featureID) automaticOrder)"

definition computeFeatureOrder ::
    "(string \<Rightarrow> string) \<Rightarrow> devcontainer \<Rightarrow> feature_set list \<Rightarrow> feature_set option list result option" where
  "computeFeatureOrder NormalizeFeatureID devContainer features =
     (case computeAutomaticFeatureOrder features of
        None \<Rightarrow> None
      | Some (Inl e) \<Rightarrow> Some (Inl (graph_err e))
      | Some (Inr automaticOrder) \<Rightarrow>
          let override = cb_OverrideFeatureInstallOrder (dc_Base devContainer) in
          if override = [] then Some (Inr automaticOrder)
          else (case all_some automaticOrder of
                  None \<Rightarrow> Some (Inl (Panic ''nil pointer dereference''))
                | Some xs \<Rightarrow> Some (Inr (map Some (override_order (map NormalizeFeatureID override) [] xs)))))"

section \<open>Variables of a feature\<close>

definition featureSafeIDRegex1 :: re where "featureSafeIDRegex1 = Cls (\<lambda>c. \<not> is_word c)"
definition featureSafeIDRegex2 :: re where "featureSafeIDRegex2 = Plus (Cls (\<lambda>c. is_digit c \<or> c = CHR ''_''))"

definition getFeatureSafeID :: "string \<Rightarrow> string" where
  "getFeatureSafeID featureID =
     (let s = ReplaceAllString featureSafeIDRegex1 featureID ''_'' in
      ToUpper (case match_at featureSafeIDRegex2 s of None \<Rightarrow> s | Some (rest, _) \<Rightarrow> ''_'' @ rest))"

definition getFeatureDefaults :: "feature_config \<Rightarrow> json gomap" where
  "getFeatureDefaults feature = map (\<lambda>(k, v). (k, JStr (fo_Default v))) (fc_Options feature)"

definition getFeatureValueObject :: "feature_config \<Rightarrow> json \<Rightarrow> json gomap" where
  "getFeatureValueObject feature featureOptions =
     (let defaults = getFeatureDefaults feature in
      case featureOptions of
        JObj t \<Rightarrow> copy_into defaults t
      | JStr t \<Rightarrow> (if map_of (fc_Options feature) ''version'' = None then defaults
                   else AList.update ''version'' (JStr t) defaults)
      | _ \<Rightarrow> defaults)"

text \<open>The format \<open>%v\<close> of a decoded value.  A number is printed as \<open>%g\<close> prints it, in the shortest form,
  with an exponent below \<open>1e-4\<close> and from \<open>1e21\<close> on.\<close>

fun strip_zeros :: "nat \<Rightarrow> int \<Rightarrow> nat \<times> int" where
  "strip_zeros m e = (if m \<noteq> 0 \<and> m mod 10 = 0 then strip_zeros (m div 10) (e + 1) else (m, e))"

declare strip_zeros.simps [simp del]

definition format_abs :: "nat \<Rightarrow> int \<Rightarrow> string" where
  "format_abs m0 e0 =
     (if m0 = 0 then ''0''
      else let (m, e) = strip_zeros m0 e0; ds = nat_digits m; x = int (length ds) - 1 + e in
        if x < -4 \<or> 21 \<le> x then
          [hd ds] @ (if tl ds = [] then [] else ''.'' @ tl ds) @ ''e'' @ (if x < 0 then ''-'' else ''+'') @
          (if \<bar>x\<bar> < 10 then ''0'' else []) @ nat_digits (nat \<bar>x\<bar>)
        else if 0 \<le> e then ds @ replicate (nat e) CHR ''0''
        else if x < 0 then ''0.'' @ replicate (nat (- x - 1)) CHR ''0'' @ ds
        else take (nat (x + 1)) ds @ ''.'' @ drop (nat (x + 1)) ds)"

definition format_num :: "int \<Rightarrow> int \<Rightarrow> string" where
  "format_num m e = (if m < 0 then ''-'' else []) @ format_abs (nat \<bar>m\<bar>) e"

fun format_v :: "json \<Rightarrow> string" where
  "format_v JNull = ''<nil>''"
| "format_v (JBool b) = FormatBool b"
| "format_v (JNum m e) = format_num m e"
| "format_v (JStr s) = s"
| "format_v (JArr xs) = ''['' @ Join (map format_v xs) '' '' @ '']''"
| "format_v (JObj kvs) = ''map['' @ Join (map snd (sort_key fst (map (\<lambda>(k, v). (k, k @ '':'' @ format_v v)) kvs))) '' '' @ '']''"

definition getFeatureEnvVariables :: "(string list \<Rightarrow> string list) \<Rightarrow> feature_config \<Rightarrow> json \<Rightarrow> string list" where
  "getFeatureEnvVariables ord feature featureOptions =
     (let options = getFeatureValueObject feature featureOptions in
      sort (map (\<lambda>k. getFeatureSafeID k @ ''='' @ [CHR 0x22] @ format_v (the (map_of options k)) @ [CHR 0x22]) (ord (keys options))))"

section \<open>Scripts and layers\<close>

definition nl :: string where "nl = [CHR 0x0A]"

definition single_quote :: string where "single_quote = [CHR 0x27]"

definition escapeQuotesForShell :: "string \<Rightarrow> string" where
  "escapeQuotesForShell str = ReplaceAllChar CHR 0x27 (single_quote @ [CHR 0x5C] @ single_quote @ single_quote) str"

definition in_quotes :: "string \<Rightarrow> string" where
  "in_quotes s = single_quote @ s @ single_quote"

definition rule_line :: string where
  "rule_line = ''echo ==========================================================================='' @ nl"

text \<open>The header for deprecated features and the hint at the documentation contain references
  \<open>${...}\<close> of another language, which are not replaced.\<close>

definition warning_header :: "feature_config \<Rightarrow> string" where
  "warning_header feature =
     (if fc_Deprecated feature
      then ''(!) WARNING: Using the deprecated Feature '' @ [CHR 0x22] @ ''${escapeQuotesForShell(feature.id)}'' @ [CHR 0x22] @
           ''. This Feature will no longer receive any further updates/support.'' @ [CHR 0x5C] @ ''n''
      else [])"

definition getFeatureInstallWrapperScript :: "string \<Rightarrow> feature_config \<Rightarrow> string list \<Rightarrow> string" where
  "getFeatureInstallWrapperScript idWithoutVersion feature options =
     (let i = escapeQuotesForShell idWithoutVersion;
          name = escapeQuotesForShell (fc_Name feature);
          description = escapeQuotesForShell (fc_Description feature);
          version = escapeQuotesForShell (fc_Version feature);
          documentation = escapeQuotesForShell (fc_DocumentationURL feature);
          optionsIndented = escapeQuotesForShell (''    '' @ Join options (nl @ ''    ''));
          echoWarning = (if warning_header feature \<noteq> [] then ''echo '' @ in_quotes (warning_header feature) else []);
          errorMessage = ''ERROR: Feature '' @ [CHR 0x22] @ name @ [CHR 0x22] @ '' ('' @ i @ '') failed to install!'';
          troubleshootingMessage =
            (if documentation \<noteq> []
             then '' Look at the documentation at ${documentation} for help troubleshooting this error.'' else []) in
      ''#!/bin/sh'' @ nl @
      ''set -e'' @ nl @ nl @
      ''on_exit () {'' @ nl @
      [CHR 0x09] @ ''[ $? -eq 0 ] && exit'' @ nl @
      [CHR 0x09] @ ''echo '' @ in_quotes (errorMessage @ troubleshootingMessage) @ nl @
      ''}'' @ nl @ nl @
      ''trap on_exit EXIT'' @ nl @ nl @
      ''set -a'' @ nl @
      ''. ../devcontainer-features.builtin.env'' @ nl @
      ''. ./devcontainer-features.env'' @ nl @
      ''set +a'' @ nl @ nl @
      rule_line @
      echoWarning @ nl @
      ''echo '' @ in_quotes (''Feature       : '' @ name) @ nl @
      ''echo '' @ in_quotes (''Description   : '' @ description) @ nl @
      ''echo '' @ in_quotes (''Id            : '' @ i) @ nl @
      ''echo '' @ in_quotes (''Version       : '' @ version) @ nl @
      ''echo '' @ in_quotes (''Documentation : '' @ documentation) @ nl @
      ''echo '' @ in_quotes ''Options       :'' @ nl @
      ''echo '' @ in_quotes optionsIndented @ nl @
      ''echo '' @ in_quotes ''Environment   :'' @ nl @
      ''printenv'' @ nl @
      rule_line @ nl @
      ''chmod +x ./install.sh'' @ nl @
      ''./install.sh'' @ nl)"

definition generateContainerEnvs :: "(string list \<Rightarrow> string list) \<Rightarrow> feature_set \<Rightarrow> string" where
  "generateContainerEnvs ord feature =
     (let env = fc_ContainerEnv (fs_Config feature) in
      if env = [] then [] else Join (map (\<lambda>k. ''ENV '' @ k @ ''='' @ the (map_of env k)) (ord (keys env))) nl)"

definition getFeatureLayers :: "(string list \<Rightarrow> string list) \<Rightarrow> string \<Rightarrow> string \<Rightarrow> feature_set list \<Rightarrow> string" where
  "getFeatureLayers ord containerUser remoteUser features =
     (let builtin = '' | cut -d: -f6)'' @ [CHR 0x22] @ '' >> /tmp/build-features/devcontainer-features.builtin.env'' in
      ''RUN '' @ [CHR 0x5C] @ nl @
      ''echo '' @ [CHR 0x22] @ ''_CONTAINER_USER_HOME=$(getent passwd '' @ containerUser @ builtin @ '' && '' @ [CHR 0x5C] @ nl @
      ''echo '' @ [CHR 0x22] @ ''_REMOTE_USER_HOME=$(getent passwd '' @ remoteUser @ builtin @ nl @ nl @
      concat (map (\<lambda>(i, feature).
        generateContainerEnvs ord feature @ nl @
        ''RUN cd /tmp/build-features/'' @ nat_digits i @ '' '' @ [CHR 0x5C] @ nl @
        ''&& chmod +x ./devcontainer-features-install.sh '' @ [CHR 0x5C] @ nl @
        ''&& ./devcontainer-features-install.sh'' @ nl @ nl) (enumerate 0 features)))"

definition first_nonempty :: "string list \<Rightarrow> string" where
  "first_nonempty xs = (case find (\<lambda>s. s \<noteq> []) xs of None \<Rightarrow> [] | Some s \<Rightarrow> s)"

definition findContainerUsers :: "image_metadata_config \<Rightarrow> string \<Rightarrow> string \<Rightarrow> string \<times> string" where
  "findContainerUsers baseImageMetadata composeServiceUser imageUser =
     (let reversed = ReverseSlice (imc_Config baseImageMetadata);
          pick = (\<lambda>user. first_nonempty (map user reversed @ [composeServiceUser, imageUser])) in
      (pick (\<lambda>m. nc_ContainerUser (im_NonCompose m)), pick (\<lambda>m. cb_RemoteUser (im_Base m))))"

end
