(* ===== verification/Feature_Properties.thy ===== *)
theory Feature_Properties
  imports Features Graph_Properties
begin

text \<open>
  The properties of features: the order in which they are installed, and the quoting of texts and
  the names of variables in the install script.
\<close>

section \<open>Order of installation\<close>

definition installs_after :: "feature_set gomap \<Rightarrow> string \<Rightarrow> string list \<Rightarrow> (string \<times> string) set" where
  "installs_after lookup i as = {(i, a) |a. a \<in> set as \<and> map_of lookup a \<noteq> None}"

text \<open>The edges of the graph of features: from the root to every feature, and from a feature to the
  features that it is to be installed after.\<close>

definition feature_edges :: "feature_set list \<Rightarrow> (string \<times> string) set" where
  "feature_edges features =
     (\<Union>f \<in> set features. insert (''root'', fs_ConfigID f)
        {(fs_ConfigID f, a) |a. a \<in> set (fc_InstallsAfter (fs_Config f)) \<and> a \<in> fs_ConfigID ` set features})"

definition node_data :: "feature_set gomap \<Rightarrow> feature_graph \<Rightarrow> bool" where
  "node_data lookup g \<longleftrightarrow> Root g = ''root'' \<and>
     (\<forall>k \<in> graph_nodes g. k \<noteq> Root g \<longrightarrow> map_option fst (contents g k) = map_option Some (map_of lookup k) \<and> map_of lookup k \<noteq> None)"

lemma InsertNodeAt_Inl:
  assumes wf: "graph_wf g" and p: "p \<in> graph_nodes g" and "InsertNodeAt p i d g = Inl e"
  shows "(i, p) \<in> (edges g)\<^sup>*"
proof -
  obtain n m where n: "node_at g p = Some n" "node_at g i = Some m" and "AddEdge (node_ID n) (node_ID m) g = Inl e"
    using assms by (auto simp: InsertNodeAt_def graph_nodes_iff split: option.splits sum.splits)
  with AddEdge_Inl [OF wf] graph_wfD(2) [OF wf] show ?thesis by (metis graph_nodes_iff option.distinct(1))
qed

lemma InsertNodeAt_data:
  assumes wf: "graph_wf g" and eq: "InsertNodeAt p i (Some f) g = Inr (g', j)"
    and data: "node_data lookup g" "map_of lookup i = Some f"
  shows "node_data lookup g'"
  using InsertNodeAt_Inr [OF wf eq] data unfolding node_data_def by (auto simp: split: if_splits)

lemma back_edge_cycle: "(b, a) \<in> E\<^sup>* \<Longrightarrow> insert (a, b) E \<subseteq> F \<Longrightarrow> \<not> acyclic F"
proof
  assume "(b, a) \<in> E\<^sup>*" "insert (a, b) E \<subseteq> F" "acyclic F"
  then have "(b, a) \<in> F\<^sup>*" "(a, b) \<in> F" by (auto intro: rtrancl_mono [THEN subsetD, of E F])
  then show False using \<open>acyclic F\<close> by (meson acyclic_def rtrancl_into_trancl2)
qed

lemma insert_installs_after_spec:
  assumes "graph_wf g" "i \<in> graph_nodes g" "node_data lookup g" "edges g \<union> installs_after lookup i as \<subseteq> F"
  shows "case insert_installs_after lookup i as g of
      Inl e \<Rightarrow> \<not> acyclic F
    | Inr g' \<Rightarrow> graph_wf g' \<and> graph_nodes g \<subseteq> graph_nodes g' \<and> node_data lookup g' \<and>
        edges g' = edges g \<union> installs_after lookup i as"
  using assms
proof (induction lookup i as g rule: insert_installs_after.induct)
  case (1 lookup i g)
  then show ?case by (simp add: installs_after_def)
next
  case (2 lookup i a as g)
  show ?case
  proof (cases "map_of lookup a")
    case None
    then have "installs_after lookup i (a # as) = installs_after lookup i as" by (auto simp: installs_after_def)
    then show ?thesis using 2 None by (simp cong: sum.case_cong)
  next
    case (Some f)
    then have E: "installs_after lookup i (a # as) = insert (i, a) (installs_after lookup i as)" by (auto simp: installs_after_def)
    show ?thesis
    proof (cases "InsertNodeAt i a (Some f) g")
      case (Inl e)
      then have "\<not> acyclic F"
        using InsertNodeAt_Inl [OF "2.prems"(1,2) Inl] "2.prems"(4) E by (intro back_edge_cycle [of a i "edges g"]) auto
      then show ?thesis using Some Inl by simp
    next
      case (Inr r)
      obtain g1 j where r: "InsertNodeAt i a (Some f) g = Inr (g1, j)" using Inr by (cases r) simp
      note ins = InsertNodeAt_Inr [OF "2.prems"(1) r]
      have "case insert_installs_after lookup i as g1 of
          Inl e \<Rightarrow> \<not> acyclic F
        | Inr g' \<Rightarrow> graph_wf g' \<and> graph_nodes g1 \<subseteq> graph_nodes g' \<and> node_data lookup g' \<and>
            edges g' = edges g1 \<union> installs_after lookup i as"
        using "2.prems" ins InsertNodeAt_data [OF "2.prems"(1) r "2.prems"(3) Some] E
        by (intro "2.IH"(2) [OF Some r refl]) auto
      then show ?thesis using Some r ins E by (auto split: sum.splits)
    qed
  qed
qed

lemma insert_features_spec:
  assumes "graph_wf g" "node_data lookup g" "\<And>f. f \<in> set fs \<Longrightarrow> map_of lookup (fs_ConfigID f) = Some f"
    and "edges g \<union> (\<Union>f \<in> set fs. insert (''root'', fs_ConfigID f) (installs_after lookup (fs_ConfigID f) (fc_InstallsAfter (fs_Config f)))) \<subseteq> F"
  shows "case insert_features lookup fs g of
      Inl e \<Rightarrow> \<not> acyclic F
    | Inr g' \<Rightarrow> graph_wf g' \<and> node_data lookup g' \<and>
        edges g' = edges g \<union> (\<Union>f \<in> set fs. insert (''root'', fs_ConfigID f) (installs_after lookup (fs_ConfigID f) (fc_InstallsAfter (fs_Config f))))"
  using assms
proof (induction lookup fs g rule: insert_features.induct)
  case (2 lookup f fs g)
  let ?i = "fs_ConfigID f" and ?as = "fc_InstallsAfter (fs_Config f)"
  have root: "''root'' \<in> graph_nodes g" using graph_wfD(3) [OF "2.prems"(1)] "2.prems"(2) by (simp add: node_data_def)
  show ?case
  proof (cases "InsertNodeAt ''root'' ?i (Some f) g")
    case (Inl e)
    then have "\<not> acyclic F"
      using InsertNodeAt_Inl [OF "2.prems"(1) root Inl] "2.prems"(4) by (intro back_edge_cycle [of ?i "''root''" "edges g"]) auto
    then show ?thesis using Inl by simp
  next
    case (Inr r)
    obtain g1 j where r: "InsertNodeAt ''root'' ?i (Some f) g = Inr (g1, j)" using Inr by (cases r) simp
    note ins = InsertNodeAt_Inr [OF "2.prems"(1) r]
    have data: "node_data lookup g1"
      using InsertNodeAt_data [OF "2.prems"(1) r "2.prems"(2)] "2.prems"(3) by simp
    have after: "case insert_installs_after lookup ?i ?as g1 of
        Inl e \<Rightarrow> \<not> acyclic F
      | Inr g' \<Rightarrow> graph_wf g' \<and> graph_nodes g1 \<subseteq> graph_nodes g' \<and> node_data lookup g' \<and>
          edges g' = edges g1 \<union> installs_after lookup ?i ?as"
      using ins data "2.prems"(4) by (intro insert_installs_after_spec) auto
    show ?thesis
    proof (cases "insert_installs_after lookup ?i ?as g1")
      case (Inl e)
      then show ?thesis using r after by simp
    next
      case (Inr g2)
      with after have g2: "graph_wf g2" "node_data lookup g2" "edges g2 = insert (''root'', ?i) (edges g) \<union> installs_after lookup ?i ?as"
        using ins(2) by auto
      have "case insert_features lookup fs g2 of
          Inl e \<Rightarrow> \<not> acyclic F
        | Inr g' \<Rightarrow> graph_wf g' \<and> node_data lookup g' \<and>
            edges g' = edges g2 \<union> (\<Union>f \<in> set fs. insert (''root'', fs_ConfigID f) (installs_after lookup (fs_ConfigID f) (fc_InstallsAfter (fs_Config f))))"
        using "2.prems" g2 by (intro "2.IH" [OF r refl Inr]) auto
      then show ?thesis using r Inr g2 by (auto split: sum.splits)
    qed
  qed
qed simp

text \<open>The loop over the leaves collects the data of the nodes in the order of the library's lemma.\<close>

lemma order_loop_empties:
  assumes "graph_leaves.empties g ls" "graph_wf g" "length ls < n"
  shows "order_loop n g acc = Some (Inr (acc @ map (\<lambda>l. Option.bind (map_option fst (contents g l)) (\<lambda>x. x)) ls))"
  using assms
proof (induction arbitrary: n acc rule: graph_leaves.empties.induct)
  case (stop g)
  then show ?case by (cases n) (simp_all add: next_leaf_of_def)
next
  case (take g l g' ls)
  obtain k where n: "n = Suc k" using take.prems by (cases n) auto
  obtain leaf: "l \<in> graph_nodes g" "childs g l = []"
    using next_leaf_of_spec [OF take.prems(1)] take.hyps(1) by (metis edges_iff last_in_set option.inject)
  note rem = RemoveNode_Inr [OF take.prems(1) leaf take.hyps(2,3)]
  have "set ls \<subseteq> graph_nodes g'" using graph_leaves.empties_order [OF take.hyps(4) rem(1)] by blast
  then have "contents g' x = contents g x" if "x \<in> set ls" for x using that rem(3,6) by auto
  then have "map (\<lambda>l. Option.bind (map_option fst (contents g' l)) (\<lambda>x. x)) ls =
      map (\<lambda>l. Option.bind (map_option fst (contents g l)) (\<lambda>x. x)) ls"
    by (intro map_cong) simp_all
  moreover have "Option.bind (map_option Data (node_at g l)) (\<lambda>x. x) = Option.bind (map_option fst (contents g l)) (\<lambda>x. x)"
    by (simp add: contents_def option.map_comp comp_def)
  ultimately show ?case
    using take.IH [OF rem(1), of k] take.prems(2) take.hyps(1-3) by (simp add: n next_leaf_of_def)
qed

lemma map_of_feature_lookup:
  "distinct (map fs_ConfigID fs) \<Longrightarrow> map_of (feature_lookup fs) i = Some f \<longleftrightarrow> f \<in> set fs \<and> fs_ConfigID f = i"
proof -
  assume d: "distinct (map fs_ConfigID fs)"
  have "map_of (fold (\<lambda>f m. AList.update (fs_ConfigID f) f m) fs m) i =
      (case find (\<lambda>f. fs_ConfigID f = i) (rev fs) of Some f \<Rightarrow> Some f | None \<Rightarrow> map_of m i)" for m
    by (induction fs rule: rev_induct) (simp_all add: update_conv')
  then have "map_of (feature_lookup fs) i = find (\<lambda>f. fs_ConfigID f = i) (rev fs)"
    by (simp add: feature_lookup_def split: option.splits)
  moreover have "find (\<lambda>f. fs_ConfigID f = i) (rev fs) = Some f \<longleftrightarrow> f \<in> set fs \<and> fs_ConfigID f = i"
  proof
    assume f: "f \<in> set fs \<and> fs_ConfigID f = i"
    then obtain f' where f': "find (\<lambda>f. fs_ConfigID f = i) (rev fs) = Some f'"
      by (metis (mono_tags, lifting) find_None_iff not_None_eq set_rev)
    then have "f' \<in> set fs" "fs_ConfigID f' = i" by (auto simp: find_Some_iff) (metis nth_mem length_rev set_rev)
    with f d have "f' = f" by (metis distinct_map inj_on_def)
    with f' show "find (\<lambda>f. fs_ConfigID f = i) (rev fs) = Some f" by simp
  next
    assume "find (\<lambda>f. fs_ConfigID f = i) (rev fs) = Some f"
    then show "f \<in> set fs \<and> fs_ConfigID f = i" by (auto simp: find_Some_iff) (metis nth_mem length_rev set_rev)
  qed
  ultimately show ?thesis by simp
qed

lemma new_graph:
  "graph_wf (NewGraph (NewNode r None))" "edges (NewGraph (NewNode r None)) = {}"
  "graph_nodes (NewGraph (NewNode r None)) = {r}" "Root (NewGraph (NewNode r None)) = r"
proof -
  have g: "NewGraph (NewNode r None) = NewGraphOf (NewNode r None) []" by (simp add: NewGraph_def NewGraphOf_def)
  show "graph_wf (NewGraph (NewNode r None))" unfolding g by (rule graph_wf_NewGraph)
  show "edges (NewGraph (NewNode r None)) = {}" "graph_nodes (NewGraph (NewNode r None)) = {r}" "Root (NewGraph (NewNode r None)) = r"
    by (auto simp: NewGraph_def NewNode_def edges_def childs_def node_at_def graph_nodes_def split: if_splits)
qed

lemma feature_edges_lookup:
  assumes "distinct (map fs_ConfigID fs)"
  shows "(\<Union>f \<in> set fs. insert (''root'', fs_ConfigID f)
    (installs_after (feature_lookup fs) (fs_ConfigID f) (fc_InstallsAfter (fs_Config f)))) = feature_edges fs"
proof -
  have "map_of (feature_lookup fs) a \<noteq> None \<longleftrightarrow> a \<in> fs_ConfigID ` set fs" for a
    using map_of_feature_lookup [OF assms] by (metis (no_types, lifting) image_iff not_None_eq)
  then show ?thesis unfolding feature_edges_def installs_after_def by simp
qed

lemma below_feature_root:
  assumes "edges g = feature_edges fs" "Root g = ''root''"
  shows "below g (Root g) = fs_ConfigID ` set fs"
proof
  have "b \<in> fs_ConfigID ` set fs" if "(a, b) \<in> feature_edges fs" for a b
    using that by (auto simp: feature_edges_def)
  then show "below g (Root g) \<subseteq> fs_ConfigID ` set fs"
    using assms by (auto simp: below_def simp del: edges_iff elim: tranclE)
  show "fs_ConfigID ` set fs \<subseteq> below g (Root g)"
    using assms by (auto simp: below_def feature_edges_def simp del: edges_iff)
qed

lemma feature_leaves:
  assumes d: "distinct (map fs_ConfigID fs)"
    and g: "graph_wf g" "node_data (feature_lookup fs) g" "edges g = feature_edges fs"
  shows "\<exists>ls. order_loop (leaf_fuel g) g [] = Some (Inr (map (\<lambda>i. map_of (feature_lookup fs) i) ls)) \<and>
    distinct ls \<and> set ls = fs_ConfigID ` set fs \<and> successors_first (feature_edges fs) ls"
proof -
  obtain ls where ls: "graph_leaves.empties g ls" "length ls \<le> card (graph_nodes g)"
    using graph_leaves.empties_exists [OF g(1)] by blast
  have root: "Root g = ''root''" using g(2) by (simp add: node_data_def)
  have ord: "distinct ls" "set ls = fs_ConfigID ` set fs" "successors_first (feature_edges fs) ls" "set ls \<subseteq> graph_nodes g"
    using graph_leaves.empties_order [OF ls(1) g(1)] below_feature_root [OF g(3) root] g(3) by (auto simp: below_def)
  have "Root g \<notin> set ls"
    using graph_wfD(8) [OF g(1)] graph_leaves.empties_order [OF ls(1) g(1)] by (auto simp: acyclic_def)
  have "Option.bind (map_option fst (contents g i)) (\<lambda>x. x) = map_of (feature_lookup fs) i" if i: "i \<in> set ls" for i
  proof -
    have "i \<in> graph_nodes g" "i \<noteq> Root g" using i ord(4) \<open>Root g \<notin> set ls\<close> by auto
    then have "map_option fst (contents g i) = map_option Some (map_of (feature_lookup fs) i)"
      "map_of (feature_lookup fs) i \<noteq> None"
      using g(2) unfolding node_data_def by blast+
    then show ?thesis by auto
  qed
  then have "order_loop (leaf_fuel g) g [] = Some (Inr (map (\<lambda>i. map_of (feature_lookup fs) i) ls))"
    using order_loop_empties [OF ls(1) g(1), of "leaf_fuel g" "[]"] ls(2) card_graph_nodes [of g] by (simp add: leaf_fuel_def)
  with ord show ?thesis by blast
qed

lemma feature_order_of_ids:
  assumes d: "distinct (map fs_ConfigID fs)"
    and ls: "distinct ls" "set ls = fs_ConfigID ` set fs" "successors_first (feature_edges fs) ls"
  shows "\<exists>ordered. map (\<lambda>i. map_of (feature_lookup fs) i) ls = map Some ordered \<and> distinct ordered \<and> set ordered = set fs \<and>
    (\<forall>pre f post. ordered = pre @ f # post \<longrightarrow>
      (\<forall>a \<in> set (fc_InstallsAfter (fs_Config f)). a \<in> fs_ConfigID ` set fs \<longrightarrow> a \<in> fs_ConfigID ` set pre))"
proof -
  define feat where "feat i = the (map_of (feature_lookup fs) i)" for i
  have lookup: "map_of (feature_lookup fs) (fs_ConfigID f) = Some f" if "f \<in> set fs" for f
    using that map_of_feature_lookup [OF d] by blast
  then have feat: "map_of (feature_lookup fs) i = Some (feat i)" "feat i \<in> set fs" "fs_ConfigID (feat i) = i" if "i \<in> set ls" for i
    using that by (auto simp: feat_def ls(2))
  have "map (\<lambda>i. map_of (feature_lookup fs) i) ls = map Some (map feat ls)" using feat(1) by simp
  moreover have "distinct (map feat ls)" using ls(1) feat(3) by (auto simp: distinct_map intro: inj_on_inverseI)
  moreover have "set (map feat ls) = set fs"
  proof
    show "set (map feat ls) \<subseteq> set fs" using feat(2) by auto
    have "f = feat (fs_ConfigID f)" if "f \<in> set fs" for f using lookup [OF that] by (simp add: feat_def)
    then show "set fs \<subseteq> set (map feat ls)" using ls(2) by fastforce
  qed
  moreover have "a \<in> fs_ConfigID ` set pre"
    if split: "map feat ls = pre @ f # post" and a: "a \<in> set (fc_InstallsAfter (fs_Config f))" "a \<in> fs_ConfigID ` set fs"
    for pre f post a
  proof -
    obtain p i q where i: "ls = p @ i # q" "map feat p = pre" "feat i = f"
      using split by (auto simp: map_eq_append_conv map_eq_Cons_conv)
    have "f \<in> set fs" "fs_ConfigID f = i" using feat [of i] i by auto
    then have "(i, a) \<in> feature_edges fs" using a unfolding feature_edges_def by blast
    then have "a \<in> set p" using ls(3) i(1) unfolding successors_first_def by blast
    moreover have "fs_ConfigID (feat a) = a" using feat(3) [of a] calculation i(1) by auto
    ultimately show ?thesis using i(2) by force
  qed
  ultimately show ?thesis by blast
qed

text \<open>C23: The order of installation: when the features have different identifiers and no one is, over any
  number of steps, to be installed after itself, the order has every feature once, and each comes
  after all the given features that it names in its list of features to be installed after.
  Otherwise it is an error, and the computation always ends.\<close>

theorem computeAutomaticFeatureOrder_correct:
  assumes d: "distinct (map fs_ConfigID features)"
  shows "if acyclic (feature_edges features)
    then \<exists>ordered. computeAutomaticFeatureOrder features = Some (Inr (map Some ordered)) \<and>
      distinct ordered \<and> set ordered = set features \<and>
      (\<forall>pre f post. ordered = pre @ f # post \<longrightarrow>
        (\<forall>a \<in> set (fc_InstallsAfter (fs_Config f)). a \<in> fs_ConfigID ` set features \<longrightarrow> a \<in> fs_ConfigID ` set pre))
    else \<exists>e. computeAutomaticFeatureOrder features = Some (Inl e)"
proof -
  let ?g0 = "NewGraph (NewNode ''root'' (None :: feature_set option))" and ?l = "feature_lookup features"
  have lookup: "map_of ?l (fs_ConfigID f) = Some f" if "f \<in> set features" for f
    using that map_of_feature_lookup [OF d] by blast
  have "node_data ?l ?g0" by (simp add: node_data_def new_graph)
  then have spec: "case insert_features ?l features ?g0 of
      Inl e \<Rightarrow> \<not> acyclic (feature_edges features)
    | Inr g' \<Rightarrow> graph_wf g' \<and> node_data ?l g' \<and> edges g' = feature_edges features"
    using insert_features_spec [OF new_graph(1), of ?l "''root''" features "feature_edges features"] lookup
    by (simp add: new_graph feature_edges_lookup [OF d] cong: sum.case_cong)
  show ?thesis
  proof (cases "insert_features ?l features ?g0")
    case (Inl e)
    then show ?thesis using spec by (simp add: computeAutomaticFeatureOrder_def)
  next
    case (Inr g)
    then have g: "graph_wf g" "node_data ?l g" "edges g = feature_edges features" using spec by auto
    have acyc: "acyclic (feature_edges features)" using graph_wfD(8) [OF g(1)] g(3) by simp
    obtain ls where ls: "order_loop (leaf_fuel g) g [] = Some (Inr (map (\<lambda>i. map_of ?l i) ls))"
      "distinct ls" "set ls = fs_ConfigID ` set features" "successors_first (feature_edges features) ls"
      using feature_leaves [OF d g] by blast
    have "computeAutomaticFeatureOrder features = Some (Inr (map (\<lambda>i. map_of ?l i) ls))"
      using Inr ls(1) by (simp add: computeAutomaticFeatureOrder_def)
    with feature_order_of_ids [OF d ls(2-4)] show ?thesis unfolding if_P [OF acyc] by metis
  qed
qed

text \<open>A sample: three features, the first after the second and the second after the third.\<close>

definition sample_feature :: "string \<Rightarrow> string list \<Rightarrow> feature_set" where
  "sample_feature i as = \<lparr>fs_ConfigID = i, fs_Folder = [], fs_Config =
     \<lparr>fc_ID = i, fc_Name = [], fc_Version = [], fc_Description = [], fc_Entrypoint = [], fc_Deprecated = False, fc_LegacyIds = [],
      fc_Options = [], fc_DocumentationURL = [], fc_LicenseURL = [], fc_CapAdd = [], fc_Init = None, fc_Privileged = None,
      fc_SecurityOpt = [], fc_Mounts = [], fc_InstallsAfter = as, fc_ContainerEnv = [], fc_Customizations = [], fc_Origin = []\<rparr>,
     fs_Options = JNull\<rparr>"

definition sample_features :: "feature_set list" where
  "sample_features = [sample_feature ''a'' [''b'', ''x''], sample_feature ''b'' [''c''], sample_feature ''c'' []]"

theorem computeAutomaticFeatureOrder_correct_witness:
  "\<exists>e. computeAutomaticFeatureOrder [sample_feature ''a'' [''b''], sample_feature ''b'' [''a'']] = Some (Inl e)"
proof -
  let ?fs = "[sample_feature ''a'' [''b''], sample_feature ''b'' [''a'']]"
  have d: "distinct (map fs_ConfigID ?fs)" by (simp add: sample_feature_def)
  have "(''a'', ''b'') \<in> feature_edges ?fs" "(''b'', ''a'') \<in> feature_edges ?fs" by (auto simp: feature_edges_def sample_feature_def)
  then have "\<not> acyclic (feature_edges ?fs)" by (meson acyclic_def r_into_trancl trancl_into_trancl)
  with computeAutomaticFeatureOrder_correct [OF d] show ?thesis by simp
qed

lemma sample_order:
  "map_option (map_sum id (map (map_option fs_ConfigID))) (computeAutomaticFeatureOrder sample_features) =
    Some (Inr [Some ''c'', Some ''b'', Some ''a''])"
  by code_simp

section \<open>Overrides\<close>

fun first_occurrences :: "'a list \<Rightarrow> 'a list" where
  "first_occurrences [] = []"
| "first_occurrences (x # xs) = x # filter (\<lambda>y. y \<noteq> x) (first_occurrences xs)"

lemma concat_filter_out:
  "concat (map (\<lambda>j. if j = i then [] else f j) xs) = concat (map f (filter (\<lambda>j. j \<noteq> i) xs))"
  by (induction xs) auto

lemma override_order_parts:
  "override_order ids acc fs = acc @ concat (map (\<lambda>i. filter (\<lambda>f. fs_ConfigID f = i) fs) (first_occurrences ids)) @
     filter (\<lambda>f. fs_ConfigID f \<notin> set ids) fs"
proof (induction ids arbitrary: acc fs)
  case (Cons i ids)
  have "filter (\<lambda>f. fs_ConfigID f = j) (filter (\<lambda>f. fs_ConfigID f \<noteq> i) fs) =
      (if j = i then [] else filter (\<lambda>f. fs_ConfigID f = j) fs)" for j
    by (auto simp: filter_empty_conv intro: filter_cong)
  then have "concat (map (\<lambda>j. filter (\<lambda>f. fs_ConfigID f = j) (filter (\<lambda>f. fs_ConfigID f \<noteq> i) fs)) (first_occurrences ids)) =
      concat (map (\<lambda>j. filter (\<lambda>f. fs_ConfigID f = j) fs) (filter (\<lambda>j. j \<noteq> i) (first_occurrences ids)))"
    by (simp add: concat_filter_out)
  moreover have "filter (\<lambda>f. fs_ConfigID f \<notin> set ids) (filter (\<lambda>f. fs_ConfigID f \<noteq> i) fs) =
      filter (\<lambda>f. fs_ConfigID f \<notin> set (i # ids)) fs"
    unfolding filter_filter by (rule filter_cong) auto
  ultimately show ?case unfolding override_order.simps Cons by simp
qed simp

lemma all_some_Somes: "all_some (map Some xs) = Some xs"
  by (induction xs) auto

text \<open>C24: When \<^verbatim>\<open>devcontainer.json\<close> overrides the order of installation, the features it names come first,
  in its order (an entry counts once, entries for other features are ignored), and the others follow
  in the automatic order; no feature is lost or repeated.  Without an override the order is the
  automatic one.\<close>

theorem computeFeatureOrder_override:
  assumes "computeAutomaticFeatureOrder features = Some (Inr (map Some auto))"
  shows "let ids = map norm_id (cb_OverrideFeatureInstallOrder (dc_Base devContainer));
      ord = concat (map (\<lambda>i. filter (\<lambda>f. fs_ConfigID f = i) auto) (first_occurrences ids)) @
        filter (\<lambda>f. fs_ConfigID f \<notin> set ids) auto in
    computeFeatureOrder norm_id devContainer features = Some (Inr (map Some ord)) \<and>
    set ord = set auto \<and> (distinct auto \<longrightarrow> distinct ord)"
proof -
  let ?ids = "map norm_id (cb_OverrideFeatureInstallOrder (dc_Base devContainer))"
  let ?first = "concat (map (\<lambda>i. filter (\<lambda>f. fs_ConfigID f = i) auto) (first_occurrences ?ids))"
  let ?order = "?first @ filter (\<lambda>f. fs_ConfigID f \<notin> set ?ids) auto"
  have fo: "set (first_occurrences xs) = set xs" "distinct (first_occurrences xs)" for xs :: "string list"
    by (induction xs) auto
  have "override_order ?ids [] auto = ?order" by (simp only: override_order_parts append_Nil)
  then have run: "computeFeatureOrder norm_id devContainer features = Some (Inr (map Some ?order))"
    by (simp add: computeFeatureOrder_def assms all_some_Somes Let_def)
  have "set ?order = set auto" using fo by auto
  moreover have "distinct ?order" if "distinct auto"
  proof -
    have "distinct (concat (map (\<lambda>i. filter (\<lambda>f. fs_ConfigID f = i) auto) xs))" if "distinct xs" for xs
      using that \<open>distinct auto\<close> by (induction xs) auto
    then show ?thesis using that fo by (auto simp: fo(1))
  qed
  ultimately show ?thesis using run unfolding Let_def by blast
qed

theorem computeFeatureOrder_override_witness:
  "\<exists>fs. computeFeatureOrder (\<lambda>i. i) (zero_devcontainer\<lparr>dc_Base := zero_base\<lparr>cb_OverrideFeatureInstallOrder := [''a'', ''y'', ''a'']\<rparr>\<rparr>)
     sample_features = Some (Inr (map Some fs)) \<and> map fs_ConfigID fs = [''a'', ''c'', ''b'']"
proof -
  let ?auto = "[sample_feature ''c'' [], sample_feature ''b'' [''c''], sample_feature ''a'' [''b'', ''x'']]"
  have "computeAutomaticFeatureOrder sample_features = Some (Inr (map Some ?auto))" by code_simp
  from computeFeatureOrder_override [OF this, of "\<lambda>i. i"
      "zero_devcontainer\<lparr>dc_Base := zero_base\<lparr>cb_OverrideFeatureInstallOrder := [''a'', ''y'', ''a'']\<rparr>\<rparr>"]
  show ?thesis
    by (intro exI [of _ "[sample_feature ''a'' [''b'', ''x''], sample_feature ''c'' [], sample_feature ''b'' [''c'']]"])
      (simp add: sample_feature_def Let_def)
qed

section \<open>Quoting\<close>

text \<open>How a shell reads a word: the text in single quotes stands for itself, a backslash outside of
  quotes takes the next character literally, and a blank or a newline ends the word.  Other
  characters with a meaning outside of quotes are not covered.\<close>

definition is_plain_char :: "char \<Rightarrow> bool" where
  "is_plain_char c \<longleftrightarrow> is_alnum c \<or> c \<in> set ''-_./:=,+@%''"

fun shell_word :: "bool \<Rightarrow> string \<Rightarrow> (string \<times> string) option" where
  "shell_word True [] = None"
| "shell_word True (c # cs) =
     (if c = CHR 0x27 then shell_word False cs else map_option (apfst ((#) c)) (shell_word True cs))"
| "shell_word False [] = Some ([], [])"
| "shell_word False (c # cs) =
     (if c = CHR 0x27 then shell_word True cs
      else if c = CHR 0x5C then (case cs of [] \<Rightarrow> None | d # ds \<Rightarrow> map_option (apfst ((#) d)) (shell_word False ds))
      else if c = CHR '' '' \<or> c = CHR 0x09 \<or> c = CHR 0x0A then Some ([], c # cs)
      else if is_plain_char c then map_option (apfst ((#) c)) (shell_word False cs)
      else None)"

lemma map_apfst_append:
  "map_option (apfst ((#) c)) (map_option (apfst ((@) p)) r) = map_option (apfst (\<lambda>a. c # p @ a)) r"
  "map_option (apfst ((@) [])) r = r" "map_option (apfst (\<lambda>a. a)) r = r"
  "(@) (c # p) = (\<lambda>a. c # p @ a)"
  by (cases r; auto)+

lemma shell_word_plain:
  "CHR 0x27 \<notin> set p \<Longrightarrow> shell_word True (p @ s) = map_option (apfst ((@) p)) (shell_word True s)"
  by (induction p) (auto simp: map_apfst_append)

lemma shell_word_escaped:
  "shell_word True (escapeQuotesForShell s @ t) = map_option (apfst ((@) s)) (shell_word True t)"
proof (induction s)
  case Nil
  then show ?case by (simp add: escapeQuotesForShell_def ReplaceAllChar_def map_apfst_append)
next
  case (Cons c s)
  have "escapeQuotesForShell (c # s) @ t =
      (if c = CHR 0x27 then [CHR 0x27, CHR 0x5C, CHR 0x27, CHR 0x27] else [c]) @ escapeQuotesForShell s @ t"
    by (simp add: escapeQuotesForShell_def ReplaceAllChar_def single_quote_def)
  then show ?case
    using Cons by (simp add: map_apfst_append)
qed

text \<open>C25: A text that is escaped and put into single quotes, behind any label without a quote, is read by a
  shell as one word, the label and the text; nothing in the text ends the quotes.  Every text of a
  feature is printed in this way by the install script.\<close>

theorem escapeQuotesForShell_word:
  assumes "CHR 0x27 \<notin> set label"
  shows "shell_word False (in_quotes (label @ escapeQuotesForShell s) @ nl @ rest) = Some (label @ s, nl @ rest)"
proof -
  have "shell_word False (in_quotes (label @ escapeQuotesForShell s) @ nl @ rest) =
      shell_word True (label @ escapeQuotesForShell s @ CHR 0x27 # nl @ rest)"
    by (simp add: in_quotes_def single_quote_def)
  also have "\<dots> = Some (label @ s, nl @ rest)"
    by (simp add: shell_word_plain [OF assms] shell_word_escaped nl_def)
  finally show ?thesis .
qed

theorem escapeQuotesForShell_word_witness:
  "shell_word False (in_quotes (''Feature       : '' @ escapeQuotesForShell (''it'' @ [CHR 0x27] @ ''s; rm -rf /'')) @ nl @ ''printenv'') =
    Some (''Feature       : it'' @ [CHR 0x27] @ ''s; rm -rf /'', nl @ ''printenv'')"
  using escapeQuotesForShell_word [of "''Feature       : ''" "''it'' @ [CHR 0x27] @ ''s; rm -rf /''" "''printenv''"] by simp

end
