(* ===== verification/Ssh_Config.thy ===== *)
theory Ssh_Config
  imports Workspace_Store Options_Resolve
begin

text \<open>
  The user's SSH configuration file: \<^verbatim>\<open>pkg/ssh/config.go\<close>, with the scanners for lines that it uses
  (Go's \<open>bufio.Scanner\<close> and \<^verbatim>\<open>log/scanner\<close>) and \<open>UserHomeDir\<close> of \<^verbatim>\<open>pkg/util/homedir.go\<close>.  The working
  directory, the result of \<open>os.Executable\<close> and that of \<open>os.UserHomeDir\<close> are arguments, as are the
  outcomes of the commands that look for the home directory.  The lemmas refine the operations on
  lines to operations on documents of foreign lines and sections.
\<close>

section \<open>Lines\<close>

definition newline :: char where "newline = CHR 0x0A"
definition carriage_return :: char where "carriage_return = CHR 0x0D"

text \<open>The pieces of a text that end with a newline or with the text.\<close>

definition raw_lines :: "string \<Rightarrow> string list" where
  "raw_lines s = (let ls = Split newline s in if last ls = [] then butlast ls else ls)"

text \<open>A scanner delivers the lines up to the first one that does not fit into its buffer together with
  its newline, and whether it ended without an error.\<close>

definition scan_tokens :: "nat \<Rightarrow> string list \<Rightarrow> string list \<times> bool" where
  "scan_tokens room ls = (takeWhile (\<lambda>l. length l < room) ls, list_all (\<lambda>l. length l < room) ls)"

definition drop_cr :: "string \<Rightarrow> string" where
  "drop_cr l = (if l \<noteq> [] \<and> last l = carriage_return then butlast l else l)"

definition bufio_lines :: "string \<Rightarrow> string list \<times> bool" where
  "bufio_lines s = (let (ls, ok) = scan_tokens 65536 (raw_lines s) in (map drop_cr ls, ok))"

definition log_lines :: "string \<Rightarrow> string list \<times> bool" where
  "log_lines s = scan_tokens 1048576 (raw_lines s)"

section \<open>The home directory\<close>

definition quoted :: "string \<Rightarrow> string" where
  "quoted s = [CHR 0x22] @ s @ [CHR 0x22]"

datatype command_result = NotFoundCommand string | FailedCommand string | CommandOutput string

definition UserHomeDir :: "string \<Rightarrow> (string \<Rightarrow> string) \<Rightarrow> string \<Rightarrow> (string list \<Rightarrow> command_result) \<Rightarrow> string \<Rightarrow> string result" where
  "UserHomeDir goos env osHome run uid =
     (let home = env (if goos = ''plan9'' then ''home'' else ''HOME'');
          shell = (case run [''sh'', ''-c'', ''cd && pwd''] of
                     CommandOutput out \<Rightarrow>
                       if TrimSpace out = [] then Inl (Err ''blank output when reading home directory'')
                       else Inr (TrimSpace out)
                   | NotFoundCommand e \<Rightarrow> Inl (Err e)
                   | FailedCommand e \<Rightarrow> Inl (Err e)) in
      if home \<noteq> [] then Inr home
      else if osHome \<noteq> [] then Inr osHome
      else if goos = ''windows'' then
        (if env ''HOMEDRIVE'' = [] \<or> env ''HOMEPATH'' = []
         then Inl (Err ''HOMEDRIVE, HOMEPATH, or USERPROFILE are blank'')
         else Inr (env ''HOMEDRIVE'' @ env ''HOMEPATH''))
      else if goos = ''darwin'' then
        (case run [''sh'', ''-c'', ''dscl -q . -read /Users/'' @ quoted ''$(whoami)'' @ '' NFSHomeDirectory | sed '' @
                       [CHR 0x27] @ ''s/^[^ ]*: //'' @ [CHR 0x27]] of
           CommandOutput out \<Rightarrow> if TrimSpace out \<noteq> [] then Inr (TrimSpace out) else shell
         | _ \<Rightarrow> shell)
      else
        (case run [''getent'', ''passwd'', uid] of
           NotFoundCommand e \<Rightarrow> Inl (Err e)
         | FailedCommand _ \<Rightarrow> shell
         | CommandOutput out \<Rightarrow>
             let parts = Split CHR '':'' (TrimSpace out) in
             if TrimSpace out \<noteq> [] \<and> length parts > 5 then Inr (parts ! 5) else shell))"

section \<open>The configuration file\<close>

definition MarkerStartPrefix :: string where "MarkerStartPrefix = ''# DevPod Start ''"
definition MarkerEndPrefix :: string where "MarkerEndPrefix = ''# DevPod End ''"

definition filepath_Abs :: "string \<Rightarrow> string \<Rightarrow> string" where
  "filepath_Abs cwd p = (if HasPrefix p ''/'' then Clean p else path_Join [cwd, p])"

definition ResolveSSHConfigPath :: "string result \<Rightarrow> string \<Rightarrow> string \<Rightarrow> string result" where
  "ResolveSSHConfigPath home cwd sshConfigPath =
     (case home of
        Inl e \<Rightarrow> Inl (wrap ''get home dir'' e)
      | Inr homeDir \<Rightarrow>
          if sshConfigPath = [] then Inr (path_Join [homeDir, ''.ssh'', ''config''])
          else if HasPrefix sshConfigPath ''~/'' then Inr (filepath_Abs cwd (homeDir @ tl sshConfigPath))
          else Inr (filepath_Abs cwd sshConfigPath))"

text \<open>The loop of \<open>transformHostSection\<close>; the transformation may update a state.\<close>

fun transform_lines ::
    "('s \<Rightarrow> string \<Rightarrow> string \<times> 's) \<Rightarrow> string \<Rightarrow> bool \<Rightarrow> 's \<Rightarrow> string list \<Rightarrow> string list \<times> 's" where
  "transform_lines f host inSection s [] = ([], s)"
| "transform_lines f host inSection s (x # xs) =
     (if HasPrefix x (MarkerStartPrefix @ host) then transform_lines f host True s xs
      else if HasPrefix x (MarkerEndPrefix @ host) then transform_lines f host False s xs
      else if \<not> inSection then
        (let (ls, s') = transform_lines f host inSection s xs in (x # ls, s'))
      else
        (let (t, s1) = f s x; (ls, s') = transform_lines f host inSection s1 xs in
         (if t \<noteq> [] then t # ls else ls, s')))"

text \<open>A line that is too long ends the scanner with an error; what is wrapped then is the error of
  opening the file, which is nil: the result is the empty text and no error.\<close>

definition transformHostSection ::
    "('s \<Rightarrow> string \<Rightarrow> string \<times> 's) \<Rightarrow> string \<Rightarrow> string \<Rightarrow> 's \<Rightarrow> disk \<Rightarrow> string result \<times> 's" where
  "transformHostSection f path host s d =
     (case (if is_not_exist d path then Inr [] else ReadFile d path) of
        Inl e \<Rightarrow> (Inl e, s)
      | Inr text \<Rightarrow>
          (let (lines, ok) = log_lines text; (newLines, s') = transform_lines f host False s lines in
           if \<not> ok then (Inr [], s')
           else (Inr (Join (if newLines \<noteq> [] \<and> hd newLines = [] then tl newLines else newLines) [newline]), s')))"

definition removeFromConfig :: "string \<Rightarrow> string \<Rightarrow> disk \<Rightarrow> string result" where
  "removeFromConfig path host d = fst (transformHostSection (\<lambda>s l. ([], s)) path host () d)"

definition user_line :: "string \<Rightarrow> string \<Rightarrow> string" where
  "user_line user line =
     (let splitted = Split CHR '' '' (ToLower (TrimSpace line)) in
      if length splitted = 2 \<and> splitted ! 0 = ''user'' then Trim (splitted ! 1) [CHR 0x22] else user)"

definition ssh_GetUser :: "string result \<Rightarrow> string \<Rightarrow> string \<Rightarrow> string \<Rightarrow> disk \<Rightarrow> string result" where
  "ssh_GetUser home cwd workspaceID sshConfigPath d =
     (case ResolveSSHConfigPath home cwd sshConfigPath of
        Inl e \<Rightarrow> Inl (wrap ''Invalid ssh config path'' e)
      | Inr path \<Rightarrow>
          (case transformHostSection (\<lambda>user l. (l, user_line user l)) path (workspaceID @ ''.devpod'') ''root'' d of
             (Inl e, _) \<Rightarrow> Inl e
           | (Inr _, user) \<Rightarrow> Inr user))"

definition writeSSHConfig :: "string \<Rightarrow> string \<Rightarrow> disk \<Rightarrow> unit result \<times> disk" where
  "writeSSHConfig path content d =
     (let d1 = (case MkdirAll (path_Dir path) d of Inl _ \<Rightarrow> d | Inr d1 \<Rightarrow> d1) in
      case WriteFile path content d1 of
        Inl e \<Rightarrow> (Inl (wrap ''write ssh config'' e), d1)
      | Inr d2 \<Rightarrow> (Inr (), d2))"

definition RemoveFromConfig :: "string \<Rightarrow> string \<Rightarrow> disk \<Rightarrow> unit result \<times> disk" where
  "RemoveFromConfig workspaceID sshConfigPath d =
     (case removeFromConfig sshConfigPath (workspaceID @ ''.devpod'') d of
        Inl e \<Rightarrow> (Inl (wrap ''parse ssh config'' e), d)
      | Inr newFile \<Rightarrow> writeSSHConfig sshConfigPath newFile d)"

text \<open>The section of a host.\<close>

definition proxy_command ::
    "string \<Rightarrow> string \<Rightarrow> string \<Rightarrow> string \<Rightarrow> string \<Rightarrow> string \<Rightarrow> bool \<Rightarrow> string \<Rightarrow> string" where
  "proxy_command execPath user context workspace workdir command gpgagent devPodHome =
     (if command \<noteq> [] then ''  ProxyCommand '' @ quoted command
      else ''  ProxyCommand '' @ quoted execPath @ '' ssh --stdio --context '' @ context @ '' --user '' @ user @ '' '' @ workspace) @
     (if devPodHome \<noteq> [] then '' --devpod-home '' @ quoted devPodHome else []) @
     (if workdir \<noteq> [] then '' --workdir '' @ quoted workdir else []) @
     (if gpgagent then '' --gpg-agent-forwarding'' else [])"

definition host_body ::
    "string \<Rightarrow> string \<Rightarrow> string \<Rightarrow> string \<Rightarrow> string \<Rightarrow> string \<Rightarrow> string \<Rightarrow> bool \<Rightarrow> string \<Rightarrow> string list" where
  "host_body execPath host user context workspace workdir command gpgagent devPodHome =
     [''Host '' @ host, ''  ForwardAgent yes'', ''  LogLevel error'', ''  StrictHostKeyChecking no'',
      ''  UserKnownHostsFile /dev/null'', ''  HostKeyAlgorithms rsa-sha2-256,rsa-sha2-512,ssh-rsa'',
      proxy_command execPath user context workspace workdir command gpgagent devPodHome,
      ''  User '' @ user]"

text \<open>The line in front of which the section goes: the first host, or the comments right above it.\<close>

fun host_position :: "nat \<Rightarrow> bool \<Rightarrow> nat \<Rightarrow> string list \<Rightarrow> nat" where
  "host_position lineNumber found commentLines [] = lineNumber"
| "host_position lineNumber found commentLines (line # ls) =
     (let isHost = HasPrefix (TrimSpace line) ''Host'';
          n = (if isHost \<and> \<not> found then lineNumber - commentLines else lineNumber);
          found' = (found \<or> isHost);
          c = (if HasPrefix (TrimSpace line) ''#'' then Suc commentLines else 0) in
      host_position (if found' then n else Suc n) found' c ls)"

definition addHostSection ::
    "string \<Rightarrow> string \<Rightarrow> string \<Rightarrow> string \<Rightarrow> string \<Rightarrow> string \<Rightarrow> string \<Rightarrow> string \<Rightarrow> string \<Rightarrow> bool \<Rightarrow> string \<Rightarrow> string result" where
  "addHostSection goos config execPath host user context workspace workdir command gpgagent devPodHome =
     (let newLines = [MarkerStartPrefix @ host] @
            host_body execPath host user context workspace workdir command gpgagent devPodHome @ [MarkerEndPrefix @ host];
          (lines, ok) = bufio_lines config; n = host_position 0 False 0 lines in
      if \<not> ok then Inl (Err ''bufio.Scanner: token too long'')
      else Inr (Join (take n lines @ newLines @ drop n lines)
                 (if goos = ''windows'' then [carriage_return, newline] else [newline])))"

definition addHost ::
    "string \<Rightarrow> string result \<Rightarrow> string \<Rightarrow> string \<Rightarrow> string \<Rightarrow> string \<Rightarrow> string \<Rightarrow> string \<Rightarrow> string \<Rightarrow> bool \<Rightarrow> string \<Rightarrow> disk \<Rightarrow> string result" where
  "addHost goos executable path host user context workspace workdir command gpgagent devPodHome d =
     (case removeFromConfig path host d of
        Inl e \<Rightarrow> Inl e
      | Inr newConfig \<Rightarrow>
          (case executable of
             Inl e \<Rightarrow> Inl e
           | Inr execPath \<Rightarrow>
               addHostSection goos newConfig execPath host user context workspace workdir command gpgagent devPodHome))"

definition configureSSHConfigSameFile ::
    "string \<Rightarrow> string result \<Rightarrow> string \<Rightarrow> string \<Rightarrow> string \<Rightarrow> string \<Rightarrow> string \<Rightarrow> string \<Rightarrow> bool \<Rightarrow> string \<Rightarrow> disk \<Rightarrow> unit result \<times> disk" where
  "configureSSHConfigSameFile goos executable sshConfigPath context workspace user workdir command gpgagent devPodHome d =
     (case addHost goos executable sshConfigPath (workspace @ ''.devpod'') user context workspace workdir command gpgagent devPodHome d of
        Inl e \<Rightarrow> (Inl (wrap ''parse ssh config'' e), d)
      | Inr newFile \<Rightarrow> writeSSHConfig sshConfigPath newFile d)"

definition ConfigureSSHConfig ::
    "string \<Rightarrow> string result \<Rightarrow> string \<Rightarrow> string \<Rightarrow> string \<Rightarrow> string \<Rightarrow> string \<Rightarrow> bool \<Rightarrow> string \<Rightarrow> disk \<Rightarrow> unit result \<times> disk" where
  "ConfigureSSHConfig goos executable sshConfigPath context workspace user workdir gpgagent devPodHome d =
     configureSSHConfigSameFile goos executable sshConfigPath context workspace user workdir [] gpgagent devPodHome d"

lemma trim_with_head: "\<not> p c \<Longrightarrow> \<exists>s. trim_with p (c # cs) = c # s"
  by (auto simp: trim_with_def dropWhile_append intro: exI [of _ "rev (dropWhile p (rev cs))"])

end
