(* ===== verification/Keyed_Store.thy ===== *)
theory Keyed_Store
  imports Main
begin

text \<open>
  The contract of a store that keeps one entry per key: what reading a key gives after an entry was
  put or deleted, and that both keep the invariant of the store.  The lemmas of the locale lift the
  contract to sequences of operations.  The SSH configuration file and the files of workspaces are
  such stores.
\<close>

datatype ('k, 'v) store_op = Put 'k 'v | Del 'k

fun run_op :: "('k \<Rightarrow> 'v \<Rightarrow> 's \<Rightarrow> 's) \<Rightarrow> ('k \<Rightarrow> 's \<Rightarrow> 's) \<Rightarrow> ('k, 'v) store_op \<Rightarrow> 's \<Rightarrow> 's" where
  "run_op put del (Put k v) s = put k v s"
| "run_op put del (Del k) s = del k s"

fun op_ok :: "('k \<Rightarrow> bool) \<Rightarrow> ('k \<Rightarrow> 'v \<Rightarrow> bool) \<Rightarrow> ('k, 'v) store_op \<Rightarrow> bool" where
  "op_ok key_ok entry_ok (Put k v) \<longleftrightarrow> key_ok k \<and> entry_ok k v"
| "op_ok key_ok entry_ok (Del k) \<longleftrightarrow> key_ok k"

text \<open>What the last operation on a key leaves there.\<close>

fun last_effect :: "('v \<Rightarrow> 'r) \<Rightarrow> 'r \<Rightarrow> 'k \<Rightarrow> ('k, 'v) store_op list \<Rightarrow> 'r \<Rightarrow> 'r" where
  "last_effect view absent k [] r = r"
| "last_effect view absent k (Put k' v # ops) r = last_effect view absent k ops (if k' = k then view v else r)"
| "last_effect view absent k (Del k' # ops) r = last_effect view absent k ops (if k' = k then absent else r)"

locale keyed_store =
  fixes put :: "'k \<Rightarrow> 'v \<Rightarrow> 's \<Rightarrow> 's" and del :: "'k \<Rightarrow> 's \<Rightarrow> 's" and get :: "'k \<Rightarrow> 's \<Rightarrow> 'r"
    and view :: "'k \<Rightarrow> 'v \<Rightarrow> 'r" and absent :: 'r
    and inv :: "'s \<Rightarrow> bool" and key_ok :: "'k \<Rightarrow> bool" and entry_ok :: "'k \<Rightarrow> 'v \<Rightarrow> bool"
  assumes inv_put: "inv s \<Longrightarrow> key_ok k \<Longrightarrow> entry_ok k v \<Longrightarrow> inv (put k v s)"
    and inv_del: "inv s \<Longrightarrow> key_ok k \<Longrightarrow> inv (del k s)"
    and get_put: "inv s \<Longrightarrow> key_ok k \<Longrightarrow> entry_ok k v \<Longrightarrow> key_ok k' \<Longrightarrow>
      get k' (put k v s) = (if k' = k then view k v else get k' s)"
    and get_del: "inv s \<Longrightarrow> key_ok k \<Longrightarrow> key_ok k' \<Longrightarrow> get k' (del k s) = (if k' = k then absent else get k' s)"
begin

lemma run_inv: "inv s \<Longrightarrow> list_all (op_ok key_ok entry_ok) ops \<Longrightarrow> inv (fold (run_op put del) ops s)"
proof (induction ops arbitrary: s)
  case (Cons a ops)
  then show ?case by (cases a) (auto simp: inv_put inv_del)
qed simp

text \<open>After a sequence of operations, every key reads what the last operation on it left.\<close>

lemma run_get:
  "inv s \<Longrightarrow> list_all (op_ok key_ok entry_ok) ops \<Longrightarrow> key_ok k \<Longrightarrow>
    get k (fold (run_op put del) ops s) = last_effect (view k) absent k ops (get k s)"
proof (induction ops arbitrary: s)
  case (Cons a ops)
  show ?case
  proof (cases a)
    case (Put k' v)
    have i: "inv (put k' v s)" and g: "get k (put k' v s) = (if k = k' then view k' v else get k s)"
      using Cons.prems Put by (auto simp: inv_put get_put)
    from Cons.IH [OF i] Cons.prems Put g show ?thesis by auto
  next
    case (Del k')
    have i: "inv (del k' s)" and g: "get k (del k' s) = (if k = k' then absent else get k s)"
      using Cons.prems Del by (auto simp: inv_del get_del)
    from Cons.IH [OF i] Cons.prems Del g show ?thesis by auto
  qed
qed simp

text \<open>Operations on different keys commute, as far as reading can tell.\<close>

lemma put_put_comm:
  assumes "inv s" "key_ok a" "entry_ok a v" "key_ok b" "entry_ok b w" "a \<noteq> b" "key_ok k"
  shows "get k (put a v (put b w s)) = get k (put b w (put a v s))"
  using assms by (simp add: get_put inv_put)

end

end
