(* ===== verification/Ssh_Properties.thy ===== *)
theory Ssh_Properties
  imports Ssh_Config Keyed_Store
begin

text \<open>
  The SSH configuration file as a document of foreign lines and of one section per workspace: the
  operations of \<^verbatim>\<open>pkg/ssh/config.go\<close> on its text refine operations on the document, and the file is a
  store with the user of each workspace.
\<close>

section \<open>Documents\<close>

datatype ssh_item = Line string | Section string "string list"

definition ssh_host :: "string \<Rightarrow> string" where
  "ssh_host w = w @ ''.devpod''"

fun render_item :: "ssh_item \<Rightarrow> string list" where
  "render_item (Line l) = [l]"
| "render_item (Section w body) = [MarkerStartPrefix @ ssh_host w] @ body @ [MarkerEndPrefix @ ssh_host w]"

definition render :: "ssh_item list \<Rightarrow> string list" where
  "render doc = concat (map render_item doc)"

definition good_line :: "string \<Rightarrow> bool" where
  "good_line l \<longleftrightarrow> newline \<notin> set l \<and> carriage_return \<notin> set l \<and> length l < 65536"

definition unmarked :: "string \<Rightarrow> bool" where
  "unmarked l \<longleftrightarrow> \<not> HasPrefix l MarkerStartPrefix \<and> \<not> HasPrefix l MarkerEndPrefix"

definition is_host_line :: "string \<Rightarrow> bool" where
  "is_host_line l \<longleftrightarrow> HasPrefix (TrimSpace l) ''Host''"

definition is_comment :: "string \<Rightarrow> bool" where
  "is_comment l \<longleftrightarrow> HasPrefix (TrimSpace l) ''#''"

definition section_ok :: "string list \<Rightarrow> bool" where
  "section_ok body \<longleftrightarrow> body \<noteq> [] \<and> is_host_line (hd body) \<and> list_all (\<lambda>l. good_line l \<and> unmarked l) body"

definition workspace_key :: "string \<Rightarrow> bool" where
  "workspace_key w \<longleftrightarrow> valid_id w \<and> w \<noteq> []"

fun item_ok :: "ssh_item \<Rightarrow> bool" where
  "item_ok (Line l) \<longleftrightarrow> good_line l \<and> unmarked l"
| "item_ok (Section w body) \<longleftrightarrow> workspace_key w \<and> section_ok body"

fun section_of :: "string \<Rightarrow> ssh_item \<Rightarrow> string list" where
  "section_of w (Line l) = []"
| "section_of w (Section w' body) = (if w' = w then body else [])"

definition sections_of :: "string \<Rightarrow> ssh_item list \<Rightarrow> string list" where
  "sections_of w doc = concat (map (section_of w) doc)"

fun belongs_to :: "string \<Rightarrow> ssh_item \<Rightarrow> bool" where
  "belongs_to w (Line l) \<longleftrightarrow> False"
| "belongs_to w (Section w' body) \<longleftrightarrow> w' = w"

definition drop_first_blank :: "ssh_item list \<Rightarrow> ssh_item list" where
  "drop_first_blank doc = (if doc \<noteq> [] \<and> hd doc = Line [] then tl doc else doc)"

definition drop_last_blank :: "ssh_item list \<Rightarrow> ssh_item list" where
  "drop_last_blank doc = (if doc \<noteq> [] \<and> last doc = Line [] then butlast doc else doc)"

fun host_item :: "ssh_item \<Rightarrow> bool" where
  "host_item (Line l) \<longleftrightarrow> is_host_line l"
| "host_item (Section w body) \<longleftrightarrow> True"

fun comment_item :: "ssh_item \<Rightarrow> bool" where
  "comment_item (Line l) \<longleftrightarrow> is_comment l"
| "comment_item (Section w body) \<longleftrightarrow> False"

text \<open>The section goes in front of the first host and of the comments right above it.\<close>

definition insert_section :: "ssh_item \<Rightarrow> ssh_item list \<Rightarrow> ssh_item list" where
  "insert_section x doc =
     (let a = takeWhile (\<lambda>i. \<not> host_item i) doc; b = dropWhile (\<lambda>i. \<not> host_item i) doc in
      if b = [] then doc @ [x]
      else rev (dropWhile comment_item (rev a)) @ [x] @ rev (takeWhile comment_item (rev a)) @ b)"

definition doc_del :: "string \<Rightarrow> ssh_item list \<Rightarrow> ssh_item list" where
  "doc_del w doc = drop_last_blank (drop_first_blank (filter (\<lambda>i. \<not> belongs_to w i) doc))"

definition doc_put :: "string \<Rightarrow> string list \<Rightarrow> ssh_item list \<Rightarrow> ssh_item list" where
  "doc_put w body doc = drop_last_blank (insert_section (Section w body) (doc_del w doc))"

text \<open>The lines of the user: those outside of the sections, blank ones apart.\<close>

fun own_line :: "ssh_item \<Rightarrow> string list" where
  "own_line (Line l) = (if l = [] then [] else [l])"
| "own_line (Section w body) = []"

definition own_lines :: "ssh_item list \<Rightarrow> string list" where
  "own_lines doc = concat (map own_line doc)"

lemma render_simps [simp]: "render [] = []" "render (i # doc) = render_item i @ render doc"
  "render (a @ b) = render a @ render b"
  by (simp_all add: render_def)

lemma sections_of_simps [simp]: "sections_of w [] = []" "sections_of w (i # doc) = section_of w i @ sections_of w doc"
  "sections_of w (a @ b) = sections_of w a @ sections_of w b"
  by (simp_all add: sections_of_def)

lemma own_lines_simps [simp]: "own_lines [] = []" "own_lines (i # doc) = own_line i @ own_lines doc"
  "own_lines (a @ b) = own_lines a @ own_lines b"
  by (simp_all add: own_lines_def)

lemma split_comments: "rev (dropWhile P (rev a)) @ rev (takeWhile P (rev a)) = a"
  by (metis rev_append rev_rev_ident takeWhile_dropWhile_id)

lemma insert_section_split: "\<exists>a b. doc = a @ b \<and> insert_section x doc = a @ [x] @ b"
proof (cases "dropWhile (\<lambda>i. \<not> host_item i) doc = []")
  case False
  let ?a = "takeWhile (\<lambda>i. \<not> host_item i) doc"
  have "doc = rev (dropWhile comment_item (rev ?a)) @ rev (takeWhile comment_item (rev ?a)) @ dropWhile (\<lambda>i. \<not> host_item i) doc"
    by (metis append.assoc split_comments takeWhile_dropWhile_id)
  then show ?thesis using False by (simp add: insert_section_def Let_def) blast
next
  case True
  then have "doc = doc @ [] \<and> insert_section x doc = doc @ [x] @ []" by (simp add: insert_section_def Let_def)
  then show ?thesis by blast
qed

lemma sections_of_drops [simp]:
  "sections_of w (drop_first_blank doc) = sections_of w doc" "sections_of w (drop_last_blank doc) = sections_of w doc"
proof -
  show "sections_of w (drop_first_blank doc) = sections_of w doc" by (cases doc) (auto simp: drop_first_blank_def)
  show "sections_of w (drop_last_blank doc) = sections_of w doc"
    by (cases doc rule: rev_cases) (auto simp: drop_last_blank_def)
qed

lemma item_ok_drops: "list_all item_ok doc \<Longrightarrow> list_all item_ok (drop_first_blank doc)"
    "list_all item_ok doc \<Longrightarrow> list_all item_ok (drop_last_blank doc)"
  unfolding drop_first_blank_def drop_last_blank_def
  by (cases doc, simp, simp) (cases doc rule: rev_cases, simp, simp)

lemma sections_of_filter: "sections_of w (filter (\<lambda>i. \<not> belongs_to v i) doc) = (if w = v then [] else sections_of w doc)"
proof (induction doc)
  case (Cons i doc)
  then show ?case by (cases i) auto
qed simp

lemma doc_del_facts:
  "sections_of w (doc_del v doc) = (if w = v then [] else sections_of w doc)"
  "list_all item_ok doc \<Longrightarrow> list_all item_ok (doc_del v doc)"
  unfolding doc_del_def by (simp add: sections_of_filter) (rule item_ok_drops, rule item_ok_drops, auto simp: list_all_iff)

lemma doc_put_facts:
  "sections_of w (doc_put v body doc) = (if w = v then body else sections_of w doc)"
  "list_all item_ok doc \<Longrightarrow> workspace_key v \<Longrightarrow> section_ok body \<Longrightarrow> list_all item_ok (doc_put v body doc)"
proof -
  obtain a b where ab: "doc_del v doc = a @ b" "insert_section (Section v body) (doc_del v doc) = a @ [Section v body] @ b"
    using insert_section_split by blast
  show "sections_of w (doc_put v body doc) = (if w = v then body else sections_of w doc)"
    using doc_del_facts(1) [of w v doc] unfolding doc_put_def ab(2) by (auto simp: ab(1))
  assume "list_all item_ok doc" "workspace_key v" "section_ok body"
  then show "list_all item_ok (doc_put v body doc)"
    using doc_del_facts(2) [of doc v] unfolding doc_put_def ab(2) by (intro item_ok_drops) (simp add: ab(1))
qed

section \<open>Reading and writing the text\<close>

lemma raw_lines_Join:
  assumes "list_all (\<lambda>l. newline \<notin> set l) ls"
  shows "raw_lines (Join ls [newline]) = (if ls \<noteq> [] \<and> last ls = [] then butlast ls else ls)"
proof (cases "ls = []")
  case False
  with assms have "Split newline (Join ls [newline]) = ls" by (intro Split_Join) (auto simp: list_all_iff)
  with False show ?thesis by (simp add: raw_lines_def)
qed (simp add: raw_lines_def)

lemma scan_tokens_short: "list_all (\<lambda>l. length l < n) ls \<Longrightarrow> scan_tokens n ls = (ls, True)"
  by (auto simp: scan_tokens_def list_all_iff)

lemma scan_good:
  assumes "list_all good_line (raw_lines s)"
  shows "bufio_lines s = (raw_lines s, True)" "log_lines s = (raw_lines s, True)"
proof -
  have "map drop_cr (raw_lines s) = raw_lines s"
    using assms last_in_set by (intro map_idI) (fastforce simp: drop_cr_def good_line_def list_all_iff)
  moreover have "\<forall>l\<in>set (raw_lines s). length l < 65536 \<and> length l < 1048576"
    using assms by (fastforce simp: good_line_def list_all_iff)
  ultimately show "bufio_lines s = (raw_lines s, True)" "log_lines s = (raw_lines s, True)"
    using scan_tokens_short [of 65536 "raw_lines s"] scan_tokens_short [of 1048576 "raw_lines s"]
    by (auto simp: bufio_lines_def log_lines_def list_all_iff)
qed

lemma marker_not_blank: "MarkerStartPrefix \<noteq> []" "MarkerEndPrefix \<noteq> []"
  by (simp_all add: MarkerStartPrefix_def MarkerEndPrefix_def)

lemma render_blank:
  "render doc \<noteq> [] \<and> hd (render doc) = [] \<longleftrightarrow> doc \<noteq> [] \<and> hd doc = Line []"
  "render doc \<noteq> [] \<and> last (render doc) = [] \<longleftrightarrow> doc \<noteq> [] \<and> last doc = Line []"
proof -
  show "render doc \<noteq> [] \<and> hd (render doc) = [] \<longleftrightarrow> doc \<noteq> [] \<and> hd doc = Line []"
  proof (cases doc)
    case (Cons i d)
    then show ?thesis by (cases i) (auto simp: marker_not_blank)
  qed simp
  show "render doc \<noteq> [] \<and> last (render doc) = [] \<longleftrightarrow> doc \<noteq> [] \<and> last doc = Line []"
  proof (cases doc rule: rev_cases)
    case (snoc d i)
    then show ?thesis by (cases i) (auto simp: marker_not_blank)
  qed simp
qed

lemma render_drops:
  "render (drop_first_blank doc) = (if render doc \<noteq> [] \<and> hd (render doc) = [] then tl (render doc) else render doc)"
  "render (drop_last_blank doc) = (if render doc \<noteq> [] \<and> last (render doc) = [] then butlast (render doc) else render doc)"
proof -
  show "render (drop_first_blank doc) = (if render doc \<noteq> [] \<and> hd (render doc) = [] then tl (render doc) else render doc)"
    unfolding render_blank by (cases doc) (auto simp: drop_first_blank_def)
  show "render (drop_last_blank doc) = (if render doc \<noteq> [] \<and> last (render doc) = [] then butlast (render doc) else render doc)"
    unfolding render_blank by (cases doc rule: rev_cases) (auto simp: drop_last_blank_def)
qed

lemma HasPrefix_same: "HasPrefix (a @ x) (a @ y) \<longleftrightarrow> HasPrefix x y"
  by (auto simp: HasPrefix_iff)

lemma HasPrefix_self_iff: "HasPrefix x x"
  by (simp add: HasPrefix_def)

lemma host_prefix:
  assumes "workspace_key v" "workspace_key w"
  shows "HasPrefix (ssh_host v) (ssh_host w) \<longleftrightarrow> v = w"
proof
  have dot: "CHR ''.'' \<notin> set x" if "workspace_key x" for x
    using that id_char_facts(5) by (fastforce simp: workspace_key_def valid_id_def list_all_iff)
  have "takeWhile (\<lambda>c. c \<noteq> CHR ''.'') (x @ ''.devpod'' @ s) = x" if "workspace_key x" for x s
    using dot [OF that] by (subst takeWhile_append2) auto
  moreover assume "HasPrefix (ssh_host v) (ssh_host w)"
  then obtain s where "v @ ''.devpod'' @ [] = w @ ''.devpod'' @ s" by (auto simp: HasPrefix_iff ssh_host_def)
  ultimately show "v = w" using assms by metis
qed (simp add: HasPrefix_iff)

lemma markers_differ:
  "\<not> HasPrefix (MarkerStartPrefix @ x) (MarkerEndPrefix @ y)" "\<not> HasPrefix (MarkerEndPrefix @ x) (MarkerStartPrefix @ y)"
  by (simp_all add: HasPrefix_def MarkerStartPrefix_def MarkerEndPrefix_def)

definition irrelevant :: "string \<Rightarrow> string \<Rightarrow> bool" where
  "irrelevant h l \<longleftrightarrow> \<not> HasPrefix l (MarkerStartPrefix @ h) \<and> \<not> HasPrefix l (MarkerEndPrefix @ h)"

lemma unmarked_irrelevant: "unmarked l \<Longrightarrow> irrelevant h l"
  by (auto simp: unmarked_def irrelevant_def HasPrefix_iff)

lemma transform_outside:
  "list_all (irrelevant h) ls \<Longrightarrow>
    transform_lines f h False s (ls @ rest) = (let (r, s') = transform_lines f h False s rest in (ls @ r, s'))"
  by (induction ls) (auto simp: irrelevant_def case_prod_unfold Let_def)

lemma transform_inside:
  "list_all (irrelevant h) ls \<Longrightarrow>
    transform_lines f h True s (ls @ rest) =
      (let s1 = fold (\<lambda>l s. snd (f s l)) ls s; (r, s') = transform_lines f h True s1 rest in
       (fst (transform_lines f h True s ls) @ r, s'))"
  by (induction ls arbitrary: s) (auto simp: irrelevant_def case_prod_unfold Let_def)

lemma transform_removes: "list_all (irrelevant h) ls \<Longrightarrow> fst (transform_lines (\<lambda>s l. ([], s)) h True s ls) = []"
  by (induction ls arbitrary: s) (auto simp: irrelevant_def)

lemma fold_const [simp]: "fold (\<lambda>l s. s) ls s = s"
  by (induction ls) auto

text \<open>One item: foreign items pass through, the section of the host runs through the transformation.\<close>

lemma transform_item:
  assumes "item_ok i" "workspace_key w"
  shows "transform_lines f (ssh_host w) False s (render_item i @ rest) =
    (if belongs_to w i
     then (let (r, s') = transform_lines f (ssh_host w) False (fold (\<lambda>l s. snd (f s l)) (section_of w i) s) rest in
           (fst (transform_lines f (ssh_host w) True s (section_of w i)) @ r, s'))
     else (let (r, s') = transform_lines f (ssh_host w) False s rest in (render_item i @ r, s')))"
proof (cases "belongs_to w i")
  case True
  then obtain body where i: "i = Section w body" by (cases i) auto
  have "list_all (irrelevant (ssh_host w)) body"
    using assms(1) i unmarked_irrelevant by (auto simp: section_ok_def list_all_iff)
  with True show ?thesis
    by (auto simp: i HasPrefix_self_iff markers_differ transform_inside Let_def case_prod_unfold)
next
  case False
  have "list_all (irrelevant (ssh_host w)) (render_item i)"
    using assms False host_prefix unmarked_irrelevant markers_differ
    by (cases i) (auto simp: section_ok_def list_all_iff irrelevant_def HasPrefix_same)
  from transform_outside [OF this] False show ?thesis by simp
qed

lemma transform_render_remove:
  assumes "workspace_key w"
  shows "list_all item_ok doc \<Longrightarrow>
    transform_lines (\<lambda>s l. ([], s)) (ssh_host w) False s (render doc) = (render (filter (\<lambda>i. \<not> belongs_to w i) doc), s)"
proof (induction doc)
  case (Cons i doc)
  have "fst (transform_lines (\<lambda>s l. ([], s)) (ssh_host w) True s (section_of w i)) = []"
    using Cons.prems unmarked_irrelevant
    by (cases i) (auto intro!: transform_removes simp: section_ok_def list_all_iff)
  with Cons assms show ?case by (simp add: transform_item)
qed simp

lemma transform_render_state:
  assumes "workspace_key w"
  shows "list_all item_ok doc \<Longrightarrow>
    snd (transform_lines f (ssh_host w) False s (render doc)) = fold (\<lambda>l s. snd (f s l)) (sections_of w doc) s"
proof (induction doc arbitrary: s)
  case (Cons i doc)
  have "section_of w i = []" if "\<not> belongs_to w i" using that by (cases i) auto
  with Cons assms show ?case by (auto simp: transform_item case_prod_unfold Let_def)
qed simp

section \<open>The position of a section\<close>

lemma start_marker_comment: "is_comment (MarkerStartPrefix @ x)" "\<not> is_host_line (MarkerStartPrefix @ x)"
proof -
  obtain s where "TrimSpace (MarkerStartPrefix @ x) = CHR ''#'' # s"
    using trim_with_head [of is_space "CHR ''#''"] by (auto simp: TrimSpace_def MarkerStartPrefix_def is_space_def)
  then show "is_comment (MarkerStartPrefix @ x)" "\<not> is_host_line (MarkerStartPrefix @ x)"
    by (simp_all add: is_comment_def is_host_line_def HasPrefix_def)
qed

definition comments_above :: "nat \<Rightarrow> string list \<Rightarrow> nat" where
  "comments_above c ls = fold (\<lambda>l c. if is_comment l then Suc c else 0) ls c"

lemma comments_above_rev: "comments_above 0 ls = length (takeWhile is_comment (rev ls))"
  by (induction ls rule: rev_induct) (auto simp: comments_above_def)

lemma host_position_found [simp]: "host_position n True c ls = n"
  by (induction ls arbitrary: c) auto

lemma host_position_none: "list_all (\<lambda>l. \<not> is_host_line l) ls \<Longrightarrow> host_position n False c ls = n + length ls"
  by (induction ls arbitrary: n c) (auto simp: is_host_line_def)

lemma host_position_first:
  "list_all (\<lambda>l. \<not> is_host_line l) ls \<Longrightarrow> is_host_line h \<Longrightarrow>
    host_position n False c (ls @ h # rest) = n + length ls - comments_above c ls"
  by (induction ls arbitrary: n c) (auto simp: is_host_line_def is_comment_def comments_above_def)

text \<open>The items in front of the first host are lines.\<close>

fun line_of :: "ssh_item \<Rightarrow> string" where
  "line_of (Line l) = l"
| "line_of (Section w body) = []"

lemma render_lines:
  assumes "list_all (\<lambda>i. \<not> host_item i) a"
  shows "render a = map line_of a" "list_all (\<lambda>l. \<not> is_host_line l) (render a)"
    "takeWhile is_comment (rev (render a)) = map line_of (takeWhile comment_item (rev a))"
proof -
  have i: "render_item i = [line_of i] \<and> \<not> is_host_line (line_of i) \<and> is_comment (line_of i) = comment_item i"
    if "i \<in> set a" for i using assms that by (cases i) (auto simp: list_all_iff)
  then show r: "render a = map line_of a" by (induction a) auto
  show "list_all (\<lambda>l. \<not> is_host_line l) (render a)" unfolding r using i by (simp add: list_all_iff)
  have "takeWhile is_comment (map line_of xs) = map line_of (takeWhile comment_item xs)" if "set xs \<subseteq> set a" for xs
    using that i by (induction xs) auto
  from this [of "rev a"] show "takeWhile is_comment (rev (render a)) = map line_of (takeWhile comment_item (rev a))"
    unfolding r rev_map by simp
qed

lemma takeWhile_host: "list_all (\<lambda>i. \<not> host_item i) (takeWhile (\<lambda>i. \<not> host_item i) doc)"
  by (auto simp: list_all_iff dest: set_takeWhileD)

lemma first_host_position:
  assumes "list_all (\<lambda>i. \<not> host_item i) a" "item_ok i" "host_item i"
  shows "host_position 0 False 0 (render a @ render_item i @ rest) = length a - length (takeWhile comment_item (rev a))"
proof (cases i)
  case (Line l)
  with assms host_position_first [OF render_lines(2) [OF assms(1)], of l 0 0 rest] show ?thesis
    by (simp add: comments_above_rev render_lines(3)) (simp add: render_lines(1))
next
  case (Section w body)
  let ?m = "MarkerStartPrefix @ ssh_host w"
  obtain h bs where h: "body = h # bs" "is_host_line h"
    using assms(2) Section by (cases body) (auto simp: section_ok_def)
  have "list_all (\<lambda>l. \<not> is_host_line l) (render a @ [?m])"
    using render_lines(2) [OF assms(1)] start_marker_comment(2) by simp
  from host_position_first [OF this h(2), of 0 0 "bs @ [MarkerEndPrefix @ ssh_host w] @ rest"]
  show ?thesis using Section h start_marker_comment(1) render_lines(3) [OF assms(1)]
    by (simp add: comments_above_rev) (simp add: render_lines(1) [OF assms(1)])
qed

text \<open>Inserting lines at the position inserts the section in the document.\<close>

lemma render_insert_section:
  assumes "list_all item_ok doc"
  shows "(let n = host_position 0 False 0 (render doc) in take n (render doc) @ render_item x @ drop n (render doc)) =
    render (insert_section x doc)"
proof -
  define a where "a = takeWhile (\<lambda>i. \<not> host_item i) doc"
  have a: "list_all (\<lambda>i. \<not> host_item i) a" unfolding a_def by (rule takeWhile_host)
  show ?thesis
  proof (cases "dropWhile (\<lambda>i. \<not> host_item i) doc")
    case Nil
    then have "a = doc" unfolding a_def by (metis append_Nil2 takeWhile_dropWhile_id)
    with host_position_none [OF render_lines(2) [OF a], of 0 0] Nil show ?thesis
      by (simp add: insert_section_def Let_def)
  next
    case (Cons i b)
    then have doc: "doc = a @ i # b" unfolding a_def by (metis takeWhile_dropWhile_id)
    have i: "host_item i" "item_ok i"
      using assms Cons hd_dropWhile [of "\<lambda>i. \<not> host_item i" doc] by (simp, simp add: doc)
    let ?t = "takeWhile comment_item (rev a)" and ?d = "dropWhile comment_item (rev a)"
    have sp: "rev ?d @ rev ?t = a" by (rule split_comments)
    have n: "host_position 0 False 0 (render doc) = length (rev ?d)"
      using first_host_position [OF a i(2,1), of "render b"] arg_cong [OF sp, of length]
      by (simp add: doc)
    have "render doc = render (rev ?d) @ render (rev ?t) @ render (i # b)"
      unfolding doc by (subst sp [symmetric]) (simp only: render_simps append_assoc)
    moreover have "length (render (rev ?d)) = length (rev ?d)"
      using a sp render_lines(1) [of "rev ?d"] by (metis length_map list_all_append)
    ultimately show ?thesis
      using Cons unfolding Let_def n insert_section_def a_def [symmetric] by simp
  qed
qed

section \<open>The operations on documents\<close>

definition ssh_lines :: "disk \<Rightarrow> string \<Rightarrow> string list" where
  "ssh_lines d path = (case ReadFile d path of Inl _ \<Rightarrow> [] | Inr text \<Rightarrow> raw_lines text)"

definition holds_doc :: "disk \<Rightarrow> string \<Rightarrow> ssh_item list \<Rightarrow> bool" where
  "holds_doc d path doc \<longleftrightarrow> io_error d path = None \<and> list_all item_ok doc \<and> ssh_lines d path = render doc"

lemma good_marker:
  assumes "workspace_key w"
  shows "good_line (MarkerStartPrefix @ ssh_host w)" "good_line (MarkerEndPrefix @ ssh_host w)"
proof -
  have "is_id_char c \<Longrightarrow> c \<noteq> newline \<and> c \<noteq> carriage_return" for c
    by (auto simp: is_id_char_def is_lower_def is_digit_def newline_def carriage_return_def)
  then have "newline \<notin> set w \<and> carriage_return \<notin> set w \<and> length w \<le> 48"
    using assms by (auto simp: workspace_key_def valid_id_def list_all_iff)
  then show "good_line (MarkerStartPrefix @ ssh_host w)" "good_line (MarkerEndPrefix @ ssh_host w)"
    by (auto simp: good_line_def ssh_host_def MarkerStartPrefix_def MarkerEndPrefix_def newline_def carriage_return_def)
qed

lemma good_render: "list_all item_ok doc \<Longrightarrow> list_all good_line (render doc)"
proof (induction doc)
  case (Cons i doc)
  then show ?case by (cases i) (auto simp: good_marker section_ok_def list_all_iff)
qed simp

lemma raw_lines_render:
  assumes "list_all item_ok doc"
  shows "raw_lines (Join (render doc) [newline]) = render (drop_last_blank doc)"
  using good_render [OF assms] raw_lines_Join [of "render doc"]
  by (simp add: render_drops(2) list_all_iff good_line_def)

lemma transformHostSection_doc:
  assumes "holds_doc d path doc"
  shows "transformHostSection f path h s d =
    (let (ls, s') = transform_lines f h False s (render doc) in
     (Inr (Join (if ls \<noteq> [] \<and> hd ls = [] then tl ls else ls) [newline]), s'))"
proof -
  have "(if is_not_exist d path then Inr [] else ReadFile d path) = Inr t \<Longrightarrow> log_lines t = (render doc, True)"
    and "\<exists>t. (if is_not_exist d path then Inr [] else ReadFile d path) = Inr t" for t
    using assms good_render [of doc] scan_good(2) [of t] scan_good(2) [of "[]"]
    by (auto simp: holds_doc_def ssh_lines_def is_not_exist_def ReadFile_def raw_lines_def split: option.splits)
  then obtain t where "(if is_not_exist d path then Inr [] else ReadFile d path) = Inr t" "log_lines t = (render doc, True)"
    by blast
  then show ?thesis by (simp add: transformHostSection_def case_prod_unfold)
qed

lemma removeFromConfig_doc:
  assumes "holds_doc d path doc" "workspace_key w"
  shows "removeFromConfig path (ssh_host w) d =
    Inr (Join (render (drop_first_blank (filter (\<lambda>i. \<not> belongs_to w i) doc))) [newline])"
proof -
  have "list_all item_ok doc" using assms(1) by (simp add: holds_doc_def)
  from transform_render_remove [OF assms(2) this, of "()"] show ?thesis
    by (simp add: removeFromConfig_def transformHostSection_doc [OF assms(1)] render_drops(1) del: fold_const)
qed

lemma writeSSHConfig_ok:
  assumes "io_error d path = None"
  obtains d' where "writeSSHConfig path c d = (Inr (), d')" "ReadFile d' path = Inr c" "io_error d' = io_error d"
    "\<And>q. q \<noteq> path \<Longrightarrow> ReadFile d' q = ReadFile d q"
proof -
  define d1 where "d1 = (case MkdirAll (path_Dir path) d of Inl _ \<Rightarrow> d | Inr d1 \<Rightarrow> d1)"
  have d1: "io_error d1 = io_error d" "\<And>q. ReadFile d1 q = ReadFile d q"
    by (auto simp: d1_def MkdirAll_def ReadFile_def split: option.splits)
  then have w: "WriteFile path c d1 = Inr (d1\<lparr>files := AList.update path c (files d1)\<rparr>)"
    using assms by (simp add: WriteFile_def)
  show ?thesis
    by (rule that [of "d1\<lparr>files := AList.update path c (files d1)\<rparr>"])
      (use d1 w ReadFile_WriteFile [OF w] in \<open>auto simp: writeSSHConfig_def d1_def Let_def\<close>)
qed

lemma RemoveFromConfig_doc:
  assumes "holds_doc d path doc" "workspace_key w"
  obtains d' where "RemoveFromConfig w path d = (Inr (), d')" "holds_doc d' path (doc_del w doc)"
    "\<And>q. q \<noteq> path \<Longrightarrow> ReadFile d' q = ReadFile d q" "io_error d' = io_error d"
proof -
  let ?doc = "drop_first_blank (filter (\<lambda>i. \<not> belongs_to w i) doc)"
  have ok: "list_all item_ok ?doc" "io_error d path = None"
    using assms(1) by (simp_all add: holds_doc_def) (rule item_ok_drops(1), simp add: list_all_iff)
  obtain d' where d': "writeSSHConfig path (Join (render ?doc) [newline]) d = (Inr (), d')"
    "ReadFile d' path = Inr (Join (render ?doc) [newline])" "io_error d' = io_error d"
    "\<And>q. q \<noteq> path \<Longrightarrow> ReadFile d' q = ReadFile d q"
    using writeSSHConfig_ok [OF ok(2)] by blast
  have "holds_doc d' path (doc_del w doc)"
    using d' ok raw_lines_render [OF ok(1)] item_ok_drops(2) [OF ok(1)] by (simp add: holds_doc_def ssh_lines_def doc_del_def)
  moreover have "RemoveFromConfig w path d = (Inr (), d')"
    using removeFromConfig_doc [OF assms] d'(1) by (simp add: RemoveFromConfig_def ssh_host_def)
  ultimately show ?thesis using that d' by blast
qed

record ssh_entry =
  e_context :: string
  e_user :: string
  e_workdir :: string
  e_gpgagent :: bool
  e_devPodHome :: string

definition entry_body :: "string \<Rightarrow> string \<Rightarrow> ssh_entry \<Rightarrow> string list" where
  "entry_body execPath w e =
     host_body execPath (ssh_host w) (e_user e) (e_context e) w (e_workdir e) [] (e_gpgagent e) (e_devPodHome e)"

lemma TrimSpace_indent: "TrimSpace (CHR '' '' # s) = TrimSpace s"
  by (simp add: TrimSpace_def trim_with_def is_space_def)

lemma section_ok_entry:
  assumes "list_all good_line (entry_body execPath w e)"
  shows "section_ok (entry_body execPath w e)"
proof -
  obtain s where "TrimSpace (''Host '' @ ssh_host w) = CHR ''H'' # s"
    using trim_with_head [of is_space "CHR ''H''" "''ost '' @ ssh_host w"] by (auto simp: TrimSpace_def is_space_def)
  have "HasPrefix (TrimSpace (''Host '' @ ssh_host w)) ''Host''"
  proof -
    have "dropWhile is_space (rev (''Host '' @ ssh_host w)) = rev (''Host '' @ ssh_host w)"
      by (simp add: ssh_host_def is_space_def)
    then show ?thesis by (simp add: TrimSpace_def trim_with_def is_space_def HasPrefix_def)
  qed
  then have "is_host_line (hd (entry_body execPath w e))"
    by (simp add: entry_body_def host_body_def is_host_line_def)
  moreover have "list_all unmarked (entry_body execPath w e)"
    by (simp add: entry_body_def host_body_def unmarked_def MarkerStartPrefix_def MarkerEndPrefix_def HasPrefix_def
        proxy_command_def)
  ultimately show ?thesis using assms by (auto simp: section_ok_def list_all_iff entry_body_def host_body_def)
qed

lemma ConfigureSSHConfig_doc:
  assumes "holds_doc d path doc" "workspace_key w" "goos \<noteq> ''windows''" "list_all good_line (entry_body execPath w e)"
  obtains d' where "ConfigureSSHConfig goos (Inr execPath) path (e_context e) w (e_user e) (e_workdir e) (e_gpgagent e) (e_devPodHome e) d
      = (Inr (), d')" "holds_doc d' path (doc_put w (entry_body execPath w e) doc)"
    "\<And>q. q \<noteq> path \<Longrightarrow> ReadFile d' q = ReadFile d q"
proof -
  let ?s = "Section w (entry_body execPath w e)"
  let ?text = "Join (render (drop_first_blank (filter (\<lambda>i. \<not> belongs_to w i) doc))) [newline]"
  let ?doc = "insert_section ?s (doc_del w doc)"
  have doc: "list_all item_ok doc" "io_error d path = None" using assms(1) by (auto simp: holds_doc_def)
  have del: "list_all item_ok (doc_del w doc)" by (rule doc_del_facts(2) [OF doc(1)])
  have ok: "list_all item_ok (drop_first_blank (filter (\<lambda>i. \<not> belongs_to w i) doc))"
    using doc(1) by (intro item_ok_drops(1)) (simp add: list_all_iff)
  have raw: "raw_lines ?text = render (doc_del w doc)" by (simp add: raw_lines_render [OF ok] doc_del_def)
  then have "bufio_lines ?text = (render (doc_del w doc), True)"
    using scan_good(1) good_render [OF del] by metis
  then have "addHost goos (Inr execPath) path (ssh_host w) (e_user e) (e_context e) w (e_workdir e) [] (e_gpgagent e) (e_devPodHome e) d
      = Inr (Join (render ?doc) [newline])"
    using render_insert_section [OF del, of ?s] assms(3)
    by (simp add: addHost_def removeFromConfig_doc [OF assms(1,2)] addHostSection_def Let_def entry_body_def)
  moreover obtain d' where d': "writeSSHConfig path (Join (render ?doc) [newline]) d = (Inr (), d')"
    "ReadFile d' path = Inr (Join (render ?doc) [newline])" "io_error d' = io_error d"
    "\<And>q. q \<noteq> path \<Longrightarrow> ReadFile d' q = ReadFile d q"
    using writeSSHConfig_ok [OF doc(2)] by blast
  moreover obtain a b where "doc_del w doc = a @ b" "?doc = a @ [?s] @ b" using insert_section_split by blast
  then have okd: "list_all item_ok ?doc" using del section_ok_entry [OF assms(4)] assms(2) by simp
  have "holds_doc d' path (doc_put w (entry_body execPath w e) doc)"
    using d' doc(2) raw_lines_render [OF okd] item_ok_drops(2) [OF okd] by (simp add: holds_doc_def ssh_lines_def doc_put_def)
  ultimately show ?thesis
    using that by (simp add: ConfigureSSHConfig_def configureSSHConfigSameFile_def ssh_host_def)
qed

lemma ssh_GetUser_doc:
  assumes "holds_doc d path doc" "workspace_key w" "ResolveSSHConfigPath home cwd p = Inr path"
  shows "ssh_GetUser home cwd w p d = Inr (fold (\<lambda>l u. user_line u l) (sections_of w doc) ''root'')"
  using assms transform_render_state [OF assms(2), of doc "\<lambda>u l. (l, user_line u l)" "''root''"]
  by (simp add: ssh_GetUser_def transformHostSection_doc [OF assms(1)] case_prod_unfold holds_doc_def ssh_host_def Let_def)

text \<open>The lines of a section other than the one with the user leave the user alone.\<close>

lemma trim_keyword:
  assumes "k \<noteq> []" "list_all (\<lambda>c. \<not> is_space c) k"
  shows "\<exists>t. TrimSpace (k @ CHR '' '' # rest) = k @ t \<and> (t = [] \<or> hd t = CHR '' '')"
proof -
  let ?t = "rev (dropWhile is_space (rev (CHR '' '' # rest)))"
  have "dropWhile is_space (k @ x) = k @ x" for x using assms by (cases k) auto
  moreover have "dropWhile is_space (rev k) = rev k" using assms by (cases k rule: rev_cases) (auto simp: list_all_iff)
  ultimately have "TrimSpace (k @ CHR '' '' # rest) = k @ ?t"
    unfolding TrimSpace_def trim_with_def rev_append
    by (simp add: dropWhile_append del: rev.simps)
  moreover have "?t = [] \<or> hd ?t = CHR '' ''" by (auto simp: dropWhile_append)
  ultimately show ?thesis by blast
qed

lemma to_lower_space: "to_lower_char c = CHR '' '' \<longleftrightarrow> c = CHR '' ''"
proof
  assume l: "to_lower_char c = CHR '' ''"
  show "c = CHR '' ''"
  proof (cases "65 \<le> (of_char c :: nat) \<and> (of_char c :: nat) \<le> 90")
    case True
    with arg_cong [OF l, of "of_char :: char \<Rightarrow> nat"] show ?thesis by (simp add: to_lower_char_def Let_def)
  next
    case False
    with l show ?thesis unfolding to_lower_char_def Let_def by (simp only: if_False)
  qed
qed (simp add: to_lower_char_def)

lemma user_line_keyword:
  assumes "k \<noteq> []" "list_all (\<lambda>c. \<not> is_space c) k" "ToLower k \<noteq> ''user''"
  shows "user_line u (k @ CHR '' '' # rest) = u" "user_line u (CHR '' '' # CHR '' '' # k @ CHR '' '' # rest) = u"
proof -
  obtain t where t: "TrimSpace (k @ CHR '' '' # rest) = k @ t" "t = [] \<or> hd t = CHR '' ''"
    using trim_keyword [OF assms(1,2)] by blast
  have "CHR '' '' \<notin> set k" using assms(2) by (auto simp: list_all_iff is_space_def)
  then have no: "CHR '' '' \<notin> set (ToLower k)"
    unfolding ToLower_def set_map image_iff using to_lower_space by metis
  have "hd (Split CHR '' '' (ToLower (k @ t))) = ToLower k"
  proof (cases t)
    case (Cons c s)
    moreover have "to_lower_char CHR '' '' = CHR '' ''" by (simp only: to_lower_space)
    ultimately have "ToLower (k @ t) = ToLower k @ CHR '' '' # ToLower s" using t(2) by (simp add: ToLower_def)
    with no show ?thesis by (simp add: Split_append)
  qed (use no in \<open>simp add: Split_no ToLower_def\<close>)
  then have "Split CHR '' '' (ToLower (k @ t)) ! 0 \<noteq> ''user''"
    using assms(3) by (metis Split_not_Nil hd_conv_nth)
  then show "user_line u (k @ CHR '' '' # rest) = u" "user_line u (CHR '' '' # CHR '' '' # k @ CHR '' '' # rest) = u"
    by (simp_all add: user_line_def Let_def TrimSpace_indent t(1))
qed

definition ssh_user_ok :: "string \<Rightarrow> bool" where
  "ssh_user_ok u \<longleftrightarrow> u \<noteq> [] \<and> list_all (\<lambda>c. \<not> is_space c) u"

definition known_user :: "string \<Rightarrow> string" where
  "known_user u = Trim (ToLower u) [CHR 0x22]"

lemma lower_User: "ToLower ''User '' = ''user ''"
  by code_simp

lemma user_line_user:
  assumes "ssh_user_ok u"
  shows "user_line x (''  User '' @ u) = known_user u"
proof -
  have "rev (dropWhile is_space (rev (''User '' @ u))) = ''User '' @ u"
    using assms by (cases u rule: rev_cases) (auto simp: ssh_user_ok_def list_all_iff)
  then have t: "TrimSpace (''  User '' @ u) = ''User '' @ u"
    by (simp add: TrimSpace_def trim_with_def is_space_def)
  have "CHR '' '' \<notin> set u" using assms by (auto simp: ssh_user_ok_def list_all_iff is_space_def)
  then have "CHR '' '' \<notin> set (ToLower u)" unfolding ToLower_def set_map image_iff using to_lower_space by metis
  then have "Split CHR '' '' (''user '' @ ToLower u) = [''user'', ToLower u]" by (simp add: Split_no)
  moreover have "ToLower (''User '' @ u) = ''user '' @ ToLower u"
    using lower_User by (simp only: ToLower_def map_append)
  ultimately show ?thesis unfolding user_line_def t by (simp add: known_user_def)
qed

lemma user_of_entry:
  assumes "ssh_user_ok (e_user e)"
  shows "fold (\<lambda>l u. user_line u l) (entry_body execPath w e) x = known_user (e_user e)"
proof -
  have kw: "k \<in> {''Host'', ''ForwardAgent'', ''LogLevel'', ''StrictHostKeyChecking'', ''UserKnownHostsFile'',
      ''HostKeyAlgorithms'', ''ProxyCommand''} \<Longrightarrow>
    k \<noteq> [] \<and> list_all (\<lambda>c. \<not> is_space c) k \<and> ToLower k \<noteq> ''user''" for k
    by (auto simp: is_space_def ToLower_def to_lower_char_def)
  have keep: "user_line u (k @ CHR '' '' # rest) = u" "user_line u (CHR '' '' # CHR '' '' # k @ CHR '' '' # rest) = u"
    if "k \<in> {''Host'', ''ForwardAgent'', ''LogLevel'', ''StrictHostKeyChecking'', ''UserKnownHostsFile'',
      ''HostKeyAlgorithms'', ''ProxyCommand''}" for k u rest
    using kw [OF that] user_line_keyword by blast+
  have lines: "user_line u (''Host '' @ ssh_host w) = u" "user_line u ''  ForwardAgent yes'' = u"
    "user_line u ''  LogLevel error'' = u" "user_line u ''  StrictHostKeyChecking no'' = u"
    "user_line u ''  UserKnownHostsFile /dev/null'' = u"
    "user_line u ''  HostKeyAlgorithms rsa-sha2-256,rsa-sha2-512,ssh-rsa'' = u"
    "user_line u (proxy_command execPath a b c d [] g h) = u" for u a b c d g h
    using keep(1) [of "''Host''" u "ssh_host w"] keep(2) [of "''ForwardAgent''" u "''yes''"]
      keep(2) [of "''LogLevel''" u "''error''"] keep(2) [of "''StrictHostKeyChecking''" u "''no''"]
      keep(2) [of "''UserKnownHostsFile''" u "''/dev/null''"]
      keep(2) [of "''HostKeyAlgorithms''" u "''rsa-sha2-256,rsa-sha2-512,ssh-rsa''"]
      keep(2) [of "''ProxyCommand''" u]
    by (simp_all add: proxy_command_def)
  show ?thesis by (simp only: entry_body_def host_body_def fold.simps lines user_line_user [OF assms] o_apply id_apply)
qed

section \<open>The file as a store\<close>

lemma own_lines_doc_del [simp]: "own_lines (doc_del w doc) = own_lines doc"
proof -
  have 1: "own_lines (drop_first_blank doc) = own_lines doc" for doc by (cases doc) (auto simp: drop_first_blank_def)
  have 2: "own_lines (drop_last_blank doc) = own_lines doc" for doc
    by (cases doc rule: rev_cases) (auto simp: drop_last_blank_def)
  have "own_lines (filter (\<lambda>i. \<not> belongs_to w i) doc) = own_lines doc"
  proof (induction doc)
    case (Cons i doc)
    then show ?case by (cases i) auto
  qed simp
  then show ?thesis by (simp add: doc_del_def 1 2)
qed

lemma own_lines_doc_put [simp]: "own_lines (doc_put w body doc) = own_lines doc"
proof -
  obtain a b where "doc_del w doc = a @ b" "insert_section (Section w body) (doc_del w doc) = a @ [Section w body] @ b"
    using insert_section_split by blast
  then have "own_lines (insert_section (Section w body) (doc_del w doc)) = own_lines (doc_del w doc)" by simp
  moreover have "own_lines (drop_last_blank doc) = own_lines doc" for doc
    by (cases doc rule: rev_cases) (auto simp: drop_last_blank_def)
  ultimately show ?thesis by (simp add: doc_put_def)
qed

definition ssh_inv :: "string result \<Rightarrow> string \<Rightarrow> string \<Rightarrow> string \<Rightarrow> string list \<Rightarrow> disk \<Rightarrow> bool" where
  "ssh_inv home cwd p path ls d \<longleftrightarrow>
     ResolveSSHConfigPath home cwd p = Inr path \<and> (\<exists>doc. holds_doc d path doc \<and> own_lines doc = ls)"

definition ssh_put :: "string \<Rightarrow> string \<Rightarrow> string \<Rightarrow> string \<Rightarrow> ssh_entry \<Rightarrow> disk \<Rightarrow> disk" where
  "ssh_put goos execPath path w e d =
     snd (ConfigureSSHConfig goos (Inr execPath) path (e_context e) w (e_user e) (e_workdir e) (e_gpgagent e) (e_devPodHome e) d)"

definition ssh_del :: "string \<Rightarrow> string \<Rightarrow> disk \<Rightarrow> disk" where
  "ssh_del path w d = snd (RemoveFromConfig w path d)"

definition ssh_entry_ok :: "string \<Rightarrow> string \<Rightarrow> string \<Rightarrow> ssh_entry \<Rightarrow> bool" where
  "ssh_entry_ok goos execPath w e \<longleftrightarrow>
     goos \<noteq> ''windows'' \<and> ssh_user_ok (e_user e) \<and> list_all good_line (entry_body execPath w e)"

interpretation ssh_file: keyed_store "ssh_put goos execPath path" "ssh_del path" "\<lambda>w. ssh_GetUser home cwd w p"
  "\<lambda>w e. Inr (known_user (e_user e))" "Inr ''root''" "ssh_inv home cwd p path ls" workspace_key "ssh_entry_ok goos execPath"
  for goos execPath path home cwd p ls
proof
  fix d w e
  assume i: "ssh_inv home cwd p path ls d" and w: "workspace_key w" and e: "ssh_entry_ok goos execPath w e"
  from i obtain doc where doc: "holds_doc d path doc" and o: "own_lines doc = ls" and r: "ResolveSSHConfigPath home cwd p = Inr path"
    by (auto simp: ssh_inv_def)
  obtain d' where d': "ssh_put goos execPath path w e d = d'" "holds_doc d' path (doc_put w (entry_body execPath w e) doc)"
    using e by (auto simp: ssh_entry_ok_def ssh_put_def intro: ConfigureSSHConfig_doc [OF doc w, of goos execPath e])
  show "ssh_inv home cwd p path ls (ssh_put goos execPath path w e d)" using d' r o by (auto simp: ssh_inv_def)
  fix v assume v: "workspace_key v"
  show "ssh_GetUser home cwd v p (ssh_put goos execPath path w e d) =
    (if v = w then Inr (known_user (e_user e)) else ssh_GetUser home cwd v p d)"
    using ssh_GetUser_doc [OF d'(2) v r] ssh_GetUser_doc [OF doc v r] user_of_entry [of e] e
    by (auto simp: d'(1) doc_put_facts(1) ssh_entry_ok_def)
next
  fix d w
  assume i: "ssh_inv home cwd p path ls d" and w: "workspace_key w"
  from i obtain doc where doc: "holds_doc d path doc" and o: "own_lines doc = ls" and r: "ResolveSSHConfigPath home cwd p = Inr path"
    by (auto simp: ssh_inv_def)
  obtain d' where d': "ssh_del path w d = d'" "holds_doc d' path (doc_del w doc)"
    by (auto simp: ssh_del_def intro: RemoveFromConfig_doc [OF doc w])
  show "ssh_inv home cwd p path ls (ssh_del path w d)" using d' r o by (auto simp: ssh_inv_def)
  fix v assume v: "workspace_key v"
  show "ssh_GetUser home cwd v p (ssh_del path w d) = (if v = w then Inr ''root'' else ssh_GetUser home cwd v p d)"
    using ssh_GetUser_doc [OF d'(2) v r] ssh_GetUser_doc [OF doc v r] by (auto simp: d'(1) doc_del_facts(1))
qed


text \<open>Two workspaces next to hosts of the user, with a comment above them.\<close>

definition sample_ssh_doc :: "ssh_item list" where
  "sample_ssh_doc = [Line ''Include conf.d/*'', Line [], Line ''# my hosts'', Line ''Host example'', Line ''  User jane'', Line []]"

definition sample_ssh_disk :: disk where
  "sample_ssh_disk = \<lparr>files = [(''/home/me/.ssh/config'', Join (render sample_ssh_doc) [newline])], dirs = [],
     io_error = (\<lambda>_. None)\<rparr>"

definition sample_ssh_entry :: "string \<Rightarrow> ssh_entry" where
  "sample_ssh_entry u = \<lparr>e_context = ''default'', e_user = u, e_workdir = ''/workspaces/a'', e_gpgagent = True, e_devPodHome = []\<rparr>"

definition sample_ssh_ops :: "(string, ssh_entry) store_op list" where
  "sample_ssh_ops = [Put ''one'' (sample_ssh_entry ''vscode''), Put ''two'' (sample_ssh_entry ''Node''),
     Put ''one'' (sample_ssh_entry ''dev''), Del ''three'']"


text \<open>A line of a megabyte: the file is replaced by the section of the workspace alone.\<close>

lemma ConfigureSSHConfig_long_line:
  assumes "io_error d path = None" "ReadFile d path = Inr text" "\<not> list_all (\<lambda>l. length l < 1048576) (raw_lines text)"
    and "goos \<noteq> ''windows''"
  obtains d' where "ConfigureSSHConfig goos (Inr execPath) path (e_context e) w (e_user e) (e_workdir e) (e_gpgagent e) (e_devPodHome e) d
      = (Inr (), d')" "ReadFile d' path = Inr (Join (render [Section w (entry_body execPath w e)]) [newline])"
proof -
  have "\<not> is_not_exist d path" using assms(1,2) by (auto simp: is_not_exist_def ReadFile_def split: option.splits)
  then have "removeFromConfig path (ssh_host w) d = Inr []"
    using assms by (simp add: removeFromConfig_def transformHostSection_def log_lines_def scan_tokens_def case_prod_unfold)
  moreover have "bufio_lines [] = ([], True)"
    by (simp add: bufio_lines_def scan_tokens_def raw_lines_def)
  ultimately have "addHost goos (Inr execPath) path (ssh_host w) (e_user e) (e_context e) w (e_workdir e) [] (e_gpgagent e) (e_devPodHome e) d
      = Inr (Join (render [Section w (entry_body execPath w e)]) [newline])"
    using assms(4) by (simp add: addHost_def addHostSection_def entry_body_def)
  then show ?thesis
    using writeSSHConfig_ok [OF assms(1)] that
    by (simp add: ConfigureSSHConfig_def configureSSHConfigSameFile_def ssh_host_def) metis
qed

end
