(* ===== verification/Git_Credentials.thy ===== *)
theory Git_Credentials
  imports Ssh_Config Git Keyed_Store
begin

text \<open>
  Git credentials: the text form that git and its helpers exchange, and the entry of the helper in the
  user's git configuration (\<^verbatim>\<open>pkg/gitcredentials/gitcredentials.go\<close>).  Running a command, looking up a
  user and changing the owner of a file are arguments.  \<open>GetHTTPPath\<close>, which parses a URL, is left out.
\<close>

section \<open>Definitions\<close>

record git_credentials =
  gc_Protocol :: string
  gc_URL :: string
  gc_Host :: string
  gc_Path :: string
  gc_Username :: string
  gc_Password :: string

record git_user =
  gu_Name :: string
  gu_Email :: string

definition no_credentials :: git_credentials where
  "no_credentials = \<lparr>gc_Protocol = [], gc_URL = [], gc_Host = [], gc_Path = [], gc_Username = [], gc_Password = []\<rparr>"

definition parse_credential :: "string \<Rightarrow> git_credentials \<Rightarrow> git_credentials" where
  "parse_credential line c =
     (let splitted = Split CHR ''='' (TrimSpace line); v = Join (tl splitted) ''='' in
      if length splitted = 1 then c
      else if hd splitted = ''protocol'' then c\<lparr>gc_Protocol := v\<rparr>
      else if hd splitted = ''host'' then c\<lparr>gc_Host := v\<rparr>
      else if hd splitted = ''username'' then c\<lparr>gc_Username := v\<rparr>
      else if hd splitted = ''password'' then c\<lparr>gc_Password := v\<rparr>
      else if hd splitted = ''url'' then c\<lparr>gc_URL := v\<rparr>
      else if hd splitted = ''path'' then c\<lparr>gc_Path := v\<rparr>
      else c)"

definition Parse_credentials :: "string \<Rightarrow> git_credentials" where
  "Parse_credentials raw = fold parse_credential (Split newline raw) no_credentials"

definition credential_line :: "string \<Rightarrow> string \<Rightarrow> string list" where
  "credential_line key v = (if v \<noteq> [] then [key @ ''='' @ v] else [])"

definition credentials_ToString :: "git_credentials \<Rightarrow> string" where
  "credentials_ToString c =
     Join (credential_line ''protocol'' (gc_Protocol c) @ credential_line ''url'' (gc_URL c) @
           credential_line ''path'' (gc_Path c) @ credential_line ''host'' (gc_Host c) @
           credential_line ''username'' (gc_Username c) @ credential_line ''password'' (gc_Password c)) [newline] @ [newline]"

fun remove_credential_lines :: "bool \<Rightarrow> string list \<Rightarrow> string list" where
  "remove_credential_lines isCredential [] = []"
| "remove_credential_lines isCredential (line # ls) =
     (if TrimSpace line = ''[credential]'' then remove_credential_lines True ls
      else if isCredential \<and> \<not> (TrimSpace line \<noteq> [] \<and> hd (TrimSpace line) = CHR ''['') then
        remove_credential_lines True ls
      else line # remove_credential_lines False ls)"

definition removeCredentialHelper :: "string \<Rightarrow> string" where
  "removeCredentialHelper content = Join (remove_credential_lines False (fst (log_lines content))) [newline]"

text \<open>The accounts of the machine are those \<open>user.Lookup\<close> finds.\<close>

record account =
  acc_Uid :: string
  acc_Gid :: string
  acc_HomeDir :: string

definition GetHome :: "(string \<Rightarrow> account result) \<Rightarrow> string result \<Rightarrow> string \<Rightarrow> string result" where
  "GetHome users home userName = (if userName = [] then home else map_sum id acc_HomeDir (users userName))"

text \<open>The number \<open>strconv.ParseInt\<close> returns when its error is ignored: zero for a text that is no number, and the
  nearest number for one that is out of range.\<close>

definition int_value :: "string \<Rightarrow> int" where
  "int_value s =
     (let (neg, ds) = split_sign s; v = int (digits_val 0 ds) in
      if ds = [] \<or> \<not> list_all is_digit ds then 0
      else if neg then max (- (2 ^ 63)) (- v) else min (2 ^ 63 - 1) v)"

definition file_chown :: "(string \<Rightarrow> account result) \<Rightarrow> (string \<Rightarrow> int \<Rightarrow> int \<Rightarrow> unit result) \<Rightarrow> string \<Rightarrow> string \<Rightarrow> unit result" where
  "file_chown users os_chown userName target =
     (if userName = [] then Inr ()
      else (case users userName of
              Inl e \<Rightarrow> Inl e
            | Inr u \<Rightarrow>
                (let uid = int_value (acc_Uid u); gid = int_value (acc_Gid u) in
                 if uid < 0 then Inr () else os_chown target uid (if gid < 0 then 0 else gid))))"

text \<open>The error of a command carries what the command printed; it is shown before the error.\<close>

definition WrapCommandError :: "string \<Rightarrow> gerr \<Rightarrow> gerr" where
  "WrapCommandError out e =
     (case e of Err m \<Rightarrow> Err ((if out \<noteq> [] then out @ [newline] else []) @ m) | Panic m \<Rightarrow> Panic m)"

definition getGlobalGitConfigPath :: "(string \<Rightarrow> string) \<Rightarrow> (string \<Rightarrow> account result) \<Rightarrow> string result \<Rightarrow> string \<Rightarrow> string result" where
  "getGlobalGitConfigPath env users home userName =
     (if env ''XDG_CONFIG_HOME'' \<noteq> [] then Inr (path_Join [env ''XDG_CONFIG_HOME'', ''git'', ''config''])
      else (case GetHome users home userName of
              Inl e \<Rightarrow> Inl (wrap (''get homedir for '' @ userName) e)
            | Inr h \<Rightarrow> Inr (path_Join [h, ''.gitconfig''])))"

definition GetLocalGitConfigPath :: "string \<Rightarrow> string" where
  "GetLocalGitConfigPath repoPath = path_Join [repoPath, ''.git'', ''config'']"

text \<open>\<open>os.ReadFile\<close> where a missing file counts as an empty one.\<close>

definition read_or_empty :: "disk \<Rightarrow> string \<Rightarrow> string result" where
  "read_or_empty d p = (if is_not_exist d p then Inr [] else ReadFile d p)"

definition credential_helper :: "string \<Rightarrow> int \<Rightarrow> string" where
  "credential_helper binaryPath port =
     ''helper = !'' @ [CHR 0x27] @ binaryPath @ [CHR 0x27] @ '' agent git-credentials'' @
     (if port \<noteq> - 1 then '' --port '' @ Itoa port else [])"

definition helper_section :: "string \<Rightarrow> string" where
  "helper_section helper = [newline] @ ''[credential]'' @ [newline] @ ''        '' @ helper @ [newline]"

definition ConfigureHelper ::
    "(string \<Rightarrow> account result) \<Rightarrow> (string \<Rightarrow> int \<Rightarrow> int \<Rightarrow> unit result) \<Rightarrow> string result \<Rightarrow> string \<Rightarrow> string \<Rightarrow> int \<Rightarrow>
      disk \<Rightarrow> unit result \<times> disk" where
  "ConfigureHelper users os_chown configPath binaryPath userName port d =
     (case configPath of
        Inl e \<Rightarrow> (Inl e, d)
      | Inr p \<Rightarrow>
          (case read_or_empty d p of
             Inl e \<Rightarrow> (Inl e, d)
           | Inr config \<Rightarrow>
               if Contains config (credential_helper binaryPath port) then (Inr (), d)
               else (case WriteFile p (removeCredentialHelper config @ helper_section (credential_helper binaryPath port)) d of
                       Inl e \<Rightarrow> (Inl (wrap ''write git config'' e), d)
                     | Inr d1 \<Rightarrow> (file_chown users os_chown userName p, d1))))"

definition RemoveHelperFromPath :: "string \<Rightarrow> disk \<Rightarrow> unit result \<times> disk" where
  "RemoveHelperFromPath p d =
     (case read_or_empty d p of
        Inl e \<Rightarrow> (Inl e, d)
      | Inr out \<Rightarrow>
          if Contains out ''[credential]'' then
            (case WriteFile p (removeCredentialHelper out) d of
               Inl e \<Rightarrow> (Inl (wrap ''write git config'' e), d)
             | Inr d1 \<Rightarrow> (Inr (), d1))
          else (Inr (), d))"

definition RemoveHelper :: "string result \<Rightarrow> disk \<Rightarrow> unit result \<times> disk" where
  "RemoveHelper configPath d = (case configPath of Inl e \<Rightarrow> (Inl e, d) | Inr p \<Rightarrow> RemoveHelperFromPath p d)"

text \<open>Setting the user runs one shell command per field that is not empty; the text is not escaped.\<close>

definition set_user_command :: "string \<Rightarrow> string \<Rightarrow> string \<Rightarrow> string list" where
  "set_user_command userName field v =
     (let shellCommand = ''git config --global '' @ field @ '' '' @ quoted v in
      if userName \<noteq> [] then [''su'', userName, ''-c'', shellCommand] else [''sh'', ''-c'', shellCommand])"

definition set_field :: "(string list \<Rightarrow> string \<times> gerr option) \<Rightarrow> string \<Rightarrow> string \<Rightarrow> string \<Rightarrow> unit result" where
  "set_field run userName field v =
     (if v = [] then Inr ()
      else (case run (set_user_command userName field v) of
              (out, Some e) \<Rightarrow> Inl (wrap (''set '' @ field @ '' '' @ [CHR 0x27] @ Join (set_user_command userName field v) '' '' @
                                          [CHR 0x27]) (WrapCommandError out e))
            | (out, None) \<Rightarrow> Inr ()))"

definition SetUser :: "(string list \<Rightarrow> string \<times> gerr option) \<Rightarrow> string \<Rightarrow> git_user \<Rightarrow> unit result" where
  "SetUser run userName user =
     (case set_field run userName ''user.name'' (gu_Name user) of
        Inl e \<Rightarrow> Inl e
      | Inr _ \<Rightarrow> set_field run userName ''user.email'' (gu_Email user))"

definition git_GetUser :: "(string list \<Rightarrow> string) \<Rightarrow> string result \<Rightarrow> string \<Rightarrow> git_user result" where
  "git_GetUser output configPath userName =
     (case (if userName \<noteq> [] then map_sum id (\<lambda>p. [''config'', ''--file'', p]) configPath else Inr [''config'', ''--global'']) of
        Inl e \<Rightarrow> Inl (wrap (''get git global dir for '' @ userName) e)
      | Inr scopeArgs \<Rightarrow>
          Inr \<lparr>gu_Name = TrimSpace (output (''git'' # scopeArgs @ [''user.name''])),
               gu_Email = TrimSpace (output (''git'' # scopeArgs @ [''user.email'']))\<rparr>)"

text \<open>A command with its standard input.\<close>

definition GetCredentials ::
    "(string \<Rightarrow> string) \<Rightarrow> string result \<Rightarrow> (string list \<Rightarrow> string list \<Rightarrow> string \<Rightarrow> string result) \<Rightarrow> git_credentials \<Rightarrow> git_credentials result" where
  "GetCredentials env executable run request =
     (let port = env ''DEVPOD_GIT_HELPER_PORT'' in
      if port \<noteq> [] then
        (case executable of
           Inl e \<Rightarrow> Inl e
         | Inr binaryPath \<Rightarrow>
             map_sum id Parse_credentials
               (run [] [binaryPath, ''agent'', ''git-credentials'', ''--port'', port, ''get''] (credentials_ToString request)))
      else map_sum id Parse_credentials
             (run (GetDefaultExtraEnv False) [''git'', ''credential'', ''fill''] (credentials_ToString request)))"

section \<open>Credentials\<close>

definition clean_value :: "string \<Rightarrow> bool" where
  "clean_value v \<longleftrightarrow> newline \<notin> set v \<and> (v = [] \<or> \<not> is_space (last v))"

definition clean_credentials :: "git_credentials \<Rightarrow> bool" where
  "clean_credentials c \<longleftrightarrow> list_all clean_value
     [gc_Protocol c, gc_URL c, gc_Host c, gc_Path c, gc_Username c, gc_Password c]"

lemma Split_credential:
  assumes "clean_value v" "v \<noteq> []" "key \<noteq> []" "\<not> is_space (hd key)" "CHR ''='' \<notin> set key"
  shows "Split CHR ''='' (TrimSpace (key @ ''='' @ v)) = key # Split CHR ''='' v"
proof -
  have "TrimSpace (key @ ''='' @ v) = key @ ''='' @ v"
    unfolding TrimSpace_def using assms by (intro trim_with_id) (auto simp: clean_value_def)
  with assms(5) show ?thesis by (simp add: Split_append)
qed

lemma parse_credential_pair:
  assumes "clean_value v" "v \<noteq> []" "key \<noteq> []" "\<not> is_space (hd key)" "CHR ''='' \<notin> set key"
  shows "parse_credential (key @ ''='' @ v) c =
    (if key = ''protocol'' then c\<lparr>gc_Protocol := v\<rparr> else if key = ''host'' then c\<lparr>gc_Host := v\<rparr>
     else if key = ''username'' then c\<lparr>gc_Username := v\<rparr> else if key = ''password'' then c\<lparr>gc_Password := v\<rparr>
     else if key = ''url'' then c\<lparr>gc_URL := v\<rparr> else if key = ''path'' then c\<lparr>gc_Path := v\<rparr> else c)"
  unfolding parse_credential_def Split_credential [OF assms] by (simp only: Let_def list.sel Join_Split) simp

lemma parse_credential_line:
  assumes "clean_value v"
  shows "fold parse_credential (credential_line ''protocol'' v) c = (if v = [] then c else c\<lparr>gc_Protocol := v\<rparr>)"
    "fold parse_credential (credential_line ''url'' v) c = (if v = [] then c else c\<lparr>gc_URL := v\<rparr>)"
    "fold parse_credential (credential_line ''path'' v) c = (if v = [] then c else c\<lparr>gc_Path := v\<rparr>)"
    "fold parse_credential (credential_line ''host'' v) c = (if v = [] then c else c\<lparr>gc_Host := v\<rparr>)"
    "fold parse_credential (credential_line ''username'' v) c = (if v = [] then c else c\<lparr>gc_Username := v\<rparr>)"
    "fold parse_credential (credential_line ''password'' v) c = (if v = [] then c else c\<lparr>gc_Password := v\<rparr>)"
  using parse_credential_pair [OF assms, of "''protocol''"] parse_credential_pair [OF assms, of "''url''"]
    parse_credential_pair [OF assms, of "''path''"] parse_credential_pair [OF assms, of "''host''"]
    parse_credential_pair [OF assms, of "''username''"] parse_credential_pair [OF assms, of "''password''"]
  by (simp_all add: credential_line_def is_space_def)

lemma no_newline_credential_line:
  "clean_value v \<Longrightarrow> newline \<notin> set k \<Longrightarrow> l \<in> set (credential_line k v) \<Longrightarrow> newline \<notin> set l"
  by (auto simp: credential_line_def clean_value_def newline_def)

lemma Split_Join_newline:
  assumes "\<And>l. l \<in> set ls \<Longrightarrow> c \<notin> set l"
  shows "Split c (Join ls [c] @ c # s) = (if ls = [] then [[]] else ls) @ Split c s"
  using assms Split_Join [of ls c] by (simp add: Split_append')

lemma parse_credential_blank: "parse_credential [] c = c"
  by (simp add: parse_credential_def TrimSpace_def trim_with_def)

text \<open>Parsing the text of credentials gives the credentials back, when no value has a line break or ends with
  white space: values with equals signs survive, and empty values are left out and read as empty.\<close>

theorem credentials_roundtrip:
  assumes "clean_credentials c"
  shows "Parse_credentials (credentials_ToString c) = c"
proof -
  define ls where "ls = credential_line ''protocol'' (gc_Protocol c) @ credential_line ''url'' (gc_URL c) @
    credential_line ''path'' (gc_Path c) @ credential_line ''host'' (gc_Host c) @
    credential_line ''username'' (gc_Username c) @ credential_line ''password'' (gc_Password c)"
  have v: "clean_value (gc_Protocol c)" "clean_value (gc_URL c)" "clean_value (gc_Path c)" "clean_value (gc_Host c)"
    "clean_value (gc_Username c)" "clean_value (gc_Password c)" using assms by (auto simp: clean_credentials_def)
  have nl: "newline \<notin> set l" if "l \<in> set ls" for l
    using that v unfolding ls_def set_append Un_iff
    by (elim disjE) (erule no_newline_credential_line [rotated 2], assumption, simp add: newline_def)+
  have "Split newline (credentials_ToString c) = (if ls = [] then [[]] else ls) @ [[]]"
    using Split_Join_newline [of ls newline "[]", OF nl] unfolding credentials_ToString_def ls_def [symmetric] by simp
  then have "Parse_credentials (credentials_ToString c) = fold parse_credential ls no_credentials"
    by (simp add: Parse_credentials_def parse_credential_blank)
  also have "\<dots> = c"
    unfolding ls_def fold_append o_apply by (cases c) (use v in \<open>auto simp: parse_credential_line no_credentials_def\<close>)
  finally show ?thesis .
qed

theorem credentials_roundtrip_witness:
  "clean_credentials \<lparr>gc_Protocol = ''https'', gc_URL = [], gc_Host = ''github.com'', gc_Path = [], gc_Username = ''me'', gc_Password = ''a=b==''\<rparr> \<and>
   Parse_credentials (credentials_ToString
     \<lparr>gc_Protocol = ''https'', gc_URL = [], gc_Host = ''github.com'', gc_Path = [], gc_Username = ''me'', gc_Password = ''a=b==''\<rparr>) =
     \<lparr>gc_Protocol = ''https'', gc_URL = [], gc_Host = ''github.com'', gc_Path = [], gc_Username = ''me'', gc_Password = ''a=b==''\<rparr>"
proof -
  have "clean_credentials \<lparr>gc_Protocol = ''https'', gc_URL = [], gc_Host = ''github.com'', gc_Path = [], gc_Username = ''me'', gc_Password = ''a=b==''\<rparr>"
    by code_simp
  then show ?thesis using credentials_roundtrip by blast
qed

section \<open>The helper in the git configuration\<close>

lemma Contains_append: "Contains (a @ p @ b) p"
proof (induction a)
  case Nil
  have "HasPrefix (p @ b) p" by (simp add: HasPrefix_def)
  then show ?case by (cases "p @ b") auto
qed simp

lemma remove_credential_clean:
  "\<forall>l \<in> set (remove_credential_lines b ls). TrimSpace l \<noteq> ''[credential]''"
proof (induction ls arbitrary: b)
  case (Cons x ls)
  from Cons [of True] Cons [of False] show ?case by simp
qed simp

lemma remove_credential_append:
  "\<forall>l \<in> set ls. TrimSpace l \<noteq> ''[credential]'' \<Longrightarrow>
    remove_credential_lines False (ls @ rest) = ls @ remove_credential_lines False rest"
  by (induction ls) simp_all

lemma remove_credential_subset: "set (remove_credential_lines b ls) \<subseteq> set ls"
proof (induction ls arbitrary: b)
  case (Cons x ls)
  from Cons [of True] Cons [of False] show ?case by (simp add: subset_insertI2)
qed simp

lemma log_lines_facts:
  assumes "l \<in> set (fst (log_lines s))"
  shows "newline \<notin> set l" "length l < 1048576"
proof -
  have "l \<in> set (raw_lines s)" "length l < 1048576"
    using assms by (auto simp: log_lines_def scan_tokens_def dest: set_takeWhileD)
  then show "newline \<notin> set l" "length l < 1048576"
    using Split_elems [of l newline s] by (auto simp: raw_lines_def Let_def split: if_splits dest: in_set_butlastD)
qed

text \<open>Removing the section of the helper from a configuration to which it was just added.\<close>

lemma removeCredentialHelper_section:
  assumes "newline \<notin> set helper" "length helper + 8 < 1048576" "TrimSpace helper \<noteq> []" "hd (TrimSpace helper) \<noteq> CHR ''[''"
  shows "removeCredentialHelper (removeCredentialHelper t @ helper_section helper) = removeCredentialHelper t"
proof -
  define ls where "ls = remove_credential_lines False (fst (log_lines t))"
  have l: "newline \<notin> set l \<and> length l < 1048576" if "l \<in> set ls" for l
    using that remove_credential_subset [of False "fst (log_lines t)"] log_lines_facts [of l t] unfolding ls_def by blast
  define H where "H = ''        '' @ helper"
  define X where "X = (if ls = [] then [[]] else ls)"
  have h: "newline \<notin> set H" "newline \<notin> set ''[credential]''" "length H < 1048576" "TrimSpace H = TrimSpace helper"
    using assms(1,2) by (auto simp: H_def newline_def TrimSpace_def trim_with_def is_space_def)
  have X: "Join X [newline] = Join ls [newline]" "\<And>l. l \<in> set X \<Longrightarrow> length l < 1048576"
    "\<And>l. l \<in> set X \<Longrightarrow> TrimSpace l \<noteq> ''[credential]''"
    using l remove_credential_clean [of False "fst (log_lines t)"] unfolding ls_def [symmetric]
    by (auto simp: X_def TrimSpace_def trim_with_def split: if_splits)
  let ?t = "removeCredentialHelper t @ helper_section helper"
  have joined: "?t = Join ls [newline] @ newline # ''[credential]'' @ newline # H @ newline # []"
    by (simp add: removeCredentialHelper_def helper_section_def ls_def H_def)
  have "Split newline ?t = X @ [''[credential]'', H, []]"
    unfolding joined X_def
    by (subst Split_Join_newline) (use l in blast, simp only: Split_append [OF h(2)] Split_append [OF h(1)] Split.simps)
  then have "raw_lines ?t = X @ [''[credential]'', H]" by (simp add: raw_lines_def butlast_append)
  then have "fst (log_lines ?t) = X @ [''[credential]'', H]"
    using X(2) h(3) by (simp add: log_lines_def scan_tokens_def)
  moreover have "TrimSpace ''[credential]'' = ''[credential]''"
    by (simp add: TrimSpace_def trim_with_def is_space_def)
  ultimately have "remove_credential_lines False (fst (log_lines ?t)) = X"
    using assms(3,4) X(3) h(4) by (simp add: remove_credential_append)
  then have "removeCredentialHelper ?t = Join X [newline]" by (simp only: removeCredentialHelper_def [of ?t])
  moreover have "removeCredentialHelper t = Join ls [newline]" unfolding removeCredentialHelper_def ls_def ..
  ultimately show ?thesis by (simp only: X(1))
qed

lemma TrimSpace_helper: "\<exists>s. TrimSpace (credential_helper b port) = CHR ''h'' # s"
proof -
  obtain t where "credential_helper b port = CHR ''h'' # t" by (simp add: credential_helper_def)
  then show ?thesis using trim_with_head [of is_space "CHR ''h''" t] by (simp add: TrimSpace_def is_space_def)
qed


definition sample_git_disk :: disk where
  "sample_git_disk = \<lparr>files = [(''/root/.gitconfig'', Join [''[user]'', ''  name = me'', ''[credential]'', ''  helper = store''] [newline])],
     dirs = [], io_error = (\<lambda>_. None)\<rparr>"


end
