(* ===== verification/Archive.thy ===== *)
theory Archive
  imports Workspace_Store Ssh_Config
begin

text \<open>
  Archives: the package \<^verbatim>\<open>pkg/extract\<close>.  The formats themselves (gzip, tar, zip) are arguments that
  decode a text into its entries; an archive that is written is the list of its entries.  The model of
  the file system has no links: making one is an argument, and the archiver only meets files and
  directories.  Permissions, owners and times are left out, and so are failures of the stream that an
  archive is written to.
\<close>

section \<open>Files and directories\<close>

definition is_dir :: "disk \<Rightarrow> string \<Rightarrow> bool" where
  "is_dir d p \<longleftrightarrow> p \<in> set (dirs d) \<or> (\<exists>q \<in> set (keys (files d) @ dirs d). HasPrefix q (p @ ''/''))"

text \<open>\<open>os.OpenFile\<close> with the flags that create and truncate, and the write of the content.\<close>

definition CreateFile :: "string \<Rightarrow> string \<Rightarrow> disk \<Rightarrow> disk result" where
  "CreateFile p content d =
     (if io_error d p = None \<and> is_dir d p then Inl (Err (''open '' @ p @ '': is a directory'')) else WriteFile p content d)"

section \<open>Extracting\<close>

datatype tar_kind = TarFile | TarDir | TarSymlink | TarLink

record tar_entry =
  te_Name :: string
  te_Kind :: tar_kind
  te_Linkname :: string
  te_Content :: string

definition getRelativeFromFullPath :: "string \<Rightarrow> string \<Rightarrow> string" where
  "getRelativeFromFullPath fullpath prefx =
     TrimPrefix (ReplaceAll ''//'' ''/'' (ReplaceAllChar CHR 0x5C ''/'' (drop (length prefx) fullpath))) ''.''"

text \<open>The loop over the levels; it ends early at a path of one element.\<close>

fun strip_levels :: "nat \<Rightarrow> string \<Rightarrow> string" where
  "strip_levels 0 p = p"
| "strip_levels (Suc n) p =
     (let q = TrimPrefix p ''/'' in
      if CHR ''/'' \<notin> set q then q else strip_levels n (tl (dropWhile (\<lambda>c. c \<noteq> CHR ''/'') q)))"

definition extract_path :: "nat \<Rightarrow> string \<Rightarrow> string \<Rightarrow> string" where
  "extract_path stripLevels destFolder name =
     (let p = getRelativeFromFullPath (''/'' @ name) [] in
      path_Join [destFolder, if stripLevels > 0 then ''/'' @ strip_levels stripLevels p else p])"

definition extractNext ::
    "(tar_kind \<Rightarrow> string \<Rightarrow> string \<Rightarrow> disk \<Rightarrow> disk result) \<Rightarrow> nat \<Rightarrow> string \<Rightarrow> tar_entry \<Rightarrow> disk \<Rightarrow> unit result \<times> disk" where
  "extractNext mklink stripLevels destFolder e d =
     (let out = extract_path stripLevels destFolder (te_Name e) in
      case MkdirAll (path_Dir out) d of
        Inl x \<Rightarrow> (Inl x, d)
      | Inr d1 \<Rightarrow>
          (case (case te_Kind e of
                   TarDir \<Rightarrow> MkdirAll out d1
                 | TarFile \<Rightarrow> map_sum (wrap (''create '' @ out)) id (CreateFile out (te_Content e) d1)
                 | k \<Rightarrow> mklink k (te_Linkname e) out d1) of
             Inl x \<Rightarrow> (Inl x, d1)
           | Inr d2 \<Rightarrow> (Inr (), d2)))"

text \<open>The loop over the entries; \<open>err\<close> is the error that ends the stream, if it is not its end.\<close>

fun extract_entries ::
    "(tar_kind \<Rightarrow> string \<Rightarrow> string \<Rightarrow> disk \<Rightarrow> disk result) \<Rightarrow> nat \<Rightarrow> string \<Rightarrow> gerr option \<Rightarrow> tar_entry list \<Rightarrow> disk \<Rightarrow> unit result \<times> disk" where
  "extract_entries mklink stripLevels destFolder err [] d =
     (case err of None \<Rightarrow> (Inr (), d) | Some x \<Rightarrow> (Inl (wrap ''decompress'' (wrap ''tar reader next'' x)), d))"
| "extract_entries mklink stripLevels destFolder err (e # es) d =
     (case extractNext mklink stripLevels destFolder e d of
        (Inl x, d1) \<Rightarrow> (Inl (wrap ''decompress'' x), d1)
      | (Inr _, d1) \<Rightarrow> extract_entries mklink stripLevels destFolder err es d1)"

record archive_codec =
  ac_gzip_header :: "string \<Rightarrow> gerr option"
  ac_untar :: "bool \<Rightarrow> string \<Rightarrow> tar_entry list \<times> gerr option"
  ac_link :: "tar_kind \<Rightarrow> string \<Rightarrow> string \<Rightarrow> disk \<Rightarrow> disk result"

definition Extract :: "archive_codec \<Rightarrow> nat \<Rightarrow> string \<Rightarrow> string \<Rightarrow> disk \<Rightarrow> unit result \<times> disk" where
  "Extract codec stripLevels content destFolder d =
     (if length content < 2 then (Inl (Err ''EOF''), d)
      else
        (let gz = (content ! 0 = CHR 0x1F \<and> content ! 1 = CHR 0x8B) in
         case (if gz then ac_gzip_header codec content else None) of
           Some (Err m) \<Rightarrow> (Inl (Err (''error decompressing: '' @ m)), d)
         | Some (Panic m) \<Rightarrow> (Inl (Panic m), d)
         | None \<Rightarrow>
             (let (es, err) = ac_untar codec gz content in
              extract_entries (ac_link codec) stripLevels destFolder err es d)))"

record zip_entry =
  ze_Name :: string
  ze_IsDir :: bool
  ze_Content :: "string result"

definition unzipFile :: "zip_entry \<Rightarrow> string \<Rightarrow> disk \<Rightarrow> unit result \<times> disk" where
  "unzipFile f destination d =
     (let filePath = path_Join [destination, ze_Name f] in
      if \<not> HasPrefix filePath (Clean destination @ ''/'') then (Inl (Err (''invalid file path: '' @ filePath)), d)
      else if ze_IsDir f then
        (case MkdirAll filePath d of Inl e \<Rightarrow> (Inl e, d) | Inr d1 \<Rightarrow> (Inr (), d1))
      else
        (case MkdirAll (path_Dir filePath) d of
           Inl e \<Rightarrow> (Inl e, d)
         | Inr d1 \<Rightarrow>
             (case CreateFile filePath [] d1 of
                Inl e \<Rightarrow> (Inl e, d1)
              | Inr d2 \<Rightarrow>
                  (case ze_Content f of
                     Inl e \<Rightarrow> (Inl e, d2)
                   | Inr c \<Rightarrow> (case WriteFile filePath c d2 of Inl e \<Rightarrow> (Inl e, d2) | Inr d3 \<Rightarrow> (Inr (), d3))))))"

fun unzip_files :: "zip_entry list \<Rightarrow> string \<Rightarrow> disk \<Rightarrow> unit result \<times> disk" where
  "unzip_files [] destination d = (Inr (), d)"
| "unzip_files (f # fs) destination d =
     (case unzipFile f destination d of
        (Inl e, d1) \<Rightarrow> (Inl e, d1)
      | (Inr _, d1) \<Rightarrow> unzip_files fs destination d1)"

definition UnzipFolder :: "(string \<Rightarrow> zip_entry list result) \<Rightarrow> string \<Rightarrow> string \<Rightarrow> string \<Rightarrow> disk \<Rightarrow> unit result \<times> disk" where
  "UnzipFolder unzip cwd source destination d =
     (case ReadFile d source of
        Inl e \<Rightarrow> (Inl e, d)
      | Inr bytes \<Rightarrow>
          (case unzip bytes of
             Inl e \<Rightarrow> (Inl e, d)
           | Inr fs \<Rightarrow> unzip_files fs (filepath_Abs cwd destination) d))"

section \<open>Archiving\<close>

definition isExcluded :: "string list \<Rightarrow> string \<Rightarrow> bool" where
  "isExcluded excludedPaths relativePath \<longleftrightarrow> list_ex (HasPrefix relativePath) excludedPaths"

text \<open>A loop over a list whose body may run out of fuel.\<close>

fun each :: "('a \<Rightarrow> 's \<Rightarrow> 's option) \<Rightarrow> 'a list \<Rightarrow> 's \<Rightarrow> 's option" where
  "each f [] s = Some s"
| "each f (x # xs) s = (case f x s of None \<Rightarrow> None | Some s1 \<Rightarrow> each f xs s1)"

text \<open>The archiver: the paths it has written, and the entries so far.\<close>

type_synonym archiver = "string list \<times> tar_entry list"

definition write_entry :: "string \<Rightarrow> tar_kind \<Rightarrow> string \<Rightarrow> archiver \<Rightarrow> archiver" where
  "write_entry target kind content a =
     (target # fst a, snd a @ [\<lparr>te_Name = target, te_Kind = kind, te_Linkname = [], te_Content = content\<rparr>])"

definition tarFile :: "string \<Rightarrow> disk \<Rightarrow> string \<Rightarrow> archiver \<Rightarrow> archiver" where
  "tarFile basePath d target a =
     (case ReadFile d (path_Join [basePath, target]) of
        Inl _ \<Rightarrow> (fst a, snd (write_entry target TarFile [] a))
      | Inr c \<Rightarrow> write_entry target TarFile c a)"

text \<open>The recursion through the folders; the fuel is the depth.\<close>

fun AddToArchive :: "nat \<Rightarrow> string \<Rightarrow> string list \<Rightarrow> disk \<Rightarrow> string \<Rightarrow> archiver \<Rightarrow> archiver option" where
  "AddToArchive 0 basePath excluded d relativePath a = None"
| "AddToArchive (Suc n) basePath excluded d relativePath a =
     (let p = path_Join [basePath, relativePath] in
      if relativePath \<in> set (fst a) then Some a
      else if \<not> Stat_ok d p then Some a
      else if is_dir d p then
        (if isExcluded excluded (Clean relativePath @ ''/'') then Some a
         else (case ReadDir d p of
                 Inl _ \<Rightarrow> Some a
               | Inr entries \<Rightarrow>
                   each (\<lambda>f. AddToArchive n basePath excluded d (path_Join [relativePath, fst f])) entries
                     (if entries = [] \<and> relativePath \<noteq> [] then write_entry relativePath TarDir [] a else a)))
      else if isExcluded excluded (Clean relativePath) then Some a
      else Some (tarFile basePath d relativePath a))"

definition WriteTarExclude :: "nat \<Rightarrow> string \<Rightarrow> string \<Rightarrow> string list \<Rightarrow> disk \<Rightarrow> tar_entry list result option" where
  "WriteTarExclude fuel cwd localPath excludedPaths d =
     (let absolute = filepath_Abs cwd localPath in
      if \<not> Stat_ok d absolute then Some (Inl (wrap ''stat'' (no_such_file absolute)))
      else map_option (\<lambda>a. Inr (snd a))
             (if is_dir d absolute then AddToArchive fuel absolute excludedPaths d [] ([], [])
              else AddToArchive fuel (path_Dir absolute) excludedPaths d (path_Base absolute) ([], [])))"

definition WriteTar :: "nat \<Rightarrow> string \<Rightarrow> string \<Rightarrow> disk \<Rightarrow> tar_entry list result option" where
  "WriteTar fuel cwd localPath d = WriteTarExclude fuel cwd localPath [] d"

end
