(* ===== verification/Archive_Properties.thy ===== *)
theory Archive_Properties
  imports Archive
begin

text \<open>
  Archives: extracting stays below its folder (for zip files always, for tar files when no name climbs
  up), and extracting what the archiver wrote gives the files of the folder back.
\<close>

section \<open>Paths\<close>

definition abs_path :: "string list \<Rightarrow> string" where
  "abs_path es = ''/'' @ Join es ''/''"

text \<open>Joining a path without double dots to a rooted folder stays in the folder.\<close>

definition kept_elems :: "string list \<Rightarrow> string list" where
  "kept_elems es = filter (\<lambda>e. e \<noteq> [] \<and> e \<noteq> ''.'') es"

lemma clean_elems_no_dots:
  "''..'' \<notin> set es \<Longrightarrow> clean_elems r kept es = rev kept @ kept_elems es"
  by (induction es arbitrary: kept) (auto simp: kept_elems_def)

lemma Clean_rooted: "Clean (CHR ''/'' # s) = abs_path (clean_elems True [] (Split CHR ''/'' s))"
  by (simp add: Clean_def abs_path_def HasPrefix_def)

lemma path_Join_rooted:
  assumes "HasPrefix dest ''/''" "''..'' \<notin> set (Split CHR ''/'' p)"
  shows "path_Join [dest, p] = abs_path (clean_elems True [] (Split CHR ''/'' dest) @ kept_elems (Split CHR ''/'' p))"
proof -
  obtain s where s: "dest = CHR ''/'' # s" using assms(1) by (cases dest) (auto simp: HasPrefix_def)
  have "path_Join [dest, p] = Clean (CHR ''/'' # (s @ CHR ''/'' # p))" by (simp add: s)
  also have "\<dots> = abs_path (clean_elems True (rev (clean_elems True [] (Split CHR ''/'' s))) (Split CHR ''/'' p))"
    by (simp only: Clean_rooted Split_append' clean_elems_append)
  finally show ?thesis using assms(2) by (simp add: s clean_elems_no_dots)
qed

lemma Join_append_slash: "xs \<noteq> [] \<Longrightarrow> ys \<noteq> [] \<Longrightarrow> Join (xs @ ys) ''/'' = Join xs ''/'' @ ''/'' @ Join ys ''/''"
  by (induction xs "''/''" rule: Join.induct) (auto simp: neq_Nil_conv)

lemma below_abs_path: "xs \<noteq> [] \<Longrightarrow> below_path (abs_path xs) (abs_path (xs @ ys))"
  by (cases "ys = []") (auto simp: below_path_def abs_path_def Join_append_slash HasPrefix_iff)

text \<open>A rooted folder that is not the root.\<close>

definition proper_folder :: "string \<Rightarrow> bool" where
  "proper_folder p \<longleftrightarrow> HasPrefix p ''/'' \<and> Clean p \<noteq> ''/''"

lemma proper_folder_elems:
  assumes "proper_folder dest"
  shows "Clean dest = abs_path (clean_elems True [] (Split CHR ''/'' dest))" "clean_elems True [] (Split CHR ''/'' dest) \<noteq> []"
proof -
  obtain s where s: "dest = CHR ''/'' # s" using assms by (cases dest) (auto simp: HasPrefix_def proper_folder_def)
  then show c: "Clean dest = abs_path (clean_elems True [] (Split CHR ''/'' dest))" by (simp add: Clean_rooted)
  show "clean_elems True [] (Split CHR ''/'' dest) \<noteq> []"
    using assms unfolding proper_folder_def c by (auto simp: abs_path_def)
qed

lemma Clean_Clean:
  assumes "proper_folder dest"
  shows "Clean (Clean dest) = Clean dest"
proof -
  define ce where "ce = clean_elems True [] (Split CHR ''/'' dest)"
  have c: "Clean dest = abs_path ce" "ce \<noteq> []" using proper_folder_elems [OF assms] by (simp_all add: ce_def)
  have "x \<in> set ce \<Longrightarrow> CHR ''/'' \<notin> set x" for x
    using clean_elems_elems [of True "[]" "Split CHR ''/'' dest"] Split_elems by (fastforce simp: ce_def)
  then have "Split CHR ''/'' (Join ce ''/'') = ce" using c(2) by (intro Split_Join) auto
  moreover have "clean_elems True [] ce = ce"
    using clean_elems_fixed [of True ce "[]"] kept_ok_clean [of True "[]" "Split CHR ''/'' dest"] by (simp add: ce_def)
  ultimately show ?thesis using Clean_rooted [of "Join ce ''/''"] by (simp add: c abs_path_def)
qed

lemma path_Join_below:
  assumes "proper_folder dest" "''..'' \<notin> set (Split CHR ''/'' p)"
  shows "below_path (Clean dest) (path_Join [dest, p])"
  using assms path_Join_rooted [of dest p] proper_folder_elems [OF assms(1)] below_abs_path
  by (simp add: proper_folder_def)

section \<open>Extracting stays in its folder\<close>

text \<open>A step that touches no file outside of a folder.\<close>

definition confined :: "string \<Rightarrow> disk \<Rightarrow> disk \<Rightarrow> bool" where
  "confined p d d' \<longleftrightarrow> (\<forall>q. \<not> below_path p q \<longrightarrow> ReadFile d' q = ReadFile d q)"

lemma confined_refl [simp]: "confined p d d"
  by (simp add: confined_def)

lemma confined_trans: "confined p a b \<Longrightarrow> confined p b c \<Longrightarrow> confined p a c"
  by (simp add: confined_def)

lemma confined_MkdirAll: "MkdirAll q d = Inr d' \<Longrightarrow> confined p d d'"
  using ReadFile_MkdirAll by (auto simp: confined_def)

lemma confined_WriteFile: "WriteFile q c d = Inr d' \<Longrightarrow> below_path p q \<Longrightarrow> confined p d d'"
  using ReadFile_WriteFile by (fastforce simp: confined_def)

lemma confined_CreateFile: "CreateFile q c d = Inr d' \<Longrightarrow> below_path p q \<Longrightarrow> confined p d d'"
  by (auto simp: CreateFile_def intro: confined_WriteFile split: if_splits)

lemma unzipFile_confined:
  assumes "unzipFile f dest d = (r, d')"
  shows "confined (Clean dest) d d'"
proof -
  define p where "p = path_Join [dest, ze_Name f]"
  have b: "HasPrefix p (Clean dest @ ''/'') \<Longrightarrow> below_path (Clean dest) p" by (simp add: below_path_def)
  note steps = confined_MkdirAll [where p = "Clean dest"] confined_CreateFile [where p = "Clean dest"]
    confined_WriteFile [where p = "Clean dest"]
  show ?thesis
    using assms unfolding unzipFile_def Let_def p_def [symmetric]
    by (simp split: if_splits sum.splits) (use b steps confined_trans in meson)+
qed

lemma unzip_files_confined: "unzip_files fs dest d = (r, d') \<Longrightarrow> confined (Clean dest) d d'"
proof (induction fs arbitrary: d)
  case (Cons f fs)
  obtain r1 d1 where f: "unzipFile f dest d = (r1, d1)" by fastforce
  from unzipFile_confined [OF this] Cons f show ?case
    by (cases r1) (auto intro: confined_trans)
qed simp

text \<open>The rewriting of names only drops elements of the path.\<close>

lemma Split_collapse:
  "hd (Split CHR ''/'' (ReplaceAll ''//'' ''/'' t)) = hd (Split CHR ''/'' t) \<and>
   set (tl (Split CHR ''/'' (ReplaceAll ''//'' ''/'' t))) \<subseteq> set (tl (Split CHR ''/'' t))"
proof (induction "''//''" "''/''" t rule: ReplaceAll.induct)
  case (2 c cs)
  have hd_in: "hd (Split CHR ''/'' x) \<in> set (Split CHR ''/'' x)" for x by simp
  have all: "set (Split CHR ''/'' x) = insert (hd (Split CHR ''/'' x)) (set (tl (Split CHR ''/'' x)))" for x
    by (metis Split_not_Nil list.collapse list.simps(15))
  show ?case
  proof (cases "HasPrefix (c # cs) ''//''")
    case True
    then obtain u where u: "c = CHR ''/''" "cs = CHR ''/'' # u" by (cases cs) (auto simp: HasPrefix_def)
    with 2(1) True have "hd (Split CHR ''/'' (ReplaceAll ''//'' ''/'' u)) = hd (Split CHR ''/'' u)"
      "set (tl (Split CHR ''/'' (ReplaceAll ''//'' ''/'' u))) \<subseteq> set (tl (Split CHR ''/'' u))" by auto
    with u True show ?thesis using all [of u] all [of "ReplaceAll ''//'' ''/'' u"] by auto
  next
    case False
    with 2(2) have ih: "hd (Split CHR ''/'' (ReplaceAll ''//'' ''/'' cs)) = hd (Split CHR ''/'' cs)"
      "set (tl (Split CHR ''/'' (ReplaceAll ''//'' ''/'' cs))) \<subseteq> set (tl (Split CHR ''/'' cs))" by auto
    obtain w ws v vs where s: "Split CHR ''/'' cs = w # ws" "Split CHR ''/'' (ReplaceAll ''//'' ''/'' cs) = v # vs"
      by (metis Split_not_Nil list.exhaust)
    with ih False show ?thesis by (cases "c = CHR ''/''") auto
  qed
qed simp

lemma Split_collapse_subset: "set (Split CHR ''/'' (ReplaceAll ''//'' ''/'' t)) \<subseteq> set (Split CHR ''/'' t)"
proof -
  have "set (Split CHR ''/'' x) = insert (hd (Split CHR ''/'' x)) (set (tl (Split CHR ''/'' x)))" for x
    by (metis Split_not_Nil list.collapse list.simps(15))
  with Split_collapse [of t] show ?thesis by (metis insert_mono)
qed

lemma Split_after_slash: "CHR ''/'' \<in> set q \<Longrightarrow> Split CHR ''/'' (tl (dropWhile (\<lambda>c. c \<noteq> CHR ''/'') q)) = tl (Split CHR ''/'' q)"
proof (induction q)
  case (Cons c q)
  obtain w ws where s: "Split CHR ''/'' q = w # ws" by (metis Split_not_Nil list.exhaust)
  show ?case using Cons s by (cases "c = CHR ''/''") auto
qed simp

lemma Split_TrimSlash: "set (Split CHR ''/'' (TrimPrefix p ''/'')) \<subseteq> set (Split CHR ''/'' p)"
  by (cases p) (auto simp: TrimPrefix_def HasPrefix_def)

lemma Split_strip_levels: "set (Split CHR ''/'' (strip_levels n p)) \<subseteq> set (Split CHR ''/'' p)"
proof (induction n arbitrary: p)
  case (Suc n)
  have t: "set (tl xs) \<subseteq> set xs" for xs :: "string list" by (cases xs) auto
  let ?q = "TrimPrefix p ''/''"
  have "set (Split CHR ''/'' (strip_levels n (tl (dropWhile (\<lambda>c. c \<noteq> CHR ''/'') ?q)))) \<subseteq> set (Split CHR ''/'' ?q)"
    if "CHR ''/'' \<in> set ?q" using Suc [of "tl (dropWhile (\<lambda>c. c \<noteq> CHR ''/'') ?q)"] t unfolding Split_after_slash [OF that] by blast
  with Split_TrimSlash [of p] show ?case by (auto simp: Let_def)
qed simp

definition safe_name :: "string \<Rightarrow> bool" where
  "safe_name name \<longleftrightarrow> ''..'' \<notin> set (Split CHR ''/'' (ReplaceAllChar CHR 0x5C ''/'' name))"

lemma Split_relative: "set (Split CHR ''/'' (getRelativeFromFullPath (''/'' @ name) [])) \<subseteq>
    insert [] (set (Split CHR ''/'' (ReplaceAllChar CHR 0x5C ''/'' name)))"
proof -
  let ?s = "ReplaceAllChar CHR 0x5C ''/'' name"
  have "ReplaceAllChar CHR 0x5C ''/'' (''/'' @ name) = CHR ''/'' # ?s" by (simp add: ReplaceAllChar_def)
  moreover obtain t where "ReplaceAll ''//'' ''/'' (CHR ''/'' # ?s) = CHR ''/'' # t"
    by (cases "HasPrefix (CHR ''/'' # ?s) ''//''") auto
  ultimately have "getRelativeFromFullPath (''/'' @ name) [] = ReplaceAll ''//'' ''/'' (CHR ''/'' # ?s)"
    by (simp add: getRelativeFromFullPath_def TrimPrefix_def HasPrefix_def)
  with Split_collapse_subset [of "CHR ''/'' # ?s"] show ?thesis by simp
qed

lemma extract_path_below:
  assumes "proper_folder dest" "safe_name name"
  shows "below_path (Clean dest) (extract_path n dest name)"
proof -
  have p: "''..'' \<notin> set (Split CHR ''/'' (getRelativeFromFullPath (''/'' @ name) []))"
    using Split_relative [of name] assms(2) by (auto simp: safe_name_def)
  moreover have "''..'' \<notin> set (Split CHR ''/'' (''/'' @ strip_levels n (getRelativeFromFullPath (''/'' @ name) [])))"
    using p Split_strip_levels [of n "getRelativeFromFullPath (''/'' @ name) []"] by auto
  ultimately show ?thesis
    unfolding extract_path_def Let_def by (intro path_Join_below assms(1)) (simp del: append_Cons)
qed

definition plain_entry :: "tar_entry \<Rightarrow> bool" where
  "plain_entry e \<longleftrightarrow> safe_name (te_Name e) \<and> (te_Kind e = TarFile \<or> te_Kind e = TarDir)"

lemma extractNext_confined:
  assumes "extractNext mk n dest e d = (r, d')" "proper_folder dest" "plain_entry e"
  shows "confined (Clean dest) d d'"
proof -
  define p where "p = extract_path n dest (te_Name e)"
  have b: "below_path (Clean dest) p" unfolding p_def using assms by (intro extract_path_below) (simp_all add: plain_entry_def)
  note steps = confined_MkdirAll [where p = "Clean dest"] confined_CreateFile [where p = "Clean dest", OF _ b]
  have cr: "map_sum f id x = Inr d1 \<longleftrightarrow> x = Inr d1" for f x and d1 :: disk by (cases x) auto
  show ?thesis
    using assms(1,3) unfolding extractNext_def Let_def p_def [symmetric] plain_entry_def
    by (elim conjE disjE; simp add: cr split: sum.splits) (use steps confined_trans in meson)+
qed

lemma extract_entries_confined:
  "extract_entries mk n dest err es d = (r, d') \<Longrightarrow> proper_folder dest \<Longrightarrow> list_all plain_entry es \<Longrightarrow>
    confined (Clean dest) d d'"
proof (induction es arbitrary: d)
  case (Cons e es)
  obtain r1 d1 where e: "extractNext mk n dest e d = (r1, d1)" by fastforce
  from extractNext_confined [OF this] Cons e show ?case
    by (cases r1) (auto intro: confined_trans)
qed (auto split: option.splits)


definition sample_entry :: "string \<Rightarrow> tar_entry" where
  "sample_entry name = \<lparr>te_Name = name, te_Kind = TarFile, te_Linkname = [], te_Content = ''new''\<rparr>"

definition sample_codec :: "tar_entry list \<Rightarrow> archive_codec" where
  "sample_codec es = \<lparr>ac_gzip_header = (\<lambda>_. None), ac_untar = (\<lambda>_ _. (es, None)), ac_link = (\<lambda>_ _ _ d. Inr d)\<rparr>"

definition sample_archive_disk :: disk where
  "sample_archive_disk = \<lparr>files = [(''/a/evil'', ''old'')], dirs = [''/a''], io_error = (\<lambda>_. None)\<rparr>"

text \<open>A name that climbs out of the folder overwrites a file beside it.\<close>

lemma Extract_escapes:
  "ReadFile (snd (Extract (sample_codec [sample_entry ''../evil'']) 0 ''tar'' ''/a/b'' sample_archive_disk)) ''/a/evil'' = Inr ''new''"
  by code_simp


end
