(* ===== verification/Archive_Roundtrip.thy ===== *)
theory Archive_Roundtrip
  imports Archive_Properties
begin

text \<open>
  Archiving a folder and extracting the archive elsewhere gives the files of the folder back, without
  the excluded ones.  Paths are handled as lists of their elements.
\<close>

section \<open>Paths as lists of elements\<close>

definition rel_path :: "string list \<Rightarrow> string" where
  "rel_path es = Join es ''/''"

abbreviation plain_path :: "string list \<Rightarrow> bool" where
  "plain_path \<equiv> list_all plain_name"

lemma plain_no_slash: "plain_path es \<Longrightarrow> e \<in> set es \<Longrightarrow> CHR ''/'' \<notin> set e"
  by (auto simp: list_all_iff plain_name_def)

lemma Split_rel_path: "plain_path es \<Longrightarrow> es \<noteq> [] \<Longrightarrow> Split CHR ''/'' (rel_path es) = es"
  unfolding rel_path_def by (rule Split_Join) (auto dest: plain_no_slash)

lemma rel_path_inject: "plain_path xs \<Longrightarrow> plain_path ys \<Longrightarrow> rel_path xs = rel_path ys \<longleftrightarrow> xs = ys"
proof -
  have "rel_path xs = [] \<longleftrightarrow> xs = []" if "plain_path xs" for xs
    using that by (auto simp: rel_path_def plain_name_def)
  then show "plain_path xs \<Longrightarrow> plain_path ys \<Longrightarrow> rel_path xs = rel_path ys \<longleftrightarrow> xs = ys"
    by (metis Split_rel_path)
qed

lemma abs_path_inject: "plain_path xs \<Longrightarrow> plain_path ys \<Longrightarrow> abs_path xs = abs_path ys \<longleftrightarrow> xs = ys"
  using rel_path_inject [of xs ys] by (simp add: abs_path_def rel_path_def)

lemma kept_plain: "plain_path es \<Longrightarrow> kept_elems es = es"
  by (induction es) (auto simp: kept_elems_def plain_name_def)

lemma plain_no_dots: "plain_path es \<Longrightarrow> ''..'' \<notin> set es"
  by (auto simp: list_all_iff plain_name_def)

lemma kept_rel_path: "plain_path es \<Longrightarrow> kept_elems (Split CHR ''/'' (rel_path es)) = es \<and> ''..'' \<notin> set (Split CHR ''/'' (rel_path es))"
  by (cases "es = []") (auto simp: Split_rel_path kept_plain plain_no_dots, simp_all add: rel_path_def kept_elems_def)

lemma elems_abs_path:
  assumes "plain_path bs" "bs \<noteq> []"
  shows "clean_elems True [] (Split CHR ''/'' (abs_path bs)) = bs"
  using assms Split_rel_path [OF assms] clean_elems_plain [OF assms(1), of True "[]"]
  by (simp add: abs_path_def rel_path_def)

lemma join_abs_path:
  assumes "plain_path bs" "bs \<noteq> []" "plain_path es"
  shows "path_Join [abs_path bs, rel_path es] = abs_path (bs @ es)"
  using path_Join_rooted [of "abs_path bs" "rel_path es"] kept_rel_path [OF assms(3)] elems_abs_path [OF assms(1,2)]
  by (simp add: abs_path_def HasPrefix_def)

lemma Clean_rel_path:
  assumes "plain_path es" "es \<noteq> []"
  shows "Clean (rel_path es) = rel_path es"
proof -
  obtain e es' where e: "es = e # es'" "e \<noteq> []" "hd e \<noteq> CHR ''/''"
    using assms by (cases es) (auto simp: plain_name_def, metis list.set_sel(1))
  then have "\<not> HasPrefix (rel_path es) ''/''" "rel_path es \<noteq> []"
    by (cases e; cases es'; simp add: rel_path_def HasPrefix_def)+
  then show ?thesis
    using Split_rel_path [OF assms] clean_elems_plain [OF assms(1), of False "[]"] by (simp add: Clean_def rel_path_def)
qed

lemma join_rel_path:
  assumes "plain_path es" "plain_name n"
  shows "path_Join [rel_path es, n] = rel_path (es @ [n])"
proof (cases "es = []")
  case True
  have "Clean (rel_path [n]) = rel_path [n]" by (rule Clean_rel_path) (use assms(2) in auto)
  with True assms(2) show ?thesis by (simp add: rel_path_def plain_name_def)
next
  case False
  then have "rel_path es \<noteq> []" using assms(1) by (auto simp: rel_path_def plain_name_def)
  moreover have "rel_path es @ CHR ''/'' # n = rel_path (es @ [n])" using False by (simp add: rel_path_def Join_append_slash)
  ultimately show ?thesis using Clean_rel_path [of "es @ [n]"] assms by simp
qed

text \<open>What lies below a path.\<close>

lemma HasPrefix_abs_path:
  assumes "plain_path xs" "xs \<noteq> []" "plain_path ys"
  shows "HasPrefix (abs_path ys) (abs_path xs @ ''/'') \<longleftrightarrow> (\<exists>n fs. ys = xs @ n # fs)"
proof
  assume "HasPrefix (abs_path ys) (abs_path xs @ ''/'')"
  then obtain s where s: "rel_path ys = rel_path xs @ CHR ''/'' # s"
    by (auto simp: HasPrefix_iff abs_path_def rel_path_def)
  then have "ys \<noteq> []" by (auto simp: rel_path_def)
  with s have "ys = xs @ Split CHR ''/'' s" using Split_rel_path assms by (metis Split_append')
  then show "\<exists>n fs. ys = xs @ n # fs" by (metis Split_not_Nil list.exhaust)
qed (use assms in \<open>auto simp: abs_path_def Join_append_slash HasPrefix_iff\<close>)

lemma below_abs_path_iff:
  assumes "plain_path xs" "xs \<noteq> []" "plain_path ys"
  shows "below_path (abs_path xs) (abs_path ys) \<longleftrightarrow> (\<exists>fs. ys = xs @ fs)"
  using HasPrefix_abs_path [OF assms] abs_path_inject [OF assms(3,1)]
  by (auto simp: below_path_def) (metis append_Nil2 list.exhaust)

lemma entry_of_abs_path:
  assumes "plain_path xs" "xs \<noteq> []" "plain_path (n # fs)"
  shows "entry_of (abs_path xs) (abs_path (xs @ n # fs)) = n"
proof -
  have "drop (length (abs_path xs) + 1) (abs_path (xs @ n # fs)) = rel_path (n # fs)"
    using assms by (simp add: abs_path_def rel_path_def Join_append_slash)
  moreover have "takeWhile (\<lambda>c. c \<noteq> CHR ''/'') (rel_path (n # fs)) = n"
    using assms(3) by (cases fs) (auto simp: rel_path_def plain_name_def takeWhile_append)
  ultimately show ?thesis by (simp add: entry_of_def)
qed

lemma length_abs_path: "xs \<noteq> [] \<Longrightarrow> length (abs_path (xs @ n # fs)) > length (abs_path xs)"
  by (simp add: abs_path_def Join_append_slash)

section \<open>Trees\<close>

definition paths :: "disk \<Rightarrow> string set" where
  "paths d = set (keys (files d) @ dirs d)"

definition canonical :: "string \<Rightarrow> bool" where
  "canonical p \<longleftrightarrow> (let es = Split CHR ''/'' (tl p) in plain_path es \<and> p = abs_path es)"

text \<open>A file system whose paths are clean, where no file is a directory and no operation fails.\<close>

definition tree_ok :: "disk \<Rightarrow> bool" where
  "tree_ok d \<longleftrightarrow> wf_map (files d) \<and> io_error d = (\<lambda>_. None) \<and> (\<forall>p \<in> paths d. canonical p) \<and>
     (\<forall>p \<in> set (keys (files d)). \<not> is_dir d p)"

lemma canonicalE:
  assumes "canonical p"
  obtains es where "p = abs_path es" "plain_path es" "es \<noteq> []"
  using assms unfolding canonical_def Let_def by (metis Split_not_Nil)

lemma canonical_abs_path: "plain_path es \<Longrightarrow> es \<noteq> [] \<Longrightarrow> canonical (abs_path es)"
  using Split_rel_path by (simp add: canonical_def abs_path_def rel_path_def Let_def)

lemma path_exists_tree:
  assumes "tree_ok d" "plain_path xs" "xs \<noteq> []"
  shows "path_exists d (abs_path xs) \<longleftrightarrow> (\<exists>fs. plain_path fs \<and> abs_path (xs @ fs) \<in> paths d)"
proof
  assume "path_exists d (abs_path xs)"
  then obtain q where q: "q \<in> paths d" "below_path (abs_path xs) q" by (auto simp: path_exists_def paths_def)
  then obtain ys where "q = abs_path ys" "plain_path ys" using assms(1) canonicalE by (auto simp: tree_ok_def)
  with q below_abs_path_iff [OF assms(2,3)] show "\<exists>fs. plain_path fs \<and> abs_path (xs @ fs) \<in> paths d" by auto
qed (use assms below_abs_path in \<open>auto simp: path_exists_def paths_def\<close>)

lemma is_dir_tree:
  assumes "tree_ok d" "plain_path xs" "xs \<noteq> []"
  shows "is_dir d (abs_path xs) \<longleftrightarrow>
    abs_path xs \<in> set (dirs d) \<or> (\<exists>n fs. plain_path (n # fs) \<and> abs_path (xs @ n # fs) \<in> paths d)"
proof -
  have "(\<exists>q \<in> paths d. HasPrefix q (abs_path xs @ ''/'')) \<longleftrightarrow> (\<exists>n fs. plain_path (n # fs) \<and> abs_path (xs @ n # fs) \<in> paths d)"
  proof
    assume "\<exists>q \<in> paths d. HasPrefix q (abs_path xs @ ''/'')"
    then obtain q where q: "q \<in> paths d" "HasPrefix q (abs_path xs @ ''/'')" by blast
    then obtain ys where "q = abs_path ys" "plain_path ys" using assms(1) canonicalE by (auto simp: tree_ok_def)
    with q HasPrefix_abs_path [OF assms(2,3)] obtain n fs where "ys = xs @ n # fs" by auto
    with q \<open>q = abs_path ys\<close> \<open>plain_path ys\<close> have "plain_path (n # fs)" "abs_path (xs @ n # fs) \<in> paths d" by auto
    then show "\<exists>n fs. plain_path (n # fs) \<and> abs_path (xs @ n # fs) \<in> paths d" by blast
  next
    assume "\<exists>n fs. plain_path (n # fs) \<and> abs_path (xs @ n # fs) \<in> paths d"
    then obtain n fs where "plain_path (n # fs)" "abs_path (xs @ n # fs) \<in> paths d" by blast
    with HasPrefix_abs_path [OF assms(2,3), of "xs @ n # fs"] assms(2)
    show "\<exists>q \<in> paths d. HasPrefix q (abs_path xs @ ''/'')" by (intro bexI [of _ "abs_path (xs @ n # fs)"]) auto
  qed
  then show ?thesis by (simp add: is_dir_def paths_def)
qed

lemma file_no_dir:
  assumes "tree_ok d" "map_of (files d) p = Some c"
  shows "\<not> is_dir d p" "p \<in> paths d"
proof -
  have "p \<in> set (keys (files d))" using assms(2) by (simp add: in_keys_iff del: set_map)
  with assms(1) show "\<not> is_dir d p" "p \<in> paths d" by (auto simp: tree_ok_def paths_def)
qed

lemma ReadDir_tree:
  assumes "tree_ok d" "plain_path xs" "xs \<noteq> []" "path_exists d (abs_path xs)"
  obtains es where "ReadDir d (abs_path xs) = Inr es" "distinct (map fst es)"
    "\<And>n. n \<in> set (map fst es) \<longleftrightarrow> (\<exists>fs. plain_path (n # fs) \<and> abs_path (xs @ n # fs) \<in> paths d)"
proof -
  define inside where "inside = filter (\<lambda>q. HasPrefix q (abs_path xs @ ''/'')) (keys (files d) @ dirs d)"
  define names where "names = sort (remdups (map (entry_of (abs_path xs)) inside))"
  define f where "f = (\<lambda>n. (n, n \<notin> set (map (drop (length (abs_path xs) + 1)) (filter (\<lambda>q. HasPrefix q (abs_path xs @ ''/'')) (keys (files d))))))"
  have r: "ReadDir d (abs_path xs) = Inr (map f names)"
    using assms(1,4) by (simp add: ReadDir_def tree_ok_def inside_def names_def f_def Let_def)
  have fst: "map fst (map f names) = names" by (simp add: f_def comp_def)
  have "n \<in> set names \<longleftrightarrow> (\<exists>fs. plain_path (n # fs) \<and> abs_path (xs @ n # fs) \<in> paths d)" for n
  proof
    assume "n \<in> set names"
    then obtain q where q: "q \<in> paths d" "HasPrefix q (abs_path xs @ ''/'')" "n = entry_of (abs_path xs) q"
      by (auto simp: names_def inside_def paths_def)
    then obtain ys where ys: "q = abs_path ys" "plain_path ys" using assms(1) canonicalE by (auto simp: tree_ok_def)
    with q HasPrefix_abs_path [OF assms(2,3)] obtain m fs where "ys = xs @ m # fs" by auto
    with q ys entry_of_abs_path [OF assms(2,3), of m fs]
    show "\<exists>fs. plain_path (n # fs) \<and> abs_path (xs @ n # fs) \<in> paths d" by auto
  next
    assume "\<exists>fs. plain_path (n # fs) \<and> abs_path (xs @ n # fs) \<in> paths d"
    then obtain fs where p: "plain_path (n # fs)" "abs_path (xs @ n # fs) \<in> paths d" by blast
    then have "HasPrefix (abs_path (xs @ n # fs)) (abs_path xs @ ''/'')"
      using HasPrefix_abs_path [OF assms(2,3), of "xs @ n # fs"] assms(2) by auto
    with p have "abs_path (xs @ n # fs) \<in> set inside" by (auto simp: inside_def paths_def)
    then have "entry_of (abs_path xs) (abs_path (xs @ n # fs)) \<in> set names"
      unfolding names_def by (simp only: set_sort set_remdups set_map) (rule imageI)
    with entry_of_abs_path [OF assms(2,3) p(1)] show "n \<in> set names" by simp
  qed
  moreover have "distinct names" by (simp add: names_def)
  ultimately show ?thesis using that [OF r] unfolding fst by blast
qed

section \<open>What the archiver writes\<close>

text \<open>The path \<open>es @ fs\<close> is excluded by itself or by one of the folders from \<open>es\<close> on.\<close>

definition excluded_from :: "string list \<Rightarrow> string list \<Rightarrow> string list \<Rightarrow> bool" where
  "excluded_from X es fs \<longleftrightarrow> isExcluded X (rel_path (es @ fs)) \<or>
     (\<exists>k < length fs. isExcluded X (Clean (rel_path (es @ take k fs)) @ ''/''))"

lemma excluded_from_code [code]:
  "excluded_from X es fs \<longleftrightarrow> isExcluded X (rel_path (es @ fs)) \<or>
     list_ex (\<lambda>k. isExcluded X (Clean (rel_path (es @ take k fs)) @ ''/'')) [0..<length fs]"
  by (auto simp: excluded_from_def list_ex_iff)

definition tarred :: "string list \<Rightarrow> string list \<Rightarrow> disk \<Rightarrow> string list \<Rightarrow> (string \<times> string) set" where
  "tarred X bs d es = {(rel_path (es @ fs), c) | fs c. plain_path fs \<and>
     map_of (files d) (abs_path (bs @ es @ fs)) = Some c \<and> \<not> excluded_from X es fs}"

definition file_entries :: "tar_entry list \<Rightarrow> (string \<times> string) set" where
  "file_entries es = (\<lambda>e. (te_Name e, te_Content e)) ` {e \<in> set es. te_Kind e = TarFile}"

definition entry_at :: "string list \<Rightarrow> disk \<Rightarrow> string list \<Rightarrow> tar_entry \<Rightarrow> bool" where
  "entry_at bs d es e \<longleftrightarrow> (\<exists>fs. plain_path fs \<and> es @ fs \<noteq> [] \<and> te_Name e = rel_path (es @ fs) \<and>
     (te_Kind e = TarFile \<or> te_Kind e = TarDir \<and> is_dir d (abs_path (bs @ es @ fs))))"

text \<open>The archiver added the entries of some paths below \<open>es\<close>, with the given files.\<close>

definition adds :: "string list \<Rightarrow> disk \<Rightarrow> string list \<Rightarrow> (string \<times> string) set \<Rightarrow> archiver \<Rightarrow> archiver \<Rightarrow> bool" where
  "adds bs d es F a a' \<longleftrightarrow> (\<exists>new. snd a' = snd a @ new \<and> set (fst a') = set (fst a) \<union> te_Name ` set new \<and>
     te_Name ` set new \<inter> set (fst a) = {} \<and> distinct (map te_Name new) \<and> file_entries new = F \<and> (\<forall>e \<in> set new. entry_at bs d es e))"

definition unwritten :: "string list \<Rightarrow> archiver \<Rightarrow> bool" where
  "unwritten es a \<longleftrightarrow> (\<forall>fs. plain_path fs \<longrightarrow> rel_path (es @ fs) \<notin> set (fst a))"

lemma entry_at_child: "entry_at bs d (es @ [n]) e \<Longrightarrow> plain_name n \<Longrightarrow> entry_at bs d es e"
  unfolding entry_at_def by (elim exE, rule_tac x = "n # fs" in exI) auto

lemma adds_unwritten:
  assumes "adds bs d (es @ [m]) F a a'" "unwritten (es @ [n]) a" "m \<noteq> n" "plain_path es" "plain_name m" "plain_name n"
  shows "unwritten (es @ [n]) a'"
  unfolding unwritten_def
proof (intro allI impI notI)
  fix fs assume fs: "plain_path fs" "rel_path ((es @ [n]) @ fs) \<in> set (fst a')"
  from assms(1) obtain new where new: "set (fst a') = set (fst a) \<union> te_Name ` set new" "\<forall>e \<in> set new. entry_at bs d (es @ [m]) e"
    by (auto simp: adds_def)
  with fs assms(2) obtain e where "e \<in> set new" "te_Name e = rel_path ((es @ [n]) @ fs)" by (auto simp: unwritten_def)
  with new(2) obtain gs where "plain_path gs" "rel_path ((es @ [m]) @ gs) = rel_path ((es @ [n]) @ fs)"
    by (auto simp: entry_at_def)
  with rel_path_inject [of "(es @ [m]) @ gs" "(es @ [n]) @ fs"] assms fs show False by auto
qed

lemma adds_append:
  assumes "adds bs d (es @ [n]) F a b" "adds bs d es G b c" "plain_name n"
  shows "adds bs d es (F \<union> G) a c"
proof -
  from assms(1) obtain x where x: "snd b = snd a @ x" "set (fst b) = set (fst a) \<union> te_Name ` set x"
    "te_Name ` set x \<inter> set (fst a) = {}" "distinct (map te_Name x)" "file_entries x = F" "\<forall>e \<in> set x. entry_at bs d (es @ [n]) e" by (auto simp: adds_def)
  from assms(2) obtain y where y: "snd c = snd b @ y" "set (fst c) = set (fst b) \<union> te_Name ` set y"
    "te_Name ` set y \<inter> set (fst b) = {}" "distinct (map te_Name y)" "file_entries y = G" "\<forall>e \<in> set y. entry_at bs d es e" by (auto simp: adds_def)
  show ?thesis
    unfolding adds_def
  proof (intro exI [of _ "x @ y"] conjI ballI)
    show "file_entries (x @ y) = F \<union> G" using x(5) y(5) by (auto simp: file_entries_def)
    show "entry_at bs d es e" if "e \<in> set (x @ y)" for e using that x(6) y(6) entry_at_child assms(3) by auto
  qed (use x y in auto)
qed

lemma each_fst: "each (\<lambda>x. h (fst x)) xs a = each h (map fst xs) a"
  by (induction xs arbitrary: a) (auto split: option.splits)

lemma adds_nothing: "adds bs d es {} a a"
  by (auto simp: adds_def file_entries_def)

lemma each_adds:
  assumes "\<And>n a. n \<in> set ns \<Longrightarrow> unwritten (es @ [n]) a \<Longrightarrow> \<exists>a'. h n a = Some a' \<and> adds bs d (es @ [n]) (F n) a a'"
    and "distinct ns" "list_all plain_name ns" "plain_path es" "\<And>n. n \<in> set ns \<Longrightarrow> unwritten (es @ [n]) a"
  shows "\<exists>a'. each h ns a = Some a' \<and> adds bs d es (\<Union>n \<in> set ns. F n) a a'"
  using assms
proof (induction ns arbitrary: a)
  case Nil
  then show ?case using adds_nothing by simp
next
  case (Cons n ns)
  obtain b where b: "h n a = Some b" "adds bs d (es @ [n]) (F n) a b" using Cons.prems(1) [of n a] Cons.prems(5) by auto
  have "unwritten (es @ [m]) b" if "m \<in> set ns" for m
    using that Cons.prems by (intro adds_unwritten [OF b(2)]) (auto simp: list_all_iff)
  then obtain c where c: "each h ns b = Some c" "adds bs d es (\<Union>n \<in> set ns. F n) b c"
    using Cons.IH [of b] Cons.prems by auto
  then show ?case using b(1) adds_append [OF b(2) c(2)] Cons.prems(3) by auto
qed

lemma adds_entry:
  assumes "plain_path es" "es \<noteq> []" "rel_path es \<notin> set (fst a)" "k = TarFile \<or> k = TarDir \<and> is_dir d (abs_path (bs @ es))"
  shows "adds bs d es (if k = TarFile then {(rel_path es, c)} else {}) a (write_entry (rel_path es) k c a)"
proof -
  have "\<exists>fs. plain_path fs \<and> (es \<noteq> [] \<or> fs \<noteq> []) \<and> rel_path es = rel_path (es @ fs) \<and>
      (k = TarFile \<or> k = TarDir \<and> is_dir d (abs_path (bs @ es @ fs)))"
    by (rule exI [of _ "[]"]) (use assms in auto)
  then show ?thesis
    unfolding adds_def write_entry_def
    by (intro exI [of _ "[\<lparr>te_Name = rel_path es, te_Kind = k, te_Linkname = [], te_Content = c\<rparr>]"])
      (use assms in \<open>auto simp: file_entries_def entry_at_def\<close>)
qed

text \<open>The files below a folder are those below its entries.\<close>

lemma excluded_from_Cons:
  "excluded_from X es (n # fs) \<longleftrightarrow> isExcluded X (Clean (rel_path es) @ ''/'') \<or> excluded_from X (es @ [n]) fs"
  unfolding excluded_from_def by (auto simp: Ex_less_Suc2)

lemma tarred_folder:
  assumes "tree_ok d" "plain_path (bs @ es)" "bs \<noteq> []" "is_dir d (abs_path (bs @ es))"
    and names: "\<And>n. n \<in> set ns \<longleftrightarrow> (\<exists>fs. plain_path (n # fs) \<and> abs_path ((bs @ es) @ n # fs) \<in> paths d)"
  shows "tarred X bs d es = (if isExcluded X (Clean (rel_path es) @ ''/'') then {} else \<Union>n \<in> set ns. tarred X bs d (es @ [n]))"
proof -
  have ne: "fs \<noteq> []" if "map_of (files d) (abs_path (bs @ es @ fs)) = Some c" for fs c
    using file_no_dir(1) [OF assms(1) that] assms(4) by auto
  have inn: "n \<in> set ns" if "map_of (files d) (abs_path (bs @ es @ n # fs)) = Some c" "plain_path (n # fs)" for n fs c
    using file_no_dir(2) [OF assms(1) that(1)] that(2) names by auto
  have pn: "plain_name n" if "n \<in> set ns" for n using that names by auto
  have child: "(r, c) \<in> tarred X bs d (es @ [n]) \<longleftrightarrow> (\<exists>fs. r = rel_path (es @ n # fs) \<and> plain_path fs \<and>
      map_of (files d) (abs_path (bs @ es @ n # fs)) = Some c \<and> \<not> excluded_from X (es @ [n]) fs)" for r c n
    by (auto simp: tarred_def)
  have "(r, c) \<in> tarred X bs d es \<longleftrightarrow>
      \<not> isExcluded X (Clean (rel_path es) @ ''/'') \<and> (\<exists>n \<in> set ns. (r, c) \<in> tarred X bs d (es @ [n]))" (is "?L \<longleftrightarrow> ?R") for r c
  proof
    assume ?L
    then obtain fs where fs: "r = rel_path (es @ fs)" "plain_path fs" "map_of (files d) (abs_path (bs @ es @ fs)) = Some c"
      "\<not> excluded_from X es fs" by (auto simp: tarred_def)
    with ne [OF fs(3)] obtain n gs where "fs = n # gs" by (cases fs) auto
    with fs inn [of n gs c] show ?R by (auto simp: excluded_from_Cons child)
  next
    assume ?R
    then obtain n gs where n: "n \<in> set ns" "r = rel_path (es @ n # gs)" "plain_path gs"
      "map_of (files d) (abs_path (bs @ es @ n # gs)) = Some c" "\<not> excluded_from X es (n # gs)"
      by (auto simp: excluded_from_Cons child)
    then have "plain_path (n # gs)" using pn by simp
    with n show ?L unfolding tarred_def by blast
  qed
  then show ?thesis by auto
qed

lemma tarred_file:
  assumes "tree_ok d" "plain_path (bs @ es)" "bs \<noteq> []" "map_of (files d) (abs_path (bs @ es)) = Some c"
  shows "tarred X bs d es = (if isExcluded X (rel_path es) then {} else {(rel_path es, c)})"
proof -
  have "fs = []" if "plain_path fs" "map_of (files d) (abs_path (bs @ es @ fs)) = Some c'" for fs c'
  proof (rule ccontr)
    assume "fs \<noteq> []"
    then obtain n gs where fs: "fs = n # gs" by (cases fs) auto
    have "is_dir d (abs_path (bs @ es))"
      using is_dir_tree [OF assms(1,2)] assms(3) that fs file_no_dir(2) [OF assms(1) that(2)] by auto
    then show False using file_no_dir(1) [OF assms(1,4)] by simp
  qed
  moreover have "excluded_from X es [] = isExcluded X (rel_path es)" by (simp add: excluded_from_def)
  ultimately have "(r, c') \<in> tarred X bs d es \<longleftrightarrow> r = rel_path es \<and> c' = c \<and> \<not> isExcluded X (rel_path es)" for r c'
    unfolding tarred_def using assms(4) by (auto, (metis append_Nil2 option.inject)+, (rule_tac x = "[]" in exI, simp))
  then show ?thesis by auto
qed

declare path_Join.simps [simp del] AddToArchive.simps [simp del] split_paired_Ex [simp del]

lemma each_cong: "(\<And>x a. x \<in> set xs \<Longrightarrow> f x a = g x a) \<Longrightarrow> each f xs a = each g xs a"
  by (induction xs arbitrary: a) (auto split: option.splits)

lemma unwritten_self: "unwritten es a \<Longrightarrow> rel_path es \<notin> set (fst a)"
  unfolding unwritten_def by (metis append_Nil2 list.pred_inject(1))

lemma AddToArchive_file:
  assumes d: "tree_ok d" and bs: "plain_path bs" "bs \<noteq> []" and es: "plain_path es" "es \<noteq> []"
    and c: "map_of (files d) (abs_path (bs @ es)) = Some c" and w: "unwritten es a"
  shows "\<exists>a'. AddToArchive (Suc n) (abs_path bs) X d (rel_path es) a = Some a' \<and> adds bs d es (tarred X bs d es) a a'"
proof -
  have be: "plain_path (bs @ es)" using bs es by auto
  have p: "path_Join [abs_path bs, rel_path es] = abs_path (bs @ es)" by (rule join_abs_path [OF bs es(1)])
  have "path_exists d (abs_path (bs @ es))"
    using path_exists_tree [OF d be] bs(2) file_no_dir(2) [OF d c] by (metis Nil_is_append_conv append_Nil2 list.pred_inject(1))
  then have st: "Stat_ok d (abs_path (bs @ es))" using d by (simp add: Stat_ok_def tree_ok_def)
  have "tarFile (abs_path bs) d (rel_path es) a = write_entry (rel_path es) TarFile c a"
    using c d by (simp add: tarFile_def p ReadFile_def tree_ok_def)
  then have "AddToArchive (Suc n) (abs_path bs) X d (rel_path es) a =
      (if isExcluded X (rel_path es) then Some a else Some (write_entry (rel_path es) TarFile c a))"
    using st file_no_dir(1) [OF d c] unwritten_self [OF w] Clean_rel_path [OF es] by (simp add: AddToArchive.simps(2) p Let_def)
  then show ?thesis
    using tarred_file [OF d be bs(2) c, of X] adds_nothing [of bs d es a]
      adds_entry [OF es unwritten_self [OF w], of TarFile d bs c] by auto
qed

lemma AddToArchive_folder:
  assumes d: "tree_ok d" and bs: "plain_path bs" "bs \<noteq> []" and es: "plain_path es"
    and dir: "is_dir d (abs_path (bs @ es))" "path_exists d (abs_path (bs @ es))" and w: "unwritten es a"
    and IH: "\<And>m b. plain_name m \<Longrightarrow> path_exists d (abs_path (bs @ es @ [m])) \<Longrightarrow> unwritten (es @ [m]) b \<Longrightarrow>
      \<exists>a'. AddToArchive n (abs_path bs) X d (rel_path (es @ [m])) b = Some a' \<and> adds bs d (es @ [m]) (tarred X bs d (es @ [m])) b a'"
  shows "\<exists>a'. AddToArchive (Suc n) (abs_path bs) X d (rel_path es) a = Some a' \<and> adds bs d es (tarred X bs d es) a a'"
proof -
  have be: "plain_path (bs @ es)" "bs @ es \<noteq> []" using bs es by auto
  have p: "path_Join [abs_path bs, rel_path es] = abs_path (bs @ es)" by (rule join_abs_path [OF bs es])
  have st: "Stat_ok d (abs_path (bs @ es))" using dir d by (simp add: Stat_ok_def tree_ok_def)
  obtain fs where fs: "ReadDir d (abs_path (bs @ es)) = Inr fs" "distinct (map fst fs)"
    "\<And>m. m \<in> set (map fst fs) \<longleftrightarrow> (\<exists>gs. plain_path (m # gs) \<and> abs_path ((bs @ es) @ m # gs) \<in> paths d)"
    using ReadDir_tree [OF d be dir(2)] by blast
  note t = tarred_folder [OF d be(1) bs(2) dir(1) fs(3)]
  let ?x = "isExcluded X (Clean (rel_path es) @ ''/'')"
  let ?a = "if fs = [] \<and> rel_path es \<noteq> [] then write_entry (rel_path es) TarDir [] a else a"
  let ?h = "\<lambda>m. AddToArchive n (abs_path bs) X d (rel_path (es @ [m]))"
  have names: "plain_name m \<and> path_exists d (abs_path (bs @ es @ [m])) \<and> unwritten (es @ [m]) a" if m: "m \<in> set (map fst fs)" for m
  proof -
    obtain gs where "plain_path (m # gs)" "abs_path ((bs @ es) @ m # gs) \<in> paths d" using fs(3) [of m] m by blast
    moreover from this have "path_exists d (abs_path (bs @ es @ [m]))"
      using path_exists_tree [OF d, of "bs @ es @ [m]"] be by auto
    moreover have "unwritten (es @ [m]) a" if "plain_name m" using w that unfolding unwritten_def
      by (metis append.assoc append_Cons append_Nil list.pred_inject(2))
    ultimately show ?thesis by simp
  qed
  have eq: "AddToArchive (Suc n) (abs_path bs) X d (rel_path es) a = (if ?x then Some a else each ?h (map fst fs) ?a)"
  proof -
    have "each (\<lambda>f. AddToArchive n (abs_path bs) X d (path_Join [rel_path es, fst f])) fs b = each ?h (map fst fs) b" for b
      unfolding each_fst [symmetric] using names join_rel_path [OF es] by (intro each_cong) auto
    then show ?thesis using dir(1) st unwritten_self [OF w] fs(1) by (simp add: AddToArchive.simps(2) p Let_def)
  qed
  show ?thesis
  proof (cases "?x \<or> fs = []")
    case True
    have "adds bs d es {} a ?a"
      using adds_nothing [of bs d es a] adds_entry [OF es _ unwritten_self [OF w], of TarDir d bs "[]"] dir(1)
      by (auto simp: rel_path_def)
    with True t [of X] adds_nothing [of bs d es a] show ?thesis unfolding eq by auto
  next
    case False
    have "\<exists>a'. each ?h (map fst fs) a = Some a' \<and> adds bs d es (\<Union>m \<in> set (map fst fs). tarred X bs d (es @ [m])) a a'"
      by (rule each_adds [OF _ fs(2) _ es]) (use names IH in \<open>auto simp: list_all_iff\<close>)
    with False t [of X] show ?thesis unfolding eq by simp
  qed
qed

text \<open>With more fuel than paths are long, the archiver returns and adds the files below its path.\<close>

lemma AddToArchive_adds:
  assumes d: "tree_ok d" and bs: "plain_path bs" "bs \<noteq> []" "is_dir d (abs_path bs)"
    and N: "\<And>p. p \<in> paths d \<Longrightarrow> length p \<le> N"
  shows "plain_path es \<Longrightarrow> path_exists d (abs_path (bs @ es)) \<Longrightarrow> N < length (abs_path (bs @ es)) + n \<Longrightarrow> unwritten es a \<Longrightarrow>
    \<exists>a'. AddToArchive n (abs_path bs) X d (rel_path es) a = Some a' \<and> adds bs d es (tarred X bs d es) a a'"
proof (induction n arbitrary: es a)
  case 0
  have "plain_path (bs @ es)" "bs @ es \<noteq> []" using 0 bs by auto
  then obtain fs where fs: "abs_path ((bs @ es) @ fs) \<in> paths d" using path_exists_tree [OF d] 0 by blast
  have "length (abs_path (bs @ es)) \<le> length (abs_path ((bs @ es) @ fs))"
    using length_abs_path [of "bs @ es"] \<open>bs @ es \<noteq> []\<close> by (cases fs) (auto intro: less_imp_le)
  with N [OF fs] 0 show ?case by simp
next
  case (Suc n)
  have be: "plain_path (bs @ es)" "bs @ es \<noteq> []" using Suc.prems bs by auto
  show ?case
  proof (cases "is_dir d (abs_path (bs @ es))")
    case True
    show ?thesis
    proof (rule AddToArchive_folder [OF d bs(1,2) Suc.prems(1) True Suc.prems(2,4)])
      fix m b assume m: "plain_name m" "path_exists d (abs_path (bs @ es @ [m]))" "unwritten (es @ [m]) b"
      have "length (abs_path (bs @ es)) < length (abs_path (bs @ es @ [m]))" using length_abs_path [OF be(2), of m "[]"] by simp
      with Suc.IH [of "es @ [m]" b] m Suc.prems
      show "\<exists>a'. AddToArchive n (abs_path bs) X d (rel_path (es @ [m])) b = Some a' \<and>
          adds bs d (es @ [m]) (tarred X bs d (es @ [m])) b a'" by simp
    qed
  next
    case False
    obtain fs where fs: "plain_path fs" "abs_path ((bs @ es) @ fs) \<in> paths d"
      using path_exists_tree [OF d be] Suc.prems(2) by blast
    have "fs = []" using False fs is_dir_tree [OF d be] by (cases fs) auto
    with fs False is_dir_tree [OF d be] have "abs_path (bs @ es) \<in> set (keys (files d))" by (auto simp: paths_def)
    then obtain c where "map_of (files d) (abs_path (bs @ es)) = Some c" unfolding in_keys_iff by blast
    moreover have "es \<noteq> []" using False bs(3) by auto
    ultimately show ?thesis using AddToArchive_file [OF d bs(1,2) Suc.prems(1) _ _ Suc.prems(4)] by blast
  qed
qed

section \<open>Extracting the entries\<close>

definition no_backslash :: "string list \<Rightarrow> bool" where
  "no_backslash gs \<longleftrightarrow> list_all (\<lambda>g. CHR 0x5C \<notin> set g) gs"

lemma ReplaceAll_no_slashes: "CHR ''/'' \<notin> set g \<Longrightarrow> ReplaceAll ''//'' ''/'' (g @ s) = g @ ReplaceAll ''//'' ''/'' s"
  by (induction g) (auto simp: HasPrefix_def)

lemma ReplaceAll_rel_path: "plain_path gs \<Longrightarrow> gs \<noteq> [] \<Longrightarrow> ReplaceAll ''//'' ''/'' (CHR ''/'' # rel_path gs) = CHR ''/'' # rel_path gs"
proof (induction gs)
  case (Cons g gs)
  obtain c cs where c: "g = c # cs" "c \<noteq> CHR ''/''" using Cons.prems by (cases g) (auto simp: plain_name_def)
  have g: "CHR ''/'' \<notin> set g" using Cons.prems by (simp add: plain_name_def)
  have "ReplaceAll ''//'' ''/'' (rel_path (g # gs)) = rel_path (g # gs)"
  proof (cases gs)
    case Nil
    with ReplaceAll_no_slashes [OF g, of "[]"] show ?thesis by (simp add: rel_path_def)
  next
    case (Cons a b)
    with Cons.IH Cons.prems have "ReplaceAll ''//'' ''/'' (CHR ''/'' # rel_path gs) = CHR ''/'' # rel_path gs" by simp
    with ReplaceAll_no_slashes [OF g, of "CHR ''/'' # rel_path gs"] Cons show ?thesis by (simp add: rel_path_def)
  qed
  moreover have "\<not> HasPrefix (CHR ''/'' # rel_path (g # gs)) ''//''"
    using c by (cases gs) (auto simp: HasPrefix_def rel_path_def)
  ultimately show ?case by simp
qed simp

lemma no_backslash_rel_path: "no_backslash gs \<Longrightarrow> CHR 0x5C \<notin> set (rel_path gs)"
  by (induction gs "''/''" rule: Join.induct) (auto simp: no_backslash_def rel_path_def)

lemma extract_path_rel_path:
  assumes "plain_path ds" "ds \<noteq> []" "plain_path gs" "gs \<noteq> []" "no_backslash gs"
  shows "extract_path 0 (abs_path ds) (rel_path gs) = abs_path (ds @ gs)"
proof -
  have "ReplaceAllChar CHR 0x5C ''/'' s = s" if "CHR 0x5C \<notin> set s" for s
    using that by (induction s) (auto simp: ReplaceAllChar_def)
  then have "getRelativeFromFullPath (''/'' @ rel_path gs) [] = CHR ''/'' # rel_path gs"
    using no_backslash_rel_path [OF assms(5)] ReplaceAll_rel_path [OF assms(3,4)]
    by (simp add: getRelativeFromFullPath_def TrimPrefix_def HasPrefix_def)
  moreover have "path_Join [abs_path ds, CHR ''/'' # rel_path gs] = abs_path (ds @ gs)"
    using path_Join_rooted [of "abs_path ds" "CHR ''/'' # rel_path gs"] elems_abs_path [OF assms(1,2)]
      Split_rel_path [OF assms(3,4)] kept_plain [OF assms(3)] plain_no_dots [OF assms(3)]
    by (simp add: abs_path_def HasPrefix_def kept_elems_def)
  ultimately show ?thesis by (simp add: extract_path_def)
qed

lemma path_Dir_abs_path:
  assumes "plain_path xs" "xs \<noteq> []" "plain_name g"
  shows "path_Dir (abs_path (xs @ [g])) = abs_path xs"
proof -
  have e: "abs_path (xs @ [g]) = (abs_path xs @ ''/'') @ g" using assms by (simp add: abs_path_def Join_append_slash)
  have "takeWhile (\<lambda>c. c \<noteq> CHR ''/'') (rev g) = rev g \<and> dropWhile (\<lambda>c. c \<noteq> CHR ''/'') (rev g @ CHR ''/'' # s) = CHR ''/'' # s" for s
    using assms(3) by (auto simp: plain_name_def dropWhile_append)
  then have "upto_last_slash (abs_path (xs @ [g])) = CHR ''/'' # (rel_path xs @ ''/'')"
    unfolding e by (simp add: upto_last_slash_def) (simp add: abs_path_def rel_path_def)
  moreover have "clean_elems True [] (Split CHR ''/'' (rel_path xs @ ''/'')) = xs"
    using Split_append' [of "CHR ''/''" "rel_path xs" "[]"] Split_rel_path [OF assms(1,2)] clean_elems_plain [OF assms(1), of True "[]"]
    by (simp add: clean_elems_append)
  ultimately show ?thesis by (simp add: path_Dir_def Clean_rooted)
qed

lemma is_dir_iff: "is_dir d p \<longleftrightarrow> p \<in> set (dirs d) \<or> (\<exists>q \<in> fst ` set (files d) \<union> set (dirs d). HasPrefix q (p @ ''/''))"
  by (simp add: is_dir_def)

lemma is_dir_MkdirAll:
  assumes "MkdirAll q d = Inr d'"
  shows "is_dir d' p \<longleftrightarrow> is_dir d p \<or> below_path p q"
proof -
  have f: "files d' = files d" "set (dirs d') = insert q (set (dirs d))"
    using assms by (auto simp: MkdirAll_def split: option.splits)
  show ?thesis unfolding is_dir_iff below_path_def f by blast
qed

lemma is_dir_WriteFile:
  assumes "WriteFile q c d = Inr d'"
  shows "is_dir d' p \<longleftrightarrow> is_dir d p \<or> HasPrefix q (p @ ''/'')"
proof -
  have d': "d' = d\<lparr>files := AList.update q c (files d)\<rparr>"
    using assms by (auto simp: WriteFile_def split: option.splits)
  have f: "fst ` set (files d') = insert q (fst ` set (files d))" "dirs d' = dirs d"
    unfolding d' by (simp_all add: dom_update)
  show ?thesis unfolding is_dir_iff f by blast
qed

text \<open>The entries \<open>es\<close> have been extracted into the folder \<open>ds\<close>, and nothing else is in it.\<close>

definition unpacked :: "string list \<Rightarrow> disk \<Rightarrow> tar_entry list \<Rightarrow> bool" where
  "unpacked ds d es \<longleftrightarrow> io_error d = (\<lambda>_. None) \<and>
     (\<forall>gs. plain_path gs \<longrightarrow> gs \<noteq> [] \<longrightarrow>
       (\<forall>c. map_of (files d) (abs_path (ds @ gs)) = Some c \<longleftrightarrow> (rel_path gs, c) \<in> file_entries es) \<and>
       (is_dir d (abs_path (ds @ gs)) \<longrightarrow>
         (\<exists>e \<in> set es. \<exists>hs. plain_path hs \<and> te_Name e = rel_path (gs @ hs) \<and> (hs \<noteq> [] \<or> te_Kind e = TarDir))))"

definition entry_good :: "tar_entry \<Rightarrow> bool" where
  "entry_good e \<longleftrightarrow> (\<exists>gs. plain_path gs \<and> gs \<noteq> [] \<and> no_backslash gs \<and> te_Name e = rel_path gs) \<and>
     (te_Kind e = TarFile \<or> te_Kind e = TarDir)"

definition no_clash :: "tar_entry list \<Rightarrow> bool" where
  "no_clash es \<longleftrightarrow> (\<forall>e \<in> set es. \<forall>gs. te_Kind e = TarFile \<longrightarrow> plain_path gs \<longrightarrow> te_Name e = rel_path gs \<longrightarrow>
     (\<forall>e' \<in> set es. \<forall>hs. plain_path hs \<longrightarrow> te_Name e' = rel_path (gs @ hs) \<longrightarrow> hs = [] \<and> te_Kind e' = TarFile))"

lemma no_clash_subset: "no_clash es \<Longrightarrow> set fs \<subseteq> set es \<Longrightarrow> no_clash fs"
  unfolding no_clash_def by (meson subsetD)

lemma file_entries_snoc: "file_entries (es @ [e]) =
    file_entries es \<union> (if te_Kind e = TarFile then {(te_Name e, te_Content e)} else {})"
proof -
  have "{x \<in> set (es @ [e]). te_Kind x = TarFile} = {x \<in> set es. te_Kind x = TarFile} \<union> (if te_Kind e = TarFile then {e} else {})"
    by auto
  then show ?thesis unfolding file_entries_def by (simp only: image_Un) simp
qed

lemma unpacked_step:
  assumes u: "unpacked ds d es" and e: "te_Name e = rel_path gs" and io: "io_error d' = (\<lambda>_. None)"
    and f: "\<And>xs c. plain_path xs \<Longrightarrow> xs \<noteq> [] \<Longrightarrow>
      map_of (files d') (abs_path (ds @ xs)) = Some c \<longleftrightarrow>
        (if te_Kind e = TarFile \<and> xs = gs then c = te_Content e else map_of (files d) (abs_path (ds @ xs)) = Some c)"
    and dir: "\<And>xs. plain_path xs \<Longrightarrow> is_dir d' (abs_path (ds @ xs)) \<Longrightarrow>
      is_dir d (abs_path (ds @ xs)) \<or> (\<exists>hs. plain_path hs \<and> gs = xs @ hs \<and> (hs \<noteq> [] \<or> te_Kind e = TarDir))"
    and new: "plain_path gs" "rel_path gs \<notin> te_Name ` set es"
  shows "unpacked ds d' (es @ [e])"
  unfolding unpacked_def
proof (intro conjI allI impI io)
  fix xs c assume xs: "plain_path xs" "xs \<noteq> []"
  have "file_entries (es @ [e]) = file_entries es \<union> (if te_Kind e = TarFile then {(rel_path gs, te_Content e)} else {})"
    using e by (simp add: file_entries_snoc)
  moreover have "(rel_path gs, c) \<notin> file_entries es" for c using new(2) by (auto simp: file_entries_def)
  moreover have "map_of (files d) (abs_path (ds @ xs)) = Some c \<longleftrightarrow> (rel_path xs, c) \<in> file_entries es"
    using u xs by (simp add: unpacked_def)
  ultimately show "map_of (files d') (abs_path (ds @ xs)) = Some c \<longleftrightarrow> (rel_path xs, c) \<in> file_entries (es @ [e])"
    using f [OF xs] rel_path_inject [OF xs(1) new(1)] by auto
next
  fix xs assume xs: "plain_path xs" "xs \<noteq> []" "is_dir d' (abs_path (ds @ xs))"
  from dir [OF xs(1,3)] show "\<exists>e' \<in> set (es @ [e]). \<exists>hs. plain_path hs \<and> te_Name e' = rel_path (xs @ hs) \<and> (hs \<noteq> [] \<or> te_Kind e' = TarDir)"
  proof
    assume "is_dir d (abs_path (ds @ xs))"
    with u xs show ?thesis unfolding unpacked_def by fastforce
  qed (use e in auto)
qed

lemma below_parent:
  assumes "plain_path ds" "ds \<noteq> []" "plain_path xs" "plain_path gs" "gs \<noteq> []" "below_path (abs_path (ds @ xs)) (abs_path (ds @ butlast gs))"
  shows "\<exists>hs. plain_path hs \<and> gs = xs @ hs \<and> hs \<noteq> []"
proof -
  have b: "plain_path (butlast gs)" using assms(4) by (auto simp: list_all_iff dest: in_set_butlastD)
  obtain fs where "butlast gs = xs @ fs" using below_abs_path_iff [of "ds @ xs" "ds @ butlast gs"] assms b by auto
  then have "gs = xs @ (fs @ [last gs])" using assms(5) by (metis append.assoc append_butlast_last_id)
  with assms(4) show ?thesis by (metis Nil_is_append_conv list.distinct(1) list_all_append)
qed

lemma extractNext_dir:
  assumes u: "unpacked ds d es" and ds: "plain_path ds" "ds \<noteq> []" and gs: "plain_path gs" "gs \<noteq> []" "no_backslash gs"
    and e: "te_Name e = rel_path gs" "te_Kind e = TarDir" "rel_path gs \<notin> te_Name ` set es"
  shows "\<exists>d'. extractNext mk 0 (abs_path ds) e d = (Inr (), d') \<and> unpacked ds d' (es @ [e])"
proof -
  have io: "io_error d = (\<lambda>_. None)" using u by (simp add: unpacked_def)
  have p: "extract_path 0 (abs_path ds) (te_Name e) = abs_path (ds @ gs)" using extract_path_rel_path [OF ds gs] e by simp
  obtain d1 where d1: "MkdirAll (path_Dir (abs_path (ds @ gs))) d = Inr d1" "files d1 = files d" "io_error d1 = (\<lambda>_. None)"
    using io by (auto simp: MkdirAll_def)
  obtain d2 where d2: "MkdirAll (abs_path (ds @ gs)) d1 = Inr d2" "files d2 = files d" "io_error d2 = (\<lambda>_. None)"
    using d1 by (auto simp: MkdirAll_def)
  have pd: "path_Dir (abs_path (ds @ gs)) = abs_path (ds @ butlast gs)"
    using path_Dir_abs_path [of "ds @ butlast gs" "last gs"] ds gs by (auto simp: list_all_iff dest: in_set_butlastD)
  have "unpacked ds d2 (es @ [e])"
  proof (rule unpacked_step [OF u e(1) d2(3)])
    fix xs assume xs: "plain_path xs" "is_dir d2 (abs_path (ds @ xs))"
    then have "is_dir d (abs_path (ds @ xs)) \<or> below_path (abs_path (ds @ xs)) (abs_path (ds @ butlast gs)) \<or>
        below_path (abs_path (ds @ xs)) (abs_path (ds @ gs))"
      using is_dir_MkdirAll [OF d2(1)] is_dir_MkdirAll [OF d1(1)] by (auto simp: pd)
    then show "is_dir d (abs_path (ds @ xs)) \<or> (\<exists>hs. plain_path hs \<and> gs = xs @ hs \<and> (hs \<noteq> [] \<or> te_Kind e = TarDir))"
      using below_parent [OF ds xs(1) gs(1,2)] below_abs_path_iff [of "ds @ xs" "ds @ gs"] ds gs xs(1) e(2) by auto
  qed (use d2 e gs in auto)
  moreover have "extractNext mk 0 (abs_path ds) e d = (Inr (), d2)"
    using d1 d2 e(2) by (simp add: extractNext_def p)
  ultimately show ?thesis by blast
qed

lemma extractNext_file:
  assumes u: "unpacked ds d es" and ds: "plain_path ds" "ds \<noteq> []" and gs: "plain_path gs" "gs \<noteq> []" "no_backslash gs"
    and e: "te_Name e = rel_path gs" "te_Kind e = TarFile" "rel_path gs \<notin> te_Name ` set es" and nc: "no_clash (es @ [e])"
  shows "\<exists>d'. extractNext mk 0 (abs_path ds) e d = (Inr (), d') \<and> unpacked ds d' (es @ [e])"
proof -
  have io: "io_error d = (\<lambda>_. None)" using u by (simp add: unpacked_def)
  have p: "extract_path 0 (abs_path ds) (te_Name e) = abs_path (ds @ gs)" using extract_path_rel_path [OF ds gs] e by simp
  have pd: "path_Dir (abs_path (ds @ gs)) = abs_path (ds @ butlast gs)"
    using path_Dir_abs_path [of "ds @ butlast gs" "last gs"] ds gs by (auto simp: list_all_iff dest: in_set_butlastD)
  obtain d1 where d1: "MkdirAll (path_Dir (abs_path (ds @ gs))) d = Inr d1" "files d1 = files d" "io_error d1 = (\<lambda>_. None)"
    using io by (auto simp: MkdirAll_def)
  have "\<not> is_dir d (abs_path (ds @ gs))"
    using u gs nc e unfolding unpacked_def no_clash_def by (metis in_set_conv_decomp tar_kind.distinct(1) Un_iff set_append)
  moreover have "\<not> below_path (abs_path (ds @ gs)) (abs_path (ds @ butlast gs))" using below_parent [OF ds gs(1) gs(1,2)] by auto
  ultimately have nd: "\<not> is_dir d1 (abs_path (ds @ gs))" using is_dir_MkdirAll [OF d1(1)] pd by simp
  obtain d2 where d2: "WriteFile (abs_path (ds @ gs)) (te_Content e) d1 = Inr d2"
    "files d2 = AList.update (abs_path (ds @ gs)) (te_Content e) (files d)" "io_error d2 = (\<lambda>_. None)"
    using d1 by (auto simp: WriteFile_def)
  have "unpacked ds d2 (es @ [e])"
  proof (rule unpacked_step [OF u e(1) d2(3)])
    fix xs assume xs: "plain_path xs" "is_dir d2 (abs_path (ds @ xs))"
    then have "is_dir d (abs_path (ds @ xs)) \<or> below_path (abs_path (ds @ xs)) (abs_path (ds @ butlast gs)) \<or>
        HasPrefix (abs_path (ds @ gs)) (abs_path (ds @ xs) @ ''/'')"
      using is_dir_WriteFile [OF d2(1)] is_dir_MkdirAll [OF d1(1)] by (auto simp: pd)
    then show "is_dir d (abs_path (ds @ xs)) \<or> (\<exists>hs. plain_path hs \<and> gs = xs @ hs \<and> (hs \<noteq> [] \<or> te_Kind e = TarDir))"
      using below_parent [OF ds xs(1) gs(1,2)] HasPrefix_abs_path [of "ds @ xs" "ds @ gs"] ds gs xs(1) by auto
  next
    fix xs c assume "plain_path xs"
    then show "map_of (files d2) (abs_path (ds @ xs)) = Some c \<longleftrightarrow>
        (if te_Kind e = TarFile \<and> xs = gs then c = te_Content e else map_of (files d) (abs_path (ds @ xs)) = Some c)"
      using abs_path_inject [of "ds @ xs" "ds @ gs"] ds gs e(2) by (auto simp: d2(2) update_conv')
  qed (use e gs in auto)
  moreover have "extractNext mk 0 (abs_path ds) e d = (Inr (), d2)"
    using d1 d2 nd e(2) by (simp add: extractNext_def p CreateFile_def)
  ultimately show ?thesis by blast
qed

lemma extract_entries_unpacked:
  "unpacked ds d es \<Longrightarrow> plain_path ds \<Longrightarrow> ds \<noteq> [] \<Longrightarrow> list_all entry_good fs \<Longrightarrow> distinct (map te_Name (es @ fs)) \<Longrightarrow>
    no_clash (es @ fs) \<Longrightarrow> \<exists>d'. extract_entries mk 0 (abs_path ds) None fs d = (Inr (), d') \<and> unpacked ds d' (es @ fs)"
proof (induction fs arbitrary: d es)
  case (Cons e fs)
  from Cons.prems obtain gs where gs: "plain_path gs" "gs \<noteq> []" "no_backslash gs" "te_Name e = rel_path gs"
    "te_Kind e = TarFile \<or> te_Kind e = TarDir" by (auto simp: entry_good_def)
  have new: "rel_path gs \<notin> te_Name ` set es" using Cons.prems(5) gs(4) by auto
  have nc: "no_clash (es @ [e])" by (rule no_clash_subset [OF Cons.prems(6)]) auto
  obtain d1 where d1: "extractNext mk 0 (abs_path ds) e d = (Inr (), d1)" "unpacked ds d1 (es @ [e])"
    using gs(5) extractNext_file [OF Cons.prems(1-3) gs(1-4) _ new nc] extractNext_dir [OF Cons.prems(1-3) gs(1-4) _ new] by blast
  with Cons.IH [OF d1(2)] Cons.prems show ?case by auto
qed auto

section \<open>The round trip\<close>

definition fresh_folder :: "string list \<Rightarrow> disk \<Rightarrow> bool" where
  "fresh_folder ds d \<longleftrightarrow> io_error d = (\<lambda>_. None) \<and> (\<forall>q \<in> paths d. \<not> HasPrefix q (abs_path ds @ ''/''))"

definition unix_names :: "disk \<Rightarrow> bool" where
  "unix_names d \<longleftrightarrow> (\<forall>p \<in> paths d. CHR 0x5C \<notin> set p)"

lemma fresh_unpacked:
  assumes "fresh_folder ds d" "plain_path ds" "ds \<noteq> []"
  shows "unpacked ds d []"
proof -
  have "\<not> HasPrefix (abs_path (ds @ gs) @ s) (abs_path ds @ ''/'') \<Longrightarrow> gs = []" for gs s
    using assms(3) by (cases gs) (auto simp: abs_path_def Join_append_slash HasPrefix_iff)
  then have sub: "gs \<noteq> [] \<Longrightarrow> abs_path (ds @ gs) @ s \<notin> paths d" for gs s
    using assms(1) by (auto simp: fresh_folder_def)
  have "\<not> is_dir d (abs_path (ds @ gs))" if "gs \<noteq> []" for gs
    using sub [OF that] sub [OF that, of "[]"] by (auto simp: is_dir_def paths_def HasPrefix_iff)
  moreover have "map_of (files d) (abs_path (ds @ gs)) = None" if "gs \<noteq> []" for gs
    using sub [OF that, of "[]"] by (auto simp: paths_def map_of_eq_None_iff)
  ultimately show ?thesis using assms(1) by (simp add: unpacked_def fresh_folder_def file_entries_def)
qed

text \<open>The entries of an archive of a tree: where they come from.\<close>

lemma entry_source:
  assumes d: "tree_ok d" and new: "file_entries es = tarred X bs d []" "e \<in> set es" "entry_at bs d [] e"
  obtains fs where "plain_path fs" "fs \<noteq> []" "te_Name e = rel_path fs"
    "te_Kind e = TarFile \<and> (\<exists>c. map_of (files d) (abs_path (bs @ fs)) = Some c) \<or>
     te_Kind e = TarDir \<and> is_dir d (abs_path (bs @ fs))"
proof -
  from new(3) obtain fs where fs: "plain_path fs" "fs \<noteq> []" "te_Name e = rel_path fs"
    "te_Kind e = TarFile \<or> te_Kind e = TarDir \<and> is_dir d (abs_path (bs @ fs))" by (auto simp: entry_at_def)
  have "\<exists>c. map_of (files d) (abs_path (bs @ fs)) = Some c" if "te_Kind e = TarFile"
  proof -
    have "(te_Name e, te_Content e) \<in> tarred X bs d []" using that new(1,2) by (auto simp: file_entries_def)
    then obtain gs where "plain_path gs" "rel_path gs = rel_path fs" "map_of (files d) (abs_path (bs @ gs)) = Some (te_Content e)"
      using fs(3) by (auto simp: tarred_def)
    with rel_path_inject fs(1) show ?thesis by blast
  qed
  with fs that show ?thesis by blast
qed

lemma archive_extractable:
  assumes d: "tree_ok d" "unix_names d" and bs: "plain_path bs" "bs \<noteq> []"
    and new: "file_entries es = tarred X bs d []" "\<forall>e \<in> set es. entry_at bs d [] e"
  shows "list_all entry_good es" "no_clash es"
proof -
  have src: "\<exists>fs. plain_path fs \<and> fs \<noteq> [] \<and> te_Name e = rel_path fs \<and>
      (te_Kind e = TarFile \<and> (\<exists>c. map_of (files d) (abs_path (bs @ fs)) = Some c) \<or>
       te_Kind e = TarDir \<and> is_dir d (abs_path (bs @ fs)))" if e: "e \<in> set es" for e
  proof -
    obtain fs where "plain_path fs" "fs \<noteq> []" "te_Name e = rel_path fs"
      "te_Kind e = TarFile \<and> (\<exists>c. map_of (files d) (abs_path (bs @ fs)) = Some c) \<or>
       te_Kind e = TarDir \<and> is_dir d (abs_path (bs @ fs))"
      by (rule entry_source [OF d(1) new(1) e new(2) [rule_format, OF e]])
    then show ?thesis by (intro exI [of _ fs] conjI)
  qed
  have below: "\<exists>hs. plain_path hs \<and> abs_path (bs @ fs @ hs) \<in> paths d"
    if "plain_path fs" "is_dir d (abs_path (bs @ fs)) \<or> (\<exists>c. map_of (files d) (abs_path (bs @ fs)) = Some c)" for fs
  proof -
    have "path_exists d (abs_path (bs @ fs))"
      using that(2)
    proof
      assume "\<exists>c. map_of (files d) (abs_path (bs @ fs)) = Some c"
      then have "abs_path (bs @ fs) \<in> paths d" using file_no_dir(2) [OF d(1)] by blast
      then show ?thesis unfolding path_exists_def paths_def by (rule bexI [rotated]) simp
    qed (auto simp: is_dir_def path_exists_def below_path_def)
    then show ?thesis using path_exists_tree [OF d(1), of "bs @ fs"] bs that(1) by auto
  qed
  show "list_all entry_good es"
    unfolding list_all_iff
  proof
    fix e assume "e \<in> set es"
    from src [OF this] obtain fs where fs: "plain_path fs" "fs \<noteq> []" "te_Name e = rel_path fs" "te_Kind e = TarFile \<or> te_Kind e = TarDir"
      "is_dir d (abs_path (bs @ fs)) \<or> (\<exists>c. map_of (files d) (abs_path (bs @ fs)) = Some c)" by (elim exE conjE) auto
    obtain hs where "abs_path (bs @ fs @ hs) \<in> paths d" using below [OF fs(1,5)] by blast
    then have "CHR 0x5C \<notin> set (abs_path (bs @ fs @ hs))" using d(2) by (simp add: unix_names_def)
    moreover have "set f \<subseteq> set (Join xs ''/'')" if "f \<in> set xs" for f :: string and xs
      using that by (induction xs "''/''" rule: Join.induct) auto
    from this [of _ "bs @ fs @ hs"] have "set f \<subseteq> set (abs_path (bs @ fs @ hs))" if "f \<in> set fs" for f
      using that by (auto simp: abs_path_def)
    ultimately have "no_backslash fs" by (auto simp: no_backslash_def list_all_iff)
    with fs show "entry_good e" by (auto simp: entry_good_def)
  qed
  show "no_clash es"
    unfolding no_clash_def
  proof (intro ballI allI impI)
    fix e gs e' hs
    assume e: "e \<in> set es" "te_Kind e = TarFile" "plain_path gs" "te_Name e = rel_path gs"
      and e': "e' \<in> set es" "plain_path hs" "te_Name e' = rel_path (gs @ hs)"
    obtain gs' c where "plain_path gs'" "te_Name e = rel_path gs'" "map_of (files d) (abs_path (bs @ gs')) = Some c"
      using src [OF e(1)] e(2) by auto
    with rel_path_inject [of gs' gs] e(3,4) have c: "map_of (files d) (abs_path (bs @ gs)) = Some c" by simp
    obtain fs where fs: "plain_path fs" "te_Name e' = rel_path fs"
      "te_Kind e' = TarFile \<and> (\<exists>c. map_of (files d) (abs_path (bs @ fs)) = Some c) \<or> te_Kind e' = TarDir \<and> is_dir d (abs_path (bs @ fs))"
      using src [OF e'(1)] by (elim exE conjE)
    have "plain_path (gs @ hs)" using e(3) e'(2) by simp
    from rel_path_inject [OF fs(1) this] fs(2) e'(3) have fs': "fs = gs @ hs" by simp
    have nd: "\<not> is_dir d (abs_path (bs @ gs))" by (rule file_no_dir(1) [OF d(1) c])
    have "hs = []"
    proof (rule ccontr)
      assume "hs \<noteq> []"
      then obtain n ks where hs: "hs = n # ks" by (cases hs) auto
      obtain xs where "plain_path xs" "abs_path (bs @ fs @ xs) \<in> paths d" using below [OF fs(1)] fs(3) by blast
      then have "abs_path (bs @ gs @ n # ks @ xs) \<in> paths d" "plain_path (n # ks @ xs)" using e'(2) by (simp_all add: fs' hs)
      with is_dir_tree [OF d(1), of "bs @ gs"] bs e(3) nd show False by auto
    qed
    then show "hs = [] \<and> te_Kind e' = TarFile" using fs(3) fs' nd by (elim disjE conjE) simp_all
  qed
qed

lemma plain_entry_good: "entry_good e \<Longrightarrow> plain_entry e"
proof -
  have "ReplaceAllChar CHR 0x5C ''/'' s = s" if "CHR 0x5C \<notin> set s" for s
    using that by (induction s) (auto simp: ReplaceAllChar_def)
  then show "entry_good e \<Longrightarrow> plain_entry e"
    using no_backslash_rel_path Split_rel_path plain_no_dots by (auto simp: entry_good_def plain_entry_def safe_name_def)
qed

lemma proper_abs_path:
  assumes "plain_path ds" "ds \<noteq> []"
  shows "proper_folder (abs_path ds)" "Clean (abs_path ds) = abs_path ds"
proof -
  show c: "Clean (abs_path ds) = abs_path ds"
    using Clean_rooted [of "Join ds ''/''"] Split_rel_path [OF assms] clean_elems_plain [OF assms(1), of True "[]"]
    by (simp add: abs_path_def rel_path_def)
  show "proper_folder (abs_path ds)"
    using assms unfolding proper_folder_def c by (cases ds) (auto simp: abs_path_def HasPrefix_def plain_name_def)
qed

text \<open>The tar format: what was written for the entries is read back, and does not look like gzip.\<close>

definition reads_back :: "archive_codec \<Rightarrow> (tar_entry list \<Rightarrow> string) \<Rightarrow> bool" where
  "reads_back codec tar \<longleftrightarrow> (\<forall>es. list_all entry_good es \<longrightarrow>
     ac_untar codec False (tar es) = (es, None) \<and> 2 \<le> length (tar es) \<and> tar es ! 0 \<noteq> CHR 0x1F)"


subsection \<open>A concrete archive format\<close>

primrec put_string :: "string \<Rightarrow> string" where
  "put_string [] = ''.''"
| "put_string (c # s) = CHR ''c'' # c # put_string s"

fun get_string :: "string \<Rightarrow> string \<times> string" where
  "get_string (k # s) = (if k = CHR ''c'' \<and> s \<noteq> [] then (let (t, r) = get_string (tl s) in (hd s # t, r)) else ([], s))"
| "get_string [] = ([], [])"

lemma get_put_string: "get_string (put_string s @ t) = (s, t)"
  by (induction s) simp_all

definition sample_tar_entry :: "tar_entry \<Rightarrow> string" where
  "sample_tar_entry e = (if te_Kind e = TarDir then CHR ''d'' else CHR ''f'') # put_string (te_Name e) @ put_string (te_Linkname e) @
     put_string (te_Content e)"

definition sample_tar :: "tar_entry list \<Rightarrow> string" where
  "sample_tar es = ''ustar'' @ concat (map sample_tar_entry es)"

primrec sample_untar :: "nat \<Rightarrow> string \<Rightarrow> tar_entry list" where
  "sample_untar 0 s = []"
| "sample_untar (Suc n) s = (if s = [] then [] else
     (let (name, r) = get_string (tl s); (lnk, r) = get_string r; (content, r) = get_string r in
      \<lparr>te_Name = name, te_Kind = (if hd s = CHR ''d'' then TarDir else TarFile), te_Linkname = lnk, te_Content = content\<rparr> #
        sample_untar n r))"

definition sample_tar_codec :: archive_codec where
  "sample_tar_codec = \<lparr>ac_gzip_header = (\<lambda>_. None), ac_untar = (\<lambda>_ s. (sample_untar (length s) (drop 5 s), None)),
     ac_link = (\<lambda>_ _ _ d. Inr d)\<rparr>"

lemma sample_untar_tar:
  "list_all entry_good es \<Longrightarrow> length es \<le> n \<Longrightarrow> sample_untar n (concat (map sample_tar_entry es)) = es"
proof (induction es arbitrary: n)
  case (Cons e es)
  then obtain m where "n = Suc m" by (cases n) auto
  with Cons show ?case by (auto simp: sample_tar_entry_def get_put_string entry_good_def)
next
  case Nil
  then show ?case by (cases n) simp_all
qed

lemma sample_reads_back: "reads_back sample_tar_codec sample_tar"
proof -
  have "length es \<le> length (concat (map sample_tar_entry es))" for es
    by (induction es) (auto simp: sample_tar_entry_def)
  then show ?thesis
    by (auto simp: reads_back_def sample_tar_codec_def sample_tar_def simp del: sample_untar.simps intro!: sample_untar_tar le_SucI)
qed

definition sample_tree :: disk where
  "sample_tree = \<lparr>files = [(''/w/a/x'', ''one''), (''/w/skip/y'', ''two'')], dirs = [''/w''], io_error = (\<lambda>_. None)\<rparr>"


end
