(* ===== verification/Binaries.thy ===== *)
theory Binaries
  imports Archive Git_Credentials Provider
begin

text \<open>
  Downloads and provider binaries: \<^verbatim>\<open>pkg/download\<close> and \<^verbatim>\<open>pkg/binaries\<close>.  The answer of the network to a
  request may depend on all earlier requests, so the requests made so far are part of the state beside
  the file system.  The decoders (JSON, URLs, archives), the hash function and the sizes of directories
  are arguments; permissions are left out, except that setting them fails for a missing file.
\<close>

section \<open>Downloads\<close>

record request =
  rq_Method :: string
  rq_URL :: string
  rq_Headers :: "string gomap"

text \<open>The body of a response: the bytes that arrive, and the error that ends them early.\<close>

type_synonym body = "string \<times> gerr option"

record response =
  rs_StatusCode :: int
  rs_Body :: body

record parsed_url =
  url_Scheme :: string
  url_Host :: string
  url_Path :: string

record github_asset =
  ga_ID :: int
  ga_Name :: string

text \<open>What a download needs from outside of the program.\<close>

record network =
  nw_Do :: "request list \<Rightarrow> request \<Rightarrow> response result"
  nw_Parse :: "string \<Rightarrow> parsed_url result"
  nw_Unmarshal :: "string \<Rightarrow> github_asset list result"
  nw_env :: "string \<Rightarrow> string"
  nw_executable :: "string result"
  nw_run :: "string list \<Rightarrow> string list \<Rightarrow> string \<Rightarrow> string result"

type_synonym requests = "request list"

definition get_request :: "string \<Rightarrow> request" where
  "get_request url = \<lparr>rq_Method = ''GET'', rq_URL = url, rq_Headers = []\<rparr>"

definition Do :: "network \<Rightarrow> request \<Rightarrow> requests \<Rightarrow> response result \<times> requests" where
  "Do nw rq h = (case nw_Parse nw (rq_URL rq) of Inl e \<Rightarrow> (Inl e, h) | Inr _ \<Rightarrow> (nw_Do nw h rq, h @ [rq]))"

definition Head :: "network \<Rightarrow> string \<Rightarrow> requests \<Rightarrow> int result \<times> requests" where
  "Head nw rawURL h =
     (case Do nw \<lparr>rq_Method = ''HEAD'', rq_URL = rawURL, rq_Headers = []\<rparr> h of
        (Inl e, h1) \<Rightarrow> (Inl (wrap ''download file'' e), h1)
      | (Inr r, h1) \<Rightarrow> (Inr (rs_StatusCode r), h1))"

definition parseGithubURL :: "string \<Rightarrow> string \<times> string \<times> string \<times> string" where
  "parseGithubURL p =
     (let splitted = Split CHR ''/'' (TrimPrefix p ''/'') in
      if length splitted \<noteq> 6 then ([], [], [], [])
      else if splitted ! 2 \<noteq> ''releases'' then ([], [], [], [])
      else if (splitted ! 3 \<noteq> ''latest'' \<or> splitted ! 4 \<noteq> ''download'') \<and> splitted ! 3 \<noteq> ''download'' then ([], [], [], [])
      else if splitted ! 3 = ''latest'' then (splitted ! 0, splitted ! 1, [], splitted ! 5)
      else (splitted ! 0, splitted ! 1, splitted ! 4, splitted ! 5))"

definition repo_url :: "string \<Rightarrow> string \<Rightarrow> string" where
  "repo_url org repo = ''https://api.github.com/repos/'' @ org @ ''/'' @ repo @ ''/releases/''"

definition authorized :: "string \<Rightarrow> string \<Rightarrow> string \<Rightarrow> request" where
  "authorized url token accept =
     \<lparr>rq_Method = ''GET'', rq_URL = url, rq_Headers = [(''Authorization'', ''Bearer '' @ token), (''Accept'', accept)]\<rparr>"

definition status_error :: "int \<Rightarrow> string \<Rightarrow> string \<Rightarrow> gerr" where
  "status_error code what url = Err (''received status code '' @ Itoa code @ '' when trying to '' @ what @ '' '' @ url)"

definition downloadGithubRelease ::
    "network \<Rightarrow> string \<Rightarrow> string \<Rightarrow> string \<Rightarrow> string \<Rightarrow> string \<Rightarrow> requests \<Rightarrow> body result \<times> requests" where
  "downloadGithubRelease nw org repo release name token h =
     (let releaseURL = repo_url org repo @ (if release = [] then ''latest'' else ''tags/'' @ release) in
      case Do nw (authorized releaseURL token ''application/vnd.github+json'') h of
        (Inl e, h1) \<Rightarrow> (Inl e, h1)
      | (Inr resp, h1) \<Rightarrow>
          if rs_StatusCode resp \<ge> 400 then (Inl (status_error (rs_StatusCode resp) ''reach'' releaseURL), h1)
          else
            (case rs_Body resp of
               (_, Some e) \<Rightarrow> (Inl e, h1)
             | (raw, None) \<Rightarrow>
                 (case nw_Unmarshal nw raw of
                    Inl e \<Rightarrow> (Inl e, h1)
                  | Inr assets \<Rightarrow>
                      (case find (\<lambda>a. ga_Name a = name) assets of
                         None \<Rightarrow> (Inl (Err (''couldn't find asset '' @ name @ '' in github release ('' @ releaseURL @ '')'')), h1)
                       | Some asset \<Rightarrow>
                           (case Do nw (authorized (repo_url org repo @ ''assets/'' @ Itoa (ga_ID asset)) token ''application/octet-stream'') h1 of
                              (Inl e, h2) \<Rightarrow> (Inl e, h2)
                            | (Inr r, h2) \<Rightarrow>
                                if rs_StatusCode r \<ge> 400 then (Inl (status_error (rs_StatusCode r) ''reach'' releaseURL), h2)
                                else (Inr (rs_Body r), h2))))))"

text \<open>The request with credentials, where the file may belong to a private release.\<close>

definition github_credentials :: "network \<Rightarrow> parsed_url \<Rightarrow> string option" where
  "github_credentials nw u =
     (case GetCredentials (nw_env nw) (nw_executable nw) (nw_run nw)
        (no_credentials\<lparr>gc_Protocol := url_Scheme u, gc_Host := url_Host u, gc_Path := url_Path u\<rparr>) of
        Inl _ \<Rightarrow> None
      | Inr c \<Rightarrow> if gc_Password c \<noteq> [] then Some (gc_Password c) else None)"

definition plain_download :: "network \<Rightarrow> string \<Rightarrow> requests \<Rightarrow> body result \<times> requests" where
  "plain_download nw rawURL h =
     (case Do nw (get_request rawURL) h of
        (Inl e, h1) \<Rightarrow> (Inl (wrap ''download file'' e), h1)
      | (Inr r, h1) \<Rightarrow>
          if rs_StatusCode r \<ge> 400 then (Inl (status_error (rs_StatusCode r) ''download'' rawURL), h1)
          else (Inr (rs_Body r), h1))"

definition download_File :: "network \<Rightarrow> string \<Rightarrow> requests \<Rightarrow> body result \<times> requests" where
  "download_File nw rawURL h =
     (case nw_Parse nw rawURL of
        Inl e \<Rightarrow> (Inl e, h)
      | Inr u \<Rightarrow>
          if url_Host u = ''github.com'' then
            (case Head nw rawURL h of
               (Inl e, h1) \<Rightarrow> (Inl e, h1)
             | (Inr code, h1) \<Rightarrow>
                 (let (org, repo, release, name) = parseGithubURL (url_Path u) in
                  case (if code = 404 \<and> org \<noteq> [] then github_credentials nw u else None) of
                    Some token \<Rightarrow> downloadGithubRelease nw org repo release name token h1
                  | None \<Rightarrow> plain_download nw rawURL h1))
          else plain_download nw rawURL h)"

section \<open>Provider binaries\<close>

record toolbox =
  tb_network :: network
  tb_GOOS :: string
  tb_GOARCH :: string
  tb_TempDir :: string
  tb_cwd :: string
  tb_temp_name :: string
  tb_sha :: "string \<Rightarrow> string"
  tb_dir_size :: "string \<Rightarrow> nat"
  tb_codec :: archive_codec
  tb_unzip :: "string \<Rightarrow> zip_entry list result"

type_synonym bin_state = "disk \<times> requests"

definition os_path :: "toolbox \<Rightarrow> string \<Rightarrow> string" where
  "os_path t p = filepath_Abs (tb_cwd t) p"

definition IsAbs :: "string \<Rightarrow> bool" where
  "IsAbs p \<longleftrightarrow> HasPrefix p ''/''"

definition EqualFold :: "string \<Rightarrow> string \<Rightarrow> bool" where
  "EqualFold a b \<longleftrightarrow> ToLower a = ToLower b"

definition hash_File :: "toolbox \<Rightarrow> string \<Rightarrow> disk \<Rightarrow> string result" where
  "hash_File t p d = map_sum id (tb_sha t) (ReadFile d (os_path t p))"

text \<open>\<open>os.Remove\<close>, whose error is ignored: it removes a file or an empty directory.\<close>

definition os_Remove :: "string \<Rightarrow> disk \<Rightarrow> disk" where
  "os_Remove p d =
     (if io_error d p \<noteq> None then d
      else if map_of (files d) p \<noteq> None then d\<lparr>files := AList.delete p (files d)\<rparr>
      else if list_ex (\<lambda>q. HasPrefix q (p @ ''/'')) (keys (files d) @ dirs d) then d
      else d\<lparr>dirs := removeAll p (dirs d)\<rparr>)"

definition try_RemoveAll :: "string \<Rightarrow> disk \<Rightarrow> disk" where
  "try_RemoveAll p d = (case RemoveAll p d of Inl _ \<Rightarrow> d | Inr d' \<Rightarrow> d')"

text \<open>\<open>copy.File\<close>: the target is truncated before the source is read.\<close>

definition copy_File :: "string \<Rightarrow> string \<Rightarrow> disk \<Rightarrow> unit result \<times> disk" where
  "copy_File srcFile dstFile d =
     (case CreateFile dstFile [] d of
        Inl e \<Rightarrow> (Inl e, d)
      | Inr d1 \<Rightarrow>
          (case ReadFile d1 srcFile of
             Inl e \<Rightarrow> (Inl e, d1)
           | Inr c \<Rightarrow> (case WriteFile dstFile c d1 of Inl e \<Rightarrow> (Inl e, d1) | Inr d2 \<Rightarrow> (Inr (), d2))))"

definition isRemotePath :: "string \<Rightarrow> bool" where
  "isRemotePath p \<longleftrightarrow> HasPrefix p ''http://'' \<or> HasPrefix p ''https://''"

definition remote_name :: "toolbox \<Rightarrow> provider_binary \<Rightarrow> string" where
  "remote_name t b =
     (if bin_Name b \<noteq> [] then bin_Name b
      else (let name = path_Base (bin_Path b) in
            if tb_GOOS t = ''windows'' \<and> \<not> HasSuffix name ''.exe'' then name @ ''.exe'' else name))"

definition localTargetPath :: "provider_binary \<Rightarrow> string \<Rightarrow> string" where
  "localTargetPath b targetFolder = path_Join [targetFolder, if bin_Name b = [] then path_Base (bin_Path b) else bin_Name b]"

definition getBinaryPath :: "toolbox \<Rightarrow> provider_binary \<Rightarrow> string \<Rightarrow> string" where
  "getBinaryPath t b targetFolder =
     (if IsAbs (bin_Path b) then bin_Path b
      else if \<not> isRemotePath (bin_Path b) then localTargetPath b targetFolder
      else if bin_ArchivePath b \<noteq> [] then path_Join [targetFolder, bin_ArchivePath b]
      else path_Join [targetFolder, remote_name t b])"

definition getCachedBinaryPath :: "toolbox \<Rightarrow> string \<Rightarrow> string" where
  "getCachedBinaryPath t url = path_Join [tb_TempDir t, ''devpod-binaries'', take 16 (tb_sha t url)]"

definition verifyBinary :: "toolbox \<Rightarrow> string \<Rightarrow> string \<Rightarrow> disk \<Rightarrow> bool \<times> disk" where
  "verifyBinary t binaryPath checksum d =
     (if \<not> Stat_ok d (os_path t binaryPath) then (False, d)
      else if checksum \<noteq> [] \<and> (case hash_File t binaryPath d of Inl _ \<Rightarrow> True | Inr fileHash \<Rightarrow> \<not> EqualFold fileHash checksum)
      then (False, os_Remove (os_path t binaryPath) d)
      else (True, d))"

definition toCache :: "toolbox \<Rightarrow> provider_binary \<Rightarrow> string \<Rightarrow> disk \<Rightarrow> disk" where
  "toCache t b binaryPath d =
     (if \<not> isRemotePath (bin_Path b) then d
      else
        (let cached = getCachedBinaryPath t (bin_Path b) in
         case MkdirAll (path_Dir cached) d of
           Inl _ \<Rightarrow> d
         | Inr d1 \<Rightarrow> snd (copy_File (os_path t binaryPath) cached d1)))"

definition fromCache :: "toolbox \<Rightarrow> provider_binary \<Rightarrow> string \<Rightarrow> disk \<Rightarrow> bool \<times> disk" where
  "fromCache t b targetFolder d =
     (if \<not> isRemotePath (bin_Path b) then (False, d)
      else
        (let binaryPath = getBinaryPath t b targetFolder; cached = getCachedBinaryPath t (bin_Path b) in
         case verifyBinary t cached (bin_Checksum b) d of
           (False, d1) \<Rightarrow> (False, d1)
         | (True, d1) \<Rightarrow>
             (case MkdirAll (path_Dir binaryPath) d1 of
                Inl _ \<Rightarrow> (False, d1)
              | Inr d2 \<Rightarrow>
                  (case copy_File cached binaryPath d2 of
                     (Inl _, d3) \<Rightarrow> (False, d3)
                   | (Inr _, d3) \<Rightarrow> (Stat_ok d3 binaryPath, d3)))))"

definition stat_size :: "toolbox \<Rightarrow> disk \<Rightarrow> string \<Rightarrow> nat" where
  "stat_size t d p = (case map_of (files d) p of Some c \<Rightarrow> length c | None \<Rightarrow> tb_dir_size t p)"

definition copyLocal :: "toolbox \<Rightarrow> provider_binary \<Rightarrow> string \<Rightarrow> disk \<Rightarrow> unit result \<times> disk" where
  "copyLocal t b targetPath d =
     (let src = os_path t (bin_Path b) in
      if Stat_ok d targetPath \<and> \<not> Stat_ok d src then (Inl (no_such_file src), d)
      else if Stat_ok d targetPath \<and> stat_size t d targetPath = stat_size t d src then (Inr (), d)
      else copy_File src targetPath d)"

definition downloadToTempFile :: "toolbox \<Rightarrow> body \<Rightarrow> disk \<Rightarrow> string result \<times> disk" where
  "downloadToTempFile t reader d =
     (let tempFile = path_Join [tb_TempDir t, tb_temp_name t] in
      case CreateFile tempFile (fst reader) d of
        Inl e \<Rightarrow> (Inl e, d)
      | Inr d1 \<Rightarrow> (case snd reader of Some e \<Rightarrow> (Inl e, os_Remove tempFile d1) | None \<Rightarrow> (Inr tempFile, d1)))"

definition downloadFile :: "toolbox \<Rightarrow> provider_binary \<Rightarrow> string \<Rightarrow> bin_state \<Rightarrow> string result \<times> bin_state" where
  "downloadFile t b targetFolder = (\<lambda>(d, h).
     (let targetPath = path_Join [targetFolder, remote_name t b] in
      if Stat_ok d targetPath then (Inr targetPath, (d, h))
      else
        (case download_File (tb_network t) (bin_Path b) h of
           (Inl e, h1) \<Rightarrow> (Inl (wrap ''download binary'' e), (d, h1))
         | (Inr reader, h1) \<Rightarrow>
             (case CreateFile targetPath (fst reader) d of
                Inl e \<Rightarrow> (Inl e, (d, h1))
              | Inr d1 \<Rightarrow>
                  (case snd reader of
                     Some e \<Rightarrow> (Inl (wrap ''download file'' e), (d1, h1))
                   | None \<Rightarrow> (Inr targetPath, (d1, h1)))))))"

definition unpack_archive :: "toolbox \<Rightarrow> provider_binary \<Rightarrow> string \<Rightarrow> body \<Rightarrow> disk \<Rightarrow> unit result \<times> disk" where
  "unpack_archive t b targetFolder reader d =
     (if HasSuffix (bin_Path b) ''.gz'' \<or> HasSuffix (bin_Path b) ''.tar'' \<or> HasSuffix (bin_Path b) ''.tgz'' then
        Extract (tb_codec t) 0 (fst reader) targetFolder d
      else if HasSuffix (bin_Path b) ''.zip'' then
        (case downloadToTempFile t reader d of
           (Inl e, d1) \<Rightarrow> (Inl e, d1)
         | (Inr tempFile, d1) \<Rightarrow>
             (case UnzipFolder (tb_unzip t) (tb_cwd t) tempFile targetFolder d1 of
                (r, d2) \<Rightarrow> (r, os_Remove tempFile d2)))
      else (Inl (Err (''unrecognized archive format '' @ bin_Path b)), d))"

definition downloadArchive :: "toolbox \<Rightarrow> provider_binary \<Rightarrow> string \<Rightarrow> bin_state \<Rightarrow> string result \<times> bin_state" where
  "downloadArchive t b targetFolder = (\<lambda>(d, h).
     (let targetPath = path_Join [targetFolder, bin_ArchivePath b] in
      if Stat_ok d targetPath then (Inr targetPath, (d, h))
      else
        (case download_File (tb_network t) (bin_Path b) h of
           (Inl e, h1) \<Rightarrow> (Inl e, (d, h1))
         | (Inr reader, h1) \<Rightarrow>
             (case unpack_archive t b targetFolder reader d of
                (Inl e, d1) \<Rightarrow> (Inl e, (d1, h1))
              | (Inr _, d1) \<Rightarrow> (Inr targetPath, (d1, h1))))))"

definition os_Chmod :: "string \<Rightarrow> disk \<Rightarrow> unit result" where
  "os_Chmod p d = (if Stat_ok d p then Inr () else Inl (no_such_file p))"

definition downloadBinary :: "toolbox \<Rightarrow> provider_binary \<Rightarrow> string \<Rightarrow> bin_state \<Rightarrow> string result \<times> bin_state" where
  "downloadBinary t b targetFolder = (\<lambda>(d, h).
     if Stat_ok d (os_path t (bin_Path b)) then
       (if IsAbs (bin_Path b) then (Inr (bin_Path b), (d, h))
        else
          (case MkdirAll targetFolder d of
             Inl e \<Rightarrow> (Inl (wrap ''create folder'' e), (d, h))
           | Inr d1 \<Rightarrow>
               (case copyLocal t b targetFolder d1 of
                  (Inl e, d2) \<Rightarrow> (Inl e, (try_RemoveAll targetFolder d2, h))
                | (Inr _, d2) \<Rightarrow> (Inr (localTargetPath b targetFolder), (d2, h)))))
     else if \<not> isRemotePath (bin_Path b) then
       (let targetPath = localTargetPath b targetFolder in
        if Stat_ok d targetPath then (Inr targetPath, (d, h))
        else (Inl (Err (''cannot download '' @ bin_Path b @ '' as scheme is missing'')), (d, h)))
     else
       (case MkdirAll targetFolder d of
          Inl e \<Rightarrow> (Inl (wrap ''create folder'' e), (d, h))
        | Inr d1 \<Rightarrow>
            (case (if bin_ArchivePath b \<noteq> [] then downloadArchive else downloadFile) t b targetFolder (d1, h) of
               (Inl e, (d2, h2)) \<Rightarrow> (Inl e, (try_RemoveAll targetFolder d2, h2))
             | (Inr targetPath, (d2, h2)) \<Rightarrow>
                 (case os_Chmod targetPath d2 of Inl e \<Rightarrow> (Inl e, (d2, h2)) | Inr _ \<Rightarrow> (Inr targetPath, (d2, h2))))))"

text \<open>Three attempts; \<open>None\<close> when none of them gave a file with the right checksum.\<close>

fun download_attempts ::
    "toolbox \<Rightarrow> string \<Rightarrow> provider_binary \<Rightarrow> string \<Rightarrow> nat \<Rightarrow> bin_state \<Rightarrow> string option result \<times> bin_state" where
  "download_attempts t binaryName b targetFolder 0 st = (Inr None, st)"
| "download_attempts t binaryName b targetFolder (Suc i) st =
     (case downloadBinary t b targetFolder st of
        (Inl e, st1) \<Rightarrow> (Inl (wrap (''downloading binary '' @ binaryName) e), st1)
      | (Inr binaryPath, (d, h)) \<Rightarrow>
          if bin_Checksum b \<noteq> [] \<and>
             (case hash_File t binaryPath d of Inl _ \<Rightarrow> True | Inr fileHash \<Rightarrow> \<not> EqualFold fileHash (bin_Checksum b))
          then download_attempts t binaryName b targetFolder i (os_Remove (os_path t binaryPath) d, h)
          else (Inr (Some binaryPath), (toCache t b binaryPath d, h)))"

definition missing :: "string gomap \<Rightarrow> string \<Rightarrow> bool" where
  "missing m k \<longleftrightarrow> (case map_of m k of None \<Rightarrow> True | Some s \<Rightarrow> s = [])"

definition matches_host :: "toolbox \<Rightarrow> provider_binary \<Rightarrow> bool" where
  "matches_host t b \<longleftrightarrow> bin_OS b = tb_GOOS t \<and> bin_Arch b = tb_GOARCH t"

fun download_locations ::
    "toolbox \<Rightarrow> string \<Rightarrow> string \<Rightarrow> provider_binary list \<Rightarrow> string gomap \<Rightarrow> bin_state \<Rightarrow> string gomap result \<times> bin_state" where
  "download_locations t binaryName targetFolder [] ret st = (Inr ret, st)"
| "download_locations t binaryName targetFolder (b # bs) ret st =
     (if \<not> matches_host t b then download_locations t binaryName targetFolder bs ret st
      else
        (let folder = path_Join [targetFolder, ToLower binaryName];
             binaryPath = getBinaryPath t b folder;
             (verified, d1) = verifyBinary t binaryPath (bin_Checksum b) (fst st);
             (found, d2) = (if verified then (True, d1) else fromCache t b folder d1) in
         if found then download_locations t binaryName targetFolder bs (AList.update binaryName binaryPath ret) (d2, snd st)
         else
           (case download_attempts t binaryName b folder 3 (d2, snd st) of
              (Inl e, st1) \<Rightarrow> (Inl e, st1)
            | (Inr (Some p), st1) \<Rightarrow> download_locations t binaryName targetFolder bs (AList.update binaryName p ret) st1
            | (Inr None, st1) \<Rightarrow>
                if missing ret binaryName then
                  (Inl (Err (''cannot download provider binary '' @ binaryName @ '', because checksum check has failed'')), st1)
                else download_locations t binaryName targetFolder bs ret st1)))"

definition no_location :: "toolbox \<Rightarrow> string \<Rightarrow> string \<Rightarrow> gerr" where
  "no_location t what binaryName =
     Err (''cannot '' @ what @ '' provider binary '' @ binaryName @ '', because no binary location matched OS '' @ tb_GOOS t @
          '' and ARCH '' @ tb_GOARCH t)"

fun download_binaries ::
    "toolbox \<Rightarrow> string \<Rightarrow> (string \<times> provider_binary list) list \<Rightarrow> string gomap \<Rightarrow> bin_state \<Rightarrow> string gomap result \<times> bin_state" where
  "download_binaries t targetFolder [] ret st = (Inr ret, st)"
| "download_binaries t targetFolder ((binaryName, locations) # rest) ret st =
     (case download_locations t binaryName targetFolder locations ret st of
        (Inl e, st1) \<Rightarrow> (Inl e, st1)
      | (Inr ret1, st1) \<Rightarrow>
          if missing ret1 binaryName then (Inl (no_location t ''download'' binaryName), st1)
          else download_binaries t targetFolder rest ret1 st1)"

definition DownloadBinaries ::
    "toolbox \<Rightarrow> (string list \<Rightarrow> string list) \<Rightarrow> provider_binary list gomap \<Rightarrow> string \<Rightarrow> bin_state \<Rightarrow> string gomap result \<times> bin_state" where
  "DownloadBinaries t ord binaries targetFolder st =
     download_binaries t targetFolder (map (\<lambda>k. (k, the (map_of binaries k))) (ord (keys binaries))) [] st"

text \<open>The binaries of an installed provider, and the environment of its commands.\<close>

fun find_locations :: "toolbox \<Rightarrow> disk \<Rightarrow> string \<Rightarrow> string \<Rightarrow> provider_binary list \<Rightarrow> string gomap \<Rightarrow> string gomap result" where
  "find_locations t d binaryName binariesDir [] ret = Inr ret"
| "find_locations t d binaryName binariesDir (b # bs) ret =
     (if \<not> matches_host t b then find_locations t d binaryName binariesDir bs ret
      else
        (let binaryPath = getBinaryPath t b (path_Join [binariesDir, ToLower binaryName]) in
         if \<not> Stat_ok d (os_path t binaryPath)
         then Inl (wrap (''error trying to find binary '' @ binaryName) (no_such_file binaryPath))
         else find_locations t d binaryName binariesDir bs (AList.update binaryName binaryPath ret)))"

fun find_binaries :: "toolbox \<Rightarrow> disk \<Rightarrow> string \<Rightarrow> (string \<times> provider_binary list) list \<Rightarrow> string gomap \<Rightarrow> string gomap result" where
  "find_binaries t d binariesDir [] ret = Inr ret"
| "find_binaries t d binariesDir ((binaryName, locations) # rest) ret =
     (case find_locations t d binaryName binariesDir locations ret of
        Inl e \<Rightarrow> Inl e
      | Inr ret1 \<Rightarrow>
          if missing ret1 binaryName then Inl (no_location t ''find'' binaryName)
          else find_binaries t d binariesDir rest ret1)"

definition GetBinariesFrom ::
    "toolbox \<Rightarrow> (string list \<Rightarrow> string list) \<Rightarrow> provider \<Rightarrow> string \<Rightarrow> disk \<Rightarrow> string gomap result" where
  "GetBinariesFrom t ord config binariesDir d =
     find_binaries t d binariesDir (map (\<lambda>k. (k, the (map_of (pr_Binaries config) k))) (ord (keys (pr_Binaries config)))) []"

definition GetBinaries ::
    "toolbox \<Rightarrow> host \<Rightarrow> (string list \<Rightarrow> string list) \<Rightarrow> string \<Rightarrow> provider \<Rightarrow> disk \<Rightarrow> string gomap result" where
  "GetBinaries t hst ord context config d =
     (case GetProviderBinariesDir hst context (pr_Name config) of
        Inl e \<Rightarrow> Inl e
      | Inr binariesDir \<Rightarrow> GetBinariesFrom t ord config binariesDir d)"

definition ToEnvironmentWithBinaries ::
    "toolbox \<Rightarrow> host \<Rightarrow> (string list \<Rightarrow> string list) \<Rightarrow> string \<Rightarrow> workspace option \<Rightarrow> machine option \<Rightarrow> OptionValues \<Rightarrow> provider \<Rightarrow>
      string gomap \<Rightarrow> disk \<Rightarrow> string list result" where
  "ToEnvironmentWithBinaries t hst ord context w m options config extraEnv d =
     (case GetBinaries t hst ord context config d of
        Inl e \<Rightarrow> Inl e
      | Inr binariesMap \<Rightarrow>
          Inr (ToEnvironment hst ord w m options extraEnv @
               map (\<lambda>k. k @ ''='' @ the (map_of binariesMap k)) (ord (keys binariesMap))))"

end
