(* ===== verification/Binaries_Properties.thy ===== *)
theory Binaries_Properties
  imports Binaries Archive_Properties
begin

text \<open>
  Provider binaries: a binary with a checksum is only handed out when the file at its path has that
  checksum, whatever the network answers and whatever was on the disk before.
\<close>

section \<open>What a step touches\<close>

lemma below_both:
  assumes "below_path a q" "below_path b q"
  shows "below_path a b \<or> below_path b a"
proof -
  have *: "below_path a b" if ab: "below_path a q" "below_path b q" "length a \<le> length b" for a b
  proof -
    obtain u where u: "q = a @ u" "u = [] \<or> (\<exists>u'. u = CHR ''/'' # u')"
      using ab(1) by (auto simp: below_path_def HasPrefix_iff)
    obtain v where "q = b @ v" using ab(2) by (auto simp: below_path_def HasPrefix_iff)
    note uv = u this
    then obtain w where w: "b = a @ w" "u = w @ v" using ab(3) by (auto simp: append_eq_append_conv2)
    then show ?thesis using uv(2) by (cases w) (auto simp: below_path_def HasPrefix_iff)
  qed
  from *[OF assms] *[OF assms(2,1)] show ?thesis by linarith
qed

definition apart :: "string \<Rightarrow> string \<Rightarrow> bool" where
  "apart a b \<longleftrightarrow> \<not> below_path a b \<and> \<not> below_path b a"

lemma apart_below: "apart a b \<Longrightarrow> below_path a q \<Longrightarrow> \<not> below_path b q"
  using below_both by (auto simp: apart_def)

lemma below_trans: "below_path a b \<Longrightarrow> below_path b c \<Longrightarrow> below_path a c"
  by (auto simp: below_path_def HasPrefix_iff)

text \<open>Only files below the given folders change.\<close>

definition touches :: "string list \<Rightarrow> disk \<Rightarrow> disk \<Rightarrow> bool" where
  "touches Ds d d' \<longleftrightarrow> (\<forall>q. list_all (\<lambda>D. \<not> below_path D q) Ds \<longrightarrow> ReadFile d' q = ReadFile d q)"

lemma touches_refl [simp]: "touches Ds d d"
  by (simp add: touches_def)

lemma touches_trans: "touches Ds a b \<Longrightarrow> touches Ds b c \<Longrightarrow> touches Ds a c"
  by (simp add: touches_def)

lemma touches_confined: "confined D d d' \<Longrightarrow> D \<in> set Ds \<Longrightarrow> touches Ds d d'"
  by (auto simp: touches_def confined_def list_all_iff)

lemma confined_os_Remove: "below_path D p \<Longrightarrow> confined D d (os_Remove p d)"
  by (auto simp: confined_def os_Remove_def ReadFile_def delete_conv' split: option.splits)

lemma confined_try_RemoveAll: "below_path D p \<Longrightarrow> confined D d (try_RemoveAll p d)"
proof -
  assume b: "below_path D p"
  have "map_of (filter (\<lambda>(q, _). \<not> below_path p q) xs) q = map_of xs q" if "\<not> below_path D q" for q and xs :: "(string \<times> string) list"
    using that below_trans [OF b] by (induction xs) auto
  then show ?thesis by (auto simp: confined_def try_RemoveAll_def RemoveAll_def ReadFile_def split: option.splits)
qed

lemma copy_File_confined: "copy_File a b d = (r, d') \<Longrightarrow> below_path D b \<Longrightarrow> confined D d d'"
  unfolding copy_File_def using confined_CreateFile [where p = D] confined_WriteFile [where p = D] confined_trans [where p = D]
  by (simp split: sum.splits) meson+

lemma copy_File_content:
  assumes "copy_File a b d = (Inr (), d')" "a \<noteq> b"
  shows "ReadFile d' b = ReadFile d a"
proof -
  obtain d1 c where "CreateFile b [] d = Inr d1" and r: "ReadFile d1 a = Inr c" and w: "WriteFile b c d1 = Inr d'"
    using assms(1) by (auto simp: copy_File_def split: sum.splits)
  then have "WriteFile b [] d = Inr d1" by (simp add: CreateFile_def split: if_splits)
  with r assms(2) ReadFile_WriteFile [OF this, of a] ReadFile_WriteFile [OF w, of b] show ?thesis by simp
qed

section \<open>One binary\<close>

definition has_checksum :: "toolbox \<Rightarrow> disk \<Rightarrow> string \<Rightarrow> string \<Rightarrow> bool" where
  "has_checksum t d p checksum \<longleftrightarrow>
     (case ReadFile d p of Inl _ \<Rightarrow> checksum = [] | Inr c \<Rightarrow> checksum = [] \<or> EqualFold (tb_sha t c) checksum)"

text \<open>A remote location, unpacked or stored at a path without double dots.\<close>

definition tidy_binary :: "toolbox \<Rightarrow> provider_binary \<Rightarrow> bool" where
  "tidy_binary t b \<longleftrightarrow> isRemotePath (bin_Path b) \<and>
     ''..'' \<notin> set (Split CHR ''/'' (if bin_ArchivePath b \<noteq> [] then bin_ArchivePath b else remote_name t b)) \<and>
     ''..'' \<notin> set (Split CHR ''/'' (if bin_Name b = [] then path_Base (bin_Path b) else bin_Name b)) \<and>
     (\<forall>content gz. list_all plain_entry (fst (ac_untar (tb_codec t) gz content)))"

lemma verifyBinary_ok: "verifyBinary t p checksum d = (True, d') \<Longrightarrow> d' = d \<and> has_checksum t d (os_path t p) checksum"
  by (auto simp: verifyBinary_def has_checksum_def hash_File_def split: if_splits sum.splits)

lemma verifyBinary_confined: "verifyBinary t p checksum d = (r, d') \<Longrightarrow> below_path D (os_path t p) \<Longrightarrow> confined D d d'"
  by (auto simp: verifyBinary_def confined_os_Remove split: if_splits)

lemma remote_not_abs: "isRemotePath p \<Longrightarrow> \<not> IsAbs p"
  by (cases p) (auto simp: isRemotePath_def IsAbs_def HasPrefix_def)

text \<open>Paths below a clean folder are clean.\<close>

lemma os_path_Join:
  assumes "proper_folder D" "''..'' \<notin> set (Split CHR ''/'' n)"
  shows "os_path t (path_Join [D, n]) = path_Join [D, n]" "below_path (Clean D) (path_Join [D, n])" "proper_folder (path_Join [D, n])"
proof -
  let ?es = "clean_elems True [] (Split CHR ''/'' D) @ kept_elems (Split CHR ''/'' n)"
  have j: "path_Join [D, n] = abs_path ?es" using path_Join_rooted assms by (simp add: proper_folder_def)
  have ne: "clean_elems True [] (Split CHR ''/'' D) \<noteq> []" using proper_folder_elems [OF assms(1)] by simp
  show below: "below_path (Clean D) (path_Join [D, n])" by (rule path_Join_below [OF assms])
  have "x \<in> set ?es \<Longrightarrow> CHR ''/'' \<notin> set x" for x
    using clean_elems_elems [of True "[]" "Split CHR ''/'' D"] Split_elems by (fastforce simp: kept_elems_def)
  then have s: "Split CHR ''/'' (Join ?es ''/'') = ?es" using ne by (intro Split_Join) auto
  have "''..'' \<notin> set (kept_elems (Split CHR ''/'' n))" using assms(2) by (auto simp: kept_elems_def)
  then have "clean_elems True [] ?es = ?es"
    using clean_elems_fixed [of True "clean_elems True [] (Split CHR ''/'' D)" "[]"] kept_ok_clean [of True "[]" "Split CHR ''/'' D"]
    by (simp add: clean_elems_append clean_elems_no_dots kept_elems_def)
  then have c: "Clean (path_Join [D, n]) = path_Join [D, n]" unfolding j using Clean_rooted [of "Join ?es ''/''"] s by (simp add: abs_path_def)
  then show "os_path t (path_Join [D, n]) = path_Join [D, n]" unfolding os_path_def filepath_Abs_def j by (simp add: abs_path_def HasPrefix_def)
  show "proper_folder (path_Join [D, n])"
    unfolding proper_folder_def c unfolding j using ne kept_ok_clean [of True "[]" "Split CHR ''/'' D"] by (auto simp: abs_path_def HasPrefix_def append_eq_Cons_conv)
qed


text \<open>The folder of a binary: a clean folder apart from the one for temporary files.\<close>

definition bin_folder :: "toolbox \<Rightarrow> string \<Rightarrow> bool" where
  "bin_folder t D \<longleftrightarrow> proper_folder D \<and> Clean D = D \<and> apart D (Clean (tb_TempDir t)) \<and> proper_folder (tb_TempDir t) \<and>
     ''..'' \<notin> set (Split CHR ''/'' (tb_temp_name t)) \<and> (\<forall>x. CHR ''/'' \<notin> set (tb_sha t x) \<and> CHR ''.'' \<notin> set (tb_sha t x))"

abbreviation bin_touches :: "toolbox \<Rightarrow> string \<Rightarrow> disk \<Rightarrow> disk \<Rightarrow> bool" where
  "bin_touches t D \<equiv> touches [D, Clean (tb_TempDir t)]"

lemma in_folder:
  assumes "bin_folder t D" "tidy_binary t b"
  defines "p \<equiv> getBinaryPath t b D"
  shows "os_path t p = p" "below_path D p" "\<not> below_path (Clean (tb_TempDir t)) p"
proof -
  let ?n = "if bin_ArchivePath b \<noteq> [] then bin_ArchivePath b else remote_name t b"
  have p: "p = path_Join [D, ?n]" using assms(2) remote_not_abs by (simp add: p_def getBinaryPath_def tidy_binary_def)
  have n: "proper_folder D" "''..'' \<notin> set (Split CHR ''/'' ?n)" using assms by (simp_all add: bin_folder_def tidy_binary_def)
  show "os_path t p = p" unfolding p by (rule os_path_Join(1) [OF n])
  show b: "below_path D p" using os_path_Join(2) [OF n] assms(1) by (simp add: p bin_folder_def)
  show "\<not> below_path (Clean (tb_TempDir t)) p" using apart_below [OF _ b] assms(1) by (simp add: bin_folder_def)
qed

lemma path_Join_assoc: "proper_folder T \<Longrightarrow> path_Join [T, a, n] = path_Join [T, a @ ''/'' @ n]"
  by (cases T) (auto simp: proper_folder_def HasPrefix_def)

lemma in_temp:
  assumes "bin_folder t D"
  shows "os_path t (getCachedBinaryPath t url) = getCachedBinaryPath t url"
    "below_path (Clean (tb_TempDir t)) (getCachedBinaryPath t url)"
    "below_path (Clean (tb_TempDir t)) (path_Join [tb_TempDir t, tb_temp_name t])"
    "os_path t (path_Join [tb_TempDir t, tb_temp_name t]) = path_Join [tb_TempDir t, tb_temp_name t]"
proof -
  have T: "proper_folder (tb_TempDir t)" using assms by (simp add: bin_folder_def)
  have c: "getCachedBinaryPath t url = path_Join [tb_TempDir t, ''devpod-binaries'' @ ''/'' @ take 16 (tb_sha t url)]"
    by (simp only: getCachedBinaryPath_def path_Join_assoc [OF T])
  have "CHR ''/'' \<notin> set (take 16 (tb_sha t url))" "CHR ''.'' \<notin> set (take 16 (tb_sha t url))"
    using assms by (auto simp: bin_folder_def dest: in_set_takeD)
  moreover from this(2) have "take 16 (tb_sha t url) \<noteq> ''..''" by (metis list.set_intros(1))
  ultimately have "''..'' \<notin> set (Split CHR ''/'' (''devpod-binaries'' @ ''/'' @ take 16 (tb_sha t url)))"
    using Split_append' [of "CHR ''/''" "''devpod-binaries''" "take 16 (tb_sha t url)"] by (auto simp: Split_no)
  with c show "os_path t (getCachedBinaryPath t url) = getCachedBinaryPath t url"
    "below_path (Clean (tb_TempDir t)) (getCachedBinaryPath t url)"
    using os_path_Join [OF T, of "''devpod-binaries'' @ ''/'' @ take 16 (tb_sha t url)"] by simp_all
  show "below_path (Clean (tb_TempDir t)) (path_Join [tb_TempDir t, tb_temp_name t])"
    "os_path t (path_Join [tb_TempDir t, tb_temp_name t]) = path_Join [tb_TempDir t, tb_temp_name t]"
    using os_path_Join [OF T] assms by (simp_all add: bin_folder_def)
qed


text \<open>The path a binary is handed out with: inside of its folder.\<close>

definition good_path :: "toolbox \<Rightarrow> string \<Rightarrow> string \<Rightarrow> bool" where
  "good_path t D p \<longleftrightarrow> os_path t p = p \<and> below_path D p \<and> \<not> below_path (Clean (tb_TempDir t)) p"

lemma good_getBinaryPath: "bin_folder t D \<Longrightarrow> tidy_binary t b \<Longrightarrow> good_path t D (getBinaryPath t b D)"
  using in_folder by (simp add: good_path_def)

lemma good_localTargetPath:
  assumes "bin_folder t D" "tidy_binary t b"
  shows "good_path t D (localTargetPath b D)"
proof -
  let ?n = "if bin_Name b = [] then path_Base (bin_Path b) else bin_Name b"
  have n: "proper_folder D" "''..'' \<notin> set (Split CHR ''/'' ?n)" using assms by (simp_all add: bin_folder_def tidy_binary_def)
  have b: "below_path D (localTargetPath b D)" using os_path_Join(2) [OF n] assms(1) by (simp add: localTargetPath_def bin_folder_def)
  then show ?thesis
    using os_path_Join(1) [OF n] apart_below [OF _ b] assms(1) by (simp add: good_path_def localTargetPath_def bin_folder_def)
qed

lemma toCache_confined:
  assumes "bin_folder t D"
  shows "confined (Clean (tb_TempDir t)) d (toCache t b p d)"
proof (cases "isRemotePath (bin_Path b)")
  case True
  define c where "c = getCachedBinaryPath t (bin_Path b)"
  have c: "below_path (Clean (tb_TempDir t)) c" unfolding c_def by (rule in_temp(2) [OF assms])
  show ?thesis
  proof (cases "MkdirAll (path_Dir c) d")
    case (Inr d1)
    obtain r d2 where "copy_File (os_path t p) c d1 = (r, d2)" by fastforce
    with copy_File_confined [OF this c] confined_MkdirAll [OF Inr] confined_trans True Inr show ?thesis
      by (simp add: toCache_def c_def [symmetric] Let_def) blast
  qed (simp add: toCache_def c_def [symmetric] Let_def True)
qed (simp add: toCache_def)

lemma fromCache_touches:
  assumes "fromCache t b D d = (r, d')" "bin_folder t D" "tidy_binary t b"
  shows "bin_touches t D d d'"
proof -
  define c where "c = getCachedBinaryPath t (bin_Path b)"
  define p where "p = getBinaryPath t b D"
  have c: "below_path (Clean (tb_TempDir t)) c" "os_path t c = c" using in_temp(1,2) [OF assms(2)] by (simp_all add: c_def)
  have p: "below_path D p" using in_folder(2) [OF assms(2,3)] by (simp add: p_def)
  have remote: "isRemotePath (bin_Path b)" using assms(3) by (simp add: tidy_binary_def)
  obtain v d1 where v: "verifyBinary t c (bin_Checksum b) d = (v, d1)" by fastforce
  have v': "bin_touches t D d d1" using verifyBinary_confined [OF v, of "Clean (tb_TempDir t)"] c by (auto intro: touches_confined)
  have m: "MkdirAll q a = Inr b' \<Longrightarrow> bin_touches t D a b'" for q a b'
    by (rule touches_confined [OF confined_MkdirAll]) auto
  have k: "copy_File c p a = (r', b') \<Longrightarrow> bin_touches t D a b'" for a r' b'
    by (rule touches_confined [OF copy_File_confined [OF _ p]]) auto
  show ?thesis
    using assms(1) v v' remote unfolding fromCache_def Let_def c_def [symmetric] p_def [symmetric]
    by (auto split: bool.splits sum.splits prod.splits) (use m k touches_trans in blast)+
qed

lemma fromCache_ok:
  assumes "fromCache t b D d = (True, d')" "bin_folder t D" "tidy_binary t b"
  shows "has_checksum t d' (getBinaryPath t b D) (bin_Checksum b)"
proof -
  define c where "c = getCachedBinaryPath t (bin_Path b)"
  define p where "p = getBinaryPath t b D"
  have c: "below_path (Clean (tb_TempDir t)) c" "os_path t c = c" using in_temp(1,2) [OF assms(2)] by (simp_all add: c_def)
  have p: "\<not> below_path (Clean (tb_TempDir t)) p" using in_folder(3) [OF assms(2,3)] by (simp add: p_def)
  then have ne: "c \<noteq> p" using c(1) by auto
  obtain d1 d2 where v: "verifyBinary t c (bin_Checksum b) d = (True, d1)" and m: "MkdirAll (path_Dir p) d1 = Inr d2"
    and k: "copy_File c p d2 = (Inr (), d')"
    using assms(1,3) unfolding fromCache_def Let_def c_def [symmetric] p_def [symmetric]
    by (auto split: bool.splits sum.splits prod.splits simp: tidy_binary_def)
  from verifyBinary_ok [OF v] c have "has_checksum t d1 c (bin_Checksum b)" by simp
  moreover have "ReadFile d' p = ReadFile d1 c" using copy_File_content [OF k ne] ReadFile_MkdirAll [OF m] by simp
  ultimately show ?thesis by (simp add: has_checksum_def p_def)
qed

lemma touches_temp: "confined (Clean (tb_TempDir t)) d d' \<Longrightarrow> bin_touches t D d d'"
  by (erule touches_confined) simp

lemma touches_folder: "confined D d d' \<Longrightarrow> bin_touches t D d d'"
  by (erule touches_confined) simp

lemma touches_MkdirAll: "MkdirAll p d = Inr d' \<Longrightarrow> bin_touches t D d d'"
  by (rule touches_folder [OF confined_MkdirAll])

lemma downloadFile_touches:
  assumes "downloadFile t b D (d, h) = (r, (d', h'))" "bin_folder t D" "tidy_binary t b" "bin_ArchivePath b = []"
  shows "bin_touches t D d d'" "r = Inr p \<Longrightarrow> p = getBinaryPath t b D"
proof -
  have g: "path_Join [D, remote_name t b] = getBinaryPath t b D"
    using assms(3,4) remote_not_abs by (simp add: getBinaryPath_def tidy_binary_def)
  have c: "CreateFile (getBinaryPath t b D) x d = Inr d1 \<Longrightarrow> bin_touches t D d d1" for x d1
    by (rule touches_folder [OF confined_CreateFile]) (auto intro: in_folder(2) [OF assms(2,3)])
  show "bin_touches t D d d'" "r = Inr p \<Longrightarrow> p = getBinaryPath t b D"
    using assms(1) c unfolding downloadFile_def prod.case Let_def g
    by (auto split: if_splits sum.splits prod.splits option.splits)
qed

lemma unpack_archive_touches:
  assumes "unpack_archive t b D reader d = (r, d')" "bin_folder t D" "tidy_binary t b"
  shows "bin_touches t D d d'"
proof -
  define tmp where "tmp = path_Join [tb_TempDir t, tb_temp_name t]"
  have tmp: "below_path (Clean (tb_TempDir t)) tmp" using in_temp(3) [OF assms(2)] by (simp add: tmp_def)
  have D: "proper_folder D" "Clean D = D" using assms(2) by (simp_all add: bin_folder_def)
  have x: "Extract (tb_codec t) 0 c D d = (r1, d1) \<Longrightarrow> bin_touches t D d d1" for c r1 d1
  proof -
    assume e: "Extract (tb_codec t) 0 c D d = (r1, d1)"
    have "list_all plain_entry (fst (ac_untar (tb_codec t) gz content))" for content gz using assms(3) by (simp add: tidy_binary_def)
    from this [of _ c] e have "confined D d d1"
      using extract_entries_confined [OF _ D(1)] unfolding Extract_def D(2)
      by (auto simp: Let_def case_prod_unfold split: if_splits option.splits gerr.splits)
    then show ?thesis by (rule touches_folder)
  qed
  have z: "UnzipFolder (tb_unzip t) (tb_cwd t) q D a = (r1, a1) \<Longrightarrow> bin_touches t D a a1" for q a r1 a1
  proof (rule touches_folder)
    assume "UnzipFolder (tb_unzip t) (tb_cwd t) q D a = (r1, a1)"
    moreover have "filepath_Abs (tb_cwd t) D = D" using D by (simp add: filepath_Abs_def proper_folder_def)
    ultimately show "confined D a a1"
      using unzip_files_confined [of _ D a r1 a1] D(2) by (auto simp: UnzipFolder_def split: sum.splits)
  qed
  have w: "CreateFile tmp y d = Inr d1 \<Longrightarrow> bin_touches t D d d1" for y d1
    by (rule touches_temp [OF confined_CreateFile [OF _ tmp]])
  have rm: "bin_touches t D a (os_Remove tmp a)" for a by (rule touches_temp [OF confined_os_Remove [OF tmp]])
  have f: "downloadToTempFile t reader d = (r1, d1) \<Longrightarrow> bin_touches t D d d1 \<and> (\<forall>q. r1 = Inr q \<longrightarrow> q = tmp)" for r1 d1
    unfolding downloadToTempFile_def Let_def tmp_def [symmetric] using w rm touches_trans
    by (auto split: sum.splits option.splits) blast
  have zip: "bin_touches t D d d'"
    if c: "(case downloadToTempFile t reader d of (Inl e, d1) \<Rightarrow> (Inl e, d1)
          | (Inr q, d1) \<Rightarrow> (case UnzipFolder (tb_unzip t) (tb_cwd t) q D d1 of (r, d2) \<Rightarrow> (r, os_Remove q d2))) = (r, d')"
  proof -
    obtain r1 d1 where d1: "downloadToTempFile t reader d = (r1, d1)" by fastforce
    show ?thesis
    proof (cases r1)
      case (Inl e)
      with c d1 f show ?thesis by auto
    next
      case (Inr q)
      obtain r2 d2 where d2: "UnzipFolder (tb_unzip t) (tb_cwd t) tmp D d1 = (r2, d2)" by fastforce
      have q: "q = tmp" "bin_touches t D d d1" using f [OF d1] Inr by auto
      with c d1 d2 Inr have "d' = os_Remove tmp d2" by auto
      with q(2) z [OF d2] rm [of d2] show ?thesis by (blast intro: touches_trans)
    qed
  qed
  show ?thesis
    using assms(1) x zip unfolding unpack_archive_def by (simp split: if_splits)
qed

lemma downloadArchive_touches:
  assumes "downloadArchive t b D (d, h) = (r, (d', h'))" "bin_folder t D" "tidy_binary t b" "bin_ArchivePath b \<noteq> []"
  shows "bin_touches t D d d'" "r = Inr p \<Longrightarrow> p = getBinaryPath t b D"
proof -
  have g: "path_Join [D, bin_ArchivePath b] = getBinaryPath t b D"
    using assms(3,4) remote_not_abs by (simp add: getBinaryPath_def tidy_binary_def)
  show "bin_touches t D d d'" "r = Inr p \<Longrightarrow> p = getBinaryPath t b D"
    using assms(1) unpack_archive_touches [OF _ assms(2,3)] unfolding downloadArchive_def prod.case Let_def g
    by (auto split: if_splits sum.splits prod.splits)
qed

declare path_Join.simps [simp del]

lemma downloadBinary_touches:
  assumes "downloadBinary t b D (d, h) = (r, (d', h'))" "bin_folder t D" "tidy_binary t b"
  shows "bin_touches t D d d'" "r = Inr p \<Longrightarrow> good_path t D p"
proof -
  have remote: "isRemotePath (bin_Path b)" "\<not> IsAbs (bin_Path b)" using assms(3) remote_not_abs by (auto simp: tidy_binary_def)
  have D: "below_path D D" by (simp add: below_path_def)
  have rm: "bin_touches t D a (try_RemoveAll D a)" for a by (rule touches_folder [OF confined_try_RemoveAll [OF D]])
  have local: "copyLocal t b D a = (r1, a1) \<Longrightarrow> bin_touches t D a a1" for a r1 a1
    unfolding copyLocal_def Let_def by (auto intro!: touches_folder split: if_splits intro: copy_File_confined [OF _ D])
  obtain fetch where fetch: "fetch = (if bin_ArchivePath b \<noteq> [] then downloadArchive else downloadFile) t b D" by simp
  have f: "bin_touches t D a a1" "r1 = Inr q \<Longrightarrow> q = getBinaryPath t b D" if "fetch (a, h) = (r1, (a1, h1))" for a r1 a1 h1 q
    using that downloadArchive_touches [OF _ assms(2,3)] downloadFile_touches [OF _ assms(2,3)]
    unfolding fetch by (cases "bin_ArchivePath b = []", simp_all)+
  note [split] = if_splits sum.splits prod.splits
  have 1: "bin_touches t D d d' \<and> (\<forall>p. r = Inr p \<longrightarrow> p = localTargetPath b D)" if "Stat_ok d (os_path t (bin_Path b))"
    using assms(1) that remote unfolding downloadBinary_def
    by auto (use touches_MkdirAll [where t = t and D = D] local rm touches_trans in meson)+
  have 2: "bin_touches t D d d' \<and> (\<forall>p. r = Inr p \<longrightarrow> p = getBinaryPath t b D)" if s: "\<not> Stat_ok d (os_path t (bin_Path b))"
  proof (cases "MkdirAll D d")
    case (Inl e)
    with assms(1) s remote show ?thesis by (auto simp: downloadBinary_def)
  next
    case (Inr d1)
    obtain r2 d2 h2 where d2: "fetch (d1, h) = (r2, (d2, h2))" by (metis surj_pair)
    with assms(1) s remote Inr have "(r, d') = (case r2 of Inl e \<Rightarrow> (Inl e, try_RemoveAll D d2)
        | Inr q \<Rightarrow> (case os_Chmod q d2 of Inl e \<Rightarrow> (Inl e, d2) | Inr _ \<Rightarrow> (Inr q, d2)))"
      unfolding downloadBinary_def fetch by auto
    with touches_MkdirAll [OF Inr, where t = t and D = D] f [OF d2] rm [of d2] show ?thesis by (auto intro: touches_trans)
  qed
  from 1 2 show "bin_touches t D d d'" by blast
  from 1 2 good_localTargetPath [OF assms(2,3)] good_getBinaryPath [OF assms(2,3)]
  show "r = Inr p \<Longrightarrow> good_path t D p" by (cases "Stat_ok d (os_path t (bin_Path b))") auto
qed

lemma has_checksum_touches:
  "touches Ds d d' \<Longrightarrow> list_all (\<lambda>D. \<not> below_path D p) Ds \<Longrightarrow> has_checksum t d' p c = has_checksum t d p c"
  by (simp add: touches_def has_checksum_def)

lemma download_attempts_ok:
  assumes "bin_folder t D" "tidy_binary t b"
  shows "download_attempts t name b D i (d, h) = (r, (d', h')) \<Longrightarrow>
    bin_touches t D d d' \<and> (\<forall>p. r = Inr (Some p) \<longrightarrow> good_path t D p \<and> has_checksum t d' p (bin_Checksum b))"
proof (induction i arbitrary: d h)
  case (Suc i)
  obtain r1 d1 h1 where d1: "downloadBinary t b D (d, h) = (r1, (d1, h1))" by (metis surj_pair)
  note t1 = downloadBinary_touches [OF d1 assms]
  show ?case
  proof (cases r1)
    case (Inl e)
    with Suc.prems d1 t1 show ?thesis by auto
  next
    case (Inr p)
    have p: "good_path t D p" using t1(2) Inr by simp
    then have op: "os_path t p = p" "below_path D p" "\<not> below_path (Clean (tb_TempDir t)) p" by (simp_all add: good_path_def)
    let ?bad = "bin_Checksum b \<noteq> [] \<and> (case hash_File t p d1 of Inl _ \<Rightarrow> True | Inr fh \<Rightarrow> \<not> EqualFold fh (bin_Checksum b))"
    show ?thesis
    proof (cases ?bad)
      case True
      with Suc.prems d1 Inr have "download_attempts t name b D i (os_Remove (os_path t p) d1, h1) = (r, (d', h'))" by simp
      from Suc.IH [OF this] touches_folder [OF confined_os_Remove [OF op(2)], of t d1] t1(1) op(1)
      show ?thesis by (auto intro: touches_trans)
    next
      case False
      with Suc.prems d1 Inr have e: "r = Inr (Some p)" "d' = toCache t b p d1" by (auto split: if_splits)
      have "confined (Clean (tb_TempDir t)) d1 d'" unfolding e by (rule toCache_confined [OF assms(1)])
      moreover have "has_checksum t d1 p (bin_Checksum b)"
        using False op(1) by (auto simp: has_checksum_def hash_File_def split: sum.splits)
      ultimately show ?thesis
        using e t1(1) p op(3) touches_temp [of t d1 d' D] by (auto simp: has_checksum_def confined_def intro: touches_trans)
    qed
  qed
qed auto

section \<open>All binaries\<close>

lemma download_locations_none:
  "list_all (\<lambda>b. \<not> matches_host t b) bs \<Longrightarrow> download_locations t name F bs ret st = (Inr ret, st)"
  by (induction bs) auto

text \<open>The binary that is meant for this host: exactly one location.\<close>

definition only_location :: "toolbox \<Rightarrow> provider_binary list \<Rightarrow> provider_binary \<Rightarrow> bool" where
  "only_location t bs b \<longleftrightarrow> filter (matches_host t) bs = [b]"

lemma download_locations_ok:
  assumes "only_location t bs b" "bin_folder t D" "tidy_binary t b" "D = path_Join [F, ToLower name]" "missing ret name"
    and "download_locations t name F bs ret (d, h) = (Inr ret', (d', h'))"
  shows "bin_touches t D d d' \<and> (\<exists>p. ret' = AList.update name p ret \<and> good_path t D p \<and> has_checksum t d' p (bin_Checksum b))"
  using assms(1,6)
proof (induction bs)
  case (Cons a bs)
  show ?case
  proof (cases "matches_host t a")
    case True
    with Cons.prems(1) have ab: "a = b" "filter (matches_host t) bs = []" by (auto simp: only_location_def)
    then have rest: "download_locations t name F bs r s = (Inr r, s)" for r s
      by (intro download_locations_none) (simp add: filter_empty_conv list_all_iff)
    let ?p = "getBinaryPath t b D"
    have p: "good_path t D ?p" by (rule good_getBinaryPath [OF assms(2,3)])
    obtain v d1 where v: "verifyBinary t ?p (bin_Checksum b) d = (v, d1)" by fastforce
    obtain f d2 where f: "(if v then (True, d1) else fromCache t b D d1) = (f, d2)" by fastforce
    have tv: "bin_touches t D d d1" using verifyBinary_confined [OF v] p by (auto simp: good_path_def intro: touches_folder)
    have t2: "bin_touches t D d d2" using f tv fromCache_touches [OF _ assms(2,3)] by (auto split: if_splits intro: touches_trans)
    show ?thesis
    proof (cases f)
      case True
      have "has_checksum t d2 ?p (bin_Checksum b)"
        using f True verifyBinary_ok [of t ?p "bin_Checksum b" d d1] v p fromCache_ok [OF _ assms(2,3)]
        by (auto simp: good_path_def split: if_splits)
      with Cons.prems(2) \<open>matches_host t a\<close> ab v f True rest t2 p show ?thesis
        by (auto simp: assms(4) [symmetric] Let_def)
    next
      case False
      obtain r3 d3 h3 where a3: "download_attempts t name b D 3 (d2, h) = (r3, (d3, h3))" by (metis surj_pair)
      have "(case r3 of Inl e \<Rightarrow> False | Inr None \<Rightarrow> False | Inr (Some q) \<Rightarrow> ret' = AList.update name q ret \<and> d' = d3)"
        using Cons.prems(2) \<open>matches_host t a\<close> ab v f False rest a3 assms(5)
        by (auto simp: assms(4) [symmetric] Let_def split: sum.splits option.splits)
      with download_attempts_ok [OF assms(2,3) a3] t2 show ?thesis
        by (auto split: sum.splits option.splits intro: touches_trans)
    qed
  qed (use Cons in \<open>simp add: only_location_def\<close>)
qed (simp add: only_location_def)

text \<open>The binaries of a provider, each in a folder of its own.\<close>

definition bin_setup :: "toolbox \<Rightarrow> string \<Rightarrow> provider_binary list gomap \<Rightarrow> bool" where
  "bin_setup t F bins \<longleftrightarrow>
     (\<forall>(n, bs) \<in> set bins. bin_folder t (path_Join [F, ToLower n]) \<and>
        (\<exists>b. only_location t bs b \<and> tidy_binary t b)) \<and>
     (\<forall>n \<in> set (keys bins). \<forall>m \<in> set (keys bins). n \<noteq> m \<longrightarrow> apart (path_Join [F, ToLower n]) (path_Join [F, ToLower m]))"

definition delivered :: "toolbox \<Rightarrow> string \<Rightarrow> string gomap \<Rightarrow> disk \<Rightarrow> string \<Rightarrow> provider_binary \<Rightarrow> bool" where
  "delivered t F ret d n b \<longleftrightarrow>
     (\<exists>p. map_of ret n = Some p \<and> good_path t (path_Join [F, ToLower n]) p \<and> has_checksum t d p (bin_Checksum b))"

lemma delivered_step:
  assumes "delivered t F ret d n b" "bin_touches t (path_Join [F, ToLower m]) d d'" "n \<noteq> m"
    and "apart (path_Join [F, ToLower n]) (path_Join [F, ToLower m])"
  shows "delivered t F (AList.update m q ret) d' n b"
proof -
  obtain p where p: "map_of ret n = Some p" "good_path t (path_Join [F, ToLower n]) p" "has_checksum t d p (bin_Checksum b)"
    using assms(1) by (auto simp: delivered_def)
  have "\<not> below_path (path_Join [F, ToLower m]) p" using apart_below [OF assms(4)] p(2) by (simp add: good_path_def)
  with has_checksum_touches [OF assms(2), of p] p(2,3) have "has_checksum t d' p (bin_Checksum b)" by (simp add: good_path_def)
  with p assms(3) show ?thesis by (auto simp: delivered_def update_conv')
qed

lemma missing_update: "k \<noteq> n \<Longrightarrow> missing (AList.update n p ret) k = missing ret k"
  by (simp add: missing_def update_conv')

lemma download_binaries_ok:
  "download_binaries t F xs ret (d, h) = (Inr ret', (d', h')) \<Longrightarrow> bin_setup t F (xs @ ys) \<Longrightarrow> distinct (map fst (xs @ ys)) \<Longrightarrow>
    \<forall>(n, _) \<in> set xs. missing ret n \<Longrightarrow> \<forall>(n, bs) \<in> set ys. \<forall>b. only_location t bs b \<longrightarrow> delivered t F ret d n b \<Longrightarrow>
    \<forall>(n, bs) \<in> set (xs @ ys). \<forall>b. only_location t bs b \<longrightarrow> delivered t F ret' d' n b"
proof (induction xs arbitrary: ret d h ys)
  case (Cons x xs)
  obtain n bs where x: "x = (n, bs)" by fastforce
  let ?D = "path_Join [F, ToLower n]"
  obtain b where b: "only_location t bs b" "tidy_binary t b" and D: "bin_folder t ?D"
    using Cons.prems(2) x by (auto simp: bin_setup_def)
  have m: "missing ret n" using Cons.prems(4) x by simp
  have n: "k \<noteq> n" if "(k, ks) \<in> set xs \<union> set ys" for k ks
    using Cons.prems(3) that x by (auto simp: image_iff)
  have ap: "apart (path_Join [F, ToLower k]) ?D" if "(k, ks) \<in> set ys" for k ks
  proof -
    have "k \<in> set (keys ((x # xs) @ ys))" "n \<in> set (keys ((x # xs) @ ys))" using that x by force+
    with Cons.prems(2) n [of k ks] that show ?thesis unfolding bin_setup_def by blast
  qed
  obtain ret1 d1 h1 where l: "download_locations t n F bs ret (d, h) = (Inr ret1, (d1, h1))"
    and rest: "download_binaries t F xs ret1 (d1, h1) = (Inr ret', (d', h'))"
    using Cons.prems(1) x by (auto split: sum.splits prod.splits if_splits)
  from download_locations_ok [OF b(1) D b(2) refl m l] obtain p where p: "bin_touches t ?D d d1" "ret1 = AList.update n p ret"
    "good_path t ?D p" "has_checksum t d1 p (bin_Checksum b)" by blast
  have new: "delivered t F ret1 d1 n b" using p(2-4) by (auto simp: delivered_def update_conv')
  have old: "delivered t F ret1 d1 k c" if k: "(k, cs) \<in> set ys" "only_location t cs c" for k cs c
  proof -
    have "k \<noteq> n" "apart (path_Join [F, ToLower k]) ?D" using n ap k(1) by auto
    moreover have "delivered t F ret d k c" using Cons.prems(5) k by blast
    ultimately show ?thesis unfolding p(2) by (intro delivered_step [OF _ p(1)])
  qed
  have "\<forall>(k, cs) \<in> set (xs @ (x # ys)). \<forall>c. only_location t cs c \<longrightarrow> delivered t F ret' d' k c"
  proof (rule Cons.IH [OF rest])
    show "bin_setup t F (xs @ x # ys)" using Cons.prems(2) by (simp add: bin_setup_def)
    show "distinct (map fst (xs @ x # ys))" using Cons.prems(3) by auto
    show "\<forall>(k, _) \<in> set xs. missing ret1 k"
    proof clarify
      fix k ks assume k: "(k, ks) \<in> set xs"
      then have "k \<noteq> n" using n by blast
      with k show "missing ret1 k" using Cons.prems(4) unfolding p(2) by (auto simp: missing_update)
    qed
    show "\<forall>(k, cs) \<in> set (x # ys). \<forall>c. only_location t cs c \<longrightarrow> delivered t F ret1 d1 k c"
      using new old b(1) x by (auto simp: only_location_def)
  qed
  then show ?case by auto
qed auto


section \<open>Local binaries\<close>

text \<open>A local binary with a relative path is copied onto the folder itself and not to its path in the folder: the
  download fails, unless the sizes of the file and of the folder happen to agree.\<close>

lemma downloadBinary_relative:
  assumes "Stat_ok d (os_path t (bin_Path b))" "\<not> IsAbs (bin_Path b)" "io_error d D = None" "map_of (files d) D = None"
    and "stat_size t d (os_path t (bin_Path b)) \<noteq> tb_dir_size t D"
  shows "\<exists>d'. downloadBinary t b D (d, h) = (Inl (Err (''open '' @ D @ '': is a directory'')), (d', h))"
proof -
  define d1 where "d1 = d\<lparr>dirs := List.insert D (dirs d)\<rparr>"
  have m: "MkdirAll D d = Inr d1" using assms(3) by (simp add: MkdirAll_def d1_def)
  have "Stat_ok d1 (os_path t (bin_Path b))" "Stat_ok d1 D" "is_dir d1 D" "io_error d1 D = None"
    using assms(1,3) by (auto simp: Stat_ok_def path_exists_def d1_def below_path_def is_dir_def)
  moreover have "stat_size t d1 (os_path t (bin_Path b)) \<noteq> stat_size t d1 D" using assms(4,5) by (simp add: stat_size_def d1_def)
  ultimately have "copyLocal t b D d1 = (Inl (Err (''open '' @ D @ '': is a directory'')), d1)"
    by (simp add: copyLocal_def Let_def copy_File_def CreateFile_def)
  with assms(1,2) m show ?thesis by (simp add: downloadBinary_def)
qed

text \<open>A local binary with an absolute path belongs to the user: with a wrong checksum it is deleted.\<close>

lemma verifyBinary_deletes:
  assumes "ReadFile d p = Inr c" "checksum \<noteq> []" "\<not> EqualFold (tb_sha t c) checksum" "os_path t p = p"
  shows "fst (verifyBinary t p checksum d) = False \<and> map_of (files (snd (verifyBinary t p checksum d))) p = None"
proof -
  have f: "io_error d p = None" "map_of (files d) p = Some c" using assms(1) by (auto simp: ReadFile_def split: option.splits)
  then have "p \<in> set (keys (files d) @ dirs d)" by (force dest: map_of_SomeD)
  with f have "Stat_ok d p" unfolding Stat_ok_def path_exists_def below_path_def by blast
  with f assms show ?thesis by (simp add: verifyBinary_def hash_File_def os_Remove_def delete_conv')
qed

section \<open>An example\<close>

text \<open>A server whose first answer is damaged.\<close>

definition sample_network :: network where
  "sample_network = \<lparr>nw_Do = (\<lambda>h rq. Inr \<lparr>rs_StatusCode = 200, rs_Body = (if h = [] then ''damaged'' else ''binary'', None)\<rparr>),
     nw_Parse = (\<lambda>_. Inr \<lparr>url_Scheme = ''https'', url_Host = ''example.com'', url_Path = ''/b''\<rparr>),
     nw_Unmarshal = (\<lambda>_. Inr []), nw_env = (\<lambda>_. []), nw_executable = Inr ''devpod'', nw_run = (\<lambda>_ _ _. Inr [])\<rparr>"

definition sample_toolbox :: toolbox where
  "sample_toolbox = \<lparr>tb_network = sample_network, tb_GOOS = ''linux'', tb_GOARCH = ''amd64'', tb_TempDir = ''/tmp'', tb_cwd = ''/'',
     tb_temp_name = ''x'', tb_sha = (\<lambda>s. if s = ''binary'' then ''ab'' else ''cd''), tb_dir_size = (\<lambda>_. 4096),
     tb_codec = \<lparr>ac_gzip_header = (\<lambda>_. None), ac_untar = (\<lambda>_ _. ([], None)), ac_link = (\<lambda>_ _ _ d. Inr d)\<rparr>,
     tb_unzip = (\<lambda>_. Inr [])\<rparr>"

definition sample_binary :: provider_binary where
  "sample_binary = \<lparr>bin_OS = ''linux'', bin_Arch = ''amd64'', bin_Checksum = ''AB'', bin_Path = ''https://example.com/b'',
     bin_ArchivePath = [], bin_Name = []\<rparr>"

definition sample_bin_disk :: disk where
  "sample_bin_disk = \<lparr>files = [], dirs = [''/p''], io_error = (\<lambda>_. None)\<rparr>"


end
