(* ===== verification/Client.thy ===== *)
theory Client
  imports Binaries Options_Resolve
begin

text \<open>
  The clients of machines and workspaces: \<^verbatim>\<open>pkg/client/client.go\<close> and \<^verbatim>\<open>pkg/client/clientimplementation\<close>
  (\<^verbatim>\<open>machine_client.go\<close>, \<^verbatim>\<open>workspace_client.go\<close>).  The commands of a provider act on machines and
  containers and not on DevPod's own files, so the state is the file system, the requests and the
  commands so far, and what a command does may depend on all earlier commands.  The codecs, the
  resolver's environment and the answers of the operating system are fields of one record.  Logging and
  the streams a command is attached to are left out; a deadline is passed to the command.
\<close>

section \<open>Status\<close>

datatype status = StatusRunning | StatusBusy | StatusStopped | StatusNotFound

definition ParseStatus :: "string \<Rightarrow> status result" where
  "ParseStatus s0 =
     (let s = ToUpper (TrimSpace s0) in
      if s = ''RUNNING'' then Inr StatusRunning
      else if s = ''BUSY'' then Inr StatusBusy
      else if s = ''STOPPED'' then Inr StatusStopped
      else if s = ''NOTFOUND'' then Inr StatusNotFound
      else Inl (Err (''error parsing status: '' @ [CHR 0x27] @ s @ [CHR 0x27] @
             '' unrecognized status, needs to be one of: [Running Busy Stopped NotFound]'')))"

text \<open>Of the platform's options only whether the platform is used is kept.\<close>

record delete_options =
  do_Platform :: bool
  do_IgnoreNotFound :: bool
  do_Force :: bool
  do_GracePeriod :: string

section \<open>What the agent is told\<close>

record cli_options =
  cli_Platform :: bool
  cli_ID :: string
  cli_Source :: string
  cli_IDE :: string
  cli_IDEOptions :: "string list"
  cli_PrebuildRepositories :: "string list"
  cli_DevContainerImage :: string
  cli_DevContainerPath :: string
  cli_WorkspaceEnv :: "string list"
  cli_WorkspaceEnvFile :: "string list"
  cli_InitEnv :: "string list"
  cli_Recreate :: bool
  cli_Reset :: bool
  cli_DisableDaemon :: bool
  cli_DaemonInterval :: string
  cli_GitCloneStrategy :: string
  cli_GitCloneRecursiveSubmodules :: bool
  cli_FallbackImage :: string
  cli_GitSSHSigningKey :: string
  cli_SSHAuthSockID :: string
  cli_StrictHostKeyChecking :: bool
  cli_Repository :: string
  cli_SkipPush :: bool
  cli_Platforms :: "string list"
  cli_Tag :: "string list"
  cli_ForceBuild :: bool
  cli_ForceDockerless :: bool
  cli_ForceInternalBuildKit :: bool

definition zero_cli :: cli_options where
  "zero_cli = \<lparr>cli_Platform = False, cli_ID = [], cli_Source = [], cli_IDE = [], cli_IDEOptions = [], cli_PrebuildRepositories = [],
     cli_DevContainerImage = [], cli_DevContainerPath = [], cli_WorkspaceEnv = [], cli_WorkspaceEnvFile = [], cli_InitEnv = [],
     cli_Recreate = False, cli_Reset = False, cli_DisableDaemon = False, cli_DaemonInterval = [], cli_GitCloneStrategy = [],
     cli_GitCloneRecursiveSubmodules = False, cli_FallbackImage = [], cli_GitSSHSigningKey = [], cli_SSHAuthSockID = [],
     cli_StrictHostKeyChecking = False, cli_Repository = [], cli_SkipPush = False, cli_Platforms = [], cli_Tag = [],
     cli_ForceBuild = False, cli_ForceDockerless = False, cli_ForceInternalBuildKit = False\<rparr>"

record agent_info =
  ai_WorkspaceOrigin :: string
  ai_Workspace :: workspace
  ai_LastDevContainerConfig :: "devcontainer_with_path option"
  ai_Machine :: "machine option"
  ai_Agent :: agent_config
  ai_CLIOptions :: cli_options
  ai_Options :: OptionValues
  ai_ContentFolder :: string
  ai_Origin :: string
  ai_InjectTimeout :: int
  ai_RegistryCache :: string

section \<open>Commands\<close>

record command =
  cm_Name :: string
  cm_Argv :: "string list"
  cm_Env :: "string list"
  cm_Timeout :: "int option"

text \<open>\<open>oc_Both\<close> is what a command wrote to both streams, in the order it wrote it.  A command of one word is a line of
  the shell, a longer one a program with its arguments.\<close>

record outcome =
  oc_Stdout :: string
  oc_Stderr :: string
  oc_Both :: string
  oc_Err :: "gerr option"

record sys =
  sy_disk :: disk
  sy_requests :: requests
  sy_commands :: "command list"

text \<open>What lies outside of the program.\<close>

record app =
  ap_tools :: toolbox
  ap_host :: host
  ap_ord :: "string list \<Rightarrow> string list"
  ap_env :: "string gomap"
  ap_version :: string
  ap_debug :: bool
  ap_home :: "string result"
  ap_now :: int
  ap_run :: "command list \<Rightarrow> command \<Rightarrow> outcome"
  ap_worlds :: "nat \<Rightarrow> world"
  ap_fuel :: nat
  ap_workspace_enc :: "workspace \<Rightarrow> string result"
  ap_workspace_dec :: "string \<Rightarrow> workspace result"
  ap_machine_enc :: "machine \<Rightarrow> string result"
  ap_machine_dec :: "string \<Rightarrow> machine result"
  ap_result_dec :: "string \<Rightarrow> result_config result"
  ap_info_enc :: "agent_info \<Rightarrow> string result"

definition RunCommand :: "app \<Rightarrow> string \<Rightarrow> string list \<Rightarrow> string list \<Rightarrow> int option \<Rightarrow> sys \<Rightarrow> outcome \<times> sys" where
  "RunCommand a name cmd environ timeout s =
     (if cmd = [] then (\<lparr>oc_Stdout = [], oc_Stderr = [], oc_Both = [], oc_Err = None\<rparr>, s)
      else (let c = \<lparr>cm_Name = name, cm_Argv = cmd, cm_Env = environ, cm_Timeout = timeout\<rparr> in
            (ap_run a (sy_commands s) c, s\<lparr>sy_commands := sy_commands s @ [c]\<rparr>)))"

definition runCommand :: "app \<Rightarrow> string \<Rightarrow> string list \<Rightarrow> string list \<Rightarrow> int option \<Rightarrow> sys \<Rightarrow> outcome \<times> sys" where
  "runCommand a name cmd environ timeout s =
     (if cmd = [] then (\<lparr>oc_Stdout = [], oc_Stderr = [], oc_Both = [], oc_Err = None\<rparr>, s)
      else RunCommand a name cmd (environ @ (if ap_debug a then [''DEVPOD_DEBUG=true''] else [])) timeout s)"

definition RunCommandWithBinaries ::
    "app \<Rightarrow> string \<Rightarrow> string list \<Rightarrow> string \<Rightarrow> workspace option \<Rightarrow> machine option \<Rightarrow> OptionValues option \<Rightarrow> provider \<Rightarrow>
      string gomap \<Rightarrow> int option \<Rightarrow> sys \<Rightarrow> outcome \<times> sys" where
  "RunCommandWithBinaries a name cmd context w m options config extraEnv timeout s =
     (case (case options of
              None \<Rightarrow> Inl nil_deref
            | Some vals \<Rightarrow>
                ToEnvironmentWithBinaries (ap_tools a) (ap_host a) (ap_ord a) context w m vals config extraEnv (sy_disk s)) of
        Inl e \<Rightarrow> (\<lparr>oc_Stdout = [], oc_Stderr = [], oc_Both = [], oc_Err = Some e\<rparr>, s)
      | Inr environ \<Rightarrow> runCommand a name cmd environ timeout s)"

definition to_result :: "outcome \<Rightarrow> unit result" where
  "to_result oc = (case oc_Err oc of None \<Rightarrow> Inr () | Some e \<Rightarrow> Inl e)"

text \<open>An error that a flag makes the code pass over; a panic is never passed over.\<close>

fun forgiven :: "bool \<Rightarrow> gerr \<Rightarrow> bool" where
  "forgiven force (Err m) = force"
| "forgiven force (Panic m) = False"

definition grace_period :: "delete_options \<Rightarrow> int option" where
  "grace_period opt = (if do_GracePeriod opt \<noteq> [] then ParseDuration (do_GracePeriod opt) else None)"

section \<open>Folders\<close>

definition DeleteMachineFolder :: "app \<Rightarrow> string \<Rightarrow> string \<Rightarrow> disk \<Rightarrow> unit result \<times> disk" where
  "DeleteMachineFolder a context machineID d =
     (case GetMachineDir (ap_host a) context machineID of
        Inl e \<Rightarrow> (Inl e, d)
      | Inr machineDir \<Rightarrow> (case RemoveAll machineDir d of Inl e \<Rightarrow> (Inl e, d) | Inr d1 \<Rightarrow> (Inr (), d1)))"

definition DeleteWorkspaceFolder :: "app \<Rightarrow> string \<Rightarrow> string \<Rightarrow> string \<Rightarrow> disk \<Rightarrow> unit result \<times> disk" where
  "DeleteWorkspaceFolder a context workspaceID sshConfigPath d =
     (case ResolveSSHConfigPath (ap_home a) (tb_cwd (ap_tools a)) sshConfigPath of
        Inl e \<Rightarrow> (Inl e, d)
      | Inr path \<Rightarrow>
          (let d1 = snd (RemoveFromConfig workspaceID path d) in
           case GetWorkspaceDir (ap_host a) context workspaceID of
             Inl e \<Rightarrow> (Inl e, d1)
           | Inr workspaceFolder \<Rightarrow>
               (case RemoveAll workspaceFolder d1 of Inl e \<Rightarrow> (Inl e, d1) | Inr d2 \<Rightarrow> (Inr (), d2))))"

text \<open>An operation on the file system inside of the whole state.\<close>

definition on_disk :: "(disk \<Rightarrow> 'a \<times> disk) \<Rightarrow> sys \<Rightarrow> 'a \<times> sys" where
  "on_disk f s = (case f (sy_disk s) of (r, d) \<Rightarrow> (r, s\<lparr>sy_disk := d\<rparr>))"

section \<open>Machines\<close>

record machine_client =
  mc_config :: config
  mc_provider :: provider
  mc_machine :: machine

definition NewMachineClient :: "config \<Rightarrow> provider \<Rightarrow> machine option \<Rightarrow> machine_client result" where
  "NewMachineClient devPodConfig prov m =
     (if \<not> IsMachineProvider prov then
        Inl (Err (''provider '' @ [CHR 0x27] @ pr_Name prov @ [CHR 0x27] @ '' is not a machine provider. Please use another provider''))
      else (case m of
              None \<Rightarrow> Inl (Err ''machine doesn't exist. Seems like it was deleted without the workspace being deleted'')
            | Some mach \<Rightarrow> Inr \<lparr>mc_config = devPodConfig, mc_provider = prov, mc_machine = mach\<rparr>))"

definition machine_run :: "app \<Rightarrow> machine_client \<Rightarrow> string \<Rightarrow> string list \<Rightarrow> string gomap \<Rightarrow> int option \<Rightarrow> sys \<Rightarrow> outcome \<times> sys" where
  "machine_run a c name cmd extraEnv timeout s =
     RunCommandWithBinaries a name cmd (m_Context (mc_machine c)) None (Some (mc_machine c))
       (ProviderOptions (mc_config c) (pr_Name (mc_provider c))) (mc_provider c) extraEnv timeout s"

definition machine_RefreshOptions :: "app \<Rightarrow> machine_client \<Rightarrow> string list \<Rightarrow> sys \<Rightarrow> (machine_client result \<times> sys) option" where
  "machine_RefreshOptions a c userOptionsRaw s =
     (case ParseOptions userOptionsRaw of
        Inl e \<Rightarrow> Some (Inl (wrap ''parse options'' e), s)
      | Inr uOpts \<Rightarrow>
          (case ResolveAndSaveOptionsMachine (ap_host a) (ap_machine_dec a) (ap_machine_enc a)
                  (\<lambda>ctx p. GetBinaries (ap_tools a) (ap_host a) (ap_ord a) ctx p (sy_disk s)) (ap_worlds a) (ap_fuel a)
                  (mc_config c) (mc_provider c) (mc_machine c) uOpts (sy_disk s) of
             None \<Rightarrow> None
           | Some ((_, Some e), d) \<Rightarrow> Some (Inl e, s\<lparr>sy_disk := d\<rparr>)
           | Some ((Some m, None), d) \<Rightarrow> Some (Inr (c\<lparr>mc_machine := m\<rparr>), s\<lparr>sy_disk := d\<rparr>)
           | Some ((None, None), d) \<Rightarrow> Some (Inl nil_deref, s\<lparr>sy_disk := d\<rparr>)))"

definition machine_Create :: "app \<Rightarrow> machine_client \<Rightarrow> sys \<Rightarrow> unit result \<times> sys" where
  "machine_Create a c s = apfst to_result (machine_run a c ''create'' (ex_Create (pr_Exec (mc_provider c))) [] None s)"

definition machine_Start :: "app \<Rightarrow> machine_client \<Rightarrow> sys \<Rightarrow> unit result \<times> sys" where
  "machine_Start a c s = apfst to_result (machine_run a c ''start'' (ex_Start (pr_Exec (mc_provider c))) [] None s)"

definition machine_Stop :: "app \<Rightarrow> machine_client \<Rightarrow> sys \<Rightarrow> unit result \<times> sys" where
  "machine_Stop a c s = apfst to_result (machine_run a c ''stop'' (ex_Stop (pr_Exec (mc_provider c))) [] None s)"

definition machine_Command :: "app \<Rightarrow> machine_client \<Rightarrow> string \<Rightarrow> sys \<Rightarrow> unit result \<times> sys" where
  "machine_Command a c cmd s =
     apfst to_result (machine_run a c ''command'' (ex_Command (pr_Exec (mc_provider c))) [(''COMMAND'', cmd)] None s)"

definition machine_Status :: "app \<Rightarrow> machine_client \<Rightarrow> int option \<Rightarrow> sys \<Rightarrow> status result \<times> sys" where
  "machine_Status a c timeout s =
     (case machine_run a c ''status'' (ex_Status (pr_Exec (mc_provider c))) [] timeout s of
        (oc, s1) \<Rightarrow>
          (case oc_Err oc of
             Some (Panic m) \<Rightarrow> (Inl (Panic m), s1)
           | Some (Err _) \<Rightarrow> (Inl (Err (''get status: '' @ TrimSpace (oc_Stdout oc) @ TrimSpace (oc_Stderr oc))), s1)
           | None \<Rightarrow> (ParseStatus (oc_Stdout oc), s1)))"

definition machine_Delete :: "app \<Rightarrow> machine_client \<Rightarrow> delete_options \<Rightarrow> sys \<Rightarrow> unit result \<times> sys" where
  "machine_Delete a c opt s =
     (case machine_run a c ''delete'' (ex_Delete (pr_Exec (mc_provider c))) [] (grace_period opt) s of
        (oc, s1) \<Rightarrow>
          (case oc_Err oc of
             Some e \<Rightarrow>
               if \<not> forgiven (do_Force opt) e then (Inl e, s1)
               else on_disk (DeleteMachineFolder a (m_Context (mc_machine c)) (m_ID (mc_machine c))) s1
           | None \<Rightarrow> on_disk (DeleteMachineFolder a (m_Context (mc_machine c)) (m_ID (mc_machine c))) s1))"

section \<open>Workspaces\<close>

record workspace_client =
  wc_config :: config
  wc_provider :: provider
  wc_workspace :: workspace
  wc_machine :: "machine option"

definition NewWorkspaceClient :: "config \<Rightarrow> provider \<Rightarrow> workspace \<Rightarrow> machine option \<Rightarrow> workspace_client result" where
  "NewWorkspaceClient devPodConfig prov w m =
     (if wm_ID (w_Machine w) \<noteq> [] \<and> m = None then Inl (Err ''workspace machine is not found'')
      else if IsMachineProvider prov \<and> wm_ID (w_Machine w) = []
      then Inl (Err ''workspace machine ID is empty, but machine provider found'')
      else Inr \<lparr>wc_config = devPodConfig, wc_provider = prov, wc_workspace = w, wc_machine = m\<rparr>)"

text \<open>The clones go through JSON, whose errors are ignored: what cannot be encoded becomes the zero value.\<close>

definition CloneWorkspace :: "app \<Rightarrow> workspace \<Rightarrow> workspace" where
  "CloneWorkspace a w =
     (case ap_workspace_enc a w of
        Inl _ \<Rightarrow> zero_workspace
      | Inr b \<Rightarrow> (case ap_workspace_dec a b of Inl _ \<Rightarrow> zero_workspace | Inr x \<Rightarrow> x))\<lparr>w_Origin := w_Origin w\<rparr>"

definition zero_machine :: machine where
  "zero_machine = \<lparr>m_ID = [], m_Provider = \<lparr>mp_Name = [], mp_Options = []\<rparr>, m_CreationTimestamp = 0, m_Context = [], m_Origin = []\<rparr>"

definition CloneMachine :: "app \<Rightarrow> machine \<Rightarrow> machine" where
  "CloneMachine a m =
     (case ap_machine_enc a m of
        Inl _ \<Rightarrow> zero_machine
      | Inr b \<Rightarrow> (case ap_machine_dec a b of Inl _ \<Rightarrow> zero_machine | Inr x \<Rightarrow> x))\<lparr>m_Origin := m_Origin m\<rparr>"

text \<open>\<open>agentInfo\<close>: without the custom driver, the options of the provider are not sent to an agent on the platform
  or without a daemon.\<close>

definition strip_options :: "app \<Rightarrow> agent_info \<Rightarrow> agent_info" where
  "strip_options a i =
     i\<lparr>ai_Options := [],
       ai_Workspace := (CloneWorkspace a (ai_Workspace i))\<lparr>w_Provider := (w_Provider (CloneWorkspace a (ai_Workspace i)))\<lparr>wpc_Options := []\<rparr>\<rparr>,
       ai_Machine := map_option (\<lambda>m. (CloneMachine a m)\<lparr>m_Provider := (m_Provider (CloneMachine a m))\<lparr>mp_Options := []\<rparr>\<rparr>) (ai_Machine i)\<rparr>"

definition agentInfo :: "app \<Rightarrow> workspace_client \<Rightarrow> cli_options \<Rightarrow> disk \<Rightarrow> agent_info result" where
  "agentInfo a c cli d =
     (let w = wc_workspace c;
          last = (case LoadWorkspaceResult (ap_host a) (ap_result_dec a) (w_Context w) (w_ID w) d of
                    Inr (Some r) \<Rightarrow> re_DevContainerConfigWithPath r
                  | _ \<Rightarrow> None) in
      case (ResolveAgentConfig (ap_host a) (ap_ord a) (ap_env a) (ap_version a) (wc_config c) (wc_provider c) (Some w) (wc_machine c),
            ProviderOptions (wc_config c) (pr_Name (wc_provider c))) of
        (Inl e, _) \<Rightarrow> Inl e
      | (_, None) \<Rightarrow> Inl nil_deref
      | (Inr ag, Some vals) \<Rightarrow>
          (let agent = (if cli_Platform cli then ag\<lparr>ag_InjectGitCredentials := ''true'', ag_InjectDockerCredentials := ''true''\<rparr> else ag);
               info = \<lparr>ai_WorkspaceOrigin = w_Origin w, ai_Workspace = w, ai_LastDevContainerConfig = last, ai_Machine = wc_machine c,
                       ai_Agent = agent, ai_CLIOptions = cli, ai_Options = vals, ai_ContentFolder = [], ai_Origin = [],
                       ai_InjectTimeout = ParseTimeOption (wc_config c) ''AGENT_INJECT_TIMEOUT'',
                       ai_RegistryCache = ContextOption (wc_config c) ''REGISTRY_CACHE''\<rparr> in
           Inr (if ag_Driver agent \<noteq> CustomDriver \<and> (cli_Platform cli \<or> cli_DisableDaemon cli) then strip_options a info else info)))"

definition compressedAgentInfo :: "app \<Rightarrow> workspace_client \<Rightarrow> cli_options \<Rightarrow> disk \<Rightarrow> (string \<times> agent_info) result" where
  "compressedAgentInfo a c cli d =
     (case agentInfo a c cli d of
        Inl e \<Rightarrow> Inl e
      | Inr i \<Rightarrow> (case ap_info_enc a i of Inl e \<Rightarrow> Inl e | Inr z \<Rightarrow> Inr (z, i)))"

definition agent_command :: "string \<Rightarrow> string \<Rightarrow> agent_info \<Rightarrow> string" where
  "agent_command verb z i =
     [CHR 0x27] @ ag_Path (ai_Agent i) @ [CHR 0x27] @ '' agent workspace '' @ verb @ '' --workspace-info '' @ [CHR 0x27] @ z @ [CHR 0x27]"

text \<open>A command for the agent; \<open>msg\<close> is the error when it cannot be told about the workspace.\<close>

definition run_agent :: "app \<Rightarrow> workspace_client \<Rightarrow> string \<Rightarrow> string \<Rightarrow> int option \<Rightarrow> sys \<Rightarrow> outcome result \<times> sys" where
  "run_agent a c verb msg timeout s =
     (case compressedAgentInfo a c zero_cli (sy_disk s) of
        Inl (Panic m) \<Rightarrow> (Inl (Panic m), s)
      | Inl (Err _) \<Rightarrow> (Inl (Err msg), s)
      | Inr (z, i) \<Rightarrow>
          apfst Inr (RunCommandWithBinaries a ''command'' (ex_Command (pr_Exec (wc_provider c))) (w_Context (wc_workspace c))
            (Some (wc_workspace c)) (wc_machine c) (ProviderOptions (wc_config c) (pr_Name (wc_provider c))) (wc_provider c)
            [(''COMMAND'', agent_command verb z i)] timeout s))"

definition workspace_RefreshOptions :: "app \<Rightarrow> workspace_client \<Rightarrow> string list \<Rightarrow> sys \<Rightarrow> (workspace_client result \<times> sys) option" where
  "workspace_RefreshOptions a c userOptionsRaw s =
     (let getBinaries = (\<lambda>ctx p. GetBinaries (ap_tools a) (ap_host a) (ap_ord a) ctx p (sy_disk s)) in
      case ParseOptions userOptionsRaw of
        Inl e \<Rightarrow> Some (Inl (wrap ''parse options'' e), s)
      | Inr uOpts \<Rightarrow>
          if IsMachineProvider (wc_provider c) then
            (case wc_machine c of
               None \<Rightarrow> Some (Inr c, s)
             | Some m \<Rightarrow>
                 (case ResolveAndSaveOptionsMachine (ap_host a) (ap_machine_dec a) (ap_machine_enc a) getBinaries (ap_worlds a) (ap_fuel a)
                         (wc_config c) (wc_provider c) m uOpts (sy_disk s) of
                    None \<Rightarrow> None
                  | Some ((_, Some e), d) \<Rightarrow> Some (Inl e, s\<lparr>sy_disk := d\<rparr>)
                  | Some ((m1, None), d) \<Rightarrow> Some (Inr (c\<lparr>wc_machine := m1\<rparr>), s\<lparr>sy_disk := d\<rparr>)))
          else
            (case ResolveAndSaveOptionsWorkspace (ap_host a) (ap_workspace_dec a) (ap_workspace_enc a) getBinaries (ap_worlds a) (ap_fuel a)
                    (wc_config c) (wc_provider c) (wc_workspace c) uOpts [] (sy_disk s) of
               None \<Rightarrow> None
             | Some ((_, Some e), d) \<Rightarrow> Some (Inl e, s\<lparr>sy_disk := d\<rparr>)
             | Some ((Some w, None), d) \<Rightarrow> Some (Inr (c\<lparr>wc_workspace := w\<rparr>), s\<lparr>sy_disk := d\<rparr>)
             | Some ((None, None), d) \<Rightarrow> Some (Inl nil_deref, s\<lparr>sy_disk := d\<rparr>)))"

definition workspace_Create :: "app \<Rightarrow> workspace_client \<Rightarrow> sys \<Rightarrow> unit result \<times> sys" where
  "workspace_Create a c s =
     (if \<not> IsMachineProvider (wc_provider c) then (Inr (), s)
      else if wc_machine c = None then (Inl (Err ''machine is not defined''), s)
      else
        (case NewMachineClient (wc_config c) (wc_provider c) (wc_machine c) of
           Inl e \<Rightarrow> (Inl e, s)
         | Inr mc \<Rightarrow>
             (case machine_Status a mc None s of
                (Inl e, s1) \<Rightarrow> (Inl e, s1)
              | (Inr st, s1) \<Rightarrow> if st \<noteq> StatusNotFound then (Inr (), s1) else machine_Create a mc s1)))"

definition isMachineRunning :: "app \<Rightarrow> workspace_client \<Rightarrow> int option \<Rightarrow> sys \<Rightarrow> bool result \<times> sys" where
  "isMachineRunning a c timeout s =
     (if \<not> IsMachineProvider (wc_provider c) then (Inr True, s)
      else
        (case NewMachineClient (wc_config c) (wc_provider c) (wc_machine c) of
           Inl e \<Rightarrow> (Inl e, s)
         | Inr mc \<Rightarrow>
             (case machine_Status a mc timeout s of
                (Inl e, s1) \<Rightarrow> (Inl (wrap ''retrieve machine status'' e), s1)
              | (Inr st, s1) \<Rightarrow> (Inr (st = StatusRunning), s1))))"

definition delete_container :: "app \<Rightarrow> workspace_client \<Rightarrow> delete_options \<Rightarrow> sys \<Rightarrow> unit result \<times> sys" where
  "delete_container a c opt s =
     (case isMachineRunning a c (grace_period opt) s of
        (Inl e, s1) \<Rightarrow> (if forgiven (do_Force opt) e then Inr () else Inl e, s1)
      | (Inr False, s1) \<Rightarrow> (Inr (), s1)
      | (Inr True, s1) \<Rightarrow>
          (case run_agent a c ''delete'' ''agent info'' (grace_period opt) s1 of
             (Inl e, s2) \<Rightarrow> (Inl e, s2)
           | (Inr oc, s2) \<Rightarrow>
               (case oc_Err oc of None \<Rightarrow> (Inr (), s2) | Some e \<Rightarrow> (if forgiven (do_Force opt) e then Inr () else Inl e, s2))))"

definition delete_machine :: "app \<Rightarrow> workspace_client \<Rightarrow> delete_options \<Rightarrow> sys \<Rightarrow> unit result \<times> sys" where
  "delete_machine a c opt s =
     (if wc_machine c \<noteq> None \<and> wm_ID (w_Machine (wc_workspace c)) \<noteq> [] \<and> ex_Delete (pr_Exec (wc_provider c)) \<noteq> [] then
        (case NewMachineClient (wc_config c) (wc_provider c) (wc_machine c) of
           Inl e \<Rightarrow> (Inl (if do_Force opt then nil_deref else e), s)
         | Inr mc \<Rightarrow> machine_Delete a mc opt s)
      else (Inr (), s))"

definition workspace_Delete :: "app \<Rightarrow> workspace_client \<Rightarrow> delete_options \<Rightarrow> sys \<Rightarrow> unit result \<times> sys" where
  "workspace_Delete a c opt s =
     (case (if \<not> IsMachineProvider (wc_provider c) \<or> \<not> wm_AutoDelete (w_Machine (wc_workspace c))
            then delete_container a c opt s else delete_machine a c opt s) of
        (Inl e, s1) \<Rightarrow> (Inl e, s1)
      | (Inr _, s1) \<Rightarrow>
          on_disk (DeleteWorkspaceFolder a (w_Context (wc_workspace c)) (w_ID (wc_workspace c)) (w_SSHConfigPath (wc_workspace c))) s1)"

definition workspace_Start :: "app \<Rightarrow> workspace_client \<Rightarrow> sys \<Rightarrow> unit result \<times> sys" where
  "workspace_Start a c s =
     (if \<not> IsMachineProvider (wc_provider c) \<or> wc_machine c = None then (Inr (), s)
      else (case NewMachineClient (wc_config c) (wc_provider c) (wc_machine c) of
              Inl e \<Rightarrow> (Inl e, s)
            | Inr mc \<Rightarrow> machine_Start a mc s))"

definition workspace_Stop :: "app \<Rightarrow> workspace_client \<Rightarrow> sys \<Rightarrow> unit result \<times> sys" where
  "workspace_Stop a c s =
     (if \<not> IsMachineProvider (wc_provider c) \<or> \<not> wm_AutoDelete (w_Machine (wc_workspace c)) then
        (case run_agent a c ''stop'' ''agent info'' None s of
           (Inl e, s1) \<Rightarrow> (Inl e, s1)
         | (Inr oc, s1) \<Rightarrow> (to_result oc, s1))
      else (case NewMachineClient (wc_config c) (wc_provider c) (wc_machine c) of
              Inl e \<Rightarrow> (Inl e, s)
            | Inr mc \<Rightarrow> machine_Stop a mc s))"

definition workspace_Command :: "app \<Rightarrow> workspace_client \<Rightarrow> string \<Rightarrow> sys \<Rightarrow> unit result \<times> sys" where
  "workspace_Command a c cmd s =
     apfst to_result (RunCommandWithBinaries a ''command'' (ex_Command (pr_Exec (wc_provider c))) (w_Context (wc_workspace c))
       (Some (wc_workspace c)) (wc_machine c) (ProviderOptions (wc_config c) (pr_Name (wc_provider c))) (wc_provider c)
       [(''COMMAND'', cmd)] None s)"

definition getContainerStatus :: "app \<Rightarrow> workspace_client \<Rightarrow> sys \<Rightarrow> status result \<times> sys" where
  "getContainerStatus a c s =
     (case run_agent a c ''status'' ''get agent info'' None s of
        (Inl e, s1) \<Rightarrow> (Inl e, s1)
      | (Inr oc, s1) \<Rightarrow>
          (let buf = oc_Both oc in
           case oc_Err oc of
             Some e \<Rightarrow> (Inl (case e of Err m \<Rightarrow> Err (''error retrieving container status: '' @ buf @ m) | Panic m \<Rightarrow> Panic m), s1)
           | None \<Rightarrow>
               (case ParseStatus (oc_Stdout oc) of
                  Inl (Err m) \<Rightarrow> (Inl (Err (''error parsing container status: '' @ buf @ m)), s1)
                | r \<Rightarrow> (r, s1))))"

definition workspace_Status :: "app \<Rightarrow> workspace_client \<Rightarrow> bool \<Rightarrow> sys \<Rightarrow> status result \<times> sys" where
  "workspace_Status a c containerStatus s =
     (if IsMachineProvider (wc_provider c) \<and> ex_Status (pr_Exec (wc_provider c)) \<noteq> [] then
        (if wc_machine c = None then (Inr StatusNotFound, s)
         else
           (case NewMachineClient (wc_config c) (wc_provider c) (wc_machine c) of
              Inl e \<Rightarrow> (Inl e, s)
            | Inr mc \<Rightarrow>
                (case machine_Status a mc None s of
                   (Inl e, s1) \<Rightarrow> (Inl e, s1)
                 | (Inr st, s1) \<Rightarrow> if st = StatusRunning \<and> containerStatus then getContainerStatus a c s1 else (Inr st, s1))))
      else if containerStatus then getContainerStatus a c s
      else
        (case GetWorkspaceDir (ap_host a) (w_Context (wc_workspace c)) (w_ID (wc_workspace c)) of
           Inl e \<Rightarrow> (Inl e, s)
         | Inr workspaceFolder \<Rightarrow> (Inr (if Stat_ok (sy_disk s) workspaceFolder then StatusRunning else StatusNotFound), s)))"

end
