(* ===== verification/Management.thy ===== *)
theory Management
  imports Client
begin

text \<open>
  The management of providers, machines and workspaces: \<^verbatim>\<open>pkg/workspace\<close> (\<^verbatim>\<open>provider.go\<close>, \<^verbatim>\<open>machine.go\<close>, \<^verbatim>\<open>list.go\<close>,
  \<^verbatim>\<open>workspace.go\<close>, \<^verbatim>\<open>delete.go\<close>) and \<^verbatim>\<open>pkg/encoding\<close>.  The operations run on the whole state and return a value or an
  error; \<open>None\<close> is a resolver that ran out of fuel.  The remote instances, the clients of the platform, the terminal, the random
  identifiers and the hash functions are fields of one record.
\<close>

section \<open>Runs\<close>

type_synonym 'a run = "sys \<Rightarrow> ('a result \<times> sys) option"

definition return :: "'a \<Rightarrow> 'a run" where
  "return x s = Some (Inr x, s)"

definition raise :: "gerr \<Rightarrow> 'a run" where
  "raise e s = Some (Inl e, s)"

definition and_then :: "'a run \<Rightarrow> ('a \<Rightarrow> 'b run) \<Rightarrow> 'b run" where
  "and_then m f s = (case m s of None \<Rightarrow> None | Some (Inl e, s1) \<Rightarrow> Some (Inl e, s1) | Some (Inr x, s1) \<Rightarrow> f x s1)"

text \<open>The code after \<open>if err != nil\<close>; a panic passes it by.\<close>

definition on_error :: "'a run \<Rightarrow> (gerr \<Rightarrow> 'a run) \<Rightarrow> 'a run" where
  "on_error m f s = (case m s of Some (Inl (Err e), s1) \<Rightarrow> f (Err e) s1 | r \<Rightarrow> r)"

definition wrapped :: "string \<Rightarrow> 'a run \<Rightarrow> 'a run" where
  "wrapped msg m = on_error m (\<lambda>e. raise (wrap msg e))"

definition look :: "(disk \<Rightarrow> 'a result) \<Rightarrow> 'a run" where
  "look f s = Some (f (sy_disk s), s)"

definition act :: "(disk \<Rightarrow> 'a result \<times> disk) \<Rightarrow> 'a run" where
  "act f s = Some (on_disk f s)"

definition ignoring :: "unit run \<Rightarrow> unit run" where
  "ignoring m = on_error m (\<lambda>e. return ())"

section \<open>Outside\<close>

text \<open>An instance of a workspace on the platform, as far as it is listed.\<close>

record pro_remote =
  in_Name :: string
  in_Labels :: "string gomap option"
  in_Annotations :: "string gomap option"
  in_LastActivity :: "int option"
  in_CreationTimestamp :: "int option"
  in_DisplayName :: string

datatype base_client =
    WorkspaceClient workspace_client
  | ProxyClient config provider workspace
  | DaemonClient config provider workspace

record outside =
  ou_app :: app
  ou_uuid :: "nat \<Rightarrow> string"
  ou_sha256_hex :: "string \<Rightarrow> string"
  ou_machineid :: "string result"
  ou_hmac_hex :: "string \<Rightarrow> string \<Rightarrow> string"
  ou_parse :: "string \<Rightarrow> provider result"
  ou_provider_enc :: "provider \<Rightarrow> string result"
  ou_config_path :: "string result"
  ou_config_enc :: "config \<Rightarrow> string result"
  ou_ping :: "string \<Rightarrow> bool"
  ou_project_image :: "string \<Rightarrow> string"
  ou_image :: "string \<Rightarrow> unit result"
  ou_instances :: "config \<Rightarrow> string \<Rightarrow> provider \<Rightarrow> pro_remote list result"
  ou_instance_exists :: "workspace \<Rightarrow> bool"
  ou_pro_Create :: "base_client \<Rightarrow> unit run"
  ou_pro_Status :: "base_client \<Rightarrow> status run"
  ou_pro_Delete :: "base_client \<Rightarrow> delete_options \<Rightarrow> unit run"
  ou_lock :: "base_client \<Rightarrow> gerr option"
  ou_terminal :: bool
  ou_select :: "workspace list \<Rightarrow> workspace option result"
  ou_question :: "string list \<Rightarrow> string result"

section \<open>Identifiers\<close>

definition hashingKey :: string where
  "hashingKey = ''2f1uR7n8ryzFEaAm87Ec''"

definition WorkspaceUIDLength :: nat where "WorkspaceUIDLength = 16"
definition MachineUIDLength :: nat where "MachineUIDLength = 40"

definition enc_SafeConcatNameMax :: "(string \<Rightarrow> string) \<Rightarrow> string list \<Rightarrow> nat \<Rightarrow> string" where
  "enc_SafeConcatNameMax sha256_hex name limit =
     (let fullPath = Join name ''-'' in
      if length fullPath > limit then
        (let digestEncoded = sha256_hex fullPath;
             trimmedPath = take (limit - 6) fullPath in
         if HasSuffix trimmedPath ''-'' then trimmedPath @ take 6 digestEncoded
         else trimmedPath @ ''-'' @ take 5 digestEncoded)
      else fullPath)"

definition CreateNewUID :: "outside \<Rightarrow> string \<Rightarrow> string \<Rightarrow> string" where
  "CreateNewUID o1 context i =
     (let uid = ReplaceAll ''-'' [] (ou_uuid o1 0) in
      enc_SafeConcatNameMax (ou_sha256_hex o1)
        ((if context \<noteq> [] then [context] else []) @ (if i \<noteq> [] then [i] else []) @ [uid]) WorkspaceUIDLength)"

definition CreateNewUIDShort :: "outside \<Rightarrow> string \<Rightarrow> string" where
  "CreateNewUIDShort o1 i =
     (let uid = take 5 (ReplaceAll ''-'' [] (ou_uuid o1 1)) in
      enc_SafeConcatNameMax (ou_sha256_hex o1) [i, uid] WorkspaceUIDLength)"

definition IsLegacyUID :: "string \<Rightarrow> bool" where
  "IsLegacyUID uid \<longleftrightarrow> length uid \<noteq> WorkspaceUIDLength \<and> length uid \<noteq> MachineUIDLength"

definition GetMachineUID :: "outside \<Rightarrow> string" where
  "GetMachineUID o1 =
     (let i = (case ou_machineid o1 of Inl _ \<Rightarrow> ''error'' | Inr i \<Rightarrow> i);
          home = (case ap_home (ou_app o1) of Inl _ \<Rightarrow> ''error'' | Inr h \<Rightarrow> h) in
      ou_hmac_hex o1 i (hashingKey @ home))"

definition GetMachineUIDShort :: "outside \<Rightarrow> string" where
  "GetMachineUIDShort o1 = take 5 (GetMachineUID o1)"

section \<open>Providers\<close>

record provider_with_options =
  po_Config :: provider
  po_State :: "provider_config option"

text \<open>\<open>os.ReadDir\<close> where a missing directory has no entries.\<close>

definition read_dir :: "disk \<Rightarrow> string \<Rightarrow> (string \<times> bool) list result" where
  "read_dir d p = (if io_error d p = None \<and> \<not> path_exists d p then Inr [] else ReadDir d p)"

definition load_provider :: "outside \<Rightarrow> config \<Rightarrow> string \<Rightarrow> disk \<Rightarrow> provider result" where
  "load_provider o1 c name d = LoadProviderConfig (ap_host (ou_app o1)) (ou_parse o1) (DefaultContext c) name d"

fun configured_providers :: "(string \<Rightarrow> provider result) \<Rightarrow> (string \<times> provider_config) list \<Rightarrow> provider_with_options gomap" where
  "configured_providers load [] = []"
| "configured_providers load ((name, state) # ps) =
     (case load name of
        Inl _ \<Rightarrow> configured_providers load ps
      | Inr p \<Rightarrow> (name, \<lparr>po_Config = p, po_State = Some state\<rparr>) # configured_providers load ps)"

fun other_providers ::
    "(string \<Rightarrow> provider result) \<Rightarrow> (string \<times> bool) list \<Rightarrow> provider_with_options gomap \<Rightarrow> provider_with_options gomap result" where
  "other_providers load [] ret = Inr ret"
| "other_providers load ((name, isDir) # es) ret =
     (if map_of ret name \<noteq> None \<or> \<not> isDir \<or> HasPrefix name ''.DS_Store'' then other_providers load es ret
      else (case load name of
              Inl e \<Rightarrow> Inl e
            | Inr p \<Rightarrow> other_providers load es (AList.update (pr_Name p) \<lparr>po_Config = p, po_State = None\<rparr> ret)))"

definition LoadAllProviders :: "outside \<Rightarrow> config \<Rightarrow> disk \<Rightarrow> provider_with_options gomap result" where
  "LoadAllProviders o1 c d =
     (case Current c of
        None \<Rightarrow> Inl nil_deref
      | Some ctx \<Rightarrow>
          (let ps = nil_map (Providers ctx);
               load = (\<lambda>name. load_provider o1 c name d);
               ret = configured_providers load (map (\<lambda>k. (k, the (map_of ps k))) (ap_ord (ou_app o1) (keys ps))) in
           case GetProvidersDir (ap_host (ou_app o1)) (DefaultContext c) of
             Inl e \<Rightarrow> Inl e
           | Inr providerDir \<Rightarrow>
               (case read_dir d providerDir of
                  Inl e \<Rightarrow> Inl e
                | Inr entries \<Rightarrow> other_providers load entries ret)))"

definition FindProvider :: "outside \<Rightarrow> config \<Rightarrow> string \<Rightarrow> disk \<Rightarrow> provider_with_options result" where
  "FindProvider o1 c name d =
     (case LoadAllProviders o1 c d of
        Inl e \<Rightarrow> Inl e
      | Inr retProviders \<Rightarrow>
          (case map_of retProviders name of
             None \<Rightarrow> Inl (Err (''couldn't find provider with name '' @ name @
                        ''. Please make sure to add the provider via 'devpod provider add'' @ [CHR 0x27]))
           | Some p \<Rightarrow> Inr p))"

definition LoadProviders :: "outside \<Rightarrow> config \<Rightarrow> disk \<Rightarrow> (provider_with_options \<times> provider_with_options gomap) result" where
  "LoadProviders o1 c d =
     (case (LoadAllProviders o1 c d, Current c) of
        (Inl e, _) \<Rightarrow> Inl e
      | (_, None) \<Rightarrow> Inl nil_deref
      | (Inr retProviders, Some ctx) \<Rightarrow>
          if DefaultProvider ctx = [] then
            Inl (Err (''no default provider found. Please make sure to run 'devpod provider use'' @ [CHR 0x27]))
          else (case map_of retProviders (DefaultProvider ctx) of
                  None \<Rightarrow> Inl (Err (''couldn't find default provider '' @ DefaultProvider ctx @
                             ''. Please make sure to add the provider via 'devpod provider add'' @ [CHR 0x27]))
                | Some p \<Rightarrow> Inr (p, retProviders)))"

text \<open>Writing the configuration, \<open>SaveConfig\<close> with its file.\<close>

definition save_config :: "outside \<Rightarrow> config \<Rightarrow> disk \<Rightarrow> unit result \<times> disk" where
  "save_config o1 c d =
     (case SaveConfig (ou_config_path o1) (ou_config_enc o1) c of
        Inl e \<Rightarrow> (Inl e, d)
      | Inr (path, out) \<Rightarrow>
          (case MkdirAll (path_Dir path) d of
             Inl e \<Rightarrow> (Inl e, d)
           | Inr d1 \<Rightarrow> (case WriteFile path out d1 of Inl e \<Rightarrow> (Inl e, d1) | Inr d2 \<Rightarrow> (Inr (), d2))))"

definition upd_current :: "(context_config \<Rightarrow> context_config) \<Rightarrow> config \<Rightarrow> config" where
  "upd_current f c = c\<lparr>Contexts := map_option (\<lambda>m. AList.map_entry (DefaultContext c) f m) (Contexts c)\<rparr>"

definition already_exists :: "string \<Rightarrow> gerr" where
  "already_exists name = Err (''provider '' @ name @ '' already exists. Please run 'devpod provider delete '' @ name @
     [CHR 0x27] @ '' before adding the provider'')"

definition download_run :: "outside \<Rightarrow> provider \<Rightarrow> string \<Rightarrow> unit run" where
  "download_run o1 p binariesDir s =
     (case DownloadBinaries (ap_tools (ou_app o1)) (ap_ord (ou_app o1)) (pr_Binaries p) binariesDir (sy_disk s, sy_requests s) of
        (r, (d, h)) \<Rightarrow> Some (map_sum id (\<lambda>_. ()) r, s\<lparr>sy_disk := d, sy_requests := h\<rparr>))"

definition remove_all :: "string \<Rightarrow> unit run" where
  "remove_all p = act (\<lambda>d. case RemoveAll p d of Inl e \<Rightarrow> (Inl e, d) | Inr d1 \<Rightarrow> (Inr (), d1))"

definition named :: "string \<Rightarrow> provider_source \<Rightarrow> provider \<Rightarrow> provider" where
  "named providerName source p = p\<lparr>pr_Source := source, pr_Name := (if providerName \<noteq> [] then providerName else pr_Name p)\<rparr>"

definition installProvider :: "outside \<Rightarrow> config \<Rightarrow> provider \<Rightarrow> string \<Rightarrow> provider_source \<Rightarrow> provider run" where
  "installProvider o1 c p0 providerName source =
     (let p = named providerName source p0; h = ap_host (ou_app o1) in
      case Current c of
        None \<Rightarrow> raise nil_deref
      | Some ctx \<Rightarrow>
          if map_of (nil_map (Providers ctx)) (pr_Name p) \<noteq> None then raise (already_exists (pr_Name p))
          else
            and_then (look (\<lambda>_. GetProviderDir h (DefaultContext c) (pr_Name p))) (\<lambda>providerDir.
            and_then (look (\<lambda>d. if Stat_ok d providerDir then Inl (already_exists (pr_Name p)) else Inr ())) (\<lambda>_.
            and_then (wrapped ''get binaries dir'' (look (\<lambda>_. GetProviderBinariesDir h (DefaultContext c) (pr_Name p)))) (\<lambda>binariesDir.
            and_then (on_error (download_run o1 p binariesDir)
                        (\<lambda>e. and_then (ignoring (remove_all providerDir)) (\<lambda>_. raise (wrap ''download binaries'' e)))) (\<lambda>_.
            and_then (act (SaveProviderConfig h (ou_provider_enc o1) (DefaultContext c) p)) (\<lambda>_. return p))))))"

definition installRawProvider :: "outside \<Rightarrow> config \<Rightarrow> string \<Rightarrow> string \<Rightarrow> provider_source \<Rightarrow> provider run" where
  "installRawProvider o1 c providerName raw source =
     (case ou_parse o1 raw of Inl e \<Rightarrow> raise e | Inr p \<Rightarrow> installProvider o1 c p providerName source)"

definition add_provider_state :: "int \<Rightarrow> string \<Rightarrow> context_config \<Rightarrow> context_config" where
  "add_provider_state now name ctx =
     (let ps = nil_map (Providers ctx) in
      ctx\<lparr>Providers := Some (if map_of ps name \<noteq> None then ps
                             else AList.update name (empty_provider_config\<lparr>CreationTimestamp := now\<rparr>) ps)\<rparr>)"

definition AddProviderRaw :: "outside \<Rightarrow> config \<Rightarrow> string \<Rightarrow> provider_source \<Rightarrow> string \<Rightarrow> (provider \<times> config) run" where
  "AddProviderRaw o1 c providerName source raw =
     and_then (installRawProvider o1 c providerName raw source) (\<lambda>p.
       (let c1 = upd_current (add_provider_state (ap_now (ou_app o1)) (pr_Name p)) c in
        and_then (wrapped ''save config'' (act (save_config o1 c1))) (\<lambda>_. return (p, c1))))"

definition keep_options :: "string \<Rightarrow> OptionDefinitions \<Rightarrow> context_config \<Rightarrow> context_config" where
  "keep_options name defs ctx =
     ctx\<lparr>Providers := map_option (AList.map_entry name
       (\<lambda>st. st\<lparr>prov_Options := filter (\<lambda>(k, _). map_of defs k \<noteq> None) (prov_Options st)\<rparr>)) (Providers ctx)\<rparr>"

definition updateProvider :: "outside \<Rightarrow> config \<Rightarrow> string \<Rightarrow> string \<Rightarrow> provider_source \<Rightarrow> (provider \<times> config) run" where
  "updateProvider o1 c providerName raw source =
     (case ou_parse o1 raw of
        Inl e \<Rightarrow> raise e
      | Inr p0 \<Rightarrow>
          (let p = named providerName source p0; h = ap_host (ou_app o1);
               c1 = upd_current (keep_options (pr_Name p) (pr_Options p)) c in
           case Current c of
             None \<Rightarrow> raise nil_deref
           | Some ctx \<Rightarrow>
               if map_of (nil_map (Providers ctx)) (pr_Name p) = None then raise nil_deref
               else
                 and_then (act (save_config o1 c1)) (\<lambda>_.
                 and_then (wrapped ''get binaries dir'' (look (\<lambda>_. GetProviderBinariesDir h (DefaultContext c) (pr_Name p)))) (\<lambda>binariesDir.
                 and_then (on_error (download_run o1 p binariesDir)
                             (\<lambda>e. and_then (ignoring (remove_all binariesDir)) (\<lambda>_. raise (wrap ''download binaries'' e)))) (\<lambda>_.
                 and_then (act (SaveProviderConfig h (ou_provider_enc o1) (DefaultContext c) p)) (\<lambda>_. return (p, c1)))))))"

definition ResolveProviderSource :: "outside \<Rightarrow> config \<Rightarrow> string \<Rightarrow> disk \<Rightarrow> string result" where
  "ResolveProviderSource o1 c providerName d =
     (case FindProvider o1 c providerName d of
        Inl e \<Rightarrow> Inl (wrap ''find provider'' e)
      | Inr po \<Rightarrow>
          (let src = pr_Source (po_Config po) in
           if src_Internal src then Inr (if src_Raw src = [] then pr_Name (po_Config po) else src_Raw src)
           else if src_URL src \<noteq> [] then Inr (src_URL src)
           else if src_File src \<noteq> [] then Inr (src_File src)
           else if src_Github src \<noteq> [] then Inr (src_Github src)
           else Inl (Err (''provider '' @ providerName @ '' is missing a source. Please run `devpod provider update '' @
                  providerName @ '' SOURCE`''))))"

section \<open>Machines\<close>

definition IsLocalDir :: "app \<Rightarrow> string \<Rightarrow> disk \<Rightarrow> bool \<times> string" where
  "IsLocalDir a name d = (if name \<noteq> [] \<and> Stat_ok d (os_path (ap_tools a) name) then (True, os_path (ap_tools a) name) else (False, name))"

definition load_machine :: "outside \<Rightarrow> config \<Rightarrow> string \<Rightarrow> disk \<Rightarrow> machine result" where
  "load_machine o1 c i d = LoadMachineConfig (ap_host (ou_app o1)) (ap_machine_dec (ou_app o1)) (DefaultContext c) i d"

definition listMachines :: "outside \<Rightarrow> config \<Rightarrow> disk \<Rightarrow> machine list result" where
  "listMachines o1 c d =
     (case GetMachinesDir (ap_host (ou_app o1)) (DefaultContext c) of
        Inl e \<Rightarrow> Inl e
      | Inr machineDir \<Rightarrow>
          (case read_dir d machineDir of
             Inl e \<Rightarrow> Inl e
           | Inr entries \<Rightarrow>
               Inr (List.map_filter (\<lambda>(n, _). case load_machine o1 c n d of Inl _ \<Rightarrow> None | Inr m \<Rightarrow> Some m) entries)))"

definition loadExistingMachine :: "outside \<Rightarrow> string \<Rightarrow> config \<Rightarrow> disk \<Rightarrow> machine_client result" where
  "loadExistingMachine o1 machineID c d =
     (case load_machine o1 c machineID d of
        Inl e \<Rightarrow> Inl e
      | Inr m \<Rightarrow>
          (case FindProvider o1 c (mp_Name (m_Provider m)) d of
             Inl e \<Rightarrow> Inl e
           | Inr po \<Rightarrow> NewMachineClient c (po_Config po) (Some m)))"

definition createMachine :: "outside \<Rightarrow> string \<Rightarrow> string \<Rightarrow> string \<Rightarrow> machine run" where
  "createMachine o1 context machineID providerName =
     (let h = ap_host (ou_app o1) in
      and_then (look (\<lambda>_. GetMachineDir h context machineID)) (\<lambda>machineDir.
        (let m = \<lparr>m_ID = machineID, m_Provider = \<lparr>mp_Name = providerName, mp_Options = []\<rparr>,
                  m_CreationTimestamp = ap_now (ou_app o1), m_Context = context,
                  m_Origin = path_Join [machineDir, MachineConfigFile]\<rparr> in
         and_then (on_error (act (SaveMachineConfig h (ap_machine_enc (ou_app o1)) m))
                     (\<lambda>e. and_then (ignoring (remove_all machineDir)) (\<lambda>_. raise e))) (\<lambda>_. return m))))"

definition resolveMachine :: "outside \<Rightarrow> config \<Rightarrow> string list \<Rightarrow> machine_client run" where
  "resolveMachine o1 c args =
     (case args of
        [] \<Rightarrow> raise (Err ''please specify the machine name'')
      | arg # _ \<Rightarrow>
          (let machineID = ToID arg in
           and_then (look (\<lambda>d. Inr (MachineExists (ap_host (ou_app o1)) (DefaultContext c) machineID d))) (\<lambda>ex.
             if ex then look (loadExistingMachine o1 machineID c)
             else
               and_then (look (LoadProviders o1 c)) (\<lambda>(po, _).
               and_then (createMachine o1 (DefaultContext c) machineID (pr_Name (po_Config po))) (\<lambda>m.
                 (case NewMachineClient c (po_Config po) (Some m) of
                    Inl e \<Rightarrow> and_then (ignoring (remove_all (path_Dir (m_Origin m)))) (\<lambda>_. raise e)
                  | Inr mc \<Rightarrow> return mc))))))"

definition refresh_machine :: "outside \<Rightarrow> machine_client \<Rightarrow> string list \<Rightarrow> machine_client run" where
  "refresh_machine o1 mc userOptionsRaw s = machine_RefreshOptions (ou_app o1) mc userOptionsRaw s"

definition ResolveMachine :: "outside \<Rightarrow> config \<Rightarrow> string list \<Rightarrow> string list \<Rightarrow> machine_client run" where
  "ResolveMachine o1 c args opts = and_then (resolveMachine o1 c args) (\<lambda>mc. refresh_machine o1 mc opts)"

definition provide_arg :: string where
  "provide_arg = ''please provide a workspace name. E.g. 'devpod up ./my-folder', 'devpod up github.com/my-org/my-repo' or 'devpod up ubuntu'' @
     [CHR 0x27]"

definition errProvideWorkspaceArg :: gerr where
  "errProvideWorkspaceArg = Err provide_arg"

definition selectMachine :: "outside \<Rightarrow> config \<Rightarrow> disk \<Rightarrow> machine_client result" where
  "selectMachine o1 c d =
     (if \<not> ou_terminal o1 then Inl errProvideWorkspaceArg
      else
        (case GetMachinesDir (ap_host (ou_app o1)) (DefaultContext c) of
           Inl e \<Rightarrow> Inl e
         | Inr machinesDir \<Rightarrow>
             (case ReadDir d machinesDir of
                Inl e \<Rightarrow> Inl e
              | Inr entries \<Rightarrow>
                  if entries = [] then Inl errProvideWorkspaceArg
                  else (case ou_question o1 (map fst entries) of
                          Inl e \<Rightarrow> Inl e
                        | Inr answer \<Rightarrow> loadExistingMachine o1 answer c d))))"

definition GetMachine :: "outside \<Rightarrow> config \<Rightarrow> string list \<Rightarrow> disk \<Rightarrow> machine_client result" where
  "GetMachine o1 c args d =
     (case args of
        [] \<Rightarrow> selectMachine o1 c d
      | arg # _ \<Rightarrow>
          (let machineID = ToID (snd (IsLocalDir (ou_app o1) arg d)) in
           if \<not> MachineExists (ap_host (ou_app o1)) (DefaultContext c) machineID d
           then Inl (Err (''machine '' @ machineID @ '' doesn't exist''))
           else loadExistingMachine o1 machineID c d))"

definition SingleMachineName :: "outside \<Rightarrow> config \<Rightarrow> string \<Rightarrow> disk \<Rightarrow> string" where
  "SingleMachineName o1 c prov d =
     (let legacyMachineName = ''devpod-shared-'' @ prov in
      if (case listMachines o1 c d of
            Inl _ \<Rightarrow> False
          | Inr ms \<Rightarrow> list_ex (\<lambda>m. mp_Name (m_Provider m) = prov \<and> m_ID m = legacyMachineName) ms)
      then legacyMachineName
      else enc_SafeConcatNameMax (ou_sha256_hex o1) [''devpod-shared'', prov, GetMachineUIDShort o1] MachineUIDLength)"

section \<open>Listing workspaces\<close>

definition load_workspace :: "outside \<Rightarrow> string \<Rightarrow> string \<Rightarrow> disk \<Rightarrow> workspace result" where
  "load_workspace o1 context i d = LoadWorkspaceConfig (ap_host (ou_app o1)) (ap_workspace_dec (ou_app o1)) context i d"

definition save_workspace :: "outside \<Rightarrow> workspace \<Rightarrow> unit run" where
  "save_workspace o1 w = act (SaveWorkspaceConfig (ap_host (ou_app o1)) (ap_workspace_enc (ou_app o1)) w)"

definition ListLocalWorkspaces :: "outside \<Rightarrow> string \<Rightarrow> bool \<Rightarrow> disk \<Rightarrow> workspace list result" where
  "ListLocalWorkspaces o1 contextName skipPro d =
     (case GetWorkspacesDir (ap_host (ou_app o1)) contextName of
        Inl e \<Rightarrow> Inl e
      | Inr workspaceDir \<Rightarrow>
          (case read_dir d workspaceDir of
             Inl e \<Rightarrow> Inl e
           | Inr entries \<Rightarrow>
               Inr (List.map_filter (\<lambda>(n, _).
                 if HasPrefix n ''.'' then None
                 else (case load_workspace o1 contextName n d of
                         Inl _ \<Rightarrow> None
                       | Inr w \<Rightarrow> if skipPro \<and> IsPro w then None else Some w)) entries)))"

text \<open>The value that \<open>strconv.ParseInt\<close> returns, also along with an error: zero for a text that is no number, and the nearest number for
  one out of range.\<close>

definition ParseInt_value :: "string \<Rightarrow> int" where
  "ParseInt_value s =
     (case ParseInt64 s of
        Some v \<Rightarrow> v
      | None \<Rightarrow>
          (let (neg, ds) = split_sign s in
           if ds = [] \<or> \<not> list_all is_digit ds then 0 else if neg then - (2 ^ 63) else 2 ^ 63 - 1))"

definition label_of :: "string gomap option \<Rightarrow> string \<Rightarrow> string" where
  "label_of m k = (case map_of (nil_map m) k of None \<Rightarrow> [] | Some v \<Rightarrow> v)"

definition workspace_of_instance :: "config \<Rightarrow> string \<Rightarrow> pro_remote \<Rightarrow> workspace option" where
  "workspace_of_instance c prov x =
     (let i = label_of (in_Labels x) ''loft.sh/workspace-id'';
          uid = label_of (in_Labels x) ''loft.sh/workspace-uid'';
          rawSource = label_of (in_Annotations x) ''loft.sh/workspace-source'' in
      if in_Labels x = None \<or> i = [] \<or> uid = [] then None
      else Some (zero_workspace\<lparr>
        w_ID := i, w_UID := uid, w_Context := DefaultContext c,
        w_Source := (if rawSource = [] then zero_source
                     else (case ParseWorkspaceSource rawSource of None \<Rightarrow> zero_source | Some src \<Rightarrow> src)),
        w_Provider := \<lparr>wpc_Name = prov, wpc_Options = []\<rparr>,
        w_LastUsedTimestamp :=
          (case in_LastActivity x of
             Some t \<Rightarrow> t
           | None \<Rightarrow> (case map_of (nil_map (in_Annotations x)) ''sleepmode.loft.sh/last-activity'' of None \<Rightarrow> 0 | Some v \<Rightarrow> ParseInt_value v)),
        w_CreationTimestamp := (case in_CreationTimestamp x of None \<Rightarrow> 0 | Some t \<Rightarrow> t),
        w_Pro := Some \<lparr>pm_InstanceName = in_Name x, pm_Project = label_of (in_Labels x) ''loft.sh/project'', pm_DisplayName = in_DisplayName x\<rparr>\<rparr>))"

definition listProWorkspacesForProvider :: "outside \<Rightarrow> config \<Rightarrow> string \<Rightarrow> provider \<Rightarrow> workspace list result" where
  "listProWorkspacesForProvider o1 c prov p =
     (if \<not> IsProxyProvider p \<and> \<not> IsDaemonProvider p then Inl (Err (''cannot list pro workspaces with provider '' @ prov))
      else (case ou_instances o1 c prov p of
              Inl e \<Rightarrow> Inl e
            | Inr xs \<Rightarrow> Inr (List.map_filter (workspace_of_instance c prov) xs)))"

text \<open>The goroutines write to different keys, so their order does not matter.\<close>

definition listProWorkspaces :: "outside \<Rightarrow> config \<Rightarrow> disk \<Rightarrow> (workspace list result) gomap result" where
  "listProWorkspaces o1 c d =
     (case Current c of
        None \<Rightarrow> Inl nil_deref
      | Some ctx \<Rightarrow>
          Inr (List.map_filter (\<lambda>(name, st).
            if \<not> Initialized st then None
            else (case load_provider o1 c name d of
                    Inl _ \<Rightarrow> None
                  | Inr p \<Rightarrow> if \<not> IsProxyProvider p \<and> \<not> IsDaemonProvider p then None
                             else Some (name, listProWorkspacesForProvider o1 c name p))) (nil_map (Providers ctx))))"

definition shouldDeleteLocalWorkspace :: "outside \<Rightarrow> workspace \<Rightarrow> (workspace list result) gomap \<Rightarrow> bool" where
  "shouldDeleteLocalWorkspace o1 w results =
     (case map_of results (wpc_Name (w_Provider w)) of
        None \<Rightarrow> False
      | Some (Inl _) \<Rightarrow> False
      | Some (Inr ws) \<Rightarrow> if w_Imported w \<and> ou_instance_exists o1 w then False else \<not> list_ex (\<lambda>x. w_UID x = w_UID w) ws)"

definition delete_folder :: "outside \<Rightarrow> string \<Rightarrow> string \<Rightarrow> string \<Rightarrow> unit run" where
  "delete_folder o1 context i sshConfigPath = act (DeleteWorkspaceFolder (ou_app o1) context i sshConfigPath)"

text \<open>The loop over the local workspaces: it appends all of them for every one that stays.\<close>

fun clean_local :: "outside \<Rightarrow> config \<Rightarrow> (workspace list result) gomap \<Rightarrow> workspace list \<Rightarrow> workspace list \<Rightarrow> workspace list \<Rightarrow> workspace list run" where
  "clean_local o1 c results localWorkspaces [] cleaned = return cleaned"
| "clean_local o1 c results localWorkspaces (w # ws) cleaned =
     (if IsPro w \<and> shouldDeleteLocalWorkspace o1 w results then
        and_then (ignoring (delete_folder o1 (DefaultContext c) (w_ID w) [])) (\<lambda>_. clean_local o1 c results localWorkspaces ws cleaned)
      else clean_local o1 c results localWorkspaces ws (cleaned @ localWorkspaces))"

definition add_local :: "workspace \<Rightarrow> workspace gomap \<Rightarrow> workspace gomap" where
  "add_local w m = AList.update (w_UID w) w m"

definition add_pro :: "workspace \<Rightarrow> workspace gomap \<Rightarrow> workspace gomap" where
  "add_pro w m =
     AList.update (w_UID w) (case map_of m (w_UID w) of None \<Rightarrow> w | Some l \<Rightarrow> w\<lparr>w_IDE := w_IDE l\<rparr>) m"

definition merge_workspaces :: "(string list \<Rightarrow> string list) \<Rightarrow> workspace list \<Rightarrow> workspace list \<Rightarrow> workspace list" where
  "merge_workspaces ord localWorkspaces proWorkspaces =
     (let m = fold add_pro proWorkspaces (fold add_local localWorkspaces []) in map (\<lambda>k. the (map_of m k)) (ord (keys m)))"

definition workspace_List :: "outside \<Rightarrow> config \<Rightarrow> bool \<Rightarrow> workspace list run" where
  "workspace_List o1 c skipPro =
     and_then (look (ListLocalWorkspaces o1 (DefaultContext c) skipPro)) (\<lambda>localWorkspaces.
       if skipPro then return (merge_workspaces (ap_ord (ou_app o1)) localWorkspaces [])
       else
         and_then (look (listProWorkspaces o1 c)) (\<lambda>results.
         and_then (clean_local o1 c results localWorkspaces localWorkspaces []) (\<lambda>cleaned.
           return (merge_workspaces (ap_ord (ou_app o1)) cleaned
             (concat (map (\<lambda>k. case the (map_of results k) of Inl _ \<Rightarrow> [] | Inr ws \<Rightarrow> ws) (ap_ord (ou_app o1) (keys results))))))))"

section \<open>Workspaces\<close>

definition getWorkspaceClient :: "config \<Rightarrow> provider \<Rightarrow> workspace \<Rightarrow> machine option \<Rightarrow> base_client result" where
  "getWorkspaceClient c p w m =
     (if IsProxyProvider p then Inr (ProxyClient c p w)
      else if IsDaemonProvider p then Inr (DaemonClient c p w)
      else map_sum id WorkspaceClient (NewWorkspaceClient c p w m))"

definition ensureWorkspaceID :: "app \<Rightarrow> string list \<Rightarrow> string \<Rightarrow> disk \<Rightarrow> string" where
  "ensureWorkspaceID a args workspaceID d =
     (if args = [] \<and> workspaceID = [] then []
      else if workspaceID = [] then ToID (snd (IsLocalDir a (hd args) d))
      else workspaceID)"

definition findLocalWorkspace :: "outside \<Rightarrow> config \<Rightarrow> string list \<Rightarrow> string \<Rightarrow> disk \<Rightarrow> workspace option" where
  "findLocalWorkspace o1 c args workspaceID d =
     (let i = ensureWorkspaceID (ou_app o1) args workspaceID d in
      if i = [] then None
      else (case ListLocalWorkspaces o1 (DefaultContext c) False d of
              Inl _ \<Rightarrow> None
            | Inr ws \<Rightarrow> find (\<lambda>w. w_ID w = i) ws))"

definition findWorkspace :: "outside \<Rightarrow> config \<Rightarrow> string list \<Rightarrow> string \<Rightarrow> workspace option run" where
  "findWorkspace o1 c args workspaceID =
     and_then (look (\<lambda>d. Inr (ensureWorkspaceID (ou_app o1) args workspaceID d))) (\<lambda>i.
       if i = [] then return None
       else
         on_error
           (and_then (workspace_List o1 c False) (\<lambda>ws.
              (case find (\<lambda>w. w_ID w = i) ws of
                 None \<Rightarrow> return None
               | Some w \<Rightarrow>
                   if IsPro w then and_then (save_workspace o1 (w\<lparr>w_Imported := True\<rparr>)) (\<lambda>_. return (Some (w\<lparr>w_Imported := True\<rparr>)))
                   else return (Some w))))
           (\<lambda>_. return None))"

definition Exists_workspace :: "outside \<Rightarrow> config \<Rightarrow> string list \<Rightarrow> string \<Rightarrow> string run" where
  "Exists_workspace o1 c args workspaceID =
     and_then (findWorkspace o1 c args workspaceID) (\<lambda>w. return (case w of None \<Rightarrow> [] | Some x \<Rightarrow> w_ID x))"

type_synonym loaded = "provider \<times> workspace \<times> machine option"

definition loadExistingWorkspace :: "outside \<Rightarrow> config \<Rightarrow> string \<Rightarrow> bool \<Rightarrow> loaded run" where
  "loadExistingWorkspace o1 c workspaceID changeLastUsed =
     and_then (look (load_workspace o1 (DefaultContext c) workspaceID)) (\<lambda>w0.
     and_then (look (FindProvider o1 c (wpc_Name (w_Provider w0)))) (\<lambda>po.
       (let w = (if changeLastUsed then w0\<lparr>w_LastUsedTimestamp := ap_now (ou_app o1)\<rparr> else w0) in
        and_then (if changeLastUsed then save_workspace o1 w else return ()) (\<lambda>_.
        and_then
          (if wm_ID (w_Machine w) \<noteq> [] then
             wrapped ''load machine config'' (look (\<lambda>d. map_sum id Some
               (LoadMachineConfig (ap_host (ou_app o1)) (ap_machine_dec (ou_app o1)) (w_Context w) (wm_ID (w_Machine w)) d)))
           else return None) (\<lambda>m.
          return (po_Config po, w, m))))))"

text \<open>The terminal form; a workspace of the platform that was chosen is saved locally.\<close>

definition sort_last_used :: "workspace list \<Rightarrow> workspace list" where
  "sort_last_used ws = sort_key (\<lambda>w. - w_LastUsedTimestamp w) ws"

definition selectWorkspace :: "outside \<Rightarrow> config \<Rightarrow> bool \<Rightarrow> string \<Rightarrow> loaded run" where
  "selectWorkspace o1 c changeLastUsed sshConfigPath =
     (if \<not> ou_terminal o1 then raise errProvideWorkspaceArg
      else
        and_then (wrapped ''list workspaces'' (workspace_List o1 c False)) (\<lambda>ws0.
          (let ws = sort_last_used ws0 in
           if ws = [] then raise (Err (''no workspace found'' @ [newline] @ provide_arg))
           else
             (case ou_select o1 ws of
                Inl e \<Rightarrow> raise e
              | Inr None \<Rightarrow> raise (Err ''no workspace selected'')
              | Inr (Some sel) \<Rightarrow>
                  (case find (\<lambda>w. w_ID w = w_ID sel \<and> IsPro w) ws of
                     Some w0 \<Rightarrow>
                       (let w = w0\<lparr>w_SSHConfigPath := (if w_SSHConfigPath w0 = [] then sshConfigPath else w_SSHConfigPath w0), w_Imported := True\<rparr> in
                        and_then (wrapped (''save workspace config for workspace '' @ quoted (w_ID w)) (save_workspace o1 w)) (\<lambda>_.
                        and_then (wrapped (''load provider config for workspace '' @ quoted (w_ID w) @ '' with provider '' @ quoted (wpc_Name (w_Provider w))) (look (load_provider o1 c (wpc_Name (w_Provider w))))) (\<lambda>p.
                          return (p, w, None))))
                   | None \<Rightarrow> loadExistingWorkspace o1 c (w_ID sel) changeLastUsed)))))"

definition workspace_Get :: "outside \<Rightarrow> config \<Rightarrow> string list \<Rightarrow> bool \<Rightarrow> bool \<Rightarrow> base_client run" where
  "workspace_Get o1 c args changeLastUsed localOnly =
     and_then
       (if args = [] then selectWorkspace o1 c changeLastUsed []
        else
          and_then (if localOnly then look (\<lambda>d. Inr (findLocalWorkspace o1 c args [] d)) else findWorkspace o1 c args []) (\<lambda>w.
            (case w of
               None \<Rightarrow> raise (Err (''workspace '' @ hd args @ '' doesn't exist''))
             | Some x \<Rightarrow> loadExistingWorkspace o1 c (w_ID x) changeLastUsed)))
       (\<lambda>(p, w, m). look (\<lambda>_. getWorkspaceClient c p w m))"

text \<open>The configuration of a new workspace.\<close>

definition fallback_source :: "string \<Rightarrow> string \<times> string \<times> string \<times> string \<times> string \<Rightarrow> workspace_source" where
  "fallback_source name = (\<lambda>(repository, pr, branch, commit, subdir).
     zero_source\<lparr>ws_GitRepository := (if repository \<noteq> [] then repository else name), ws_GitPRReference := pr, ws_GitBranch := branch,
       ws_GitCommit := commit, ws_GitSubPath := subdir\<rparr>)"

definition resolveWorkspaceConfig ::
    "outside \<Rightarrow> provider_with_options \<Rightarrow> config \<Rightarrow> string \<Rightarrow> string \<Rightarrow> workspace_source option \<Rightarrow> bool \<Rightarrow> string \<Rightarrow> string \<Rightarrow> workspace" where
  "resolveWorkspaceConfig o1 po c name workspaceID source isLocalPath sshConfigPath uid0 =
     (let uid = (if uid0 = [] then CreateNewUID o1 (DefaultContext c) workspaceID else uid0);
          w = zero_workspace\<lparr>w_ID := workspaceID, w_UID := uid, w_Context := DefaultContext c,
                w_Provider := \<lparr>wpc_Name = pr_Name (po_Config po), wpc_Options = []\<rparr>,
                w_CreationTimestamp := ap_now (ou_app o1), w_LastUsedTimestamp := ap_now (ou_app o1), w_SSHConfigPath := sshConfigPath\<rparr>;
          git = NormalizeRepository name in
      case source of
        Some src \<Rightarrow> w\<lparr>w_Source := src\<rparr>
      | None \<Rightarrow>
          if isLocalPath then w\<lparr>w_Source := zero_source\<lparr>ws_LocalFolder := name\<rparr>\<rparr>
          else if HasSuffix name ''.git'' \<or> ou_ping o1 (fst git) then
            w\<lparr>w_Picture := ou_project_image o1 name, w_Source := (fallback_source name git)\<lparr>ws_GitRepository := fst git\<rparr>\<rparr>
          else if ou_image o1 name = Inr () then w\<lparr>w_Source := zero_source\<lparr>ws_Image := name\<rparr>\<rparr>
          else w\<lparr>w_Source := fallback_source name git\<rparr>)"

definition step_run :: "(sys \<Rightarrow> 'a result \<times> sys) \<Rightarrow> 'a run" where
  "step_run f s = Some (f s)"

text \<open>A fresh machine for a workspace; when it cannot be made its folder is removed again.\<close>

definition new_machine :: "outside \<Rightarrow> config \<Rightarrow> provider \<Rightarrow> workspace \<Rightarrow> string list \<Rightarrow> machine run" where
  "new_machine o1 c p w userOpts =
     and_then (createMachine o1 (w_Context w) (wm_ID (w_Machine w)) (pr_Name p)) (\<lambda>m.
       (let cleanup = (\<lambda>e. and_then (ignoring (act (DeleteMachineFolder (ou_app o1) (m_Context m) (m_ID m)))) (\<lambda>_. raise e)) in
        case NewMachineClient c p (Some m) of
          Inl e \<Rightarrow> cleanup e
        | Inr mc \<Rightarrow>
            on_error
              (and_then (refresh_machine o1 mc userOpts) (\<lambda>mc1.
               and_then (step_run (machine_Create (ou_app o1) mc1)) (\<lambda>_. return m))) cleanup))"

definition load_workspace_machine :: "outside \<Rightarrow> workspace \<Rightarrow> machine run" where
  "load_workspace_machine o1 w =
     wrapped ''load machine config''
       (look (LoadMachineConfig (ap_host (ou_app o1)) (ap_machine_dec (ou_app o1)) (w_Context w) (wm_ID (w_Machine w))))"

definition with_machine :: "outside \<Rightarrow> config \<Rightarrow> provider_with_options \<Rightarrow> workspace \<Rightarrow> disk \<Rightarrow> workspace" where
  "with_machine o1 c po w d =
     w\<lparr>w_Machine :=
         (if (case po_State po of None \<Rightarrow> False | Some st \<Rightarrow> SingleMachine st)
          then (w_Machine w)\<lparr>wm_ID := SingleMachineName o1 c (pr_Name (po_Config po)) d\<rparr>
          else \<lparr>wm_ID = CreateNewUIDShort o1 (w_ID w), wm_AutoDelete = True\<rparr>)\<rparr>"

definition resolveProInstance :: "outside \<Rightarrow> config \<Rightarrow> string \<Rightarrow> workspace \<Rightarrow> unit run" where
  "resolveProInstance o1 c providerName w =
     and_then (look (FindProvider o1 c providerName)) (\<lambda>po.
     and_then (look (\<lambda>_. getWorkspaceClient c (po_Config po) w None)) (\<lambda>cl.
       (case cl of
          WorkspaceClient _ \<Rightarrow> raise (Err ''client does not support remote workspaces'')
        | _ \<Rightarrow> ou_pro_Create o1 cl)))"

definition createWorkspace ::
    "outside \<Rightarrow> config \<Rightarrow> string \<Rightarrow> string \<Rightarrow> string \<Rightarrow> string list \<Rightarrow> string \<Rightarrow> workspace_source option \<Rightarrow> bool \<Rightarrow> string \<Rightarrow> loaded run" where
  "createWorkspace o1 c workspaceID name desiredMachine userOpts sshConfigPath source isLocalPath uid =
     and_then (look (LoadProviders o1 c)) (\<lambda>(po, _).
       (let p = po_Config po;
            w0 = resolveWorkspaceConfig o1 po c name workspaceID source isLocalPath sshConfigPath uid;
            w = (if desiredMachine = [] then w0 else w0\<lparr>w_Machine := \<lparr>wm_ID = desiredMachine, wm_AutoDelete = False\<rparr>\<rparr>) in
        if (case po_State po of None \<Rightarrow> True | Some st \<Rightarrow> \<not> Initialized st) then
          raise (Err (''provider '' @ [CHR 0x27] @ pr_Name p @ [CHR 0x27] @ '' is not initialized, please make sure to run 'devpod provider use '' @
            pr_Name p @ [CHR 0x27] @ '' at least once before using this provider''))
        else if desiredMachine \<noteq> [] \<and> \<not> IsMachineProvider p then
          raise (Err (''provider '' @ pr_Name p @ '' cannot create servers and cannot be used''))
        else
          and_then (look (\<lambda>d. if desiredMachine \<noteq> [] \<and> \<not> MachineExists (ap_host (ou_app o1)) (w_Context w) desiredMachine d
                             then Inl (Err (''server '' @ desiredMachine @ '' doesn't exist and cannot be used'')) else Inr ())) (\<lambda>_.
          if IsMachineProvider p \<and> wm_ID (w_Machine w) = [] then
            and_then (look (\<lambda>d. Inr (with_machine o1 c po w d))) (\<lambda>w1.
            and_then (wrapped ''save config'' (save_workspace o1 w1)) (\<lambda>_.
            and_then (look (\<lambda>d. Inr (MachineExists (ap_host (ou_app o1)) (DefaultContext c) (wm_ID (w_Machine w1)) d))) (\<lambda>ex.
            and_then (if ex then load_workspace_machine o1 w1 else new_machine o1 c p w1 userOpts) (\<lambda>m.
              return (p, w1, Some m)))))
          else if IsProxyProvider p \<or> IsDaemonProvider p then
            and_then (wrapped ''save config'' (save_workspace o1 w)) (\<lambda>_.
            and_then (resolveProInstance o1 c (pr_Name p) w) (\<lambda>_.
            and_then (look (load_workspace o1 (w_Context w) (w_ID w))) (\<lambda>w1. return (p, w1, None))))
          else
            and_then (wrapped ''save config'' (save_workspace o1 w)) (\<lambda>_.
            and_then (if IsMachineProvider p then and_then (load_workspace_machine o1 w) (\<lambda>m. return (Some m)) else return None) (\<lambda>m.
              return (p, w, m))))))"

definition resolveWorkspace ::
    "outside \<Rightarrow> config \<Rightarrow> string list \<Rightarrow> string \<Rightarrow> string \<Rightarrow> string list \<Rightarrow> string \<Rightarrow> workspace_source option \<Rightarrow> string \<Rightarrow> bool \<Rightarrow> loaded run" where
  "resolveWorkspace o1 c args desiredID desiredMachine userOpts sshConfigPath source uid changeLastUsed =
     (if args = [] then
        (if desiredID \<noteq> [] then
           and_then (findWorkspace o1 c [] desiredID) (\<lambda>w.
             (case w of
                None \<Rightarrow> raise (Err (''workspace '' @ desiredID @ '' doesn't exist''))
              | Some x \<Rightarrow> loadExistingWorkspace o1 c (w_ID x) changeLastUsed))
         else selectWorkspace o1 c changeLastUsed sshConfigPath)
      else
        and_then (look (\<lambda>d. Inr (IsLocalDir (ou_app o1) (hd args) d))) (\<lambda>(isLocalPath, name).
          (let workspaceID = (if desiredID \<noteq> [] then desiredID else ToID name) in
           and_then (Exists_workspace o1 c [] workspaceID) (\<lambda>ex.
             if ex \<noteq> [] then loadExistingWorkspace o1 c workspaceID changeLastUsed
             else
               on_error (createWorkspace o1 c workspaceID name desiredMachine userOpts sshConfigPath source isLocalPath uid)
                 (\<lambda>e. and_then (ignoring (delete_folder o1 (DefaultContext c) workspaceID sshConfigPath)) (\<lambda>_. raise e))))))"

section \<open>Deleting workspaces\<close>

definition client_parts :: "base_client \<Rightarrow> config \<times> provider \<times> workspace" where
  "client_parts cl =
     (case cl of
        WorkspaceClient wc \<Rightarrow> (wc_config wc, wc_provider wc, wc_workspace wc)
      | ProxyClient c p w \<Rightarrow> (c, p, w)
      | DaemonClient c p w \<Rightarrow> (c, p, w))"

definition client_Status :: "outside \<Rightarrow> base_client \<Rightarrow> status run" where
  "client_Status o1 cl = (case cl of WorkspaceClient wc \<Rightarrow> step_run (workspace_Status (ou_app o1) wc False) | _ \<Rightarrow> ou_pro_Status o1 cl)"

definition client_Delete :: "outside \<Rightarrow> base_client \<Rightarrow> delete_options \<Rightarrow> unit run" where
  "client_Delete o1 cl opt = (case cl of WorkspaceClient wc \<Rightarrow> step_run (workspace_Delete (ou_app o1) wc opt) | _ \<Rightarrow> ou_pro_Delete o1 cl opt)"

definition deleteSingleMachine :: "outside \<Rightarrow> base_client \<Rightarrow> config \<Rightarrow> delete_options \<Rightarrow> bool run" where
  "deleteSingleMachine o1 cl c opt =
     (let (_, p, w) = client_parts cl in
      and_then (look (\<lambda>d. Inr (SingleMachineName o1 c (pr_Name p) d))) (\<lambda>singleMachineName.
        (case Current c of
           None \<Rightarrow> raise nil_deref
         | Some ctx \<Rightarrow>
             if \<not> IsSingleMachine ctx (pr_Name p) \<or> wm_ID (w_Machine w) \<noteq> singleMachineName then return False
             else
               and_then (wrapped ''list workspaces'' (workspace_List o1 c False)) (\<lambda>ws.
                 if list_ex (\<lambda>x. w_ID x \<noteq> w_ID w \<and> wm_ID (w_Machine x) = singleMachineName) ws then return False
                 else
                   and_then (wrapped ''get machine'' (look (GetMachine o1 c [singleMachineName]))) (\<lambda>mc.
                   and_then (wrapped ''delete machine'' (step_run (machine_Delete (ou_app o1) mc opt))) (\<lambda>_.
                   and_then (delete_folder o1 (w_Context w) (w_ID w) (w_SSHConfigPath w)) (\<lambda>_. return True)))))))"

definition delete_found :: "outside \<Rightarrow> config \<Rightarrow> base_client \<Rightarrow> bool \<Rightarrow> delete_options \<Rightarrow> string run" where
  "delete_found o1 c cl force opt =
     (let (_, _, w) = client_parts cl in
      if \<not> force \<and> w_Imported w then
        and_then (delete_folder o1 (DefaultContext c) (w_ID w) (w_SSHConfigPath w)) (\<lambda>_. return (w_ID w))
      else
        and_then
          (if force then return ()
           else
             and_then (case (if do_Platform opt then None else ou_lock o1 cl) of Some e \<Rightarrow> raise e | None \<Rightarrow> return ()) (\<lambda>_.
             and_then (client_Status o1 cl) (\<lambda>st.
               if st = StatusNotFound
               then raise (Err ''cannot delete workspace because it couldn't be found. Run with --force to ignore this error'')
               else return ()))) (\<lambda>_.
        and_then (deleteSingleMachine o1 cl c opt) (\<lambda>wasDeleted.
          if wasDeleted then return (w_ID w)
          else and_then (client_Delete o1 cl opt) (\<lambda>_. return (w_ID w)))))"

definition Delete_workspace :: "outside \<Rightarrow> config \<Rightarrow> string list \<Rightarrow> bool \<Rightarrow> bool \<Rightarrow> delete_options \<Rightarrow> string run" where
  "Delete_workspace o1 c args ignoreNotFound force opt s =
     (case workspace_Get o1 c args False False s of
        None \<Rightarrow> None
      | Some (Inl (Panic e), s1) \<Rightarrow> Some (Inl (Panic e), s1)
      | Some (Inl (Err e), s1) \<Rightarrow>
          if args = [] then raise (Err (''cannot delete workspace because there was an error loading the workspace: '' @ e @
            ''. Please specify the id of the workspace you want to delete. E.g. 'devpod delete my-workspace --force'' @ [CHR 0x27])) s1
          else
            and_then (Exists_workspace o1 c args []) (\<lambda>workspaceID.
              if workspaceID = [] then
                (if ignoreNotFound then return [] else raise (Err (''couldn't find workspace '' @ hd args)))
              else if \<not> force then raise (Err e)
              else and_then (delete_folder o1 (DefaultContext c) workspaceID []) (\<lambda>_. return workspaceID)) s1
      | Some (Inr cl, s1) \<Rightarrow> delete_found o1 c cl force opt s1)"

end
