(* ===== verification/Locks.thy ===== *)
theory Locks
  imports Client
begin

text \<open>
  The locks that keep the processes of DevPod apart (\<^verbatim>\<open>Lock\<close> and \<^verbatim>\<open>Unlock\<close> of the workspace and the proxy client,
  \<^verbatim>\<open>tryLock\<close>, and the file locks of \<^verbatim>\<open>gofrs/flock\<close>).  A process first locks the workspace and then the machine,
  if there is one; each lock is tried again until five minutes have passed.  A step of one process is a function of an event; the clock,
  the errors of the operating system and the cancellation of the context come with the events.  The operating system keeps an exclusive
  lock per file and drops the locks of a process that ends.
\<close>

section \<open>The locks of a client\<close>

definition initLock :: "app \<Rightarrow> workspace \<Rightarrow> machine option \<Rightarrow> disk \<Rightarrow> string list result \<times> disk" where
  "initLock a w m d =
     (case GetLocksDir (ap_host a) (w_Context w) of
        Inl e \<Rightarrow> (Inl (Panic (case wrap ''get workspaces dir'' e of Err s \<Rightarrow> s | Panic s \<Rightarrow> s)), d)
      | Inr workspaceLocksDir \<Rightarrow>
          (Inr (path_Join [workspaceLocksDir, w_ID w @ ''.workspace.lock''] #
             (case m of None \<Rightarrow> [] | Some mach \<Rightarrow> [path_Join [workspaceLocksDir, m_ID mach @ ''.machine.lock'']])),
           case MkdirAll workspaceLocksDir d of Inl _ \<Rightarrow> d | Inr d1 \<Rightarrow> d1))"

text \<open>What process holds the lock of a file.\<close>

type_synonym holders = "(string \<times> nat) list"

definition TryLock :: "nat \<Rightarrow> string \<Rightarrow> gerr option \<Rightarrow> holders \<Rightarrow> bool result \<times> holders" where
  "TryLock p path err h =
     (if map_of h path = Some p then (Inr True, h)
      else (case err of
              Some e \<Rightarrow> (Inl e, h)
            | None \<Rightarrow> if map_of h path = None then (Inr True, AList.update path p h) else (Inr False, h)))"

definition flock_Unlock :: "nat \<Rightarrow> string \<Rightarrow> gerr option \<Rightarrow> holders \<Rightarrow> holders" where
  "flock_Unlock p path err h = (if map_of h path \<noteq> Some p \<or> err \<noteq> None then h else AList.delete path h)"

text \<open>One round of the loop of \<open>tryLock\<close>, that began at \<open>since\<close>: the lock was taken, the loop goes on, or it ends with an error.
  Times are in nanoseconds.\<close>

record attempt =
  at_now :: int
  at_error :: "gerr option"
  at_done :: "gerr option"

definition lock_timeout :: int where
  "lock_timeout = 5 * (60 * 1000000000)"

definition tryLock :: "nat \<Rightarrow> string \<Rightarrow> int \<Rightarrow> attempt \<Rightarrow> holders \<Rightarrow> bool result \<times> holders" where
  "tryLock p path since t h =
     (if \<not> at_now t - since < lock_timeout then (Inl (Err ''timed out waiting to lock''), h)
      else
        (case TryLock p path (at_error t) h of
           (Inl e, h1) \<Rightarrow> (Inl e, h1)
         | (Inr True, h1) \<Rightarrow> (Inr True, h1)
         | (Inr False, h1) \<Rightarrow> (case at_done t of Some e \<Rightarrow> (Inl e, h1) | None \<Rightarrow> (Inr False, h1))))"

section \<open>The protocol\<close>

datatype phase = Idle | Locking nat int | Locked | Unlocking nat | LockFailed | Exited

datatype lock_event = Begin int | Attempt attempt | Release "gerr option" | Exit

record lock_state =
  ls_holders :: holders
  ls_phase :: "nat \<Rightarrow> phase"

definition no_locks :: lock_state where
  "no_locks = \<lparr>ls_holders = [], ls_phase = (\<lambda>_. Idle)\<rparr>"

text \<open>\<open>Lock\<close>: the locks one after the other.  A failure keeps the locks that were taken.\<close>

definition Lock :: "string list \<Rightarrow> nat \<Rightarrow> nat \<Rightarrow> int \<Rightarrow> attempt \<Rightarrow> holders \<Rightarrow> phase \<times> holders" where
  "Lock locks p i since t h =
     (case tryLock p (locks ! i) since t h of
        (Inl e, h1) \<Rightarrow> (LockFailed, h1)
      | (Inr False, h1) \<Rightarrow> (Locking i since, h1)
      | (Inr True, h1) \<Rightarrow> (if Suc i < length locks then Locking (Suc i) (at_now t) else Locked, h1))"

text \<open>\<open>Unlock\<close>: in the opposite order; an error is only logged.\<close>

definition Unlock :: "string list \<Rightarrow> nat \<Rightarrow> nat \<Rightarrow> gerr option \<Rightarrow> holders \<Rightarrow> phase \<times> holders" where
  "Unlock locks p i err h = (if i = 0 then Idle else Unlocking (i - 1), flock_Unlock p (locks ! i) err h)"

definition set_proc :: "nat \<Rightarrow> phase \<times> holders \<Rightarrow> lock_state \<Rightarrow> lock_state" where
  "set_proc p r s = \<lparr>ls_holders = snd r, ls_phase = (ls_phase s)(p := fst r)\<rparr>"

fun lock_step :: "string list \<Rightarrow> nat \<Rightarrow> phase \<Rightarrow> lock_event \<Rightarrow> holders \<Rightarrow> (phase \<times> holders) option" where
  "lock_step locks p Idle (Begin now) h = (if locks = [] then None else Some (Locking 0 now, h))"
| "lock_step locks p (Locking i since) (Attempt t) h = Some (Lock locks p i since t h)"
| "lock_step locks p Locked (Release err) h = Some (Unlock locks p (length locks - 1) err h)"
| "lock_step locks p (Unlocking i) (Release err) h = Some (Unlock locks p i err h)"
| "lock_step locks p Exited Exit h = None"
| "lock_step locks p ph Exit h = Some (Exited, filter (\<lambda>(_, q). q \<noteq> p) h)"
| "lock_step locks p ph ev h = None"


end
