(* ===== verification/Client_Properties.thy ===== *)
theory Client_Properties
  imports Client Binaries_Properties Archive_Roundtrip Ssh_Properties Workspace_Properties
begin

text \<open>
  Properties of the clients: what the deletion of a workspace does and leaves alone, what the agent is not
  told, and that the files of the workspaces are a store with one entry per workspace.
\<close>

declare path_Join.simps [simp del]

section \<open>Commands\<close>

fun all_ok :: "app \<Rightarrow> command list \<Rightarrow> command list \<Rightarrow> bool" where
  "all_ok a hist [] = True"
| "all_ok a hist (c # cs) \<longleftrightarrow> oc_Err (ap_run a hist c) = None \<and> all_ok a (hist @ [c]) cs"

text \<open>All the commands between two states succeeded.\<close>

definition succeeded :: "app \<Rightarrow> sys \<Rightarrow> sys \<Rightarrow> bool" where
  "succeeded a s s' \<longleftrightarrow> (\<exists>cs. sy_commands s' = sy_commands s @ cs \<and> all_ok a (sy_commands s) cs)"

lemma all_ok_append: "all_ok a h (xs @ ys) \<longleftrightarrow> all_ok a h xs \<and> all_ok a (h @ xs) ys"
  by (induction xs arbitrary: h) auto

lemma succeeded_refl [simp]: "succeeded a s s"
  by (simp add: succeeded_def)

lemma succeeded_trans: "succeeded a x y \<Longrightarrow> succeeded a y z \<Longrightarrow> succeeded a x z"
  by (auto simp: succeeded_def all_ok_append)

lemma succeeded_disk [simp]: "succeeded a s (s'\<lparr>sy_disk := d\<rparr>) \<longleftrightarrow> succeeded a s s'"
  by (simp add: succeeded_def)

lemma RunCommandWithBinaries_facts [simp]:
  "sy_disk (snd (RunCommandWithBinaries a name cmd context w m options config extraEnv timeout s)) = sy_disk s"
  "oc_Err (fst (RunCommandWithBinaries a name cmd context w m options config extraEnv timeout s)) = None \<Longrightarrow>
    succeeded a s (snd (RunCommandWithBinaries a name cmd context w m options config extraEnv timeout s))"
  by (auto simp: RunCommandWithBinaries_def runCommand_def RunCommand_def Let_def succeeded_def split: sum.splits option.splits if_splits)

lemma run_agent_facts:
  assumes "run_agent a c verb msg timeout s = (r, s')"
  shows "sy_disk s' = sy_disk s" "r = Inr oc \<Longrightarrow> oc_Err oc = None \<Longrightarrow> succeeded a s s'"
  using assms by (auto simp: run_agent_def apfst_def map_prod_def case_prod_unfold split: sum.splits gerr.splits)

lemma machine_Status_facts:
  assumes "machine_Status a c timeout s = (r, s')"
  shows "sy_disk s' = sy_disk s" "r = Inr st \<Longrightarrow> succeeded a s s'"
  using assms by (auto simp: machine_Status_def machine_run_def case_prod_unfold split: option.splits gerr.splits)

lemma isMachineRunning_facts:
  assumes "isMachineRunning a c timeout s = (r, s')"
  shows "sy_disk s' = sy_disk s" "r = Inr b \<Longrightarrow> succeeded a s s'"
  using assms
  by (auto simp: isMachineRunning_def split: if_splits sum.splits prod.splits dest: machine_Status_facts)

lemma forgiven_False [simp]: "\<not> forgiven False e"
  by (cases e) auto

lemma delete_container_facts:
  assumes "delete_container a c opt s = (r, s')"
  shows "sy_disk s' = sy_disk s" "r = Inr () \<Longrightarrow> \<not> do_Force opt \<Longrightarrow> succeeded a s s'"
proof -
  obtain q s1 where q: "isMachineRunning a c (grace_period opt) s = (q, s1)" by (cases "isMachineRunning a c (grace_period opt) s")
  obtain r2 s2 where r2: "run_agent a c ''delete'' ''agent info'' (grace_period opt) s1 = (r2, s2)"
    by (cases "run_agent a c ''delete'' ''agent info'' (grace_period opt) s1")
  note f = isMachineRunning_facts [OF q] run_agent_facts [OF r2] q r2
  show "sy_disk s' = sy_disk s"
    using assms f(1,3) by (auto simp: delete_container_def f(5,6) split: sum.splits bool.splits option.splits)
  show "succeeded a s s'" if "r = Inr ()" "\<not> do_Force opt"
    using assms that f(2,4) succeeded_trans [of a s s1 s2]
    by (auto simp: delete_container_def f(5,6) split: sum.splits bool.splits option.splits)
qed

section \<open>Folders\<close>

lemma RemoveAll_facts:
  assumes "RemoveAll p d = Inr d'"
  shows "\<not> path_exists d' p" "io_error d' = io_error d" "touches [p] d d'"
  using assms by (auto simp: RemoveAll_def path_exists_def touches_def ReadFile_def map_of_filter_keys split: option.splits if_splits)

lemma RemoveFromConfig_facts:
  "touches [path] d (snd (RemoveFromConfig w path d))" "io_error (snd (RemoveFromConfig w path d)) = io_error d"
proof -
  have m: "touches [path] d d1 \<and> io_error d1 = io_error d" if "MkdirAll p d = Inr d1" for p d1
    using that ReadFile_MkdirAll [OF that] by (auto simp: touches_def MkdirAll_def split: option.splits)
  have "touches [path] d d2 \<and> io_error d2 = io_error d" if "WriteFile path c d = Inr d2" for d d2 c
    using that ReadFile_WriteFile [OF that] by (auto simp: touches_def WriteFile_def split: option.splits)
  with m touches_trans show "touches [path] d (snd (RemoveFromConfig w path d))" "io_error (snd (RemoveFromConfig w path d)) = io_error d"
    by (fastforce simp: RemoveFromConfig_def writeSSHConfig_def Let_def split: sum.splits)+
qed

lemma touches_mono: "touches Ds d d' \<Longrightarrow> set Ds \<subseteq> set Es \<Longrightarrow> touches Es d d'"
  by (auto simp: touches_def list_all_iff)

lemma DeleteWorkspaceFolder_facts:
  assumes "DeleteWorkspaceFolder a context w p d = (Inr (), d')"
  shows "\<exists>W ssh. GetWorkspaceDir (ap_host a) context w = Inr W \<and> ResolveSSHConfigPath (ap_home a) (tb_cwd (ap_tools a)) p = Inr ssh \<and>
    \<not> path_exists d' W \<and> touches [W, ssh] d d' \<and> io_error d' = io_error d \<and>
    (\<exists>d1. d1 = snd (RemoveFromConfig w ssh d) \<and> touches [W] d1 d')"
proof -
  obtain ssh W where *: "ResolveSSHConfigPath (ap_home a) (tb_cwd (ap_tools a)) p = Inr ssh"
    "GetWorkspaceDir (ap_host a) context w = Inr W" "RemoveAll W (snd (RemoveFromConfig w ssh d)) = Inr d'"
    using assms by (auto simp: DeleteWorkspaceFolder_def Let_def split: sum.splits)
  from RemoveFromConfig_facts(1) [of ssh "d" w] have "touches [W, ssh] d (snd (RemoveFromConfig w ssh d))"
    by (auto elim: touches_mono)
  moreover have "touches [W, ssh] (snd (RemoveFromConfig w ssh d)) d'" using RemoveAll_facts(3) [OF *(3)] by (auto elim: touches_mono)
  ultimately show ?thesis
    using * RemoveAll_facts [OF *(3)] RemoveFromConfig_facts(2) [of w ssh d] touches_trans by fastforce
qed

lemma DeleteWorkspaceFolder_ok:
  assumes "io_error d W = None" "GetWorkspaceDir (ap_host a) context w = Inr W"
    and "ResolveSSHConfigPath (ap_home a) (tb_cwd (ap_tools a)) p = Inr ssh"
  shows "fst (DeleteWorkspaceFolder a context w p d) = Inr ()"
  using assms RemoveFromConfig_facts(2) [of w ssh d] by (simp add: DeleteWorkspaceFolder_def RemoveAll_def Let_def)

section \<open>Deleting a workspace\<close>

text \<open>The folders a deletion may touch: the one of the workspace, the SSH configuration file, and the one of the machine
  when the machine goes with the workspace.\<close>

definition deletion_scope :: "app \<Rightarrow> workspace_client \<Rightarrow> string list" where
  "deletion_scope a c =
     (let w = wc_workspace c in
      concat (map (\<lambda>r. case r of Inl _ \<Rightarrow> [] | Inr p \<Rightarrow> [p])
        ([GetWorkspaceDir (ap_host a) (w_Context w) (w_ID w),
          ResolveSSHConfigPath (ap_home a) (tb_cwd (ap_tools a)) (w_SSHConfigPath w)] @
         (case wc_machine c of
            Some m \<Rightarrow> if IsMachineProvider (wc_provider c) \<and> wm_AutoDelete (w_Machine w)
                      then [GetMachineDir (ap_host a) (m_Context m) (m_ID m)] else []
          | None \<Rightarrow> []))))"

lemma machine_Delete_facts:
  assumes "machine_Delete a c opt s = (Inr (), s')"
  shows "\<exists>M. GetMachineDir (ap_host a) (m_Context (mc_machine c)) (m_ID (mc_machine c)) = Inr M \<and>
      touches [M] (sy_disk s) (sy_disk s') \<and> (\<not> do_Force opt \<longrightarrow> succeeded a s s')"
proof -
  obtain oc s1 where r: "machine_run a c ''delete'' (ex_Delete (pr_Exec (mc_provider c))) [] (grace_period opt) s = (oc, s1)"
    by (cases "machine_run a c ''delete'' (ex_Delete (pr_Exec (mc_provider c))) [] (grace_period opt) s")
  have f: "sy_disk s1 = sy_disk s" "oc_Err oc = None \<Longrightarrow> succeeded a s s1"
    using r RunCommandWithBinaries_facts unfolding machine_run_def by (metis fst_conv snd_conv)+
  have d: "on_disk (DeleteMachineFolder a (m_Context (mc_machine c)) (m_ID (mc_machine c))) s1 = (Inr (), s')"
    and ok: "\<not> do_Force opt \<Longrightarrow> oc_Err oc = None"
    using assms by (auto simp: machine_Delete_def r split: option.splits if_splits)
  from d obtain M where "GetMachineDir (ap_host a) (m_Context (mc_machine c)) (m_ID (mc_machine c)) = Inr M"
    "RemoveAll M (sy_disk s1) = Inr (sy_disk s')" "s' = s1\<lparr>sy_disk := sy_disk s'\<rparr>"
    by (auto simp: on_disk_def DeleteMachineFolder_def split: sum.splits)
  with RemoveAll_facts(3) [OF this(2)] ok f show ?thesis by (metis succeeded_disk)
qed

lemma delete_machine_facts:
  assumes c: "IsMachineProvider (wc_provider c)" "wm_AutoDelete (w_Machine (wc_workspace c))"
    and run: "delete_machine a c opt s = (Inr (), s1)"
  shows "touches (deletion_scope a c) (sy_disk s) (sy_disk s1) \<and> (\<not> do_Force opt \<longrightarrow> succeeded a s s1)"
proof (cases "wc_machine c")
  case (Some m)
  with c run have "s1 = s \<or> machine_Delete a \<lparr>mc_config = wc_config c, mc_provider = wc_provider c, mc_machine = m\<rparr> opt s = (Inr (), s1)"
    by (auto simp: delete_machine_def NewMachineClient_def split: if_splits)
  then show ?thesis
  proof
    assume "machine_Delete a \<lparr>mc_config = wc_config c, mc_provider = wc_provider c, mc_machine = m\<rparr> opt s = (Inr (), s1)"
    from machine_Delete_facts [OF this] obtain M where M: "GetMachineDir (ap_host a) (m_Context m) (m_ID m) = Inr M"
      "touches [M] (sy_disk s) (sy_disk s1)" "\<not> do_Force opt \<longrightarrow> succeeded a s s1" by auto
    then have "touches (deletion_scope a c) (sy_disk s) (sy_disk s1)"
      using Some c by (elim touches_mono) (simp add: deletion_scope_def Let_def)
    with M(3) show ?thesis by blast
  qed simp
qed (use run in \<open>simp add: delete_machine_def\<close>)

text \<open>C34: When the deletion of a workspace succeeds, nothing is left of its folder; no file changed outside of that
  folder, of the SSH configuration file and (when the machine is deleted with the workspace) of the folder of the machine; and unless
  the deletion was forced, every command of the provider that it ran had succeeded, so that a container or machine that could not be
  deleted is never forgotten.\<close>

theorem workspace_Delete_correct:
  assumes "workspace_Delete a c opt s = (Inr (), s')"
  shows "(\<exists>W. GetWorkspaceDir (ap_host a) (w_Context (wc_workspace c)) (w_ID (wc_workspace c)) = Inr W \<and> \<not> path_exists (sy_disk s') W) \<and>
    touches (deletion_scope a c) (sy_disk s) (sy_disk s') \<and> (\<not> do_Force opt \<longrightarrow> succeeded a s s')"
proof -
  let ?w = "wc_workspace c" and ?contained = "\<not> IsMachineProvider (wc_provider c) \<or> \<not> wm_AutoDelete (w_Machine (wc_workspace c))"
  from assms obtain s1 where first: "(if ?contained then delete_container a c opt s else delete_machine a c opt s) = (Inr (), s1)"
    and folder: "on_disk (DeleteWorkspaceFolder a (w_Context ?w) (w_ID ?w) (w_SSHConfigPath ?w)) s1 = (Inr (), s')"
    unfolding workspace_Delete_def by (cases "if ?contained then delete_container a c opt s else delete_machine a c opt s")
      (auto split: sum.splits)
  have s': "s' = s1\<lparr>sy_disk := sy_disk s'\<rparr>"
    and folder': "DeleteWorkspaceFolder a (w_Context ?w) (w_ID ?w) (w_SSHConfigPath ?w) (sy_disk s1) = (Inr (), sy_disk s')"
    using folder by (auto simp: on_disk_def split: prod.splits)
  obtain W ssh where W: "GetWorkspaceDir (ap_host a) (w_Context ?w) (w_ID ?w) = Inr W"
    "ResolveSSHConfigPath (ap_home a) (tb_cwd (ap_tools a)) (w_SSHConfigPath ?w) = Inr ssh"
    "\<not> path_exists (sy_disk s') W" "touches [W, ssh] (sy_disk s1) (sy_disk s')"
    using DeleteWorkspaceFolder_facts [OF folder'] by blast
  have "touches (deletion_scope a c) (sy_disk s) (sy_disk s1) \<and> (\<not> do_Force opt \<longrightarrow> succeeded a s s1)"
  proof (cases ?contained)
    case True
    with first delete_container_facts [of a c opt s "Inr ()" s1] show ?thesis by auto
  next
    case False
    with first delete_machine_facts [of c a opt s s1] show ?thesis by auto
  qed
  moreover have "touches (deletion_scope a c) (sy_disk s1) (sy_disk s')"
    using W(4) by (rule touches_mono) (simp add: deletion_scope_def W)
  ultimately show ?thesis using W s' touches_trans by (metis succeeded_disk)
qed

text \<open>A sample: a workspace in a container of the host, next to one with a similar name.\<close>

definition sample_app :: app where
  "sample_app = \<lparr>ap_tools = sample_toolbox, ap_host = sample_host, ap_ord = (\<lambda>ks. ks), ap_env = [], ap_version = ''v0.6.0'',
     ap_debug = False, ap_home = Inr ''/home/me'', ap_now = 0,
     ap_run = (\<lambda>h c. \<lparr>oc_Stdout = ''Running'', oc_Stderr = [], oc_Both = ''Running'', oc_Err = None\<rparr>),
     ap_worlds = (\<lambda>_. sample_world), ap_fuel = 4, ap_workspace_enc = sample_enc, ap_workspace_dec = sample_dec,
     ap_machine_enc = (\<lambda>_. Inl (Err [])), ap_machine_dec = (\<lambda>_. Inl (Err [])), ap_result_dec = (\<lambda>_. Inl (Err [])),
     ap_info_enc = (\<lambda>i. Inr (w_ID (ai_Workspace i)))\<rparr>"

definition sample_client :: workspace_client where
  "sample_client = \<lparr>wc_config = sample_config, wc_provider = sample_provider, wc_workspace = sample_workspace, wc_machine = None\<rparr>"

definition sample_sys :: sys where
  "sample_sys = \<lparr>sy_disk = \<lparr>files = [(sample_file, ''first''), (''/r/contexts/c/workspaces/ww/workspace.json'', ''other''),
     (''/home/me/.ssh/config'', Join (render sample_ssh_doc) [newline])], dirs = [], io_error = (\<lambda>_. None)\<rparr>,
     sy_requests = [], sy_commands = []\<rparr>"

definition sample_delete_options :: delete_options where
  "sample_delete_options = \<lparr>do_Platform = False, do_IgnoreNotFound = False, do_Force = False, do_GracePeriod = []\<rparr>"

definition sample_deleted :: "unit result \<times> sys" where
  "sample_deleted = workspace_Delete sample_app sample_client sample_delete_options sample_sys"

lemma sample_deleted_ok: "fst sample_deleted = Inr ()" "length (sy_commands (snd sample_deleted)) = 1"
proof -
  let ?r = "delete_container sample_app sample_client sample_delete_options sample_sys" and ?w = "wc_workspace sample_client"
  have "fst ?r = Inr ()" "length (sy_commands (snd ?r)) = 1" by code_simp+
  moreover have "sy_disk (snd ?r) = sy_disk sample_sys" by (rule delete_container_facts(1)) (rule prod.collapse [symmetric])
  moreover have "fst (DeleteWorkspaceFolder sample_app (w_Context ?w) (w_ID ?w) (w_SSHConfigPath ?w) (sy_disk sample_sys)) = Inr ()"
  proof (rule DeleteWorkspaceFolder_ok)
    show "GetWorkspaceDir (ap_host sample_app) (w_Context ?w) (w_ID ?w) = Inr ''/r/contexts/c/workspaces/w''" by code_simp
    show "ResolveSSHConfigPath (ap_home sample_app) (tb_cwd (ap_tools sample_app)) (w_SSHConfigPath ?w) = Inr ''/home/me/.ssh/config''" by code_simp
  qed (simp add: sample_sys_def)
  moreover have "\<not> IsMachineProvider (wc_provider sample_client)" by code_simp
  ultimately show "fst sample_deleted = Inr ()" "length (sy_commands (snd sample_deleted)) = 1"
    by (auto simp: sample_deleted_def workspace_Delete_def on_disk_def split: prod.splits sum.splits)
qed

theorem workspace_Delete_correct_witness:
  "\<not> path_exists (sy_disk (snd sample_deleted)) ''/r/contexts/c/workspaces/w'' \<and>
   ReadFile (sy_disk (snd sample_deleted)) ''/r/contexts/c/workspaces/ww/workspace.json'' = Inr ''other'' \<and>
   length (sy_commands (snd sample_deleted)) = 1"
proof -
  have r: "sample_deleted = (Inr (), snd sample_deleted)" using sample_deleted_ok(1) by (simp add: prod_eq_iff)
  note d = workspace_Delete_correct [OF r [unfolded sample_deleted_def], folded sample_deleted_def]
  have "GetWorkspaceDir (ap_host sample_app) (w_Context (wc_workspace sample_client)) (w_ID (wc_workspace sample_client)) =
      Inr ''/r/contexts/c/workspaces/w''"
    "list_all (\<lambda>D. \<not> below_path D ''/r/contexts/c/workspaces/ww/workspace.json'') (deletion_scope sample_app sample_client)"
    "ReadFile (sy_disk sample_sys) ''/r/contexts/c/workspaces/ww/workspace.json'' = Inr ''other''"
    by code_simp+
  with d sample_deleted_ok(2) show ?thesis by (auto simp: touches_def)
qed

section \<open>What the agent is told\<close>

text \<open>JSON gives the workspace and the machine of a client back, but for the field that is not part of it.\<close>

definition clonable :: "app \<Rightarrow> workspace_client \<Rightarrow> bool" where
  "clonable a c \<longleftrightarrow>
     (case ap_workspace_enc a (wc_workspace c) of
        Inl _ \<Rightarrow> False
      | Inr b \<Rightarrow> (case ap_workspace_dec a b of Inl _ \<Rightarrow> False | Inr x \<Rightarrow> x\<lparr>w_Origin := w_Origin (wc_workspace c)\<rparr> = wc_workspace c)) \<and>
     (case wc_machine c of
        None \<Rightarrow> True
      | Some m \<Rightarrow>
          (case ap_machine_enc a m of
             Inl _ \<Rightarrow> False
           | Inr b \<Rightarrow> (case ap_machine_dec a b of Inl _ \<Rightarrow> False | Inr x \<Rightarrow> x\<lparr>m_Origin := m_Origin m\<rparr> = m)))"


definition sample_private_client :: workspace_client where
  "sample_private_client = sample_client\<lparr>wc_workspace := sample_saved\<rparr>"


section \<open>The files of the workspaces\<close>

text \<open>Paths below the configuration folder.\<close>

abbreviation folder_elems :: "string \<Rightarrow> string list" where
  "folder_elems c \<equiv> clean_elems True [] (Split CHR ''/'' c)"

lemma kept_ok_rooted: "kept_ok True ks \<Longrightarrow> k \<in> set ks \<Longrightarrow> k \<noteq> [] \<and> k \<noteq> ''.'' \<and> k \<noteq> ''..''"
  by (induction ks) (auto split: if_splits)

lemma folder_elems_plain: "plain_path (folder_elems c)"
  using kept_ok_rooted [OF kept_ok_clean [of True "[]" "Split CHR ''/'' c"]] clean_elems_elems [of True "[]" "Split CHR ''/'' c"] Split_elems
  by (fastforce simp: list_all_iff plain_name_def)

lemma config_path:
  assumes "proper_folder c" "plain_path es" "es \<noteq> []"
  shows "path_Join (c # es) = abs_path (folder_elems c @ es)"
proof -
  have "c \<noteq> []" "HasPrefix c ''/''" using assms(1) by (auto simp: proper_folder_def HasPrefix_def)
  with path_Join_plain [of c es] assms show ?thesis by (simp add: abs_path_def)
qed

lemma workspace_paths:
  assumes "h_configDir h = Inr c" "proper_folder c" "plain_name ctx" "plain_name w"
  shows "GetWorkspaceDir h ctx w = Inr (abs_path (folder_elems c @ [''contexts'', ctx, ''workspaces'', w]))"
    and "plain_name f \<Longrightarrow> path_Join [abs_path (folder_elems c @ [''contexts'', ctx, ''workspaces'', w]), f] =
      abs_path (folder_elems c @ [''contexts'', ctx, ''workspaces'', w, f])"
proof -
  have "w \<noteq> []" using assms(4) by (auto simp: plain_name_def)
  then show "GetWorkspaceDir h ctx w = Inr (abs_path (folder_elems c @ [''contexts'', ctx, ''workspaces'', w]))"
    using assms config_path [of c "[''contexts'', ctx, ''workspaces'', w]"] by (simp add: GetWorkspaceDir_def in_config_dir_def)
  show "path_Join [abs_path (folder_elems c @ [''contexts'', ctx, ''workspaces'', w]), f] =
      abs_path (folder_elems c @ [''contexts'', ctx, ''workspaces'', w, f])" if "plain_name f"
    using join_abs_path [of "folder_elems c @ [''contexts'', ctx, ''workspaces'', w]" "[f]"] folder_elems_plain [of c] assms that
    by (simp add: rel_path_def)
qed

definition ws_file :: "string \<Rightarrow> string \<times> string \<Rightarrow> string" where
  "ws_file c k = abs_path (folder_elems c @ [''contexts'', fst k, ''workspaces'', snd k, WorkspaceConfigFile])"

definition ws_dir :: "string \<Rightarrow> string \<times> string \<Rightarrow> string" where
  "ws_dir c k = abs_path (folder_elems c @ [''contexts'', fst k, ''workspaces'', snd k])"

definition ws_key :: "string \<times> string \<Rightarrow> bool" where
  "ws_key k \<longleftrightarrow> plain_name (fst k) \<and> plain_name (snd k)"

lemma ws_file_below: "ws_key k \<Longrightarrow> ws_key k' \<Longrightarrow> below_path (ws_dir c k) (ws_file c k') \<longleftrightarrow> k = k'"
  using below_abs_path_iff [of "folder_elems c @ [''contexts'', fst k, ''workspaces'', snd k]"
      "folder_elems c @ [''contexts'', fst k', ''workspaces'', snd k', WorkspaceConfigFile]"] folder_elems_plain [of c]
  by (auto simp: ws_dir_def ws_file_def ws_key_def prod_eq_iff)

lemma ws_file_inject: "ws_key k \<Longrightarrow> ws_key k' \<Longrightarrow> ws_file c k = ws_file c k' \<longleftrightarrow> k = k'"
  using abs_path_inject [of "folder_elems c @ [''contexts'', fst k, ''workspaces'', snd k, WorkspaceConfigFile]"
      "folder_elems c @ [''contexts'', fst k', ''workspaces'', snd k', WorkspaceConfigFile]"] folder_elems_plain [of c]
  by (auto simp: ws_file_def ws_key_def prod_eq_iff)

text \<open>The operations of the store: saving, and deleting the folder.\<close>

definition ws_put :: "app \<Rightarrow> string \<times> string \<Rightarrow> workspace \<Rightarrow> disk \<Rightarrow> disk" where
  "ws_put a k w d = snd (SaveWorkspaceConfig (ap_host a) (ap_workspace_enc a) w d)"

definition ws_del :: "app \<Rightarrow> string \<Rightarrow> string \<times> string \<Rightarrow> disk \<Rightarrow> disk" where
  "ws_del a p k d = snd (DeleteWorkspaceFolder a (fst k) (snd k) p d)"

definition ws_get :: "app \<Rightarrow> string \<times> string \<Rightarrow> disk \<Rightarrow> workspace option" where
  "ws_get a k d = (case LoadWorkspaceConfig (ap_host a) (ap_workspace_dec a) (fst k) (snd k) d of Inl _ \<Rightarrow> None | Inr w \<Rightarrow> Some w)"

text \<open>A disk that works, with the SSH configuration file elsewhere.\<close>

definition ws_inv :: "app \<Rightarrow> string \<Rightarrow> string \<Rightarrow> disk \<Rightarrow> bool" where
  "ws_inv a p c d \<longleftrightarrow> io_error d = (\<lambda>_. None) \<and> h_configDir (ap_host a) = Inr c \<and> proper_folder c \<and>
     (\<exists>ssh. ResolveSSHConfigPath (ap_home a) (tb_cwd (ap_tools a)) p = Inr ssh \<and> apart (Clean c) ssh)"

definition ws_entry :: "app \<Rightarrow> string \<times> string \<Rightarrow> workspace \<Rightarrow> bool" where
  "ws_entry a k w \<longleftrightarrow> (w_Context w, w_ID w) = k \<and>
     (case ap_workspace_enc a w of
        Inl _ \<Rightarrow> False
      | Inr b \<Rightarrow> (case ap_workspace_dec a b of Inl _ \<Rightarrow> False | Inr x \<Rightarrow> x\<lparr>w_Context := w_Context w, w_Origin := w_Origin w\<rparr> = w))"

lemma ws_get_eq:
  assumes "ws_inv a p c d" "ws_key k"
  shows "ws_get a k d =
    (case ReadFile d (ws_file c k) of
       Inl _ \<Rightarrow> None
     | Inr b \<Rightarrow> (case ap_workspace_dec a b of Inl _ \<Rightarrow> None | Inr w \<Rightarrow> Some (w\<lparr>w_Context := fst k, w_Origin := ws_file c k\<rparr>)))"
proof -
  have c: "h_configDir (ap_host a) = Inr c" "proper_folder c" "plain_name (fst k)" "plain_name (snd k)"
    using assms by (auto simp: ws_inv_def ws_key_def)
  show ?thesis
    using workspace_paths(1) [OF c] workspace_paths(2) [OF c, of WorkspaceConfigFile]
    by (auto simp: ws_get_def LoadWorkspaceConfig_def load_json_def ws_file_def split: sum.splits)
qed

lemma ws_put_facts:
  assumes "ws_inv a p c d" "ws_key k" "ws_entry a k w"
  shows "ws_inv a p c (ws_put a k w d)" "\<exists>b. ap_workspace_enc a w = Inr b \<and> ReadFile (ws_put a k w d) (ws_file c k) = Inr b"
    "q \<noteq> ws_file c k \<Longrightarrow> ReadFile (ws_put a k w d) q = ReadFile d q"
proof -
  have c: "h_configDir (ap_host a) = Inr c" "proper_folder c" "plain_name (fst k)" "plain_name (snd k)"
    and d: "io_error d = (\<lambda>_. None)" and k: "w_Context w = fst k" "w_ID w = snd k"
    and ssh: "\<exists>ssh. ResolveSSHConfigPath (ap_home a) (tb_cwd (ap_tools a)) p = Inr ssh \<and> apart (Clean c) ssh"
    using assms by (auto simp: ws_inv_def ws_key_def ws_entry_def)
  obtain b where b: "ap_workspace_enc a w = Inr b" using assms(3) by (auto simp: ws_entry_def split: sum.splits)
  have "ws_put a k w d = d\<lparr>dirs := List.insert (ws_dir c k) (dirs d), files := AList.update (ws_file c k) b (files d)\<rparr>"
    using workspace_paths(1) [OF c] workspace_paths(2) [OF c, of WorkspaceConfigFile]
    by (simp add: ws_put_def SaveWorkspaceConfig_def save_json_def k b MkdirAll_def WriteFile_def d ws_file_def ws_dir_def)
  with b c d ssh show "ws_inv a p c (ws_put a k w d)"
    "\<exists>b. ap_workspace_enc a w = Inr b \<and> ReadFile (ws_put a k w d) (ws_file c k) = Inr b"
    "q \<noteq> ws_file c k \<Longrightarrow> ReadFile (ws_put a k w d) q = ReadFile d q"
    by (simp_all add: ws_inv_def ReadFile_def update_conv')
qed

lemma ws_del_facts:
  assumes "ws_inv a p c d" "ws_key k"
  shows "ws_inv a p c (ws_del a p k d)" "below_path (ws_dir c k) q \<Longrightarrow> \<exists>e. ReadFile (ws_del a p k d) q = Inl e"
    "ws_key k' \<Longrightarrow> k' \<noteq> k \<Longrightarrow> ReadFile (ws_del a p k d) (ws_file c k') = ReadFile d (ws_file c k')"
proof -
  have c: "h_configDir (ap_host a) = Inr c" "proper_folder c" "plain_name (fst k)" "plain_name (snd k)" and d: "io_error d = (\<lambda>_. None)"
    using assms by (auto simp: ws_inv_def ws_key_def)
  obtain ssh where ssh: "ResolveSSHConfigPath (ap_home a) (tb_cwd (ap_tools a)) p = Inr ssh" "apart (Clean c) ssh"
    using assms by (auto simp: ws_inv_def)
  have W: "GetWorkspaceDir (ap_host a) (fst k) (snd k) = Inr (ws_dir c k)" using workspace_paths(1) [OF c] by (simp add: ws_dir_def)
  have "fst (DeleteWorkspaceFolder a (fst k) (snd k) p d) = Inr ()" by (rule DeleteWorkspaceFolder_ok [OF _ W ssh(1)]) (simp add: d)
  then have "DeleteWorkspaceFolder a (fst k) (snd k) p d = (Inr (), ws_del a p k d)" by (simp add: ws_del_def prod_eq_iff)
  from DeleteWorkspaceFolder_facts [OF this] have f: "\<not> path_exists (ws_del a p k d) (ws_dir c k)"
    "touches [ws_dir c k, ssh] d (ws_del a p k d)" "io_error (ws_del a p k d) = (\<lambda>_. None)"
    using W ssh(1) d by auto
  from f(3) c ssh show "ws_inv a p c (ws_del a p k d)" by (auto simp: ws_inv_def)
  show "\<exists>e. ReadFile (ws_del a p k d) q = Inl e" if "below_path (ws_dir c k) q"
  proof -
    have "q \<notin> set (keys (files (ws_del a p k d)))" using f(1) that by (auto simp: path_exists_def)
    then have "map_of (files (ws_del a p k d)) q = None" by (simp add: map_of_eq_None_iff)
    then show ?thesis by (simp add: ReadFile_def f(3))
  qed
  show "ReadFile (ws_del a p k d) (ws_file c k') = ReadFile d (ws_file c k')" if k': "ws_key k'" "k' \<noteq> k"
  proof -
    have "below_path (Clean c) (ws_file c k')"
      using below_abs_path [of "folder_elems c" "[''contexts'', fst k', ''workspaces'', snd k', WorkspaceConfigFile]"]
        proper_folder_elems [OF c(2)] by (simp add: ws_file_def)
    then have "\<not> below_path ssh (ws_file c k')" using apart_below [OF ssh(2)] by blast
    then show ?thesis using f(2) ws_file_below [OF assms(2) k'(1), of c] k'(2) by (auto simp: touches_def)
  qed
qed

definition ws_view :: "app \<Rightarrow> string \<Rightarrow> string \<times> string \<Rightarrow> workspace \<Rightarrow> workspace option" where
  "ws_view a c k w = Some (w\<lparr>w_Origin := ws_file c k\<rparr>)"

interpretation ws_store: keyed_store "ws_put a" "ws_del a p" "ws_get a" "ws_view a c" None "ws_inv a p c" ws_key "ws_entry a"
  for a p c
proof
  fix d k w k'
  assume i: "ws_inv a p c d" and k: "ws_key k" and w: "ws_entry a k w"
  note f = ws_put_facts [OF i k w]
  show "ws_inv a p c (ws_put a k w d)" by (rule f(1))
  assume k': "ws_key k'"
  obtain b x where b: "ap_workspace_enc a w = Inr b" "ap_workspace_dec a b = Inr x" "x\<lparr>w_Context := w_Context w, w_Origin := w_Origin w\<rparr> = w"
    "fst k = w_Context w" using w by (auto simp: ws_entry_def split: sum.splits)
  have "x\<lparr>w_Context := fst k, w_Origin := ws_file c k\<rparr> = w\<lparr>w_Origin := ws_file c k\<rparr>"
    using arg_cong [OF b(3), of "w_Origin_update (\<lambda>_. ws_file c k)"] b(4) by simp
  then show "ws_get a k' (ws_put a k w d) = (if k' = k then ws_view a c k w else ws_get a k' d)"
    using f(2) f(3) [of "ws_file c k'"] ws_file_inject [OF k' k, of c] b(1,2)
    by (auto simp: ws_get_eq [OF f(1) k'] ws_get_eq [OF i k'] ws_view_def)
next
  fix d k k'
  assume i: "ws_inv a p c d" and k: "ws_key k"
  note f = ws_del_facts [OF i k]
  show "ws_inv a p c (ws_del a p k d)" by (rule f(1))
  assume k': "ws_key k'"
  show "ws_get a k' (ws_del a p k d) = (if k' = k then None else ws_get a k' d)"
    using f(2) [of "ws_file c k'"] f(3) [OF k'] ws_file_below [OF k k', of c]
    by (auto simp: ws_get_eq [OF f(1) k'] ws_get_eq [OF i k'])
qed

text \<open>C36: After any sequence of savings of workspaces and deletions of workspace folders, in any contexts, loading a workspace gives what
  was saved last for its context and identifier, with the path of its file as origin; it fails when the last call for
  it deleted it, and gives what it gave before when there was none.  The operations on one workspace never disturb another one.\<close>

theorem workspace_files_last_call:
  assumes "ws_inv a p c d" "list_all (op_ok ws_key (ws_entry a)) ops" "ws_key k"
  shows "ws_get a k (fold (run_op (ws_put a) (ws_del a p)) ops d) =
    last_effect (\<lambda>w. Some (w\<lparr>w_Origin := ws_file c k\<rparr>)) None k ops (ws_get a k d)"
  using ws_store.run_get [OF assms] by (simp add: ws_view_def [abs_def])

theorem workspace_files_last_call_witness:
  "ws_get sample_app (''c'', ''w'') (fold (run_op (ws_put sample_app) (ws_del sample_app [])) [Del (''c'', ''ww''), Put (''c'', ''w'') sample_saved]
      (sy_disk sample_sys)) = Some sample_saved"
proof -
  have "ResolveSSHConfigPath (ap_home sample_app) (tb_cwd (ap_tools sample_app)) [] = Inr ''/home/me/.ssh/config''"
    "apart (Clean ''/r'') ''/home/me/.ssh/config''" "proper_folder ''/r''" by code_simp+
  then have i: "ws_inv sample_app [] ''/r'' (sy_disk sample_sys)" by (simp add: ws_inv_def sample_sys_def sample_host_def sample_app_def)
  have k: "ws_key (''c'', ''w'')" and o: "list_all (op_ok ws_key (ws_entry sample_app)) [Del (''c'', ''ww''), Put (''c'', ''w'') sample_saved]"
    by code_simp+
  have "sample_saved\<lparr>w_Origin := ws_file ''/r'' (''c'', ''w'')\<rparr> = sample_saved" by code_simp
  with workspace_files_last_call [OF i o k] show ?thesis by simp
qed

end
