(* ===== verification/Locks_Properties.thy ===== *)
theory Locks_Properties
  imports Locks Client_Properties
begin

text \<open>
  The lock protocol: processes that share a lock are never in the locked phase together, and since every process takes the lock of the
  workspace before the one of the machine, waiting processes never wait for each other in a circle.
\<close>

declare path_Join.simps [simp del]

section \<open>Runs\<close>

text \<open>The states that any number of processes reach, in any interleaving of their steps; with \<open>clean\<close>, the operating system never fails to
  release a lock.\<close>

inductive lock_reach :: "bool \<Rightarrow> (nat \<Rightarrow> string list) \<Rightarrow> lock_state \<Rightarrow> bool" for clean locks where
  lock_init: "lock_reach clean locks no_locks"
| lock_next: "lock_reach clean locks s \<Longrightarrow> lock_step (locks p) p (ls_phase s p) ev (ls_holders s) = Some r \<Longrightarrow>
    (clean \<Longrightarrow> \<forall>e. ev \<noteq> Release (Some e)) \<Longrightarrow> lock_reach clean locks (set_proc p r s)"

text \<open>The locks a process surely holds, and the ones it may hold, as the number of its first locks.\<close>

fun surely :: "string list \<Rightarrow> phase \<Rightarrow> nat" where
  "surely locks (Locking i since) = i"
| "surely locks Locked = length locks"
| "surely locks ph = 0"

fun maybe :: "string list \<Rightarrow> phase \<Rightarrow> nat" where
  "maybe locks (Locking i since) = i"
| "maybe locks (Unlocking i) = Suc i"
| "maybe locks Idle = 0"
| "maybe locks Exited = 0"
| "maybe locks ph = length locks"

definition held :: "holders \<Rightarrow> nat \<Rightarrow> string set" where
  "held h p = {x. map_of h x = Some p}"

fun phase_ok :: "string list \<Rightarrow> phase \<Rightarrow> bool" where
  "phase_ok locks (Locking i since) \<longleftrightarrow> i < length locks"
| "phase_ok locks (Unlocking i) \<longleftrightarrow> i < length locks"
| "phase_ok locks Locked \<longleftrightarrow> locks \<noteq> []"
| "phase_ok locks ph \<longleftrightarrow> True"

section \<open>Steps\<close>

lemma TryLock_held:
  assumes "TryLock p path err h = (r, h')" "wf_map h"
  shows "wf_map h'" "q \<noteq> p \<Longrightarrow> held h' q = held h q" "r = Inr True \<Longrightarrow> held h' p = insert path (held h p)"
    "r \<noteq> Inr True \<Longrightarrow> h' = h"
proof -
  have "r = Inr True \<and> map_of h path = Some p \<and> h' = h \<or> r = Inr True \<and> map_of h path = None \<and> h' = AList.update path p h \<or>
      r \<noteq> Inr True \<and> h' = h"
    using assms(1) by (auto simp: TryLock_def split: if_splits option.splits)
  moreover have "held (AList.update path p h) q = (if q = p then insert path (held h q) else held h q - {path})" for q
    by (auto simp: held_def update_conv')
  moreover have "map_of h path = None \<Longrightarrow> path \<notin> held h q" "map_of h path = Some p \<Longrightarrow> path \<in> held h p" for q
    by (simp_all add: held_def)
  ultimately show "wf_map h'" "q \<noteq> p \<Longrightarrow> held h' q = held h q" "r = Inr True \<Longrightarrow> held h' p = insert path (held h p)"
    "r \<noteq> Inr True \<Longrightarrow> h' = h"
    using assms(2) by (auto simp: wf_map_def distinct_update)
qed

lemma tryLock_held:
  assumes "tryLock p path since t h = (r, h')" "wf_map h"
  shows "wf_map h'" "q \<noteq> p \<Longrightarrow> held h' q = held h q" "r = Inr True \<Longrightarrow> held h' p = insert path (held h p)"
    "r \<noteq> Inr True \<Longrightarrow> h' = h"
proof -
  obtain r1 h1 where t: "TryLock p path (at_error t) h = (r1, h1)" by (cases "TryLock p path (at_error t) h")
  have "r = Inr True \<and> r1 = Inr True \<and> h' = h1 \<or> r \<noteq> Inr True \<and> h' = h"
    using assms(1) TryLock_held(4) [OF t assms(2)] by (auto simp: tryLock_def t split: if_splits sum.splits bool.splits option.splits)
  with TryLock_held [OF t assms(2)] assms(2) show "wf_map h'" "q \<noteq> p \<Longrightarrow> held h' q = held h q"
    "r = Inr True \<Longrightarrow> held h' p = insert path (held h p)" "r \<noteq> Inr True \<Longrightarrow> h' = h" by auto
qed

lemma flock_Unlock_held:
  assumes "wf_map h"
  shows "wf_map (flock_Unlock p path err h)" "q \<noteq> p \<Longrightarrow> held (flock_Unlock p path err h) q = held h q"
    "held (flock_Unlock p path err h) p \<subseteq> held h p" "held (flock_Unlock p path None h) p = held h p - {path}"
proof -
  have h: "held (AList.delete path h) q = held h q - {path}" for q by (auto simp: held_def delete_conv' split: if_splits)
  have "path \<notin> held h q" if "map_of h path = Some p" "q \<noteq> p" for q using that by (simp add: held_def)
  with h assms show "wf_map (flock_Unlock p path err h)" "q \<noteq> p \<Longrightarrow> held (flock_Unlock p path err h) q = held h q"
    "held (flock_Unlock p path err h) p \<subseteq> held h p" "held (flock_Unlock p path None h) p = held h p - {path}"
    by (auto simp: flock_Unlock_def wf_map_def distinct_delete held_def)
qed

lemma exit_held:
  assumes "wf_map h"
  shows "wf_map (filter (\<lambda>(_, q). q \<noteq> p) h)" "held (filter (\<lambda>(_, q). q \<noteq> p) h) q = (if q = p then {} else held h q)"
proof -
  have "distinct (map fst h)" using assms by (simp add: wf_map_def)
  then show "wf_map (filter (\<lambda>(_, q). q \<noteq> p) h)" by (simp add: wf_map_def distinct_map_filter)
  from \<open>distinct (map fst h)\<close> have "map_of (filter (\<lambda>(_, q). q \<noteq> p) h) x = Some y \<longleftrightarrow> map_of h x = Some y \<and> y \<noteq> p" for x y
    by (auto simp: map_of_eq_Some_iff distinct_map_filter)
  then show "held (filter (\<lambda>(_, q). q \<noteq> p) h) q = (if q = p then {} else held h q)" by (auto simp: held_def)
qed

lemma lock_step_facts:
  assumes step: "lock_step locks p ph ev h = Some (ph', h')" and wf: "wf_map h" and ok: "phase_ok locks ph"
    and sure: "set (take (surely locks ph) locks) \<subseteq> held h p"
  shows "wf_map h' \<and> phase_ok locks ph' \<and> (\<forall>q. q \<noteq> p \<longrightarrow> held h' q = held h q) \<and> set (take (surely locks ph') locks) \<subseteq> held h' p"
  using step wf ok sure
proof (induction locks p ph ev h rule: lock_step.induct)
  case (2 locks p i since t h)
  obtain r h1 where r: "tryLock p (locks ! i) since t h = (r, h1)" by (cases "tryLock p (locks ! i) since t h")
  note f = tryLock_held [OF r 2(2)]
  show ?case
  proof (cases "r = Inr True")
    case True
    then have "set (take (Suc i) locks) \<subseteq> held h1 p" using f(3) 2 by (auto simp: take_Suc_conv_app_nth)
    moreover have "\<not> Suc i < length locks \<Longrightarrow> take (Suc i) locks = locks" by simp
    moreover have "locks \<noteq> []" using 2(3) by auto
    ultimately show ?thesis using 2 f True by (auto simp: Lock_def r split: if_splits)
  next
    case False
    with f(4) 2 show ?thesis by (auto simp: Lock_def r split: sum.splits bool.splits)
  qed
qed (auto simp: Unlock_def flock_Unlock_held exit_held split: if_splits)

lemma lock_step_maybe:
  assumes step: "lock_step locks p ph ev h = Some (ph', h')" and wf: "wf_map h" and ok: "phase_ok locks ph"
    and may: "held h p \<subseteq> set (take (maybe locks ph) locks)" and ev: "\<forall>e. ev \<noteq> Release (Some e)"
  shows "held h' p \<subseteq> set (take (maybe locks ph') locks)"
  using step wf ok may ev
proof (induction locks p ph ev h rule: lock_step.induct)
  case (2 locks p i since t h)
  obtain r h1 where r: "tryLock p (locks ! i) since t h = (r, h1)" by (cases "tryLock p (locks ! i) since t h")
  note f = tryLock_held [OF r 2(2)]
  show ?case
  proof (cases "r = Inr True")
    case True
    then have "held h1 p \<subseteq> set (take (Suc i) locks)" using f(3) 2 by (auto simp: take_Suc_conv_app_nth)
    moreover have "\<not> Suc i < length locks \<Longrightarrow> take (Suc i) locks = locks" by simp
    ultimately show ?thesis using 2 True by (auto simp: Lock_def r split: if_splits)
  next
    case False
    with f(4) 2 show ?thesis using set_take_subset [of i locks] by (auto simp: Lock_def r split: sum.splits bool.splits)
  qed
next
  case (3 locks p err h)
  then obtain n where n: "length locks = Suc n" by (cases "length locks") auto
  then have "set locks = insert (locks ! n) (set (take n locks))"
    by (metis lessI list.set(2) rotate1.simps(2) set_rotate1 take_Suc_conv_app_nth take_all_iff order_refl)
  with 3 n show ?case using flock_Unlock_held(4) [OF 3(2)] by (cases n) (auto simp: Unlock_def)
next
  case (4 locks p i err h)
  then show ?case using flock_Unlock_held(4) [OF 4(2), of p "locks ! i"]
    by (cases i) (auto simp: Unlock_def take_Suc_conv_app_nth)
qed (auto simp: exit_held split: if_splits)

section \<open>Mutual exclusion\<close>

definition lock_inv :: "(nat \<Rightarrow> string list) \<Rightarrow> lock_state \<Rightarrow> bool" where
  "lock_inv locks s \<longleftrightarrow> wf_map (ls_holders s) \<and>
     (\<forall>p. phase_ok (locks p) (ls_phase s p) \<and> set (take (surely (locks p) (ls_phase s p)) (locks p)) \<subseteq> held (ls_holders s) p)"

lemma lock_inv_step:
  assumes "lock_inv locks s" "lock_step (locks p) p (ls_phase s p) ev (ls_holders s) = Some r"
  shows "lock_inv locks (set_proc p r s)"
  using assms lock_step_facts [of "locks p" p "ls_phase s p" ev "ls_holders s" "fst r" "snd r"]
  by (auto simp: lock_inv_def set_proc_def)

lemma lock_reach_inv: "lock_reach clean locks s \<Longrightarrow> lock_inv locks s"
proof (induction rule: lock_reach.induct)
  case lock_init
  then show ?case by (simp add: lock_inv_def no_locks_def wf_map_def)
next
  case (lock_next s p ev r)
  from lock_inv_step [OF lock_next.IH lock_next.hyps(2)] show ?case .
qed

lemma lock_reach_maybe:
  "lock_reach True locks s \<Longrightarrow> held (ls_holders s) p \<subseteq> set (take (maybe (locks p) (ls_phase s p)) (locks p))"
proof (induction arbitrary: p rule: lock_reach.induct)
  case lock_init
  then show ?case by (simp add: no_locks_def held_def)
next
  case (lock_next s q ev r)
  have i: "wf_map (ls_holders s)" "phase_ok (locks q) (ls_phase s q)"
    "set (take (surely (locks q) (ls_phase s q)) (locks q)) \<subseteq> held (ls_holders s) q"
    using lock_reach_inv [OF lock_next.hyps(1)] by (auto simp: lock_inv_def)
  have step: "lock_step (locks q) q (ls_phase s q) ev (ls_holders s) = Some (fst r, snd r)" using lock_next.hyps(2) by simp
  show ?case
    using lock_next.IH [of p] lock_step_facts [OF step i] lock_step_maybe [OF step i(1,2) lock_next.IH] lock_next.hyps(3)
    by (cases "p = q") (auto simp: set_proc_def)
qed

section \<open>Waiting\<close>

text \<open>A process waits for another one that holds the lock it tries to take.\<close>

definition waits_for :: "(nat \<Rightarrow> string list) \<Rightarrow> lock_state \<Rightarrow> nat \<Rightarrow> nat \<Rightarrow> bool" where
  "waits_for locks s p q \<longleftrightarrow>
     (case ls_phase s p of Locking i since \<Rightarrow> map_of (ls_holders s) (locks p ! i) = Some q \<and> q \<noteq> p | _ \<Rightarrow> False)"

text \<open>The rank of the lock a process tries to take.\<close>

definition wanted :: "(nat \<Rightarrow> string list) \<Rightarrow> (string \<Rightarrow> nat) \<Rightarrow> nat \<Rightarrow> lock_state \<Rightarrow> nat \<Rightarrow> nat" where
  "wanted locks rank bound s p = (case ls_phase s p of Locking i since \<Rightarrow> rank (locks p ! i) | _ \<Rightarrow> bound)"

text \<open>Processes that take their locks in the order of a rank.\<close>

locale ranked_locks =
  fixes locks :: "nat \<Rightarrow> string list" and rank :: "string \<Rightarrow> nat" and bound :: nat
  assumes increasing: "sorted_wrt (\<lambda>x y. rank x < rank y) (locks p)"
    and bounded: "x \<in> set (locks p) \<Longrightarrow> rank x < bound"
begin

lemma waits_wanted:
  assumes "lock_reach True locks s" "waits_for locks s p q"
  shows "wanted locks rank bound s p < wanted locks rank bound s q"
proof -
  obtain i since where p: "ls_phase s p = Locking i since" and h: "map_of (ls_holders s) (locks p ! i) = Some q"
    using assms(2) by (auto simp: waits_for_def split: phase.splits)
  have inv: "lock_inv locks s" using lock_reach_inv [OF assms(1)] .
  then have "phase_ok (locks p) (ls_phase s p)" by (simp add: lock_inv_def)
  then have i: "i < length (locks p)" by (simp add: p)
  have "locks p ! i \<in> held (ls_holders s) q" using h by (simp add: held_def)
  with lock_reach_maybe [OF assms(1)] have m: "locks p ! i \<in> set (take (maybe (locks q) (ls_phase s q)) (locks q))" by blast
  show ?thesis
  proof (cases "\<exists>j t. ls_phase s q = Locking j t")
    case True
    then obtain j t where q: "ls_phase s q = Locking j t" by blast
    have "phase_ok (locks q) (ls_phase s q)" using inv by (simp add: lock_inv_def)
    then have j: "j < length (locks q)" by (simp add: q)
    from m obtain k where k: "k < j" "locks p ! i = locks q ! k" by (auto simp: q in_set_conv_nth)
    with j sorted_wrt_nth_less [OF increasing k(1) j] show ?thesis by (simp add: wanted_def p q)
  next
    case False
    then have "wanted locks rank bound s q = bound" by (auto simp: wanted_def split: phase.splits)
    with bounded [of "locks p ! i" p] i show ?thesis by (simp add: wanted_def p)
  qed
qed

lemma chain_ends:
  assumes "lock_reach True locks s"
  shows "\<exists>r. (waits_for locks s)\<^sup>*\<^sup>* p r \<and> (\<forall>q. \<not> waits_for locks s r q)"
proof (induction "bound - wanted locks rank bound s p" arbitrary: p rule: less_induct)
  case less
  show ?case
  proof (cases "\<exists>q. waits_for locks s p q")
    case True
    then obtain q where q: "waits_for locks s p q" by blast
    have "wanted locks rank bound s q \<le> bound"
    proof (cases "\<exists>j t. ls_phase s q = Locking j t")
      case True
      then obtain j t where j: "ls_phase s q = Locking j t" by blast
      have "phase_ok (locks q) (ls_phase s q)" using lock_reach_inv [OF assms] by (simp add: lock_inv_def)
      then show ?thesis using bounded [of "locks q ! j" q] by (simp add: wanted_def j)
    qed (auto simp: wanted_def split: phase.splits)
    with waits_wanted [OF assms q] less [of q] q show ?thesis by (meson converse_rtranclp_into_rtranclp diff_less_mono2 less_le_trans)
  qed blast
qed

end

section \<open>The locks of DevPod\<close>

text \<open>The locks of a process that works on a workspace, with or without a machine.\<close>

definition client_locks :: "app \<Rightarrow> (nat \<Rightarrow> workspace \<times> machine option) \<Rightarrow> disk \<Rightarrow> nat \<Rightarrow> string list" where
  "client_locks a cs d p = (case fst (initLock a (fst (cs p)) (snd (cs p)) d) of Inl _ \<Rightarrow> [] | Inr ls \<Rightarrow> ls)"

definition lock_rank :: "string \<Rightarrow> nat" where
  "lock_rank path = (if HasSuffix path ''.workspace.lock'' then 0 else 1)"

lemma HasSuffix_iff: "HasSuffix s p \<longleftrightarrow> (\<exists>t. s = t @ p)"
  by (metis HasSuffix_def append_eq_conv_conj append_take_drop_id length_append diff_add_inverse2 le_add2)

lemma HasSuffix_trans: "HasSuffix a b \<Longrightarrow> HasSuffix b c \<Longrightarrow> HasSuffix a c"
  by (auto simp: HasSuffix_iff)

text \<open>Cleaning a path keeps the end of its last element.\<close>

lemma last_Split: "CHR ''/'' \<notin> set e \<Longrightarrow> \<exists>xs x. Split CHR ''/'' (s @ e) = xs @ [x @ e]"
proof (induction s)
  case Nil
  then show ?case using Split_no [of "CHR ''/''" e] by (metis append_Nil)
next
  case (Cons c s)
  then obtain xs x where x: "Split CHR ''/'' (s @ e) = xs @ [x @ e]" by blast
  have "Split CHR ''/'' ((c # s) @ e) = ([] # xs) @ [x @ e]" if "c = CHR ''/''" using x that by simp
  moreover have "Split CHR ''/'' ((c # s) @ e) = [] @ [(c # x) @ e]" if "c \<noteq> CHR ''/''" "xs = []" using x that by simp
  moreover have "Split CHR ''/'' ((c # s) @ e) = ((c # y) # ys) @ [x @ e]" if "c \<noteq> CHR ''/''" "xs = y # ys" for y ys using x that by simp
  ultimately show ?case by (metis list.exhaust)
qed

lemma HasSuffix_Join: "HasSuffix (Join (xs @ [x]) sep) x"
  by (induction xs sep rule: Join.induct) (auto simp: HasSuffix_iff)

lemma Clean_suffix:
  assumes "CHR ''/'' \<notin> set e" "length e > 2"
  shows "HasSuffix (Clean (s @ e)) e"
proof -
  obtain xs x where x: "Split CHR ''/'' (s @ e) = xs @ [x @ e]" using last_Split [OF assms(1)] by blast
  have "x @ e \<noteq> []" "x @ e \<noteq> ''.''" "x @ e \<noteq> ''..''" using assms(2) by (auto dest!: arg_cong [of _ _ length])
  then have "\<exists>ys. clean_elems r [] (xs @ [x @ e]) = ys @ [x @ e]" for r
    by (auto simp: clean_elems_append)
  then obtain ys where "clean_elems (HasPrefix (s @ e) ''/'') [] (Split CHR ''/'' (s @ e)) = ys @ [x @ e]" by (metis x)
  moreover have "HasSuffix (Join (ys @ [x @ e]) ''/'') e" using HasSuffix_trans [OF HasSuffix_Join] by (auto simp: HasSuffix_iff)
  ultimately show ?thesis using assms(2) by (auto simp: Clean_def Let_def HasSuffix_iff)
qed

lemma path_Join_suffix: "CHR ''/'' \<notin> set e \<Longrightarrow> length e > 2 \<Longrightarrow> HasSuffix (path_Join [dir, i @ e]) e"
  using Clean_suffix [of e "dir @ ''/'' @ i"] Clean_suffix [of e i] by (cases "dir = []"; cases e) (simp_all add: path_Join.simps)

lemma lock_files_rank: "lock_rank (path_Join [dir, i @ ''.workspace.lock'']) = 0" "lock_rank (path_Join [dir, i @ ''.machine.lock'']) = 1"
proof -
  have "HasSuffix (path_Join [dir, i @ ''.machine.lock'']) ''.machine.lock''" by (rule path_Join_suffix) auto
  moreover have "\<not> (HasSuffix x ''.machine.lock'' \<and> HasSuffix x ''.workspace.lock'')" for x
    by (auto simp: HasSuffix_iff append_eq_append_conv2 append_eq_Cons_conv Cons_eq_append_conv)
  ultimately show "lock_rank (path_Join [dir, i @ ''.machine.lock'']) = 1" by (auto simp: lock_rank_def)
  show "lock_rank (path_Join [dir, i @ ''.workspace.lock'']) = 0" using path_Join_suffix [of "''.workspace.lock''"] by (simp add: lock_rank_def)
qed

interpretation devpod_locks: ranked_locks "client_locks a cs d" lock_rank 2
  for a cs d
proof
  show "sorted_wrt (\<lambda>x y. lock_rank x < lock_rank y) (client_locks a cs d p)" for p
    by (auto simp: client_locks_def initLock_def lock_files_rank split: sum.splits option.splits)
  show "lock_rank x < 2" for x by (simp add: lock_rank_def)
qed

text \<open>C39: Whatever the interleaving of the processes, their errors, timeouts, cancellations and ends, two processes
  whose \<open>Lock\<close> succeeded and which have not yet begun to unlock never share a workspace or a machine.\<close>

theorem Lock_mutual_exclusion:
  assumes "lock_reach False (client_locks a cs d) s" "ls_phase s p = Locked" "ls_phase s q = Locked" "p \<noteq> q"
  shows "set (client_locks a cs d p) \<inter> set (client_locks a cs d q) = {}"
proof -
  have "set (client_locks a cs d x) \<subseteq> held (ls_holders s) x" if "ls_phase s x = Locked" for x
  proof -
    have "set (take (surely (client_locks a cs d x) (ls_phase s x)) (client_locks a cs d x)) \<subseteq> held (ls_holders s) x"
      using lock_reach_inv [OF assms(1)] by (simp add: lock_inv_def)
    with that show ?thesis by simp
  qed
  from this [OF assms(2)] this [OF assms(3)] assms(4) show ?thesis by (fastforce simp: held_def)
qed

text \<open>C40: Processes never wait for each other in a circle, as long as releasing a lock does not fail: whoever a process
  waits for, directly or through others, the chain ends in a process that waits for nobody.  Since \<open>Lock\<close> takes the lock of the
  workspace before the one of the machine, nobody waits for a process that waits for the lock of its workspace.\<close>

theorem Lock_no_deadlock:
  assumes "lock_reach True (client_locks a cs d) s"
  shows "(\<exists>r. (waits_for (client_locks a cs d) s)\<^sup>*\<^sup>* p r \<and> (\<forall>q. \<not> waits_for (client_locks a cs d) s r q)) \<and>
    acyclicP (waits_for (client_locks a cs d) s)"
proof
  show "\<exists>r. (waits_for (client_locks a cs d) s)\<^sup>*\<^sup>* p r \<and> (\<forall>q. \<not> waits_for (client_locks a cs d) s r q)"
    by (rule devpod_locks.chain_ends [OF assms])
  have "wanted (client_locks a cs d) lock_rank 2 s x < wanted (client_locks a cs d) lock_rank 2 s y"
    if "(x, y) \<in> {(p, q). waits_for (client_locks a cs d) s p q}\<^sup>+" for x y
    using that by induction (auto dest: devpod_locks.waits_wanted [OF assms])
  then show "acyclicP (waits_for (client_locks a cs d) s)" by (intro acyclicI) fastforce
qed

text \<open>A sample: two processes on one workspace, one on another workspace of the same machine, and one on another machine.\<close>

fun run_locks :: "(nat \<Rightarrow> string list) \<Rightarrow> (nat \<times> lock_event) list \<Rightarrow> lock_state \<Rightarrow> lock_state option" where
  "run_locks locks [] s = Some s"
| "run_locks locks ((p, ev) # evs) s =
     (case lock_step (locks p) p (ls_phase s p) ev (ls_holders s) of
        None \<Rightarrow> None
      | Some r \<Rightarrow> run_locks locks evs (set_proc p r s))"

fun releases :: "lock_event \<Rightarrow> bool" where
  "releases (Release (Some e)) = False"
| "releases ev = True"

lemma run_locks_reach:
  "run_locks locks evs s = Some s' \<Longrightarrow> lock_reach clean locks s \<Longrightarrow> list_all (\<lambda>(p, ev). releases ev) evs \<Longrightarrow> lock_reach clean locks s'"
proof (induction evs arbitrary: s)
  case (Cons x evs)
  obtain p ev where x: "x = (p, ev)" by (cases x)
  obtain r where r: "lock_step (locks p) p (ls_phase s p) ev (ls_holders s) = Some r" "run_locks locks evs (set_proc p r s) = Some s'"
    using Cons.prems(1) by (auto simp: x split: option.splits)
  have "\<forall>e. ev \<noteq> Release (Some e)" using Cons.prems(3) by (auto simp: x)
  then have "lock_reach clean locks (set_proc p r s)" using lock_next [OF Cons.prems(2) r(1)] by blast
  with Cons.IH [OF r(2)] Cons.prems(3) show ?case by simp
qed simp

definition sample_locks :: "nat \<Rightarrow> string list" where
  "sample_locks = client_locks sample_app (\<lambda>p. (zero_workspace\<lparr>w_ID := if p = 2 then ''v'' else if p = 4 then ''u'' else ''w'', w_Context := ''c''\<rparr>,
     if p = 3 then None else Some (zero_machine\<lparr>m_ID := if p = 4 then ''n'' else ''m''\<rparr>))) (sy_disk sample_sys)"

definition sample_attempt :: "int \<Rightarrow> lock_event" where
  "sample_attempt t = Attempt \<lparr>at_now = t, at_error = None, at_done = None\<rparr>"

definition sample_run :: "(nat \<times> lock_event) list" where
  "sample_run = [(1, Begin 0), (2, Begin 0), (1, sample_attempt 1), (2, sample_attempt 1), (1, sample_attempt 2), (2, sample_attempt 2),
     (0, Begin 2), (0, sample_attempt 3), (4, Begin 3), (4, sample_attempt 3), (4, sample_attempt 3)]"

definition sample_lock_state :: lock_state where
  "sample_lock_state = the (run_locks sample_locks sample_run no_locks)"

lemma sample_lock_reach: "lock_reach clean sample_locks sample_lock_state"
proof -
  have "run_locks sample_locks sample_run no_locks \<noteq> None" "list_all (\<lambda>(p, ev). releases ev) sample_run" by code_simp+
  then show ?thesis using run_locks_reach [OF _ lock_init, of sample_locks sample_run sample_lock_state clean]
    by (auto simp: sample_lock_state_def)
qed

theorem Lock_mutual_exclusion_witness:
  "ls_phase sample_lock_state 1 = Locked \<and> ls_phase sample_lock_state 4 = Locked \<and> set (sample_locks 1) \<inter> set (sample_locks 4) = {}"
proof -
  have "ls_phase sample_lock_state 1 = Locked" "ls_phase sample_lock_state 4 = Locked" by code_simp+
  with Lock_mutual_exclusion [OF sample_lock_reach [unfolded sample_locks_def], of 1 4] show ?thesis
    by (simp add: sample_locks_def [symmetric])
qed

theorem Lock_no_deadlock_witness:
  "waits_for sample_locks sample_lock_state 0 1 \<and> waits_for sample_locks sample_lock_state 2 1 \<and> acyclicP (waits_for sample_locks sample_lock_state)"
proof -
  have "waits_for sample_locks sample_lock_state 0 1" "waits_for sample_locks sample_lock_state 2 1" by code_simp+
  with Lock_no_deadlock [OF sample_lock_reach [unfolded sample_locks_def]] show ?thesis by (simp add: sample_locks_def [symmetric])
qed

end
