(* ===== verification/Management_Properties.thy ===== *)
theory Management_Properties
  imports Management Locks_Properties
begin

text \<open>
  Properties of the management of workspaces: a workspace is created completely or not at all, and a shared machine is only deleted with
  its last workspace.  A run is described by what it keeps, whatever its outcome, and by what it yields when it succeeds.
\<close>

declare path_Join.simps [simp del]

section \<open>Rules for runs\<close>

text \<open>What a run keeps of the file system, whether it succeeds or not, and what holds after it succeeded.\<close>

definition keeps :: "(disk \<Rightarrow> bool) \<Rightarrow> 'a run \<Rightarrow> bool" where
  "keeps I m \<longleftrightarrow> (\<forall>s r s'. I (sy_disk s) \<longrightarrow> m s = Some (r, s') \<longrightarrow> I (sy_disk s'))"

definition yields :: "(disk \<Rightarrow> bool) \<Rightarrow> 'a run \<Rightarrow> ('a \<Rightarrow> disk \<Rightarrow> bool) \<Rightarrow> bool" where
  "yields P m Q \<longleftrightarrow> (\<forall>s x s'. P (sy_disk s) \<longrightarrow> m s = Some (Inr x, s') \<longrightarrow> Q x (sy_disk s'))"

named_theorems run_rules

lemma keepsI: "(\<And>s r s'. I (sy_disk s) \<Longrightarrow> m s = Some (r, s') \<Longrightarrow> I (sy_disk s')) \<Longrightarrow> keeps I m"
  by (simp add: keeps_def)

lemma keepsD: "keeps I m \<Longrightarrow> m s = Some (r, s') \<Longrightarrow> I (sy_disk s) \<Longrightarrow> I (sy_disk s')"
  by (simp add: keeps_def)

lemma yieldsI: "(\<And>s x s'. P (sy_disk s) \<Longrightarrow> m s = Some (Inr x, s') \<Longrightarrow> Q x (sy_disk s')) \<Longrightarrow> yields P m Q"
  by (simp add: yields_def)

lemma yieldsD: "yields P m Q \<Longrightarrow> m s = Some (Inr x, s') \<Longrightarrow> P (sy_disk s) \<Longrightarrow> Q x (sy_disk s')"
  by (simp add: yields_def)

lemma keeps_basic [run_rules]:
  "keeps I (return x)" "keeps I (raise e)" "keeps I (look f)"
  by (simp_all add: keeps_def return_def raise_def look_def)

lemma and_then_cases:
  assumes "and_then m f s = Some (r, s')"
  obtains e where "m s = Some (Inl e, s')" "r = Inl e" | x s1 where "m s = Some (Inr x, s1)" "f x s1 = Some (r, s')"
  using assms unfolding and_then_def by (cases "m s") (auto split: sum.splits)

lemma on_error_cases:
  assumes "on_error m f s = Some (r, s')"
  obtains "m s = Some (r, s')" "\<forall>e. r \<noteq> Inl (Err e)" | e s1 where "m s = Some (Inl (Err e), s1)" "f (Err e) s1 = Some (r, s')"
  using assms unfolding on_error_def by (cases "m s") (auto split: sum.splits gerr.splits)

lemma keeps_and_then [run_rules]: "keeps I m \<Longrightarrow> (\<And>x. keeps I (f x)) \<Longrightarrow> keeps I (and_then m f)"
  by (rule keepsI, erule and_then_cases) (blast intro: keepsD)+

lemma keeps_on_error [run_rules]: "keeps I m \<Longrightarrow> (\<And>e. keeps I (f e)) \<Longrightarrow> keeps I (on_error m f)"
  by (rule keepsI, erule on_error_cases) (blast intro: keepsD)+

lemma keeps_wrapped [run_rules]: "keeps I m \<Longrightarrow> keeps I (wrapped msg m)"
  unfolding wrapped_def by (intro run_rules)

lemma keeps_ignoring [run_rules]: "keeps I m \<Longrightarrow> keeps I (ignoring m)"
  unfolding ignoring_def by (intro run_rules)

lemma keeps_act: "(\<And>d. I d \<Longrightarrow> I (snd (f d))) \<Longrightarrow> keeps I (act f)"
  by (auto simp: keeps_def act_def on_disk_def case_prod_unfold)

lemma keeps_if [run_rules]: "keeps I m \<Longrightarrow> keeps I m' \<Longrightarrow> keeps I (if b then m else m')"
  by simp

lemma yields_return: "(\<And>d. P d \<Longrightarrow> Q x d) \<Longrightarrow> yields P (return x) Q"
  by (simp add: yields_def return_def)

lemma yields_if: "(b \<Longrightarrow> yields P m Q) \<Longrightarrow> (\<not> b \<Longrightarrow> yields P m' Q) \<Longrightarrow> yields P (if b then m else m') Q"
  by simp

lemma yields_any: "yields P m (\<lambda>_ _. True)"
  by (simp add: yields_def)

lemma yields_raise [simp]: "yields P (raise e) Q"
  by (simp add: yields_def raise_def)

lemma yields_look: "(\<And>d x. P d \<Longrightarrow> f d = Inr x \<Longrightarrow> Q x d) \<Longrightarrow> yields P (look f) Q"
  by (simp add: yields_def look_def)

lemma yields_act: "(\<And>d x d'. P d \<Longrightarrow> f d = (Inr x, d') \<Longrightarrow> Q x d') \<Longrightarrow> yields P (act f) Q"
  by (auto simp: yields_def act_def on_disk_def split: prod.splits)

lemma yields_and_then: "yields P m R \<Longrightarrow> (\<And>x. yields (R x) (f x) Q) \<Longrightarrow> yields P (and_then m f) Q"
  by (rule yieldsI, erule and_then_cases) (blast intro: yieldsD)+

lemma yields_on_error: "yields P m Q \<Longrightarrow> (\<And>e R. yields (\<lambda>_. True) (f e) R) \<Longrightarrow> yields P (on_error m f) Q"
  by (rule yieldsI, erule on_error_cases) (blast intro: yieldsD)+

lemma yields_never: "yields P (and_then m (\<lambda>_. raise e)) R"
  by (rule yields_and_then [where R = "\<lambda>_ _. True"]) (simp add: yields_def, rule yields_raise)

lemma yields_wrapped: "yields P m Q \<Longrightarrow> yields P (wrapped msg m) Q"
  unfolding wrapped_def by (rule yields_on_error) simp_all

lemma yields_mono: "yields P m Q \<Longrightarrow> (\<And>d. P' d \<Longrightarrow> P d) \<Longrightarrow> (\<And>x d. Q x d \<Longrightarrow> Q' x d) \<Longrightarrow> yields P' m Q'"
  by (fastforce simp: yields_def)

section \<open>Disks that work\<close>

definition works :: "disk \<Rightarrow> bool" where
  "works d \<longleftrightarrow> io_error d = (\<lambda>_. None)"

lemma io_error_writes:
  "MkdirAll p d = Inr d' \<Longrightarrow> io_error d' = io_error d" "WriteFile p x d = Inr d' \<Longrightarrow> io_error d' = io_error d"
  "RemoveAll p d = Inr d' \<Longrightarrow> io_error d' = io_error d"
  by (auto simp: MkdirAll_def WriteFile_def RemoveAll_def split: option.splits)

lemma io_error_save_json [simp]: "io_error (snd (save_json dir name bytes d)) = io_error d"
  by (auto simp: save_json_def io_error_writes split: sum.splits)

lemma io_error_saves [simp]:
  "io_error (snd (SaveWorkspaceConfig h enc w d)) = io_error d" "io_error (snd (SaveMachineConfig h menc m d)) = io_error d"
  by (simp_all add: SaveWorkspaceConfig_def SaveMachineConfig_def)

lemma io_error_folders [simp]:
  "io_error (snd (DeleteWorkspaceFolder a context i p d)) = io_error d" "io_error (snd (DeleteMachineFolder a context i d)) = io_error d"
  using RemoveFromConfig_facts(2)
  by (auto simp: DeleteWorkspaceFolder_def DeleteMachineFolder_def Let_def io_error_writes split: sum.splits)

lemma works_folders [run_rules]:
  "keeps works (save_workspace o1 w)" "keeps works (delete_folder o1 context i p)" "keeps works (remove_all q)"
  "keeps works (act (SaveMachineConfig h enc m))" "keeps works (act (DeleteMachineFolder a context i))"
  unfolding save_workspace_def delete_folder_def remove_all_def
  by (rule keeps_act; simp add: works_def io_error_writes split: sum.splits)+

lemma works_createMachine [run_rules]: "keeps works (createMachine o1 context i p)"
  unfolding createMachine_def Let_def by (intro run_rules)

lemma ResolveAndSaveOptionsMachine_saves:
  assumes "ResolveAndSaveOptionsMachine h dec enc b ws fuel c p m user d = Some (x, d')"
  shows "d' = d \<or> (\<exists>m1. d' = snd (SaveMachineConfig h enc m1 d))"
  using assms
  by (auto simp: ResolveAndSaveOptionsMachine_def Let_def split: sum.splits option.splits prod.splits if_splits) (metis snd_conv)+

lemma refresh_machine_saves:
  assumes "refresh_machine o1 mc opts s = Some (r, s')"
  shows "sy_disk s' = sy_disk s \<or> (\<exists>m1. sy_disk s' = snd (SaveMachineConfig (ap_host (ou_app o1)) (ap_machine_enc (ou_app o1)) m1 (sy_disk s)))"
  using assms unfolding refresh_machine_def machine_RefreshOptions_def
  by (auto split: sum.splits option.splits prod.splits dest!: ResolveAndSaveOptionsMachine_saves)

lemma works_refresh_machine [run_rules]: "keeps works (refresh_machine o1 mc opts)"
  unfolding keeps_def works_def by (metis io_error_saves(2) refresh_machine_saves)

lemma machine_Create_disk: "machine_Create a mc s = (r, s') \<Longrightarrow> sy_disk s' = sy_disk s"
  by (auto simp: machine_Create_def machine_run_def apfst_def map_prod_def case_prod_unfold)

lemma works_machine_Create [run_rules]: "keeps works (step_run (machine_Create a mc))"
  unfolding keeps_def step_run_def by (metis machine_Create_disk option.inject)

lemma works_createWorkspace:
  assumes "\<And>cl. keeps works (ou_pro_Create o1 cl)"
  shows "keeps works (createWorkspace o1 c i name m opts ssh src l uid)"
proof -
  have "keeps works (resolveProInstance o1 c n w)" for n w
    unfolding resolveProInstance_def by (intro run_rules) (auto split: base_client.splits intro: assms run_rules)
  moreover have "keeps works (new_machine o1 c p w os)" for p w os
    unfolding new_machine_def Let_def by (intro run_rules) (auto split: sum.splits intro!: run_rules)
  ultimately show ?thesis
    unfolding createWorkspace_def Let_def load_workspace_machine_def case_prod_unfold by (intro run_rules) assumption+
qed

section \<open>Creating a workspace\<close>

text \<open>A workspace is stored when loading its file gives it back.\<close>

definition stored :: "outside \<Rightarrow> workspace \<Rightarrow> disk \<Rightarrow> bool" where
  "stored o1 w d \<longleftrightarrow> (\<exists>f. load_workspace o1 (w_Context w) (w_ID w) d = Inr (w\<lparr>w_Origin := f\<rparr>))"

abbreviation codec_ok :: "outside \<Rightarrow> bool" where
  "codec_ok o1 \<equiv> workspace_codec (ap_workspace_enc (ou_app o1)) (ap_workspace_dec (ou_app o1))"

lemma yields_save_workspace:
  assumes "codec_ok o1"
  shows "yields P (save_workspace o1 w) (\<lambda>_. stored o1 w)"
  unfolding save_workspace_def
proof (rule yields_act)
  fix d x d' assume s: "SaveWorkspaceConfig (ap_host (ou_app o1)) (ap_workspace_enc (ou_app o1)) w d = (Inr x, d')"
  then have s': "SaveWorkspaceConfig (ap_host (ou_app o1)) (ap_workspace_enc (ou_app o1)) w d = (Inr (), d')" by simp
  then obtain b where b: "ap_workspace_enc (ou_app o1) w = Inr b" unfolding SaveWorkspaceConfig_def by (elim save_json_ok)
  with assms obtain y where y: "ap_workspace_dec (ou_app o1) b = Inr y" "y\<lparr>w_Context := w_Context w, w_Origin := w_Origin w\<rparr> = w"
    by (auto simp: workspace_codec_def)
  have "y\<lparr>w_Context := w_Context w, w_Origin := f\<rparr> = w\<lparr>w_Origin := f\<rparr>" for f
    using arg_cong [OF y(2), of "w_Origin_update (\<lambda>_. f)"] by simp
  with LoadWorkspaceConfig_saved [OF s', of "ap_workspace_dec (ou_app o1)" y] b y(1) show "stored o1 w d'"
    by (auto simp: stored_def load_workspace_def)
qed

text \<open>The file of a machine is never the one of a workspace, whatever the identifiers are.\<close>

lemma stored_SaveMachineConfig:
  assumes "stored o1 w d"
  shows "stored o1 w (snd (SaveMachineConfig h enc m d))"
proof -
  have suffix: "HasSuffix (path_Join [p, WorkspaceConfigFile]) ''workspace.json''" "HasSuffix (path_Join [p, MachineConfigFile]) ''machine.json''" for p
    using path_Join_suffix [of "''workspace.json''" p "[]"] path_Join_suffix [of "''machine.json''" p "[]"] by (simp_all add: file_names)
  have "\<not> (HasSuffix x ''machine.json'' \<and> HasSuffix x ''workspace.json'')" for x
    by (auto simp: HasSuffix_iff append_eq_append_conv2 append_eq_Cons_conv Cons_eq_append_conv)
  with suffix have ne: "path_Join [p, WorkspaceConfigFile] \<noteq> path_Join [q, MachineConfigFile]" for p q by metis
  have "ReadFile (snd (save_json dir MachineConfigFile (enc m) d)) (path_Join [p, WorkspaceConfigFile]) = ReadFile d (path_Join [p, WorkspaceConfigFile])" for p dir
  proof (cases dir)
    case (Inr q)
    then show ?thesis using save_json_frame [of q MachineConfigFile "enc m" d _ _ "path_Join [p, WorkspaceConfigFile]"] ne
      by (metis prod.collapse)
  qed (simp add: save_json_def)
  then have "load_workspace o1 (w_Context w) (w_ID w) (snd (SaveMachineConfig h enc m d)) = load_workspace o1 (w_Context w) (w_ID w) d"
    unfolding load_workspace_def LoadWorkspaceConfig_def SaveMachineConfig_def by (subst load_json_cong [of _ _ _ d]) simp_all
  with assms show ?thesis by (simp add: stored_def)
qed

lemma yields_keeps: "keeps I m \<Longrightarrow> yields I m (\<lambda>_. I)"
  by (rule yieldsI) (rule keepsD)

lemma stored_runs [run_rules]:
  "keeps (stored o1 w) (act (SaveMachineConfig h enc m))" "keeps (stored o1 w) (refresh_machine o2 mc opts)"
  "keeps (stored o1 w) (step_run (machine_Create a mc))"
proof -
  show "keeps (stored o1 w) (act (SaveMachineConfig h enc m))" by (rule keeps_act) (rule stored_SaveMachineConfig)
  show "keeps (stored o1 w) (refresh_machine o2 mc opts)"
  proof (rule keepsI)
    fix s r s' assume "stored o1 w (sy_disk s)" "refresh_machine o2 mc opts s = Some (r, s')"
    from refresh_machine_saves [OF this(2)] this(1) stored_SaveMachineConfig show "stored o1 w (sy_disk s')" by metis
  qed
  show "keeps (stored o1 w) (step_run (machine_Create a mc))"
    by (rule keepsI) (auto simp: step_run_def dest!: machine_Create_disk)
qed

lemma yields_new_machine: "yields (stored o1 w) (new_machine o1 c p v opts) (\<lambda>_. stored o1 w)"
proof -
  have make: "yields (stored o1 w) (createMachine o1 x y z) (\<lambda>_. stored o1 w)" for x y z
    unfolding createMachine_def Let_def
    by (rule yields_and_then, rule yields_look, assumption, rule yields_and_then, rule yields_on_error, rule yields_keeps, rule run_rules,
        rule yields_never, rule yields_return)
  show ?thesis
    unfolding new_machine_def Let_def
    by (rule yields_and_then [OF make], simp split: sum.split add: yields_never)
      (auto intro!: yields_on_error yields_never yields_and_then [OF yields_keeps] run_rules yields_return)
qed

lemma enc_SafeConcatNameMax_not_Nil: "limit > 6 \<Longrightarrow> Join xs ''-'' \<noteq> [] \<Longrightarrow> enc_SafeConcatNameMax f xs limit \<noteq> []"
  by (auto simp: enc_SafeConcatNameMax_def Let_def)

lemma with_machine_facts:
  "w_Context (with_machine o1 c po w d) = w_Context w" "w_ID (with_machine o1 c po w d) = w_ID w"
  "wm_ID (w_Machine (with_machine o1 c po w d)) \<noteq> []"
  by (simp_all add: with_machine_def SingleMachineName_def CreateNewUIDShort_def Let_def enc_SafeConcatNameMax_not_Nil
      WorkspaceUIDLength_def MachineUIDLength_def)

lemma resolveWorkspaceConfig_facts:
  "w_Context (resolveWorkspaceConfig o1 po c name i source l ssh uid) = DefaultContext c"
  "w_ID (resolveWorkspaceConfig o1 po c name i source l ssh uid) = i"
  "wm_ID (w_Machine (resolveWorkspaceConfig o1 po c name i source l ssh uid)) = []"
  by (simp_all add: resolveWorkspaceConfig_def Let_def zero_workspace_def split: option.splits)

text \<open>A created workspace can be loaded and has a client.\<close>

definition made :: "outside \<Rightarrow> config \<Rightarrow> string \<Rightarrow> loaded \<Rightarrow> disk \<Rightarrow> bool" where
  "made o1 c i x d \<longleftrightarrow> (case x of (p, w, m) \<Rightarrow>
     (\<exists>f. load_workspace o1 (DefaultContext c) i d = Inr (w\<lparr>w_Origin := f\<rparr>)) \<and> (\<exists>cl. getWorkspaceClient c p w m = Inr cl))"

lemma client_exists:
  "IsProxyProvider p \<or> IsDaemonProvider p \<or> (IsMachineProvider p \<longrightarrow> wm_ID (w_Machine w) \<noteq> []) \<and> (wm_ID (w_Machine w) \<noteq> [] \<longrightarrow> m \<noteq> None) \<Longrightarrow>
    \<exists>cl. getWorkspaceClient c p w m = Inr cl"
  by (auto simp: getWorkspaceClient_def NewWorkspaceClient_def)

lemma madeI:
  assumes "stored o1 w d" "w_Context w = DefaultContext c" "w_ID w = i"
    and "IsProxyProvider p \<or> IsDaemonProvider p \<or> (IsMachineProvider p \<longrightarrow> wm_ID (w_Machine w) \<noteq> []) \<and> (wm_ID (w_Machine w) \<noteq> [] \<longrightarrow> m \<noteq> None)"
  shows "made o1 c i (p, w, m) d"
  using assms(1-3) client_exists [OF assms(4)] by (simp add: made_def stored_def)

lemma yields_machine_branch:
  assumes "codec_ok o1" "w_Context w = DefaultContext c" "w_ID w = i"
  shows "yields P
    (and_then (look (\<lambda>d. Inr (with_machine o1 c po w d))) (\<lambda>w1.
     and_then (wrapped msg (save_workspace o1 w1)) (\<lambda>_.
     and_then (look (\<lambda>d. Inr (ex w1 d))) (\<lambda>ex.
     and_then (if ex then load_workspace_machine o1 w1 else new_machine o1 c p w1 opts) (\<lambda>m. return (p, w1, Some m)))))) (made o1 c i)"
proof (rule yields_and_then [where R = "\<lambda>w1 d. w_Context w1 = DefaultContext c \<and> w_ID w1 = i \<and> wm_ID (w_Machine w1) \<noteq> []"], rule yields_look)
  fix w1
  show "yields (\<lambda>d. w_Context w1 = DefaultContext c \<and> w_ID w1 = i \<and> wm_ID (w_Machine w1) \<noteq> [])
    (and_then (wrapped msg (save_workspace o1 w1)) (\<lambda>_.
     and_then (look (\<lambda>d. Inr (ex w1 d))) (\<lambda>ex.
     and_then (if ex then load_workspace_machine o1 w1 else new_machine o1 c p w1 opts) (\<lambda>m. return (p, w1, Some m))))) (made o1 c i)"
  proof (cases "w_Context w1 = DefaultContext c \<and> w_ID w1 = i \<and> wm_ID (w_Machine w1) \<noteq> []")
    case True
    have m: "yields (stored o1 w1) (if b then load_workspace_machine o1 w1 else new_machine o1 c p w1 opts) (\<lambda>_. stored o1 w1)" for b
      unfolding load_workspace_machine_def by (simp add: yields_new_machine yields_wrapped yields_look)
    show ?thesis
      by (rule yields_and_then [OF yields_wrapped [OF yields_save_workspace [OF assms(1)]]], rule yields_and_then [OF yields_look],
          assumption, rule yields_and_then [OF m], rule yields_return, rule madeI) (use True in simp_all)
  qed (auto simp: yields_def)
qed (use assms with_machine_facts in auto)

lemma yields_createWorkspace:
  assumes "codec_ok o1"
  shows "yields P (createWorkspace o1 c i name dm opts ssh source l uid) (made o1 c i)"
proof -
  have pro: "yields P (and_then (wrapped msg (save_workspace o1 w)) (\<lambda>_. and_then (resolveProInstance o1 c n w) (\<lambda>_.
      and_then (look (load_workspace o1 (w_Context w) (w_ID w))) (\<lambda>w1. return (p, w1, None))))) (made o1 c i)"
    if "IsProxyProvider p \<or> IsDaemonProvider p" "w_Context w = DefaultContext c" "w_ID w = i" for P w n msg p
  proof -
    have "made o1 c i (p, w1, None) d" if "load_workspace o1 (w_Context w) (w_ID w) d = Inr w1" for w1 d
      using that client_exists [of p w1 None c] \<open>IsProxyProvider p \<or> IsDaemonProvider p\<close> \<open>w_Context w = DefaultContext c\<close> \<open>w_ID w = i\<close>
      unfolding made_def by (auto intro: exI [of _ "w_Origin w1"])
    then have "yields Q (and_then (look (load_workspace o1 (w_Context w) (w_ID w))) (\<lambda>w1. return (p, w1, None))) (made o1 c i)" for Q
      by (intro yields_and_then [where R = "\<lambda>w1 d. load_workspace o1 (w_Context w) (w_ID w) d = Inr w1"] yields_look yields_return)
    then show ?thesis by (rule yields_and_then [OF yields_any, OF yields_and_then [OF yields_any]])
  qed
  have plain: "yields P (and_then (wrapped msg (save_workspace o1 w)) (\<lambda>_.
      and_then (if IsMachineProvider p then and_then (load_workspace_machine o1 w) (\<lambda>m. return (Some m)) else return None) (\<lambda>m.
        return (p, w, m)))) (made o1 c i)"
    if "IsMachineProvider p \<longleftrightarrow> wm_ID (w_Machine w) \<noteq> []" "w_Context w = DefaultContext c" "w_ID w = i" for P w msg p
  proof -
    have m: "yields (stored o1 w) (if IsMachineProvider p then and_then (load_workspace_machine o1 w) (\<lambda>m. return (Some m)) else return None)
        (\<lambda>m d. stored o1 w d \<and> (IsMachineProvider p \<longrightarrow> m \<noteq> None))"
      unfolding load_workspace_machine_def
      by (auto intro!: yields_return yields_and_then [OF yields_wrapped [OF yields_look [where Q = "\<lambda>_. stored o1 w"]]])
    show ?thesis
      by (rule yields_and_then [OF yields_wrapped [OF yields_save_workspace [OF assms]]], rule yields_and_then [OF m], rule yields_return, rule madeI)
        (use that in auto)
  qed
  show ?thesis
    unfolding createWorkspace_def Let_def case_prod_unfold
    by (rule yields_and_then [OF yields_any], intro yields_if [OF yields_raise], rule yields_and_then [OF yields_any],
        intro yields_if yields_machine_branch [OF assms] pro plain)
      (auto simp: resolveWorkspaceConfig_facts)
qed

lemma works_clean_local: "keeps works (clean_local o1 c results ls ws cleaned)"
  by (induction ws arbitrary: cleaned) (auto intro!: run_rules)

lemma works_Exists_workspace: "keeps works (Exists_workspace o1 c args i)"
proof -
  have l: "keeps works (workspace_List o1 c b)" for b
    unfolding workspace_List_def by (intro run_rules works_clean_local)
  have "keeps works (findWorkspace o1 c args i)"
    unfolding findWorkspace_def by (intro run_rules l) (auto split: option.split intro!: run_rules)
  then show ?thesis unfolding Exists_workspace_def by (intro run_rules)
qed

lemma delete_folder_gone:
  assumes "works (sy_disk s)" "GetWorkspaceDir (ap_host (ou_app o1)) context i = Inr W"
    and "ResolveSSHConfigPath (ap_home (ou_app o1)) (tb_cwd (ap_tools (ou_app o1))) p = Inr q"
  shows "\<exists>s'. and_then (ignoring (delete_folder o1 context i p)) (\<lambda>_. raise e) s = Some (Inl e, s') \<and> \<not> path_exists (sy_disk s') W"
proof -
  let ?r = "DeleteWorkspaceFolder (ou_app o1) context i p (sy_disk s)"
  have "fst ?r = Inr ()" by (rule DeleteWorkspaceFolder_ok [OF _ assms(2,3)]) (use assms(1) in \<open>simp add: works_def\<close>)
  then have r: "?r = (Inr (), snd ?r)" by (simp add: prod_eq_iff)
  from DeleteWorkspaceFolder_facts [OF r] assms(2) have "\<not> path_exists (snd ?r) W" by auto
  then show ?thesis
    by (subst and_then_def, subst ignoring_def, subst on_error_def, subst delete_folder_def, subst act_def, subst on_disk_def)
      (subst r, simp add: raise_def)
qed


text \<open>A sample: a new workspace for a folder, with the provider of the clients' sample.\<close>

definition sample_created :: workspace where
  "sample_created = zero_workspace\<lparr>w_ID := ''new'', w_UID := ''u'', w_Context := ''c'', w_Provider := \<lparr>wpc_Name = ''p'', wpc_Options = []\<rparr>,
     w_Source := zero_source\<lparr>ws_LocalFolder := ''/home/me/new''\<rparr>\<rparr>"

definition sample_outside :: outside where
  "sample_outside = \<lparr>ou_app = sample_app\<lparr>ap_workspace_enc := (\<lambda>w. if w = sample_created then Inr ''created'' else Inl (Err [])),
       ap_workspace_dec := (\<lambda>b. if b = ''created'' then Inr sample_created else Inl (Err []))\<rparr>,
     ou_uuid = (\<lambda>_. []), ou_sha256_hex = (\<lambda>_. []), ou_machineid = Inr ''m'', ou_hmac_hex = (\<lambda>_ _. ''abcdef''),
     ou_parse = (\<lambda>b. Inr sample_provider), ou_provider_enc = (\<lambda>_. Inr ''provider''), ou_config_path = Inr ''/r/config.yaml'',
     ou_config_enc = (\<lambda>_. Inr ''config''), ou_ping = (\<lambda>_. False), ou_project_image = (\<lambda>_. []), ou_image = (\<lambda>_. Inl (Err [])),
     ou_instances = (\<lambda>_ _ _. Inr []), ou_instance_exists = (\<lambda>_. False), ou_pro_Create = (\<lambda>_. raise (Err [])),
     ou_pro_Status = (\<lambda>_. raise (Err [])), ou_pro_Delete = (\<lambda>_ _. raise (Err [])), ou_lock = (\<lambda>_. None), ou_terminal = False,
     ou_select = (\<lambda>_. Inr None), ou_question = (\<lambda>_. Inl (Err []))\<rparr>"

definition sample_manager :: config where
  "sample_manager = \<lparr>DefaultContext = ''c'', Contexts = Some [(''c'', empty_context_config\<lparr>DefaultProvider := ''p'',
     Providers := Some [(''p'', empty_provider_config\<lparr>Initialized := True\<rparr>)]\<rparr>)], Origin = [], OriginalContext = []\<rparr>"

definition sample_home :: sys where
  "sample_home = \<lparr>sy_disk = \<lparr>files = [(''/r/contexts/c/providers/p/provider.json'', ''provider''), (''/home/me/new/main.go'', [])], dirs = [],
     io_error = (\<lambda>_. None)\<rparr>, sy_requests = [], sy_commands = []\<rparr>"

abbreviation sample_resolve :: "(loaded result \<times> sys) option" where
  "sample_resolve \<equiv> resolveWorkspace sample_outside sample_manager [''/home/me/new''] ''new'' [] [] [] None ''u'' False sample_home"


section \<open>Listing and deleting\<close>

lemma map_of_fold_local: "map_of (fold add_local ws m) u = (case find (\<lambda>w. w_UID w = u) (rev ws) of Some w \<Rightarrow> Some w | None \<Rightarrow> map_of m u)"
proof (induction ws rule: rev_induct)
  case (snoc w ws)
  then show ?case by (simp add: add_local_def update_conv')
qed simp

lemma map_of_fold_pro: "list_all (\<lambda>w. w_UID w \<noteq> u) ws \<Longrightarrow> map_of (fold add_pro ws m) u = map_of m u"
  by (induction ws arbitrary: m) (auto simp: add_pro_def update_conv')

text \<open>A local workspace with its own UID is listed.\<close>

lemma find_unique: "x \<in> set ws \<Longrightarrow> (\<And>y. y \<in> set ws \<Longrightarrow> w_UID y = w_UID x \<Longrightarrow> y = x) \<Longrightarrow> find (\<lambda>w. w_UID w = w_UID x) ws = Some x"
proof (induction ws)
  case (Cons a ws)
  then show ?case by (cases "w_UID a = w_UID x") auto
qed simp

lemma merge_workspaces_local:
  assumes "x \<in> set ls" "\<And>y. y \<in> set ls \<Longrightarrow> w_UID y = w_UID x \<Longrightarrow> y = x" "list_all (\<lambda>y. w_UID y \<noteq> w_UID x) ps" "\<And>ks. set (ord ks) = set ks"
  shows "x \<in> set (merge_workspaces ord ls ps)"
proof -
  let ?m = "fold add_pro ps (fold add_local ls [])"
  have "map_of ?m (w_UID x) = Some x"
    using find_unique [of x "rev ls"] assms(1,2) by (simp add: map_of_fold_pro [OF assms(3)] map_of_fold_local)
  then have "w_UID x \<in> set (keys ?m)" "the (map_of ?m (w_UID x)) = x" using in_keys_iff [of "w_UID x" ?m] by simp_all
  then show ?thesis unfolding merge_workspaces_def Let_def by (force simp: assms(4))
qed

text \<open>The cleaned list has all the local workspaces as soon as one of them stays.\<close>

lemma clean_local_result:
  assumes "clean_local o1 c results ls ws cleaned s = Some (r, s')"
  shows "\<exists>out. r = Inr out \<and> set cleaned \<subseteq> set out \<and>
      ((\<exists>w \<in> set ws. \<not> (IsPro w \<and> shouldDeleteLocalWorkspace o1 w results)) \<longrightarrow> set ls \<subseteq> set out) \<and> set out \<subseteq> set cleaned \<union> set ls
    \<or> (\<exists>e. r = Inl (Panic e))"
  using assms
proof (induction ws arbitrary: cleaned s)
  case (Cons w ws)
  show ?case
  proof (cases "IsPro w \<and> shouldDeleteLocalWorkspace o1 w results")
    case True
    with Cons.prems have "and_then (ignoring (delete_folder o1 (DefaultContext c) (w_ID w) [])) (\<lambda>_. clean_local o1 c results ls ws cleaned) s = Some (r, s')"
      by simp
    then show ?thesis
    proof (cases rule: and_then_cases)
      case (1 e)
      then show ?thesis by (cases e) (auto simp: ignoring_def on_error_def return_def split: option.splits sum.splits gerr.splits)
    next
      case (2 x s1)
      from Cons.IH [OF 2(2)] True show ?thesis by auto
    qed
  next
    case False
    with Cons.prems have "clean_local o1 c results ls ws (cleaned @ ls) s = Some (r, s')" by auto
    from Cons.IH [OF this] False show ?thesis by auto
  qed
qed (auto simp: return_def)

text \<open>The list has every local workspace as soon as one of them is not of the platform, also those whose folder it has just deleted.\<close>

lemma workspace_List_local:
  assumes run: "workspace_List o1 c False s = Some (Inr out, s')" and ls: "ListLocalWorkspaces o1 (DefaultContext c) False (sy_disk s) = Inr ls"
    and x: "x \<in> set ls" "\<And>y. y \<in> set ls \<Longrightarrow> w_UID y = w_UID x \<Longrightarrow> y = x" and z: "z \<in> set ls" "\<not> IsPro z"
    and pro: "\<And>results k ps y. listProWorkspaces o1 c (sy_disk s) = Inr results \<Longrightarrow> map_of results k = Some (Inr ps) \<Longrightarrow> y \<in> set ps \<Longrightarrow> w_UID y \<noteq> w_UID x"
    and ord: "\<And>ks. set (ap_ord (ou_app o1) ks) = set ks"
  shows "x \<in> set out"
proof -
  obtain results cleaned where results: "listProWorkspaces o1 c (sy_disk s) = Inr results"
    and clean: "clean_local o1 c results ls ls [] s = Some (Inr cleaned, s')"
    and out: "out = merge_workspaces (ap_ord (ou_app o1)) cleaned
      (concat (map (\<lambda>k. case the (map_of results k) of Inl _ \<Rightarrow> [] | Inr ws \<Rightarrow> ws) (ap_ord (ou_app o1) (keys results))))"
    using run ls unfolding workspace_List_def
    by (auto elim!: and_then_cases simp: look_def return_def)
  from clean_local_result [OF clean] z have "set ls = set cleaned" by auto
  moreover have "list_all (\<lambda>y. w_UID y \<noteq> w_UID x) (concat (map (\<lambda>k. case the (map_of results k) of Inl _ \<Rightarrow> [] | Inr ws \<Rightarrow> ws) (ap_ord (ou_app o1) (keys results))))"
  proof -
    have "w_UID y \<noteq> w_UID x" if k: "k \<in> set (keys results)" and y: "y \<in> set (case the (map_of results k) of Inl _ \<Rightarrow> [] | Inr ws \<Rightarrow> ws)" for k y
    proof -
      obtain v where "map_of results k = Some v" using k in_keys_iff [of k results] by auto
      with y pro [OF results] show ?thesis by (cases v) auto
    qed
    then show ?thesis by (auto simp: list_all_iff ord)
  qed
  ultimately show ?thesis unfolding out using x by (intro merge_workspaces_local ord) auto
qed

text \<open>C38: A machine that workspaces share is only deleted with the last of them: when \<open>deleteSingleMachine\<close> deletes the machine of a
  workspace, no other workspace of the context is on that machine.  The other workspace may not share its UID with one of the listed
  workspaces, by which the list drops duplicates, and not be one of the platform, which has no machine of its own.\<close>

theorem deleteSingleMachine_last:
  assumes run: "deleteSingleMachine o1 cl c opt s = Some (Inr True, s')"
    and ls: "ListLocalWorkspaces o1 (DefaultContext c) False (sy_disk s) = Inr ls"
    and x: "x \<in> set ls" "\<not> IsPro x" "\<And>y. y \<in> set ls \<Longrightarrow> w_UID y = w_UID x \<Longrightarrow> y = x"
    and pro: "\<And>results k ps y. listProWorkspaces o1 c (sy_disk s) = Inr results \<Longrightarrow> map_of results k = Some (Inr ps) \<Longrightarrow> y \<in> set ps \<Longrightarrow> w_UID y \<noteq> w_UID x"
    and ord: "\<And>ks. set (ap_ord (ou_app o1) ks) = set ks"
    and other: "w_ID x \<noteq> w_ID (snd (snd (client_parts cl)))"
  shows "wm_ID (w_Machine x) \<noteq> wm_ID (w_Machine (snd (snd (client_parts cl))))"
proof -
  obtain d p w where cl: "client_parts cl = (d, p, w)" by (cases "client_parts cl")
  let ?n = "SingleMachineName o1 c (pr_Name p) (sy_disk s)"
  from run obtain out s1 where n: "wm_ID (w_Machine w) = ?n" and l: "workspace_List o1 c False s = Some (Inr out, s1)"
    and no: "\<not> list_ex (\<lambda>x. w_ID x \<noteq> w_ID w \<and> wm_ID (w_Machine x) = ?n) out"
    unfolding deleteSingleMachine_def cl
    by (auto elim!: and_then_cases on_error_cases simp: look_def return_def raise_def wrapped_def split: option.splits if_splits)
  have "x \<in> set out" by (rule workspace_List_local [OF l ls x(1,3,1,2) pro ord])
  with no other n show ?thesis by (auto simp: cl list_ex_iff)
qed

text \<open>A sample: two workspaces of one provider, one of them on the shared machine.\<close>

definition sample_shared :: string where
  "sample_shared = ''devpod-shared-p-abcde''"

definition sample_shared_provider :: provider where
  "sample_shared_provider = sample_provider\<lparr>pr_Exec := (pr_Exec sample_provider)\<lparr>ex_Create := [''create''], ex_Delete := [''delete'']\<rparr>\<rparr>"

definition sample_on :: "string \<Rightarrow> string \<Rightarrow> workspace" where
  "sample_on i m = zero_workspace\<lparr>w_ID := i, w_UID := i, w_Provider := \<lparr>wpc_Name = ''p'', wpc_Options = []\<rparr>,
     w_Machine := \<lparr>wm_ID = m, wm_AutoDelete = False\<rparr>\<rparr>"

definition sample_sharing :: outside where
  "sample_sharing = sample_outside\<lparr>ou_app := sample_app\<lparr>
       ap_workspace_dec := (\<lambda>b. Inr (if b = ''one'' then sample_on ''one'' sample_shared else sample_on ''two'' ''own'')),
       ap_machine_dec := (\<lambda>b. Inr (zero_machine\<lparr>m_ID := sample_shared, m_Provider := \<lparr>mp_Name = ''p'', mp_Options = []\<rparr>\<rparr>))\<rparr>,
     ou_parse := (\<lambda>b. Inr sample_shared_provider)\<rparr>"

definition sample_sharing_config :: config where
  "sample_sharing_config = \<lparr>DefaultContext = ''c'', Contexts = Some [(''c'', empty_context_config\<lparr>DefaultProvider := ''p'',
     Providers := Some [(''p'', empty_provider_config\<lparr>Initialized := True, SingleMachine := True\<rparr>)]\<rparr>)], Origin = [], OriginalContext = []\<rparr>"

definition sample_sharing_sys :: sys where
  "sample_sharing_sys = \<lparr>sy_disk = \<lparr>files = [(''/r/contexts/c/providers/p/provider.json'', ''provider''),
     (''/r/contexts/c/workspaces/one/workspace.json'', ''one''), (''/r/contexts/c/workspaces/two/workspace.json'', ''two''),
     (''/r/contexts/c/machines/devpod-shared-p-abcde/machine.json'', ''machine'')], dirs = [],
     io_error = (\<lambda>p. if p = ''/home/me/.ssh/config'' then Some (Err ''denied'') else None)\<rparr>, sy_requests = [], sy_commands = []\<rparr>"

definition sample_sharing_client :: base_client where
  "sample_sharing_client = WorkspaceClient \<lparr>wc_config = sample_sharing_config, wc_provider = sample_shared_provider,
     wc_workspace = (sample_on ''one'' sample_shared)\<lparr>w_Context := ''c''\<rparr>, wc_machine = None\<rparr>"

definition sample_delete_run :: "(bool result \<times> sys) option" where
  "sample_delete_run = deleteSingleMachine sample_sharing sample_sharing_client sample_sharing_config sample_delete_options sample_sharing_sys"

lemma sample_delete_True: "map_option fst sample_delete_run = Some (Inr True)"
  by code_simp

lemma sample_sharing_list:
  "ListLocalWorkspaces sample_sharing (DefaultContext sample_sharing_config) False (sy_disk sample_sharing_sys) =
    Inr [(sample_on ''one'' sample_shared)\<lparr>w_Context := ''c'', w_Origin := ''/r/contexts/c/workspaces/one/workspace.json''\<rparr>,
      (sample_on ''two'' ''own'')\<lparr>w_Context := ''c'', w_Origin := ''/r/contexts/c/workspaces/two/workspace.json''\<rparr>]"
  by code_simp

theorem deleteSingleMachine_last_witness:
  "\<exists>s'. sample_delete_run = Some (Inr True, s') \<and> wm_ID (w_Machine (sample_on ''two'' ''own'')) \<noteq> sample_shared"
proof -
  from sample_delete_True obtain s' where run: "sample_delete_run = Some (Inr True, s')" by auto
  let ?x = "(sample_on ''two'' ''own'')\<lparr>w_Context := ''c'', w_Origin := ''/r/contexts/c/workspaces/two/workspace.json''\<rparr>"
  have pro: "listProWorkspaces sample_sharing sample_sharing_config (sy_disk sample_sharing_sys) = Inr []" by code_simp
  have parts: "w_ID (snd (snd (client_parts sample_sharing_client))) = ''one''"
    "wm_ID (w_Machine (snd (snd (client_parts sample_sharing_client)))) = sample_shared" by code_simp+
  have ord: "ap_ord (ou_app sample_sharing) = (\<lambda>ks. ks)" by (simp add: sample_sharing_def sample_app_def)
  have "wm_ID (w_Machine ?x) \<noteq> wm_ID (w_Machine (snd (snd (client_parts sample_sharing_client))))"
  proof (rule deleteSingleMachine_last [OF run [unfolded sample_delete_run_def] sample_sharing_list])
    show "\<not> IsPro ?x" by code_simp
  qed (auto simp: pro parts ord sample_on_def)
  then have "wm_ID (w_Machine (sample_on ''two'' ''own'')) \<noteq> sample_shared" by (simp add: parts)
  with run show ?thesis by (intro exI conjI)
qed

end
