(* ===== verification/Spec2Isabelle.thy ===== *)
theory Spec2Isabelle
  imports Graph_Properties Config_Properties Resolver_Properties Provider_Properties Devcontainer_Properties
    Workspace_Properties Dockerfile_Parse Feature_Properties Ssh_Properties Git_Credentials Archive_Roundtrip Binaries_Properties
    Management_Properties
begin

text \<open>
  DevPod (sources under \<^verbatim>\<open>src/\<close>) turns a \<^verbatim>\<open>devcontainer.json\<close> into a development environment.  A \<open>provider\<close> says in YAML which shell
  commands create, start, stop and delete machines and run commands on them; its options are resolved from defaults, from the user
  and from commands.  A \<open>workspace\<close> is a git repository, a folder or an image on a machine or in a container, and has a file in the
  configuration folder.  The command line loads the configuration, finds or creates the workspace and its machine
  (\<^verbatim>\<open>pkg/workspace\<close>), makes a client for it (\<^verbatim>\<open>pkg/client\<close>), which runs the commands of the provider with the environment its options give,
  and an agent on the other side builds the container from the merged and substituted configuration, the Dockerfile and the
  features.  This library models these parts below the command line, from the Go standard library up to the creation and deletion of
  workspaces.

  \<^bold>\<open>Conventions.\<close>  Go maps are association lists with one entry per key, and a range over a map visits the keys in an order that
  is an argument, so that theorems hold for every order.  A Go error is \<open>Inl (Err message)\<close> and a panic \<open>Inl (Panic message)\<close>; messages are
  those of the sources.  Code outside of the repository (codecs, hashes, shells, the network, the clock, the terminal, platform
  clients) is an argument of the definitions, and what a theorem needs of it is one of its hypotheses.  The file system (\<open>disk\<close>) has files
  and directories by clean path, and every operation may fail for a reason outside of the model.  The names of definitions are those of the
  sources; a definition in lower case with underscores is a loop or a block of the function it stands beside.

  \<^bold>\<open>Foundations.\<close>
  \<^item> \<open>Prelude\<close>: maps, results, strings, and the package \<^verbatim>\<open>strings\<close>.  \<open>Go_Strconv\<close>, \<open>Go_Path\<close>, \<open>Go_Regexp\<close> (leftmost-first matching) with
    \<open>Go_Regexp_Lang\<close> (the matcher decides the language of an expression), \<open>Go_Json\<close> (\<^verbatim>\<open>pkg/types/types.go\<close>), and \<open>Disk\<close> (package \<^verbatim>\<open>os\<close>).
  \<^item> \<open>Leaf_Order\<close> and \<open>Keyed_Store\<close>: the interfaces \<open>leaf_source\<close> (a graph that is emptied leaf by leaf) and \<open>keyed_store\<close> (a file that keeps
    one entry per key), with what follows from their laws for whole runs.  The graph, the SSH configuration and the
    workspace files are interpretations of them.

  \<^bold>\<open>Graph, configuration and options.\<close>
  \<^item> \<open>Dep_Graph\<close>, \<open>Graph_Shrink\<close>, \<open>Graph_Properties\<close>: \<^verbatim>\<open>pkg/devcontainer/graph\<close>.  Adding an edge keeps the graph acyclic and fails exactly for a
    cycle; the walk from the top yields parents first and always ends; removing a subgraph removes what is below, and fails for three
    leaves.
  \<^item> \<open>Dev_Config\<close>, \<open>Config_Properties\<close>: \<^verbatim>\<open>pkg/config/config.go\<close> and \<^verbatim>\<open>context.go\<close>.  What the overrides of the command line do to the loaded
    configuration, and what of them is saved.
  \<^item> \<open>Option_Vars\<close>, \<open>Resolver\<close>, \<open>Resolver_Graph\<close>, \<open>Resolver_Loop\<close>, \<open>Resolver_Properties\<close>: \<^verbatim>\<open>pkg/options/resolver\<close>.  The run of the resolver ends; the
    values of the user, required options, defaults and stored values come out as they should.
  \<^item> \<open>Provider\<close>, \<open>Provider_Properties\<close>: \<^verbatim>\<open>pkg/provider/provider.go\<close> and \<^verbatim>\<open>parse.go\<close>.  The checks accept exactly the valid providers, and accepted options
    suit the resolver.
  \<^item> \<open>Options_Resolve\<close>: \<^verbatim>\<open>pkg/options/resolve.go\<close>, the options of workspaces, machines and providers.

  \<^bold>\<open>Development containers.\<close>
  \<^item> \<open>Devcontainer\<close>, \<open>Devcontainer_Merge\<close>, \<open>Substitute\<close>, \<open>Devcontainer_Properties\<close>: \<^verbatim>\<open>pkg/devcontainer/config\<close> and \<^verbatim>\<open>pkg/devcontainer/metadata\<close>.
    Which entry decides a setting of the merged configuration, the text of mounts, and variables as templates.
  \<^item> \<open>Dockerfile\<close>, \<open>Dockerfile_Properties\<close>, \<open>Dockerfile_Parse\<close>: \<^verbatim>\<open>pkg/dockerfile\<close>.  When the replacement of variables ends, what the base image is,
    and what the parser builds.
  \<^item> \<open>Features\<close>, \<open>Feature_Properties\<close>: \<^verbatim>\<open>pkg/devcontainer/feature\<close>.  The order of installation and the quoting of the install script.

  \<^bold>\<open>Workspaces, files and clients.\<close>
  \<^item> \<open>Workspace_Types\<close>, \<open>Git\<close>, \<open>Ids\<close>, \<open>Workspace_Store\<close>, \<open>Workspace_Properties\<close>: \<^verbatim>\<open>pkg/provider\<close> (\<^verbatim>\<open>workspace.go\<close>, \<^verbatim>\<open>machine.go\<close>, \<^verbatim>\<open>pro.go\<close>, \<^verbatim>\<open>env.go\<close>,
    \<^verbatim>\<open>dir.go\<close>), \<^verbatim>\<open>pkg/git\<close> and \<^verbatim>\<open>pkg/workspace/id.go\<close>.  Texts of sources, identifiers, and options that are effective after they were saved.
  \<^item> \<open>Ssh_Config\<close>, \<open>Ssh_Properties\<close>: \<^verbatim>\<open>pkg/ssh/config.go\<close>.  The text of the file refines a document with one section per workspace.
  \<^item> \<open>Git_Credentials\<close>: \<^verbatim>\<open>pkg/gitcredentials\<close>.  \<open>Archive\<close>, \<open>Archive_Properties\<close>, \<open>Archive_Roundtrip\<close>: \<^verbatim>\<open>pkg/extract\<close>; extracting is confined to
    its folder and inverts archiving.
  \<^item> \<open>Binaries\<close>, \<open>Binaries_Properties\<close>: \<^verbatim>\<open>pkg/download\<close> and \<^verbatim>\<open>pkg/binaries\<close>.  A binary with a checksum is only used when its file has it.
  \<^item> \<open>Client\<close>, \<open>Client_Properties\<close>: \<^verbatim>\<open>pkg/client\<close>.  What deleting a workspace removes and leaves alone, what the agent is not told, and the
    workspace files as a store.  The commands and requests so far are part of the state, and answers may depend on them.
  \<^item> \<open>Locks\<close>, \<open>Locks_Properties\<close>: the lock protocol of the clients as a step relation on any number of processes, with errors, timeouts
    and exits.  No two processes hold a lock together, and none wait for each other in a circle; the latter rests on the locale
    \<open>ranked_locks\<close>, whose law the clients' order of locks satisfies.
  \<^item> \<open>Management\<close>, \<open>Management_Properties\<close>: \<^verbatim>\<open>pkg/workspace\<close> and \<^verbatim>\<open>pkg/encoding\<close>.  Operations are runs on the file system, requests and
    commands.  Creating a workspace is all or nothing, and a shared machine goes with its last workspace.

  \<^bold>\<open>Bounds.\<close>  \<open>None\<close> is a computation that is out of fuel.  The search in a graph gets two more than its number of nodes and the walk to a leaf
  one more; both are shown to be enough.  The resolver returns with as much fuel as there are options when no sub options are
  fetched; with sub options the shell may extend the options for ever, and theorems speak of the runs that return.  The replacement of
  variables in a Dockerfile returns within a depth linear in its stages and lines when every stage is built on an earlier one, and a
  Dockerfile is given where it never returns; the archiver returns with as much fuel as its longest path has characters.  Retries of locks are steps of
  the relation, without a bound.  The limits on lines of the scanners and the 64-bit ranges of parsed numbers are those of Go.

  \<^bold>\<open>Not modelled.\<close>  The command line (\<^verbatim>\<open>cmd\<close>), which parses flags and prints; the agent, the tunnel and its gRPC services, the daemons and the
  SSH server, which are concurrent streams; the platform (\<^verbatim>\<open>pkg/platform\<close>), whose answers are arguments; the drivers, editors and the
  life cycle of containers, whose effect is that of the programs they call; telemetry, upgrades and the desktop application.  Within modelled
  packages: modes, owners, times and links of files, the mutex inside of a client, the log, the normalisation of feature references, the
  search for \<^verbatim>\<open>devcontainer.json\<close>, the download of provider definitions, and \<open>Resolve\<close> of \<^verbatim>\<open>pkg/workspace/workspace.go\<close>, which refreshes the editor
  of a workspace.
\<close>

end
